(* ===== verification/Prelude.thy ===== *)
theory Prelude
  imports Main "HOL-Library.Char_ord" "HOL-Library.List_Lexorder" "HOL-Library.Code_Target_Nat"
begin

text \<open>
  The base of the development: the type of Go errors (the sentinels of
  \<^verbatim>\<open>src/internal/storage/errors.go\<close> and the wrapping done by \<open>fmt.Errorf\<close>),
  the state-and-error monad in which every fallible, state-changing Go function is written,
  the collections of inversion rules that carry the component proofs, and the locale
  \<open>frame\<close>: a reflexive and transitive relation between the states before and after a
  program, which lifts through the combinators of the monad.
\<close>

named_theorems io_ok \<open>when a program returns a value: inversion rules, used as rewrite rules\<close>
named_theorems frame_intro \<open>programs that stay inside a frame relation\<close>
named_theorems store_defs \<open>the SQL statements of the store, as functions on tables\<close>

type_synonym bytes = string
type_synonym time = int \<comment> \<open>microseconds since the epoch, UTC, the resolution of the database\<close>

text \<open>
  SQLSTATE classes the code looks at (\<open>isUniqueViolation\<close>: 23505, \<open>isDeadlock\<close>: 40P01)
  or that the modelled statements can raise; \<open>OtherState\<close> is every other failure of a
  statement, a lost connection or a cancelled context included.
\<close>

datatype sqlstate =
    UniqueViolation
  | DeadlockDetected
  | ForeignKeyViolation
  | InvalidParameterValue
  | InFailedTransaction
  | OtherState string

text \<open>The gRPC status codes the API answers with.\<close>

datatype code =
    InvalidArgument
  | NotFound
  | AlreadyExists
  | PermissionDenied
  | ResourceExhausted
  | FailedPrecondition
  | Aborted
  | Unimplemented
  | Internal
  | Unauthenticated

text \<open>
  The sentinels are those of the storage and the authentication packages and of the libraries
  the code compares with. A status of the API carries, in place of its message, the error whose
  text the message is; \<open>errors.Is\<close> does not look through it.
\<close>

datatype error =
    ErrNotFound
  | ErrAlreadyExists
  | ErrInsufficientFunds
  | ErrInvalidIdempotencyInput
  | ErrIdempotencyKeyConflict
  | ErrLedgerSealed
  | ErrTransactionReferenceConflict
  | ErrAlreadyReverted
  | ErrDeadlock
  | ErrPolicyDenied
  | ErrHoldExpired
  | ErrHoldVoided
  | ErrApprovalExpired
  | ErrTxClosed
  | ErrTxCommitRollback
  | ErrContextDone
  | ErrUnauthenticated
  | EOF
  | PgError sqlstate
  | Errorf string
  | Status code error
  | Wrap string error string

text \<open>\<open>errors.Is\<close>: the target is always one of the sentinels.\<close>

fun errors_is :: "error \<Rightarrow> error \<Rightarrow> bool" where
  "errors_is (Wrap p e s) t = errors_is e t"
| "errors_is e t = (e = t)"

text \<open>\<open>fmt.Errorf("prefix: %w", err)\<close> and \<open>fmt.Errorf("%w: suffix", err)\<close>.\<close>

definition wrapped :: "string \<Rightarrow> error \<Rightarrow> error" where
  "wrapped p e = Wrap p e []"

definition suffixed :: "error \<Rightarrow> string \<Rightarrow> error" where
  "suffixed e s = Wrap [] e s"

lemma errors_is_wrapped [simp]: "errors_is (wrapped p e) t = errors_is e t"
  by (simp add: wrapped_def)

lemma errors_is_suffixed [simp]: "errors_is (suffixed e s) t = errors_is e t"
  by (simp add: suffixed_def)

subsection \<open>The state-and-error monad\<close>

text \<open>
  A Go function that may fail and that changes state is a function from the state to a
  result and the state afterwards; \<open>Inl\<close> is the returned error. The state is also
  returned with an error: what was written before the failure stays written.
\<close>

type_synonym ('s, 'a) io = "'s \<Rightarrow> (error + 'a) \<times> 's"

definition ok :: "'a \<Rightarrow> ('s, 'a) io" where
  "ok x s = (Inr x, s)"

definition fail :: "error \<Rightarrow> ('s, 'a) io" where
  "fail e s = (Inl e, s)"

text \<open>\<open>x, err := m(); if err != nil { return err }; f(x)\<close>.\<close>

definition andThen :: "('s, 'a) io \<Rightarrow> ('a \<Rightarrow> ('s, 'b) io) \<Rightarrow> ('s, 'b) io" where
  "andThen m f s = (case m s of (Inl e, s') \<Rightarrow> (Inl e, s') | (Inr x, s') \<Rightarrow> f x s')"

text \<open>The same with the error rewritten on its way out.\<close>

definition mapErr :: "(error \<Rightarrow> error) \<Rightarrow> ('s, 'a) io \<Rightarrow> ('s, 'a) io" where
  "mapErr g m s = (case m s of (Inl e, s') \<Rightarrow> (Inl (g e), s') | (Inr x, s') \<Rightarrow> (Inr x, s'))"

text \<open>Run \<open>m\<close> and hand its outcome, error or value, to the continuation.\<close>

definition attempt :: "('s, 'a) io \<Rightarrow> (error + 'a \<Rightarrow> ('s, 'b) io) \<Rightarrow> ('s, 'b) io" where
  "attempt m k s = (case m s of (r, s') \<Rightarrow> k r s')"

definition whenM :: "bool \<Rightarrow> ('s, unit) io \<Rightarrow> ('s, unit) io" where
  "whenM b m = (if b then m else ok ())"

primrec forM :: "('a \<Rightarrow> ('s, unit) io) \<Rightarrow> 'a list \<Rightarrow> ('s, unit) io" where
  "forM f [] = ok ()"
| "forM f (x # xs) = andThen (f x) (\<lambda>_. forM f xs)"

definition getS :: "('s \<Rightarrow> 'a) \<Rightarrow> ('s, 'a) io" where
  "getS g s = (Inr (g s), s)"

definition putS :: "('s \<Rightarrow> 's) \<Rightarrow> ('s, unit) io" where
  "putS u s = (Inr (), u s)"

definition ofSum :: "error + 'a \<Rightarrow> ('s, 'a) io" where
  "ofSum r s = (r, s)"

text \<open>A Go error value, \<open>None\<close> for nil, checked and returned when not nil.\<close>

definition ofErr :: "error option \<Rightarrow> ('s, unit) io" where
  "ofErr v = (case v of None \<Rightarrow> ok () | Some e \<Rightarrow> fail e)"

lemma ok_run [simp]: "ok x s = (Inr x, s)"
  by (simp add: ok_def)

lemma fail_run [simp]: "fail e s = (Inl e, s)"
  by (simp add: fail_def)

lemma getS_run [simp]: "getS g s = (Inr (g s), s)"
  by (simp add: getS_def)

lemma putS_run [simp]: "putS u s = (Inr (), u s)"
  by (simp add: putS_def)

lemma ofSum_run [simp]: "ofSum r s = (r, s)"
  by (simp add: ofSum_def)

lemma andThen_Inr: "m s = (Inr x, s') \<Longrightarrow> andThen m f s = f x s'"
  by (simp add: andThen_def)

lemma andThen_Inl: "m s = (Inl e, s') \<Longrightarrow> andThen m f s = (Inl e, s')"
  by (simp add: andThen_def)

lemma andThen_ok [simp]: "andThen (ok x) f = f x"
  by (rule ext) (simp add: andThen_def)

lemma andThen_fail [simp]: "andThen (fail e) f = fail e"
  by (rule ext) (simp add: andThen_def)

lemma andThen_assoc: "andThen (andThen m f) g = andThen m (\<lambda>x. andThen (f x) g)"
  by (rule ext) (simp add: andThen_def split: prod.splits sum.splits)

lemma andThen_ok_iff [io_ok]:
  "andThen m f s = (Inr y, s'') \<longleftrightarrow> (\<exists>x s'. m s = (Inr x, s') \<and> f x s' = (Inr y, s''))"
  by (auto simp: andThen_def split: prod.splits sum.splits)

lemma andThen_err_iff:
  "andThen m f s = (Inl e, s'') \<longleftrightarrow>
     m s = (Inl e, s'') \<or> (\<exists>x s'. m s = (Inr x, s') \<and> f x s' = (Inl e, s''))"
  by (auto simp: andThen_def split: prod.splits sum.splits)

lemma mapErr_ok_iff [io_ok]: "mapErr g m s = (Inr x, s') \<longleftrightarrow> m s = (Inr x, s')"
  by (auto simp: mapErr_def split: prod.splits sum.splits)

lemma attempt_iff [io_ok]:
  "attempt m k s = (r, s'') \<longleftrightarrow> (\<exists>r' s'. m s = (r', s') \<and> k r' s' = (r, s''))"
  by (auto simp: attempt_def split: prod.splits)

lemma whenM_ok_iff [io_ok]:
  "whenM b m s = (Inr x, s') \<longleftrightarrow> (if b then m s = (Inr x, s') else s' = s)"
  by (auto simp: whenM_def)

lemma ofErr_ok_iff [io_ok]: "ofErr v s = (Inr x, s') \<longleftrightarrow> v = None \<and> s' = s"
  by (auto simp: ofErr_def split: option.splits)

lemma ofErr_None [simp]: "ofErr None = ok ()"
  by (simp add: ofErr_def)

lemma ofErr_Some [simp]: "ofErr (Some e) = fail e"
  by (simp add: ofErr_def)

lemma snd_andThen:
  "snd (andThen m f s) = (case m s of (Inl e, s') \<Rightarrow> s' | (Inr x, s') \<Rightarrow> snd (f x s'))"
  by (simp add: andThen_def split: prod.splits sum.splits)

lemma snd_mapErr [simp]: "snd (mapErr g m s) = snd (m s)"
  by (simp add: mapErr_def split: prod.splits sum.splits)

lemma mapErr_id: "mapErr (\<lambda>e. e) m = m"
  by (rule ext) (simp add: mapErr_def split: prod.split sum.split)

subsection \<open>Frames\<close>

text \<open>
  A frame is a preorder \<open>R\<close> on states. \<open>keeps R m\<close> says that \<open>m\<close> moves the state only
  along \<open>R\<close>, whether it returns a value or an error.
\<close>

definition keeps :: "('s \<Rightarrow> 's \<Rightarrow> bool) \<Rightarrow> ('s, 'a) io \<Rightarrow> bool" where
  "keeps R m \<longleftrightarrow> (\<forall>s. R s (snd (m s)))"

lemma keepsI: "(\<And>s. R s (snd (m s))) \<Longrightarrow> keeps R m"
  by (simp add: keeps_def)

lemma keepsD: "keeps R m \<Longrightarrow> m s = (r, s') \<Longrightarrow> R s s'"
  by (metis keeps_def snd_conv)

locale frame =
  fixes R :: "'s \<Rightarrow> 's \<Rightarrow> bool"
  assumes R_refl: "R s s"
    and R_trans: "R s t \<Longrightarrow> R t u \<Longrightarrow> R s u"
begin

lemma keeps_ok: "keeps R (ok x)"
  by (simp add: keeps_def R_refl)

lemma keeps_fail: "keeps R (fail e)"
  by (simp add: keeps_def R_refl)

lemma keeps_getS: "keeps R (getS g)"
  by (simp add: keeps_def R_refl)

lemma keeps_ofSum: "keeps R (ofSum r)"
  by (simp add: keeps_def R_refl)

lemma keeps_ofErr: "keeps R (ofErr v)"
  by (cases v) (simp_all add: keeps_ok keeps_fail)

lemma keeps_andThen:
  assumes "keeps R m" and "\<And>x. keeps R (f x)"
  shows "keeps R (andThen m f)"
proof (rule keepsI)
  fix s
  obtain r s' where m: "m s = (r, s')" by (cases "m s")
  have "R s s'" using assms(1) m by (rule keepsD)
  then show "R s (snd (andThen m f s))"
    using m assms(2) R_trans by (cases r) (auto simp: andThen_def keeps_def)
qed

lemma keeps_mapErr: "keeps R m \<Longrightarrow> keeps R (mapErr g m)"
  by (simp add: keeps_def)

lemma keeps_attempt:
  assumes "keeps R m" and "\<And>r. keeps R (k r)"
  shows "keeps R (attempt m k)"
proof (rule keepsI)
  fix s
  obtain r s' where m: "m s = (r, s')" by (cases "m s")
  have "R s s'" using assms(1) m by (rule keepsD)
  then show "R s (snd (attempt m k s))"
    using m assms(2) R_trans by (auto simp: attempt_def keeps_def)
qed

lemma keeps_whenM: "keeps R m \<Longrightarrow> keeps R (whenM b m)"
  by (simp add: whenM_def keeps_ok)

lemma keeps_forM: "(\<And>x. keeps R (f x)) \<Longrightarrow> keeps R (forM f xs)"
  by (induction xs) (simp_all add: keeps_ok keeps_andThen)

lemma keeps_if: "(b \<Longrightarrow> keeps R m) \<Longrightarrow> (\<not> b \<Longrightarrow> keeps R n) \<Longrightarrow> keeps R (if b then m else n)"
  by simp

lemma keeps_case_option:
  "keeps R m \<Longrightarrow> (\<And>x. keeps R (f x)) \<Longrightarrow> keeps R (case v of None \<Rightarrow> m | Some x \<Rightarrow> f x)"
  by (simp split: option.split)

lemma keeps_case_sum:
  "(\<And>x. keeps R (f x)) \<Longrightarrow> (\<And>y. keeps R (g y)) \<Longrightarrow>
     keeps R (case v of Inl x \<Rightarrow> f x | Inr y \<Rightarrow> g y)"
  by (simp split: sum.split)

lemma keeps_case_prod: "(\<And>x y. keeps R (f x y)) \<Longrightarrow> keeps R (case p of (x, y) \<Rightarrow> f x y)"
  by (simp split: prod.split)

lemma keeps_Let: "keeps R (f v) \<Longrightarrow> keeps R (let x = v in f x)"
  by simp

lemmas keeps_rules = keeps_ok keeps_fail keeps_getS keeps_ofSum keeps_ofErr keeps_andThen keeps_mapErr
  keeps_attempt keeps_whenM keeps_forM keeps_if keeps_case_option keeps_case_sum
  keeps_case_prod keeps_Let

end

subsection \<open>Sums over filtered lists\<close>

text \<open>Totals of a column over the rows that satisfy a predicate, as SQL's \<open>SUM\<close> computes them.\<close>

definition sum_where :: "('a \<Rightarrow> bool) \<Rightarrow> ('a \<Rightarrow> int) \<Rightarrow> 'a list \<Rightarrow> int" where
  "sum_where P f xs = sum_list (map f (filter P xs))"

lemma sum_where_Nil [simp]: "sum_where P f [] = 0"
  by (simp add: sum_where_def)

lemma sum_where_Cons [simp]:
  "sum_where P f (x # xs) = (if P x then f x else 0) + sum_where P f xs"
  by (simp add: sum_where_def)

lemma sum_where_append [simp]: "sum_where P f (xs @ ys) = sum_where P f xs + sum_where P f ys"
  by (simp add: sum_where_def)

lemma sum_where_concat: "sum_where P f (concat xss) = sum_list (map (sum_where P f) xss)"
  by (induction xss) simp_all

lemma sum_where_diff: "sum_where P (\<lambda>x. f x - g x) xs = sum_where P f xs - sum_where P g xs"
  by (induction xs) simp_all

lemma sum_where_nonneg: "(\<And>x. x \<in> set xs \<Longrightarrow> 0 \<le> f x) \<Longrightarrow> 0 \<le> sum_where P f xs"
  by (induction xs) (simp_all add: add_nonneg_nonneg)

lemma sum_where_none: "(\<And>x. x \<in> set xs \<Longrightarrow> \<not> P x) \<Longrightarrow> sum_where P f xs = 0"
  by (induction xs) simp_all

lemma sum_where_cong:
  "(\<And>x. x \<in> set xs \<Longrightarrow> P x = Q x) \<Longrightarrow> (\<And>x. x \<in> set xs \<Longrightarrow> Q x \<Longrightarrow> f x = g x) \<Longrightarrow>
     sum_where P f xs = sum_where Q g xs"
  by (induction xs) simp_all

end
