(* ===== verification/Go_Std.thy ===== *)
theory Go_Std
  imports Prelude "HOL-Library.Word"
begin

text \<open>
  The parts of Go's standard library that the ledger uses, as executable functions on
  byte strings: the splitting and trimming of \<open>strings\<close>, decimal conversion of
  \<open>math/big\<close> and \<open>strconv\<close>, big-endian length prefixes of \<open>encoding/binary\<close>, and
  the JSON values that \<open>encoding/json\<close> writes and PostgreSQL's \<open>jsonb\<close> operators combine.
\<close>

subsection \<open>strings\<close>

text \<open>\<open>strings.Split(s, sep)\<close> for a separator of one byte.\<close>

fun split_on :: "char \<Rightarrow> string \<Rightarrow> string list" where
  "split_on c [] = [[]]"
| "split_on c (x # xs) =
     (if x = c then [] # split_on c xs
      else (case split_on c xs of [] \<Rightarrow> [[x]] | y # ys \<Rightarrow> (x # y) # ys))"

fun join_with :: "char \<Rightarrow> string list \<Rightarrow> string" where
  "join_with c [] = []"
| "join_with c [x] = x"
| "join_with c (x # y # ys) = x @ c # join_with c (y # ys)"

definition HasPrefix :: "string \<Rightarrow> string \<Rightarrow> bool" where
  "HasPrefix s p \<longleftrightarrow> take (length p) s = p"

definition HasSuffix :: "string \<Rightarrow> string \<Rightarrow> bool" where
  "HasSuffix s p \<longleftrightarrow> length p \<le> length s \<and> drop (length s - length p) s = p"

text \<open>The ASCII part of \<open>unicode.IsSpace\<close>.\<close>

definition isSpace :: "char \<Rightarrow> bool" where
  "isSpace c \<longleftrightarrow> (let n = (of_char c :: nat) in n = 32 \<or> 9 \<le> n \<and> n \<le> 13)"

definition TrimSpace :: "string \<Rightarrow> string" where
  "TrimSpace s = rev (dropWhile isSpace (rev (dropWhile isSpace s)))"

text \<open>\<open>strings.Fields\<close>: the maximal runs of non-space bytes.\<close>

fun fields_from :: "string \<Rightarrow> string \<Rightarrow> string list" where
  "fields_from acc [] = (if acc = [] then [] else [rev acc])"
| "fields_from acc (x # xs) =
     (if isSpace x then (if acc = [] then fields_from [] xs else rev acc # fields_from [] xs)
      else fields_from (x # acc) xs)"

definition Fields :: "string \<Rightarrow> string list" where
  "Fields s = fields_from [] s"

text \<open>\<open>strings.Cut\<close> at the first occurrence of a byte.\<close>

fun cut_at :: "char \<Rightarrow> string \<Rightarrow> (string \<times> string) option" where
  "cut_at c [] = None"
| "cut_at c (x # xs) =
     (if x = c then Some ([], xs) else map_option (\<lambda>(a, b). (x # a, b)) (cut_at c xs))"

text \<open>The same at the last occurrence, as \<open>strings.LastIndex\<close> is used.\<close>

definition cut_last :: "char \<Rightarrow> string \<Rightarrow> (string \<times> string) option" where
  "cut_last c s = map_option (\<lambda>(a, b). (rev b, rev a)) (cut_at c (rev s))"

lemma split_on_nonempty [simp]: "split_on c s \<noteq> []"
  by (induction s) (auto split: list.split)

lemma join_split [simp]: "join_with c (split_on c s) = s"
proof (induction s)
  case Nil
  show ?case by simp
next
  case (Cons x xs)
  obtain y ys where e: "split_on c xs = y # ys"
    using split_on_nonempty by (meson neq_Nil_conv)
  with Cons.IH have "join_with c (y # ys) = xs" by simp
  with e show ?case by (cases ys) auto
qed

lemma split_on_no_sep: "c \<notin> set s \<Longrightarrow> split_on c s = [s]"
  by (induction s) auto

lemma split_on_append: "c \<notin> set s \<Longrightarrow> split_on c (s @ c # t) = s # split_on c t"
  by (induction s) (auto split: list.split)

lemma split_join:
  "xs \<noteq> [] \<Longrightarrow> (\<And>x. x \<in> set xs \<Longrightarrow> c \<notin> set x) \<Longrightarrow> split_on c (join_with c xs) = xs"
  by (induction xs rule: join_with.induct) (auto simp: split_on_no_sep split_on_append)

lemma split_parts_no_sep: "p \<in> set (split_on c s) \<Longrightarrow> c \<notin> set p"
proof (induction s arbitrary: p)
  case Nil
  then show ?case by simp
next
  case (Cons x xs)
  then show ?case
    by (cases "split_on c xs") (auto split: if_splits)
qed

lemma split_on_inject: "split_on c s = split_on c t \<Longrightarrow> s = t"
  by (metis join_split)

lemma cut_at_append: "c \<notin> set a \<Longrightarrow> cut_at c (a @ c # b) = Some (a, b)"
  by (induction a) auto

lemma cut_at_None: "cut_at c s = None \<longleftrightarrow> c \<notin> set s"
  by (induction s) auto

lemma cut_last_append: "c \<notin> set b \<Longrightarrow> cut_last c (a @ c # b) = Some (a, b)"
  by (simp add: cut_last_def cut_at_append)

lemma cut_last_None: "cut_last c s = None \<longleftrightarrow> c \<notin> set s"
  by (simp add: cut_last_def cut_at_None)

subsection \<open>Decimal numbers\<close>

definition digit_char :: "nat \<Rightarrow> char" where
  "digit_char d = char_of (48 + d)"

definition digit_val :: "char \<Rightarrow> nat option" where
  "digit_val c =
     (let n = (of_char c :: nat) in if 48 \<le> n \<and> n \<le> 57 then Some (n - 48) else None)"

fun nat_String :: "nat \<Rightarrow> string" where
  "nat_String n =
     (if n < 10 then [digit_char n] else nat_String (n div 10) @ [digit_char (n mod 10)])"

declare nat_String.simps [simp del]

text \<open>\<open>(*big.Int).String()\<close> and \<open>strconv.Itoa\<close>.\<close>

definition int_String :: "int \<Rightarrow> string" where
  "int_String i = (if i < 0 then CHR ''-'' # nat_String (nat (- i)) else nat_String (nat i))"

fun parse_digits :: "nat \<Rightarrow> string \<Rightarrow> nat option" where
  "parse_digits acc [] = Some acc"
| "parse_digits acc (c # cs) =
     (case digit_val c of None \<Rightarrow> None | Some d \<Rightarrow> parse_digits (acc * 10 + d) cs)"

definition parse_nat :: "string \<Rightarrow> nat option" where
  "parse_nat s = (if s = [] then None else parse_digits 0 s)"

text \<open>\<open>new(big.Int).SetString(s, 10)\<close>: an optional sign and at least one digit, nothing else.\<close>

definition SetString :: "string \<Rightarrow> int option" where
  "SetString s =
     (case s of
        [] \<Rightarrow> None
      | c # cs \<Rightarrow>
          if c = CHR ''-'' then map_option (\<lambda>n. - int n) (parse_nat cs)
          else if c = CHR ''+'' then map_option int (parse_nat cs)
          else map_option int (parse_nat s))"

lemma digit_val_char: "d < 10 \<Longrightarrow> digit_val (digit_char d) = Some d"
  by (simp add: digit_val_def digit_char_def)

lemma digit_char_not_sign:
  assumes "d < 10"
  shows "digit_char d \<noteq> CHR ''-'' \<and> digit_char d \<noteq> CHR ''+''"
proof -
  have "digit_val (digit_char d) = Some d" by (rule digit_val_char [OF assms])
  moreover have "digit_val (CHR ''-'') = None" "digit_val (CHR ''+'') = None"
    by (simp_all add: digit_val_def)
  ultimately show ?thesis by auto
qed

lemma parse_digits_append:
  "parse_digits a (xs @ ys) =
     (case parse_digits a xs of None \<Rightarrow> None | Some b \<Rightarrow> parse_digits b ys)"
  by (induction xs arbitrary: a) (auto split: option.split)

lemma parse_digits_nat_String: "parse_digits 0 (nat_String n) = Some n"
proof (induction n rule: nat_String.induct)
  case (1 n)
  show ?case
  proof (cases "n < 10")
    case True
    then show ?thesis by (simp add: nat_String.simps [of n] digit_val_char)
  next
    case False
    with 1 show ?thesis
      by (simp add: nat_String.simps [of n] parse_digits_append digit_val_char)
  qed
qed

lemma nat_String_nonempty [simp]: "nat_String n \<noteq> []"
  by (subst nat_String.simps) simp

lemma hd_nat_String: "\<exists>d cs. d < 10 \<and> nat_String n = digit_char d # cs"
proof (induction n rule: nat_String.induct)
  case (1 n)
  show ?case
  proof (cases "n < 10")
    case True
    then show ?thesis by (auto simp: nat_String.simps [of n])
  next
    case False
    with 1 obtain d cs where "d < 10" "nat_String (n div 10) = digit_char d # cs" by auto
    with False show ?thesis by (auto simp: nat_String.simps [of n])
  qed
qed

lemma parse_nat_String: "parse_nat (nat_String n) = Some n"
  by (simp add: parse_nat_def parse_digits_nat_String)

lemma SetString_int_String [simp]: "SetString (int_String i) = Some i"
proof (cases "i < 0")
  case True
  then show ?thesis by (simp add: SetString_def int_String_def parse_nat_String)
next
  case False
  obtain d cs where "d < 10" and e: "nat_String (nat i) = digit_char d # cs"
    using hd_nat_String by blast
  with False show ?thesis
    using digit_char_not_sign [of d] parse_nat_String [of "nat i"]
    by (simp add: SetString_def int_String_def)
qed

lemma int_String_inject: "int_String i = int_String j \<longleftrightarrow> i = j"
  by (metis SetString_int_String option.inject)

definition hex_digit :: "nat \<Rightarrow> char" where
  "hex_digit d = (if d < 10 then char_of (48 + d) else char_of (87 + d))"

text \<open>The verb \<open>%q\<close> of \<open>fmt\<close> (\<open>strconv.Quote\<close>) on ASCII text.\<close>

definition quote_escape :: "char \<Rightarrow> string" where
  "quote_escape c =
     (let n = (of_char c :: nat) in
      if n = 34 \<or> n = 92 then [CHR 0x5C, c]
      else if 7 \<le> n \<and> n \<le> 13 then [CHR 0x5C, ''abtnvfr'' ! (n - 7)]
      else if n < 32 \<or> n = 127 then [CHR 0x5C, CHR ''x'', hex_digit (n div 16), hex_digit (n mod 16)]
      else [c])"

definition quoted :: "string \<Rightarrow> string" where
  "quoted s = CHR 0x22 # concat (map quote_escape s) @ [CHR 0x22]"

subsection \<open>Length-prefixed fields\<close>

text \<open>\<open>binary.BigEndian.PutUint32(buf, uint32(len(data)))\<close>.\<close>

definition be32 :: "nat \<Rightarrow> bytes" where
  "be32 n = map (\<lambda>i. char_of ((n div 256 ^ i) mod 256 :: nat)) [3, 2, 1, 0]"

text \<open>\<open>binary.BigEndian.PutUint16(buf, uint16(t))\<close> of a signed 16-bit value.\<close>

definition be16 :: "int \<Rightarrow> bytes" where
  "be16 t = (let n = nat (t mod 65536) in [char_of (n div 256), char_of (n mod 256)])"

definition field :: "bytes \<Rightarrow> bytes" where
  "field d = be32 (length d) @ d"

lemma length_be32 [simp]: "length (be32 n) = 4"
  by (simp add: be32_def)

lemma be32_inject:
  assumes "m < 2 ^ 32" "n < 2 ^ 32" "be32 m = be32 n"
  shows "m = n"
proof -
  have eq: "(m div 256 ^ i) mod 256 = (n div 256 ^ i) mod 256" if "i \<in> {0, 1, 2, 3}" for i :: nat
  proof -
    have "char_of ((m div 256 ^ i) mod 256) = (char_of ((n div 256 ^ i) mod 256) :: char)"
      using assms(3) that by (auto simp: be32_def)
    then show ?thesis by (simp add: char_of_eq_iff take_bit_eq_mod)
  qed
  have dec: "k = (k div 256 ^ 3) mod 256 * 256 ^ 3 + (k div 256 ^ 2) mod 256 * 256 ^ 2 +
      (k div 256 ^ 1) mod 256 * 256 + (k div 256 ^ 0) mod 256" if "k < 2 ^ 32" for k :: nat
  proof -
    define a b c where "a = k div 256" and "b = a div 256" and "c = b div 256"
    have "k div 65536 = b" "k div 16777216 = c"
      by (simp_all add: a_def b_def c_def flip: div_mult2_eq)
    moreover have "c mod 256 = c"
      using that by (simp add: a_def b_def c_def flip: div_mult2_eq)
    moreover have "k = a * 256 + k mod 256" "a = b * 256 + a mod 256" "b = c * 256 + b mod 256"
      unfolding a_def b_def c_def by (rule div_mult_mod_eq [symmetric])+
    ultimately show ?thesis
      unfolding a_def [symmetric] by (simp add: a_def [symmetric])
  qed
  show ?thesis
    using dec [OF assms(1)] dec [OF assms(2)] eq [of 0] eq [of 1] eq [of 2] eq [of 3] by simp
qed

lemma field_append_inject:
  assumes "field a @ x = field b @ y" "length a < 2 ^ 32" "length b < 2 ^ 32"
  shows "a = b \<and> x = y"
proof -
  have "be32 (length a) = be32 (length b) \<and> a @ x = b @ y"
    using assms(1) by (simp add: field_def)
  then have "length a = length b" and "a @ x = b @ y"
    using be32_inject assms(2,3) by auto
  then show ?thesis by simp
qed

lemma field_nonempty [simp]: "field a \<noteq> []"
  by (simp add: field_def be32_def)

text \<open>A sequence of length-prefixed fields can be read back: the encoding is injective.\<close>

lemma concat_fields_inject:
  assumes "concat (map field xs) = concat (map field ys)"
    and "\<forall>x \<in> set xs. length x < 2 ^ 32" and "\<forall>y \<in> set ys. length y < 2 ^ 32"
  shows "xs = ys"
  using assms
proof (induction xs arbitrary: ys)
  case Nil
  then show ?case by (cases ys) auto
next
  case (Cons x xs)
  then obtain y ys' where ys: "ys = y # ys'"
    by (cases ys) auto
  with Cons.prems have "x = y \<and> concat (map field xs) = concat (map field ys')"
    by (intro field_append_inject) auto
  with Cons.IH [of ys'] Cons.prems ys show ?case by auto
qed

subsection \<open>JSON values\<close>

text \<open>
  The values that reach the database as \<open>jsonb\<close> and the log as marshalled payloads. A Go
  map is an association list; a nil map is \<open>None\<close> and marshals to \<open>null\<close>. A point in time
  among metadata values is kept as its two texts: the one \<open>encoding/json\<close> writes, a string in
  JSON, and the one \<open>fmt.Sprint\<close> prints.
\<close>

datatype json =
    JNull
  | JBool bool
  | JInt int
  | JStr string
  | JTime string string
  | JArr "json list"
  | JObj "(string \<times> json) list"

type_synonym metadata = "(string \<times> json) list option"

text \<open>
  String escapes of \<open>encoding/json\<close> on ASCII: quote and backslash, the short escapes, the
  remaining control bytes and the HTML characters as \<open>\u00XX\<close>.
\<close>

definition json_escape :: "char \<Rightarrow> string" where
  "json_escape c =
     (let n = (of_char c :: nat) in
      if n = 34 \<or> n = 92 then [CHR 0x5C, c]
      else if n = 8 then [CHR 0x5C, CHR ''b'']
      else if n = 9 then [CHR 0x5C, CHR ''t'']
      else if n = 10 then [CHR 0x5C, CHR ''n'']
      else if n = 12 then [CHR 0x5C, CHR ''f'']
      else if n = 13 then [CHR 0x5C, CHR ''r'']
      else if n < 32 \<or> n = 60 \<or> n = 62 \<or> n = 38
        then [CHR 0x5C, CHR ''u'', CHR ''0'', CHR ''0'', hex_digit (n div 16), hex_digit (n mod 16)]
      else [c])"

definition json_quote :: "string \<Rightarrow> string" where
  "json_quote s = CHR 0x22 # concat (map json_escape s) @ [CHR 0x22]"

text \<open>\<open>json.Marshal\<close> of a value whose objects list their members in output order.\<close>

fun json_marshal :: "json \<Rightarrow> bytes" where
  "json_marshal JNull = ''null''"
| "json_marshal (JBool b) = (if b then ''true'' else ''false'')"
| "json_marshal (JInt i) = int_String i"
| "json_marshal (JStr s) = json_quote s"
| "json_marshal (JTime s p) = json_quote s"
| "json_marshal (JArr xs) = CHR ''['' # join_with CHR '','' (map json_marshal xs) @ '']''"
| "json_marshal (JObj kvs) =
     CHR ''{'' # join_with CHR '',''
       (map (\<lambda>(k, v). json_quote k @ CHR '':'' # json_marshal v) kvs) @ ''}''"

text \<open>Go marshals a map with its keys sorted.\<close>

definition json_map :: "(string \<times> json) list \<Rightarrow> json" where
  "json_map kvs = JObj (sort_key fst kvs)"

definition json_of_metadata :: "metadata \<Rightarrow> json" where
  "json_of_metadata m =
     (case m of
        None \<Rightarrow> JNull
      | Some kvs \<Rightarrow> json_map (map (\<lambda>(k, v). (k, case v of JTime s p \<Rightarrow> JStr s | _ \<Rightarrow> v)) kvs))"

text \<open>\<open>json.Unmarshal\<close> into a \<open>map[string]any\<close>: \<open>null\<close> gives a nil map, an object its
  members, and any other value is a type error.\<close>

definition metadata_of_json :: "json \<Rightarrow> error + metadata" where
  "metadata_of_json j =
     (case j of
        JNull \<Rightarrow> Inr None
      | JObj kvs \<Rightarrow> Inr (Some kvs)
      | _ \<Rightarrow> Inl (Errorf ''json: cannot unmarshal into Go value of type map[string]interface {}''))"

subsubsection \<open>Objects\<close>

fun obj_put :: "string \<Rightarrow> 'v \<Rightarrow> (string \<times> 'v) list \<Rightarrow> (string \<times> 'v) list" where
  "obj_put k v [] = [(k, v)]"
| "obj_put k v ((k', v') # kvs) = (if k' = k then (k, v) # kvs else (k', v') # obj_put k v kvs)"

definition obj_merge :: "(string \<times> 'v) list \<Rightarrow> (string \<times> 'v) list \<Rightarrow> (string \<times> 'v) list" where
  "obj_merge a b = fold (\<lambda>(k, v). obj_put k v) b a"

definition obj_delete :: "string \<Rightarrow> (string \<times> 'v) list \<Rightarrow> (string \<times> 'v) list" where
  "obj_delete k kvs = filter (\<lambda>p. fst p \<noteq> k) kvs"

text \<open>PostgreSQL's \<open>jsonb || jsonb\<close>: two objects merge (the right one wins); in every other
  case a value that is not an array counts as an array of one element.\<close>

definition as_array :: "json \<Rightarrow> json list" where
  "as_array j = (case j of JArr xs \<Rightarrow> xs | _ \<Rightarrow> [j])"

definition jsonb_concat :: "json \<Rightarrow> json \<Rightarrow> json" where
  "jsonb_concat a b =
     (case (a, b) of
        (JObj x, JObj y) \<Rightarrow> JObj (obj_merge x y)
      | _ \<Rightarrow> JArr (as_array a @ as_array b))"

text \<open>\<open>jsonb - text\<close>: drops a member of an object or the equal strings of an array, and
  raises an error on a scalar.\<close>

definition jsonb_minus :: "json \<Rightarrow> string \<Rightarrow> sqlstate + json" where
  "jsonb_minus j k =
     (case j of
        JObj kvs \<Rightarrow> Inr (JObj (obj_delete k kvs))
      | JArr xs \<Rightarrow> Inr (JArr (filter (\<lambda>x. x \<noteq> JStr k) xs))
      | _ \<Rightarrow> Inl InvalidParameterValue)"

lemma map_of_obj_put [simp]: "map_of (obj_put k v kvs) = (map_of kvs)(k \<mapsto> v)"
  by (induction kvs) (auto simp: fun_eq_iff)

lemma map_of_obj_merge:
  "map_of (obj_merge a b) k = (case map_of (rev b) k of None \<Rightarrow> map_of a k | Some v \<Rightarrow> Some v)"
  by (induction b arbitrary: a) (auto simp: obj_merge_def map_add_def split: option.splits)

lemma map_of_obj_delete: "map_of (obj_delete k kvs) k' = (if k' = k then None else map_of kvs k')"
  by (induction kvs) (auto simp: obj_delete_def)

end
