(* ===== verification/Storage.thy ===== *)
theory Storage
  imports Go_Std
begin

text \<open>
  The storage contract, \<^verbatim>\<open>src/internal/storage/store.go\<close>: the records that cross the
  \<open>Store\<close> interface, and the PostgreSQL tables of \<^verbatim>\<open>src/migrations\<close> that hold them.
  A table is the list of its rows in insertion order. The file also fixes the world the
  program runs in: the committed tables, the open transaction, the Redis cache, the
  published notifications, the rate counters and the in-memory batch manager, together with the environment
  (identifier and clock sources, faults of statements, the hash), and the way one SQL
  statement runs against the pool or against the open transaction.
\<close>

subsection \<open>Event types, target types and relationship types\<close>

definition EventTypeTransactionPosted :: int where "EventTypeTransactionPosted = 1"
definition EventTypeHoldCreated :: int where "EventTypeHoldCreated = 2"
definition EventTypeHoldConfirmed :: int where "EventTypeHoldConfirmed = 3"
definition EventTypeHoldVoided :: int where "EventTypeHoldVoided = 4"
definition EventTypeHoldExpired :: int where "EventTypeHoldExpired = 5"
definition EventTypeConversionCreated :: int where "EventTypeConversionCreated = 6"
definition EventTypeTransactionReverted :: int where "EventTypeTransactionReverted = 7"
definition EventTypeTransactionAmended :: int where "EventTypeTransactionAmended = 8"
definition EventTypeMetadataSet :: int where "EventTypeMetadataSet = 9"
definition EventTypeMetadataDeleted :: int where "EventTypeMetadataDeleted = 10"
definition EventTypeSchemaInserted :: int where "EventTypeSchemaInserted = 11"
definition EventTypePolicyDenied :: int where "EventTypePolicyDenied = 12"
definition EventTypeApprovalRecorded :: int where "EventTypeApprovalRecorded = 13"

definition IsValidEventType :: "int \<Rightarrow> bool" where
  "IsValidEventType t \<longleftrightarrow> EventTypeTransactionPosted \<le> t \<and> t \<le> EventTypeApprovalRecorded"

definition TargetTypeTransaction :: int where "TargetTypeTransaction = 1"
definition RelationshipTypeReverts :: int where "RelationshipTypeReverts = 0"
definition RelationshipTypeAmends :: int where "RelationshipTypeAmends = 1"

subsection \<open>Records of the store interface\<close>

record CreateLedgerParams =
  clp_ID :: string
  clp_BucketID :: string
  clp_Metadata :: "(string \<times> string) list option"

record ListParams =
  PageSize :: int
  PageToken :: string

record LedgerRecord =
  lr_ID :: string
  lr_BucketID :: string
  lr_State :: string
  lr_Features :: "(string \<times> string) list option"
  lr_Metadata :: "(string \<times> string) list option"
  lr_CreatedAt :: time
  lr_SealedAt :: "time option"
  lr_IssuerAccounts :: "string list"

record LogEventRecord =
  ev_EventID :: string
  ev_LedgerID :: string
  ev_LedgerSeq :: int
  ev_SystemTime :: time
  ev_ValidTime :: time
  ev_Type :: int
  ev_Payload :: bytes
  ev_IdempotencyKey :: string
  ev_IdempotencyHash :: "bytes option"
  ev_BatchID :: string
  ev_SchemaVersion :: int

record BatchRecord =
  bt_BatchID :: string
  bt_LedgerID :: string
  bt_OpenedAt :: time
  bt_ClosedAt :: "time option"
  bt_EventCount :: int
  bt_MerkleRoot :: "bytes option"
  bt_PrevBatchID :: string
  bt_AttestationURI :: string

record IdempotencyKeyRecord =
  ik_LedgerID :: string
  ik_IdempotencyKey :: string
  ik_IdempotencyHash :: bytes
  ik_EventID :: string
  ik_CreatedAt :: time

record AccountRecord =
  ac_LedgerID :: string
  ac_Address :: string
  ac_FirstUsage :: time
  ac_UpdatedAt :: time
  ac_Metadata :: metadata

record PostingRecord =
  pr_Source :: string
  pr_Destination :: string
  pr_Amount :: string
  pr_Asset :: string

record TransactionRecord =
  tx_LedgerID :: string
  tx_TransactionID :: string
  tx_EventID :: string
  tx_ValidTime :: time
  tx_SystemTime :: time
  tx_Reference :: string
  tx_Postings :: "PostingRecord list"
  tx_Metadata :: metadata

record VolumeDeltaRecord =
  vd_LedgerID :: string
  vd_Account :: string
  vd_Asset :: string
  vd_Shard :: int
  vd_EventID :: string
  vd_ValidTime :: time
  vd_SystemTime :: time
  vd_InputDelta :: int
  vd_OutputDelta :: int

record BalanceResult =
  br_Input :: int
  br_Output :: int

text \<open>A stored document comes back as the JSON value it decodes to.\<close>

datatype document = DocBytes bytes | DocJson json

record SchemaRecord =
  sc_LedgerID :: string
  sc_Version :: string
  sc_Document :: document
  sc_InsertedAt :: time
  sc_EventID :: string

record MetadataHistoryRecord =
  mh_LedgerID :: string
  mh_TargetType :: int
  mh_TargetID :: string
  mh_Revision :: int
  mh_Metadata :: metadata
  mh_EventID :: string
  mh_SystemTime :: time

record HoldRecord =
  hd_LedgerID :: string
  hd_HoldID :: string
  hd_Source :: string
  hd_DestinationHint :: string
  hd_Asset :: string
  hd_AuthorizedAmount :: int
  hd_CapturedAmount :: int
  hd_Voided :: bool
  hd_Expired :: bool
  hd_ExpiresAt :: time
  hd_AuthorizedEventID :: string
  hd_ValidTime :: time
  hd_SystemTime :: time

record RelationshipRecord =
  rl_LedgerID :: string
  rl_ParentTxID :: string
  rl_ChildTxID :: string
  rl_RelationshipType :: int
  rl_EventID :: string
  rl_SystemTime :: time

record PolicyRecord =
  po_LedgerID :: string
  po_Version :: string
  po_CedarPolicy :: string
  po_InsertedAt :: time
  po_EventID :: string
  po_Active :: bool

record ApprovalEntry =
  ae_Principal :: string
  ae_Signature :: string
  ae_SignedAt :: time

record PendingApprovalRecord =
  pa_LedgerID :: string
  pa_IntentID :: string
  pa_IntentPayload :: bytes
  pa_IntentHash :: bytes
  pa_RequiredApprovers :: "string list"
  pa_ReceivedApprovals :: "ApprovalEntry list"
  pa_ExpiresAt :: time
  pa_State :: string
  pa_SubmittedAt :: time
  pa_SubmittedBy :: string

subsection \<open>Tables\<close>

text \<open>
  Rows that differ from the record the program sees: columns of type \<open>jsonb\<close> keep the JSON
  value, because \<open>null\<close>, objects and arrays behave differently under the operators of the
  statements. The received approvals are typed: the outer \<open>None\<close> is the JSON value \<open>null\<close>,
  an inner \<open>None\<close> a \<open>null\<close> element.
\<close>

record ledger_row =
  lg_id :: string
  lg_bucket_id :: string
  lg_state :: string
  lg_features :: json
  lg_metadata :: json
  lg_created_at :: time
  lg_sealed_at :: "time option"
  lg_issuer_accounts :: "string list"

record account_row =
  ar_ledger_id :: string
  ar_address :: string
  ar_first_usage :: time
  ar_updated_at :: time
  ar_metadata :: json

record transaction_row =
  tr_ledger_id :: string
  tr_transaction_id :: string
  tr_event_id :: string
  tr_valid_time :: time
  tr_system_time :: time
  tr_reference :: "string option"
  tr_postings :: "PostingRecord list"
  tr_metadata :: json

record schema_row =
  sr_ledger_id :: string
  sr_version :: string
  sr_document :: json
  sr_inserted_at :: time
  sr_event_id :: string

record metadata_history_row =
  mr_ledger_id :: string
  mr_target_type :: int
  mr_target_id :: string
  mr_revision :: int
  mr_metadata :: json
  mr_event_id :: string
  mr_system_time :: time

record approval_row =
  pr_ledger_id :: string
  pr_intent_id :: string
  pr_intent_payload :: bytes
  pr_intent_hash :: bytes
  pr_required_approvers :: "string list"
  pr_received_approvals :: "ApprovalEntry option list option"
  pr_expires_at :: time
  pr_state :: string
  pr_submitted_at :: time
  pr_submitted_by :: string
  pr_executing_at :: "time option"

record checkpoint_row =
  cp_ledger_id :: string
  cp_account :: string
  cp_asset :: string
  cp_shard :: int
  cp_valid_time_upper :: time
  cp_system_time_upper :: time
  cp_total_input :: int
  cp_total_output :: int
  cp_last_event_id :: string

record db =
  buckets :: "string list"
  ledgers :: "ledger_row list"
  log_events :: "LogEventRecord list"
  idempotency_keys :: "IdempotencyKeyRecord list"
  accounts :: "account_row list"
  transactions :: "transaction_row list"
  volumes_delta :: "VolumeDeltaRecord list"
  schemas :: "schema_row list"
  metadata_history :: "metadata_history_row list"
  holds :: "HoldRecord list"
  transaction_relationships :: "RelationshipRecord list"
  policies :: "PolicyRecord list"
  pending_approvals :: "approval_row list"
  volumes_checkpoint :: "checkpoint_row list"

definition empty_db :: db where
  "empty_db = \<lparr>buckets = [''_default''], ledgers = [], log_events = [], idempotency_keys = [],
     accounts = [], transactions = [], volumes_delta = [], schemas = [], metadata_history = [],
     holds = [], transaction_relationships = [], policies = [], pending_approvals = [],
     volumes_checkpoint = []\<rparr>"

subsection \<open>Environment and world\<close>

text \<open>
  What the program asks of its surroundings. Identifiers and clock readings are streams
  indexed by the number of requests made so far; \<open>fault\<close> decides for every SQL statement
  whether the database fails it and with which SQLSTATE, \<open>redis_reply\<close> what Redis does,
  and \<open>ctx_done\<close> whether the request's context is cancelled during a wait.
\<close>

datatype redis_reply = RedisOk | RedisErr | RedisExpired

record env =
  ulid :: "nat \<Rightarrow> string"
  clock :: "nat \<Rightarrow> time"
  db_clock :: "nat \<Rightarrow> time"
  fault :: "nat \<Rightarrow> sqlstate option"
  redis :: "nat \<Rightarrow> redis_reply"
  ctx_done :: "nat \<Rightarrow> bool"
  jitter :: "nat \<Rightarrow> time"
  sha256 :: "bytes \<Rightarrow> bytes"
  format_time :: "time \<Rightarrow> string"
  ParseFloat :: "string \<Rightarrow> error option"
  json_Unmarshal :: "bytes \<Rightarrow> json option"
  json_Valid :: "bytes \<Rightarrow> bool"
  time_String :: "time \<Rightarrow> string"
  pg_text :: "sqlstate \<Rightarrow> string"
  regexp_Compile :: "string \<Rightarrow> (string \<Rightarrow> bool) option"
  has_subs :: bool

text \<open>The transaction of the request being served, if any: its private view of the tables.\<close>

datatype txstate = NoTx | OpenTx db | AbortedTx

record openBatchState =
  ob_batchID :: string
  ob_openedAt :: time
  ob_eventCount :: int

record notification =
  nt_LedgerID :: string
  nt_EventID :: string
  nt_Type :: int

record world =
  pg :: db
  tx :: txstate
  log_batches :: "BatchRecord list"
  openBatch :: "(string \<times> openBatchState) list"
  pendingClose :: "string list"
  spawned :: "(string \<times> string) list"
  cache :: "(string \<times> (string \<times> bytes)) list"
  published :: "notification list"
  waits :: "time list"
  counters :: "(string \<times> int) list"
  errCount :: nat
  n_ulid :: nat
  n_clock :: nat
  n_sql :: nat
  n_redis :: nat

type_synonym 'a prog = "(world, 'a) io"

definition ulid_Make :: "env \<Rightarrow> string prog" where
  "ulid_Make E w = (Inr (ulid E (n_ulid w)), w\<lparr>n_ulid := Suc (n_ulid w)\<rparr>)"

definition time_Now :: "env \<Rightarrow> time prog" where
  "time_Now E w = (Inr (clock E (n_clock w)), w\<lparr>n_clock := Suc (n_clock w)\<rparr>)"

subsection \<open>Running a statement\<close>

text \<open>
  \<open>Pool\<close> is the connection pool: the statement runs and commits by itself. \<open>Tx\<close> is the open
  transaction: the statement sees and extends its private view, and any failure aborts
  it, after which every further statement fails.
\<close>

datatype handle = Pool | Tx

type_synonym 'a sql = "time \<Rightarrow> db \<Rightarrow> sqlstate + 'a \<times> db"

definition abort_tx :: "handle \<Rightarrow> world \<Rightarrow> world" where
  "abort_tx h w =
     (case h of
        Pool \<Rightarrow> w
      | Tx \<Rightarrow> (case tx w of OpenTx d \<Rightarrow> w\<lparr>tx := AbortedTx\<rparr> | _ \<Rightarrow> w))"

definition stmt :: "env \<Rightarrow> handle \<Rightarrow> 'a sql \<Rightarrow> 'a prog" where
  "stmt E h f w =
     (let k = n_sql w; w1 = w\<lparr>n_sql := Suc k\<rparr> in
      case fault E k of
        Some c \<Rightarrow> (Inl (PgError c), abort_tx h w1)
      | None \<Rightarrow>
          (case h of
             Pool \<Rightarrow>
               (case f (db_clock E k) (pg w) of
                  Inl c \<Rightarrow> (Inl (PgError c), w1)
                | Inr (x, d) \<Rightarrow> (Inr x, w1\<lparr>pg := d\<rparr>))
           | Tx \<Rightarrow>
               (case tx w of
                  NoTx \<Rightarrow> (Inl ErrTxClosed, w1)
                | AbortedTx \<Rightarrow> (Inl (PgError InFailedTransaction), w1)
                | OpenTx d \<Rightarrow>
                    (case f (db_clock E k) d of
                       Inl c \<Rightarrow> (Inl (PgError c), w1\<lparr>tx := AbortedTx\<rparr>)
                     | Inr (x, d') \<Rightarrow> (Inr x, w1\<lparr>tx := OpenTx d'\<rparr>)))))"

text \<open>A statement that only reads.\<close>

definition query :: "env \<Rightarrow> handle \<Rightarrow> (time \<Rightarrow> db \<Rightarrow> 'a) \<Rightarrow> 'a prog" where
  "query E h g = stmt E h (\<lambda>now d. Inr (g now d, d))"

text \<open>\<open>pool.Begin\<close>, \<open>tx.Commit\<close> and \<open>tx.Rollback\<close>. Committing an aborted transaction rolls
  it back and reports so; a transaction that is closed reports \<open>ErrTxClosed\<close>.\<close>

definition BeginTx :: "env \<Rightarrow> unit prog" where
  "BeginTx E w =
     (let k = n_sql w; w1 = w\<lparr>n_sql := Suc k\<rparr> in
      case fault E k of
        Some c \<Rightarrow> (Inl (wrapped ''beginning transaction: '' (PgError c)), w1)
      | None \<Rightarrow> (Inr (), w1\<lparr>tx := OpenTx (pg w)\<rparr>))"

definition Commit :: "env \<Rightarrow> unit prog" where
  "Commit E w =
     (let k = n_sql w; w1 = w\<lparr>n_sql := Suc k\<rparr> in
      case tx w of
        NoTx \<Rightarrow> (Inl ErrTxClosed, w)
      | AbortedTx \<Rightarrow> (Inl ErrTxCommitRollback, w1\<lparr>tx := NoTx\<rparr>)
      | OpenTx d \<Rightarrow>
          (case fault E k of
             Some c \<Rightarrow> (Inl (PgError c), w1\<lparr>tx := NoTx\<rparr>)
           | None \<Rightarrow> (Inr (), w1\<lparr>tx := NoTx, pg := d\<rparr>)))"

definition Rollback :: "unit prog" where
  "Rollback w = (case tx w of NoTx \<Rightarrow> (Inl ErrTxClosed, w) | _ \<Rightarrow> (Inr (), w\<lparr>tx := NoTx\<rparr>))"

text \<open>\<open>defer txStore.Rollback()\<close>: whatever the body returns, the transaction is rolled back on
  the way out (a no-op once it is committed) and the deferred error is dropped.\<close>

definition deferRollback :: "'a prog \<Rightarrow> 'a prog" where
  "deferRollback m = attempt m (\<lambda>r. attempt Rollback (\<lambda>_. ofSum r))"

subsection \<open>What a statement can touch\<close>

text \<open>
  Statements of a transaction, reads of the pool and the batch manager leave the committed
  tables, the cache and the published notifications alone; they neither open nor close the
  transaction, and an aborted one stays aborted.
\<close>

definition tx_frame :: "world \<Rightarrow> world \<Rightarrow> bool" where
  "tx_frame w w' \<longleftrightarrow> pg w' = pg w \<and> cache w' = cache w \<and> published w' = published w
     \<and> (tx w = NoTx \<longrightarrow> tx w' = NoTx) \<and> (tx w = AbortedTx \<longrightarrow> tx w' = AbortedTx)
     \<and> (\<forall>d. tx w = OpenTx d \<longrightarrow> tx w' \<noteq> NoTx)"

interpretation tx_frame: frame tx_frame
proof
  show "tx_frame s s" for s by (simp add: tx_frame_def)
  show "tx_frame s u" if "tx_frame s t" "tx_frame t u" for s t u
    using that by (cases "tx s"; cases "tx t") (simp_all add: tx_frame_def)
qed

lemma keeps_stmt_Tx [frame_intro]: "keeps tx_frame (stmt E Tx f)"
  by (rule keepsI)
     (auto simp: tx_frame_def stmt_def Let_def abort_tx_def
        split: option.split txstate.split sum.split prod.split)

lemma keeps_query [frame_intro]: "keeps tx_frame (query E h g)"
  by (rule keepsI)
     (auto simp: tx_frame_def query_def stmt_def Let_def abort_tx_def
        split: option.split txstate.split handle.split)

lemma keeps_ulid_Make [frame_intro]: "keeps tx_frame (ulid_Make E)"
  by (rule keepsI) (simp add: tx_frame_def ulid_Make_def)

lemma keeps_time_Now [frame_intro]: "keeps tx_frame (time_Now E)"
  by (rule keepsI) (simp add: tx_frame_def time_Now_def)

subsection \<open>What a program does to the open transaction\<close>

text \<open>
  \<open>does m R\<close>: started inside a transaction whose view is \<open>d\<close>, the program ends with outcome
  \<open>r\<close> and either the transaction is aborted or its view is a \<open>d'\<close> with \<open>R d r d'\<close>; started
  in an aborted transaction it leaves it aborted. The rules follow the combinators, so that
  the effect of a whole handler is computed from the effects of its statements.
\<close>

definition does :: "'a prog \<Rightarrow> (db \<Rightarrow> error + 'a \<Rightarrow> db \<Rightarrow> bool) \<Rightarrow> bool" where
  "does m R \<longleftrightarrow> (\<forall>w r w'. m w = (r, w') \<longrightarrow>
     (tx w = AbortedTx \<longrightarrow> tx w' = AbortedTx) \<and>
     (\<forall>d. tx w = OpenTx d \<longrightarrow> tx w' = AbortedTx \<or> (\<exists>d'. tx w' = OpenTx d' \<and> R d r d')))"

named_theorems does_intro \<open>effects of programs on the open transaction\<close>

lemma doesI:
  assumes "\<And>w r w'. m w = (r, w') \<Longrightarrow> tx w = AbortedTx \<Longrightarrow> tx w' = AbortedTx"
    and "\<And>w r w' d. m w = (r, w') \<Longrightarrow> tx w = OpenTx d \<Longrightarrow>
           tx w' = AbortedTx \<or> (\<exists>d'. tx w' = OpenTx d' \<and> R d r d')"
  shows "does m R"
  using assms unfolding does_def by blast

lemma does_open:
  "does m R \<Longrightarrow> m w = (r, w') \<Longrightarrow> tx w = OpenTx d \<Longrightarrow>
     tx w' = AbortedTx \<or> (\<exists>d'. tx w' = OpenTx d' \<and> R d r d')"
  unfolding does_def by blast

lemma does_weaken:
  "does m R \<Longrightarrow> (\<And>d r d'. R d r d' \<Longrightarrow> S d r d') \<Longrightarrow> does m S"
  unfolding does_def by blast

lemma does_conj: "does m R \<Longrightarrow> does m S \<Longrightarrow> does m (\<lambda>d r d'. R d r d' \<and> S d r d')"
  unfolding does_def by (metis txstate.distinct(6) txstate.inject)

lemma does_pure: "(\<And>w. snd (m w) = w) \<Longrightarrow> (\<And>w. R (fst (m w))) \<Longrightarrow> does m (\<lambda>d r d'. d' = d \<and> R r)"
  unfolding does_def by (metis fst_conv snd_conv)

lemma does_ok [does_intro]: "does (ok x) (\<lambda>d r d'. r = Inr x \<and> d' = d)"
  by (simp add: does_def)

lemma does_fail [does_intro]: "does (fail e) (\<lambda>d r d'. r = Inl e \<and> d' = d)"
  by (simp add: does_def)

lemma does_ofSum [does_intro]: "does (ofSum v) (\<lambda>d r d'. r = v \<and> d' = d)"
  by (simp add: does_def)

lemma does_ofErr [does_intro]:
  "does (ofErr v) (\<lambda>d r d'. d' = d \<and> (\<forall>x. r = Inr x \<longrightarrow> v = None))"
  by (simp add: does_def ofErr_def split: option.split)

lemma does_andThen [does_intro]:
  assumes "does m R" and "\<And>x. does (f x) (S x)"
  shows "does (andThen m f)
    (\<lambda>d r d''. (\<exists>e. r = Inl e \<and> R d (Inl e) d'') \<or> (\<exists>x d'. R d (Inr x) d' \<and> S x d' r d''))"
proof (rule doesI)
  fix w r w'' assume run: "andThen m f w = (r, w'')"
  obtain q w' where m: "m w = (q, w')" by (cases "m w")
  show "tx w'' = AbortedTx" if "tx w = AbortedTx"
    using that run m assms unfolding does_def
    by (cases q) (fastforce simp: andThen_def)+
  fix d assume d: "tx w = OpenTx d"
  from does_open [OF assms(1) m d]
  show "tx w'' = AbortedTx \<or> (\<exists>d''. tx w'' = OpenTx d'' \<and>
      ((\<exists>e. r = Inl e \<and> R d (Inl e) d'') \<or> (\<exists>x d'. R d (Inr x) d' \<and> S x d' r d'')))"
  proof (cases q)
    case (Inl e)
    then show ?thesis using run m does_open [OF assms(1) m d] by (auto simp: andThen_def)
  next
    case (Inr x)
    with run m have f: "f x w' = (r, w'')" by (simp add: andThen_def)
    from does_open [OF assms(1) m d] show ?thesis
    proof
      assume "tx w' = AbortedTx"
      then show ?thesis using assms(2) f unfolding does_def by blast
    next
      assume "\<exists>d'. tx w' = OpenTx d' \<and> R d q d'"
      then show ?thesis using does_open [OF assms(2) f] Inr by blast
    qed
  qed
qed

lemma does_attempt [does_intro]:
  assumes "does m R" and "\<And>x. does (k x) (S x)"
  shows "does (attempt m k) (\<lambda>d r d''. \<exists>x d'. R d x d' \<and> S x d' r d'')"
proof (rule doesI)
  fix w r w'' assume run: "attempt m k w = (r, w'')"
  obtain q w' where m: "m w = (q, w')" by (cases "m w")
  with run have k: "k q w' = (r, w'')" by (simp add: attempt_def)
  show "tx w'' = AbortedTx" if "tx w = AbortedTx"
    using that k m assms unfolding does_def by blast
  fix d assume d: "tx w = OpenTx d"
  from does_open [OF assms(1) m d]
  show "tx w'' = AbortedTx \<or> (\<exists>d''. tx w'' = OpenTx d'' \<and> (\<exists>x d'. R d x d' \<and> S x d' r d''))"
    using does_open [OF assms(2) k] assms(2) k unfolding does_def by blast
qed

lemma does_mapErr [does_intro]:
  assumes "does m R"
  shows "does (mapErr g m)
    (\<lambda>d r d'. (\<exists>e. r = Inl (g e) \<and> R d (Inl e) d') \<or> (\<exists>x. r = Inr x \<and> R d (Inr x) d'))"
proof (rule doesI)
  fix w r w' assume run: "mapErr g m w = (r, w')"
  obtain q w1 where m: "m w = (q, w1)" by (cases "m w")
  with run have w1: "w1 = w'" and r: "r = (case q of Inl e \<Rightarrow> Inl (g e) | Inr x \<Rightarrow> Inr x)"
    by (auto simp: mapErr_def split: sum.splits)
  show "tx w' = AbortedTx" if "tx w = AbortedTx"
    using that assms m w1 unfolding does_def by blast
  fix d assume d: "tx w = OpenTx d"
  from does_open [OF assms m d] w1 r
  show "tx w' = AbortedTx \<or> (\<exists>d'. tx w' = OpenTx d' \<and>
      ((\<exists>e. r = Inl (g e) \<and> R d (Inl e) d') \<or> (\<exists>x. r = Inr x \<and> R d (Inr x) d')))"
    by (cases q) auto
qed

lemma does_whenM [does_intro]:
  "(b \<Longrightarrow> does m R) \<Longrightarrow> does (whenM b m) (\<lambda>d r d'. if b then R d r d' else r = Inr () \<and> d' = d)"
  by (simp add: whenM_def does_ok)

lemma does_if [does_intro]:
  "(b \<Longrightarrow> does m R) \<Longrightarrow> (\<not> b \<Longrightarrow> does n S) \<Longrightarrow>
     does (if b then m else n) (\<lambda>d r d'. if b then R d r d' else S d r d')"
  by simp

lemma does_case_option [does_intro]:
  "does m R \<Longrightarrow> (\<And>x. does (f x) (S x)) \<Longrightarrow>
     does (case v of None \<Rightarrow> m | Some x \<Rightarrow> f x)
       (\<lambda>d r d'. case v of None \<Rightarrow> R d r d' | Some x \<Rightarrow> S x d r d')"
  by (cases v) simp_all

lemma does_case_sum [does_intro]:
  "(\<And>x. does (f x) (R x)) \<Longrightarrow> (\<And>x. does (g x) (S x)) \<Longrightarrow>
     does (case v of Inl x \<Rightarrow> f x | Inr x \<Rightarrow> g x)
       (\<lambda>d r d'. case v of Inl x \<Rightarrow> R x d r d' | Inr x \<Rightarrow> S x d r d')"
  by (cases v) simp_all

lemma does_case_prod [does_intro]:
  "(\<And>x y. does (f x y) (R x y)) \<Longrightarrow>
     does (case p of (x, y) \<Rightarrow> f x y) (\<lambda>d r d'. case p of (x, y) \<Rightarrow> R x y d r d')"
  by (cases p) simp

text \<open>A loop over a list: the views between the iterations, when it runs to the end.\<close>

fun iterates :: "('x \<Rightarrow> db \<Rightarrow> error + unit \<Rightarrow> db \<Rightarrow> bool) \<Rightarrow> 'x list \<Rightarrow> db \<Rightarrow> error + unit \<Rightarrow> db \<Rightarrow> bool" where
  "iterates R [] d r d' = (r = Inr () \<and> d' = d)"
| "iterates R (x # xs) d r d'' =
     ((\<exists>e. r = Inl e \<and> R x d (Inl e) d'') \<or> (\<exists>d'. R x d (Inr ()) d' \<and> iterates R xs d' r d''))"

lemma does_forM [does_intro]:
  assumes "\<And>x. does (f x) (R x)"
  shows "does (forM f xs) (iterates R xs)"
proof (induction xs)
  case Nil
  show ?case by (simp add: does_def)
next
  case (Cons x xs)
  have "does (andThen (f x) (\<lambda>_. forM f xs))
    (\<lambda>d r d''. (\<exists>e. r = Inl e \<and> R x d (Inl e) d'') \<or> (\<exists>u d'. R x d (Inr u) d' \<and> iterates R xs d' r d''))"
    by (rule does_andThen [OF assms Cons.IH])
  then show ?case by (simp add: does_weaken)
qed

lemma iterates_exec:
  assumes "\<And>x d d'. R x d (Inr ()) d' \<Longrightarrow> P x d \<and> d' = u x d"
    and "iterates R xs d (Inr ()) d'"
  shows "d' = fold u xs d"
  using assms(2)
proof (induction xs arbitrary: d)
  case (Cons x xs)
  then obtain d1 where "R x d (Inr ()) d1" "iterates R xs d1 (Inr ()) d'" by auto
  with Cons.IH assms(1) show ?case by fastforce
qed simp

lemma iterates_mono:
  "iterates R xs d r d' \<Longrightarrow> (\<And>x d r d'. R x d r d' \<Longrightarrow> S x d r d') \<Longrightarrow> iterates S xs d r d'"
  by (induction xs arbitrary: d) (simp, fastforce)

subsubsection \<open>Statements\<close>

lemma does_stmt:
  "does (stmt E Tx f) (\<lambda>d r d'. \<exists>x now. r = Inr x \<and> f now d = Inr (x, d'))"
  by (auto simp: does_def stmt_def Let_def abort_tx_def split: option.splits sum.splits)

lemma does_query [does_intro]:
  "does (query E Tx g) (\<lambda>d r d'. d' = d \<and> (\<exists>now. r = Inr (g now d)))"
  unfolding query_def by (rule does_weaken [OF does_stmt]) auto

lemma does_query_Pool [does_intro]: "does (query E Pool g) (\<lambda>d r d'. d' = d)"
  by (auto simp: does_def query_def stmt_def Let_def abort_tx_def split: option.splits)

lemma does_ulid_Make [does_intro]: "does (ulid_Make E) (\<lambda>d r d'. d' = d \<and> (\<exists>k. r = Inr (ulid E k)))"
  by (auto simp: does_def ulid_Make_def)

lemma does_time_Now [does_intro]: "does (time_Now E) (\<lambda>d r d'. d' = d \<and> (\<exists>k. r = Inr (clock E k)))"
  by (auto simp: does_def time_Now_def)

subsection \<open>Waiting\<close>

text \<open>
  \<open>select { case <-ctx.Done(): ... case <-time.After(backoff + jitter): }\<close> with a jitter below
  the backoff: the wait is recorded, and the result says whether the context was cancelled.
\<close>

definition sleep :: "env \<Rightarrow> time \<Rightarrow> bool prog" where
  "sleep E backoff w =
     (let k = length (waits w) in
      (Inr (ctx_done E k), w\<lparr>waits := waits w @ [backoff + jitter E k mod backoff]\<rparr>))"

lemma keeps_sleep [frame_intro]: "keeps tx_frame (sleep E b)"
  by (rule keepsI) (simp add: tx_frame_def sleep_def Let_def)

lemma does_sleep [does_intro]: "does (sleep E b) (\<lambda>d r d'. d' = d)"
  by (auto simp: does_def sleep_def Let_def)

end
