(* ===== verification/Store_Ledger.thy ===== *)
theory Store_Ledger
  imports Storage
begin

text \<open>
  The PostgreSQL store, first part (\<^verbatim>\<open>src/internal/storage/postgres\<close>): the helpers of
  \<^verbatim>\<open>store.go\<close>, the ledger catalog, the event log, idempotency keys, accounts, transactions
  and volumes. Each function issues its statement through \<open>stmt\<close> or \<open>query\<close>; the
  statement itself is a function on the tables, with the constraints of the migrations
  (primary keys, unique constraints, conflict clauses) written out. Every operation comes with
  its effect on the open transaction.
\<close>

subsection \<open>Helpers\<close>

definition maxPageSize :: int where
  "maxPageSize = 1000"

definition parseBigInt :: "string \<Rightarrow> string \<Rightarrow> error + int" where
  "parseBigInt s fld =
     (case SetString s of
        None \<Rightarrow> Inl (Errorf (''invalid '' @ fld @ '' value: '' @ quoted s))
      | Some v \<Rightarrow> Inr v)"

text \<open>\<open>errors.As(err, &pgErr)\<close> and the SQLSTATE it exposes.\<close>

fun pg_code :: "error \<Rightarrow> sqlstate option" where
  "pg_code (Wrap p e s) = pg_code e"
| "pg_code (PgError c) = Some c"
| "pg_code _ = None"

definition isUniqueViolation :: "error \<Rightarrow> bool" where
  "isUniqueViolation e \<longleftrightarrow> pg_code e = Some UniqueViolation"

definition isDeadlock :: "error \<Rightarrow> bool" where
  "isDeadlock e \<longleftrightarrow> pg_code e = Some DeadlockDetected"

definition nullIfEmpty :: "string \<Rightarrow> string option" where
  "nullIfEmpty s = (if s = [] then None else Some s)"

lemma parseBigInt_String [simp]: "parseBigInt (int_String i) fld = Inr i"
  by (simp add: parseBigInt_def)

text \<open>The paging code shared by the list functions: at most \<open>PageSize\<close> rows and, when one more
  was fetched, its identifier as the next token.\<close>

definition page_limit :: "ListParams \<Rightarrow> int" where
  "page_limit params =
     (let n = (if PageSize params \<le> 0 then 100 else PageSize params) in
      if n > maxPageSize then maxPageSize else n)"

definition page_of :: "('a \<Rightarrow> string) \<Rightarrow> int \<Rightarrow> 'a list \<Rightarrow> 'a list \<times> string" where
  "page_of ident limit result =
     (if int (length result) > limit then (take (nat limit) result, ident (result ! nat limit))
      else (result, []))"

text \<open>\<open>json.Unmarshal\<close> of a \<open>jsonb\<close> column into a \<open>map[string]string\<close>.\<close>

definition string_map_of_json :: "json \<Rightarrow> error + (string \<times> string) list option" where
  "string_map_of_json j =
     (case j of
        JNull \<Rightarrow> Inr None
      | JObj kvs \<Rightarrow>
          (if list_all (\<lambda>(k, v). case v of JStr _ \<Rightarrow> True | JNull \<Rightarrow> True | _ \<Rightarrow> False) kvs
           then Inr (Some (map (\<lambda>(k, v). (k, case v of JStr s \<Rightarrow> s | _ \<Rightarrow> [])) kvs))
           else Inl (Errorf ''json: cannot unmarshal into Go value of type string''))
      | _ \<Rightarrow> Inl (Errorf ''json: cannot unmarshal into Go value of type map[string]string''))"

definition json_of_string_map :: "(string \<times> string) list option \<Rightarrow> json" where
  "json_of_string_map m =
     (case m of None \<Rightarrow> JNull | Some kvs \<Rightarrow> json_map (map (\<lambda>(k, v). (k, JStr v)) kvs))"

subsection \<open>Ledger catalog\<close>

definition ledger_record :: "ledger_row \<Rightarrow> error + LedgerRecord" where
  "ledger_record r =
     (case string_map_of_json (lg_metadata r) of
        Inl e \<Rightarrow> Inl (wrapped ''unmarshaling metadata: '' e)
      | Inr md \<Rightarrow>
          (case string_map_of_json (lg_features r) of
             Inl e \<Rightarrow> Inl (wrapped ''unmarshaling features: '' e)
           | Inr ft \<Rightarrow>
               Inr \<lparr>lr_ID = lg_id r, lr_BucketID = lg_bucket_id r, lr_State = lg_state r,
                    lr_Features = ft, lr_Metadata = md, lr_CreatedAt = lg_created_at r,
                    lr_SealedAt = lg_sealed_at r, lr_IssuerAccounts = lg_issuer_accounts r\<rparr>))"

definition insert_bucket_sql :: "string \<Rightarrow> unit sql" where
  "insert_bucket_sql b now d =
     Inr ((), if b \<in> set (buckets d) then d else d\<lparr>buckets := buckets d @ [b]\<rparr>)"

definition insert_ledger_sql :: "string \<Rightarrow> string \<Rightarrow> json \<Rightarrow> ledger_row sql" where
  "insert_ledger_sql i b md now d =
     (if i \<in> lg_id ` set (ledgers d) then Inl UniqueViolation
      else if b \<notin> set (buckets d) then Inl ForeignKeyViolation
      else let r = \<lparr>lg_id = i, lg_bucket_id = b, lg_state = ''in-use'', lg_features = JObj [],
                    lg_metadata = md, lg_created_at = now, lg_sealed_at = None,
                    lg_issuer_accounts = [''_world'']\<rparr>
           in Inr (r, d\<lparr>ledgers := ledgers d @ [r]\<rparr>))"

definition CreateLedger :: "env \<Rightarrow> handle \<Rightarrow> CreateLedgerParams \<Rightarrow> LedgerRecord prog" where
  "CreateLedger E h params =
     (let bucketID = (if clp_BucketID params = [] then ''_default'' else clp_BucketID params) in
      andThen (mapErr (wrapped ''ensuring bucket: '') (stmt E h (insert_bucket_sql bucketID))) (\<lambda>_.
      andThen (mapErr (\<lambda>e. if isUniqueViolation e
                then suffixed ErrAlreadyExists ('': ledger '' @ quoted (clp_ID params))
                else wrapped ''inserting ledger: '' e)
              (stmt E h (insert_ledger_sql (clp_ID params) bucketID
                 (json_of_string_map (clp_Metadata params))))) (\<lambda>r.
      ofSum (ledger_record r))))"

definition find_ledger :: "string \<Rightarrow> db \<Rightarrow> ledger_row option" where
  "find_ledger i d = find (\<lambda>r. lg_id r = i) (ledgers d)"

definition GetLedger :: "env \<Rightarrow> handle \<Rightarrow> string \<Rightarrow> LedgerRecord prog" where
  "GetLedger E h i =
     andThen (mapErr (wrapped ''getting ledger: '') (query E h (\<lambda>now. find_ledger i))) (\<lambda>row.
     case row of
       None \<Rightarrow> fail (suffixed ErrNotFound ('': ledger '' @ quoted i))
     | Some r \<Rightarrow> ofSum (ledger_record r))"

primrec mapSum :: "('a \<Rightarrow> error + 'b) \<Rightarrow> 'a list \<Rightarrow> error + 'b list" where
  "mapSum f [] = Inr []"
| "mapSum f (x # xs) =
     (case f x of
        Inl e \<Rightarrow> Inl e
      | Inr y \<Rightarrow> (case mapSum f xs of Inl e \<Rightarrow> Inl e | Inr ys \<Rightarrow> Inr (y # ys)))"

definition ListLedgers :: "env \<Rightarrow> handle \<Rightarrow> ListParams \<Rightarrow> (LedgerRecord list \<times> string) prog" where
  "ListLedgers E h params =
     (let limit = page_limit params in
      andThen (mapErr (wrapped ''listing ledgers: '') (query E h (\<lambda>now d.
         take (nat (limit + 1)) (sort_key lg_id
           (filter (\<lambda>r. PageToken params = [] \<or> lg_id r > PageToken params) (ledgers d)))))) (\<lambda>rows.
      andThen (ofSum (mapSum ledger_record rows)) (\<lambda>result.
      ok (page_of lr_ID limit result))))"

definition seal_ledger_sql :: "string \<Rightarrow> ledger_row option sql" where
  "seal_ledger_sql i now d =
     (case find (\<lambda>r. lg_id r = i \<and> lg_state r = ''in-use'') (ledgers d) of
        None \<Rightarrow> Inr (None, d)
      | Some r \<Rightarrow>
          let r' = r\<lparr>lg_state := ''sealed'', lg_sealed_at := Some now\<rparr> in
          Inr (Some r', d\<lparr>ledgers := map (\<lambda>q. if lg_id q = i \<and> lg_state q = ''in-use'' then r' else q)
            (ledgers d)\<rparr>))"

definition SealLedger :: "env \<Rightarrow> handle \<Rightarrow> string \<Rightarrow> LedgerRecord prog" where
  "SealLedger E h i =
     andThen (mapErr (wrapped ''sealing ledger: '') (stmt E h (seal_ledger_sql i))) (\<lambda>row.
     case row of
       None \<Rightarrow> fail (suffixed ErrNotFound ('': ledger '' @ quoted i @ '' (may be sealed or not exist)''))
     | Some r \<Rightarrow> ofSum (ledger_record r))"

subsection \<open>The log\<close>

text \<open>\<open>COALESCE(MAX(ledger_seq), 0) + 1\<close> over the events of a ledger.\<close>

definition seqs :: "string \<Rightarrow> db \<Rightarrow> int list" where
  "seqs l d = map ev_LedgerSeq (filter (\<lambda>e. ev_LedgerID e = l) (log_events d))"

definition next_seq :: "string \<Rightarrow> db \<Rightarrow> int" where
  "next_seq l d = (case seqs l d of [] \<Rightarrow> 0 | n # ns \<Rightarrow> fold max ns n) + 1"

definition NextLedgerSeq :: "env \<Rightarrow> string \<Rightarrow> int prog" where
  "NextLedgerSeq E ledgerID =
     andThen (mapErr (\<lambda>e. if isDeadlock e then ErrDeadlock else wrapped ''locking ledger for seq: '' e)
       (query E Tx (\<lambda>now d. ()))) (\<lambda>_.
     query E Tx (\<lambda>now. next_seq ledgerID))"

definition event_conflict :: "LogEventRecord \<Rightarrow> LogEventRecord \<Rightarrow> bool" where
  "event_conflict e r \<longleftrightarrow> ev_EventID r = ev_EventID e
     \<or> ev_LedgerID r = ev_LedgerID e \<and> ev_LedgerSeq r = ev_LedgerSeq e
     \<or> ev_LedgerID r = ev_LedgerID e \<and> ev_IdempotencyKey e \<noteq> [] \<and>
       ev_IdempotencyKey r = ev_IdempotencyKey e"

definition append_event_sql :: "LogEventRecord \<Rightarrow> unit sql" where
  "append_event_sql e now d =
     (if list_ex (event_conflict e) (log_events d) then Inl UniqueViolation
      else Inr ((), d\<lparr>log_events := log_events d @ [e]\<rparr>))"

definition AppendLogEvent :: "env \<Rightarrow> handle \<Rightarrow> LogEventRecord \<Rightarrow> unit prog" where
  "AppendLogEvent E h event =
     mapErr (\<lambda>e. if isUniqueViolation e then ErrIdempotencyKeyConflict
                 else if isDeadlock e then ErrDeadlock
                 else wrapped ''appending log event: '' e)
       (stmt E h (append_event_sql event))"

definition GetLogEvent :: "env \<Rightarrow> handle \<Rightarrow> string \<Rightarrow> string \<Rightarrow> LogEventRecord prog" where
  "GetLogEvent E h ledgerID eventID =
     andThen (mapErr (wrapped ''getting log event: '') (query E h (\<lambda>now d.
       find (\<lambda>r. ev_LedgerID r = ledgerID \<and> ev_EventID r = eventID) (log_events d)))) (\<lambda>row.
     case row of
       None \<Rightarrow> fail (suffixed ErrNotFound ('': log event '' @ quoted eventID))
     | Some r \<Rightarrow> ok r)"

definition ListLogEventsByIdempotencyKey ::
  "env \<Rightarrow> handle \<Rightarrow> string \<Rightarrow> string \<Rightarrow> LogEventRecord list prog" where
  "ListLogEventsByIdempotencyKey E h ledgerID idempotencyKey =
     (if idempotencyKey = [] then ok []
      else mapErr (wrapped ''listing log events by idempotency key: '') (query E h (\<lambda>now d.
        sort_key ev_LedgerSeq (filter (\<lambda>r. ev_LedgerID r = ledgerID \<and>
          ev_IdempotencyKey r = idempotencyKey) (log_events d)))))"

definition list_events_rows :: "string \<Rightarrow> string \<Rightarrow> int \<Rightarrow> db \<Rightarrow> LogEventRecord list" where
  "list_events_rows ledgerID token n d =
     take (nat n) (sort_key ev_LedgerSeq
       (filter (\<lambda>r. ev_LedgerID r = ledgerID \<and> (token = [] \<or> ev_EventID r > token)) (log_events d)))"

definition ListLogEvents ::
  "env \<Rightarrow> handle \<Rightarrow> string \<Rightarrow> ListParams \<Rightarrow> (LogEventRecord list \<times> string) prog" where
  "ListLogEvents E h ledgerID params =
     (let limit = page_limit params in
      andThen (mapErr (wrapped ''listing log events: '')
        (query E h (\<lambda>now. list_events_rows ledgerID (PageToken params) (limit + 1)))) (\<lambda>result.
      ok (page_of ev_EventID limit result)))"

subsection \<open>Idempotency keys\<close>

definition find_key :: "string \<Rightarrow> string \<Rightarrow> db \<Rightarrow> IdempotencyKeyRecord option" where
  "find_key l k d =
     find (\<lambda>r. ik_LedgerID r = l \<and> ik_IdempotencyKey r = k) (idempotency_keys d)"

definition GetIdempotencyKey :: "env \<Rightarrow> handle \<Rightarrow> string \<Rightarrow> string \<Rightarrow> IdempotencyKeyRecord option prog" where
  "GetIdempotencyKey E h ledgerID key = query E h (\<lambda>now. find_key ledgerID key)"

definition insert_key_sql :: "IdempotencyKeyRecord \<Rightarrow> unit sql" where
  "insert_key_sql r now d =
     (if find_key (ik_LedgerID r) (ik_IdempotencyKey r) d \<noteq> None then Inl UniqueViolation
      else Inr ((), d\<lparr>idempotency_keys := idempotency_keys d @ [r\<lparr>ik_CreatedAt := now\<rparr>]\<rparr>))"

definition InsertIdempotencyKey :: "env \<Rightarrow> handle \<Rightarrow> IdempotencyKeyRecord \<Rightarrow> unit prog" where
  "InsertIdempotencyKey E h record =
     mapErr (\<lambda>e. if isUniqueViolation e then ErrIdempotencyKeyConflict else e)
       (stmt E h (insert_key_sql record))"

subsection \<open>Accounts\<close>

definition upsert_account_sql :: "AccountRecord \<Rightarrow> unit sql" where
  "upsert_account_sql a now d =
     (let mj = json_of_metadata (ac_Metadata a) in
      if list_ex (\<lambda>r. ar_ledger_id r = ac_LedgerID a \<and> ar_address r = ac_Address a) (accounts d)
      then Inr ((), d\<lparr>accounts := map (\<lambda>r.
             if ar_ledger_id r = ac_LedgerID a \<and> ar_address r = ac_Address a
             then r\<lparr>ar_updated_at := ac_UpdatedAt a, ar_metadata := jsonb_concat (ar_metadata r) mj\<rparr>
             else r) (accounts d)\<rparr>)
      else Inr ((), d\<lparr>accounts := accounts d @ [\<lparr>ar_ledger_id = ac_LedgerID a,
             ar_address = ac_Address a, ar_first_usage = ac_FirstUsage a,
             ar_updated_at = ac_UpdatedAt a, ar_metadata = mj\<rparr>]\<rparr>))"

definition UpsertAccount :: "env \<Rightarrow> handle \<Rightarrow> AccountRecord \<Rightarrow> unit prog" where
  "UpsertAccount E h account =
     mapErr (wrapped (''upserting account '' @ ac_Address account @ '': ''))
       (stmt E h (upsert_account_sql account))"

definition account_record :: "account_row \<Rightarrow> error + AccountRecord" where
  "account_record r =
     (case metadata_of_json (ar_metadata r) of
        Inl e \<Rightarrow> Inl (wrapped ''unmarshaling metadata: '' e)
      | Inr md \<Rightarrow> Inr \<lparr>ac_LedgerID = ar_ledger_id r, ac_Address = ar_address r,
          ac_FirstUsage = ar_first_usage r, ac_UpdatedAt = ar_updated_at r, ac_Metadata = md\<rparr>)"

definition find_account :: "string \<Rightarrow> string \<Rightarrow> db \<Rightarrow> account_row option" where
  "find_account l a d = find (\<lambda>r. ar_ledger_id r = l \<and> ar_address r = a) (accounts d)"

definition GetAccount :: "env \<Rightarrow> handle \<Rightarrow> string \<Rightarrow> string \<Rightarrow> AccountRecord prog" where
  "GetAccount E h ledgerID address =
     andThen (query E h (\<lambda>now. find_account ledgerID address)) (\<lambda>row.
     case row of
       None \<Rightarrow> fail (suffixed ErrNotFound ('': account '' @ quoted address))
     | Some r \<Rightarrow> ofSum (account_record r))"

definition ListAccounts ::
  "env \<Rightarrow> handle \<Rightarrow> string \<Rightarrow> ListParams \<Rightarrow> (AccountRecord list \<times> string) prog" where
  "ListAccounts E h ledgerID params =
     (let limit = page_limit params in
      andThen (query E h (\<lambda>now d.
         take (nat (limit + 1)) (sort_key ar_address
           (filter (\<lambda>r. ar_ledger_id r = ledgerID \<and>
              (PageToken params = [] \<or> ar_address r > PageToken params)) (accounts d))))) (\<lambda>rows.
      andThen (ofSum (mapSum account_record rows)) (\<lambda>result.
      ok (page_of ac_Address limit result))))"

subsection \<open>Transactions\<close>

definition insert_transaction_sql :: "TransactionRecord \<Rightarrow> unit sql" where
  "insert_transaction_sql t now d =
     (let ref = nullIfEmpty (tx_Reference t) in
      if list_ex (\<lambda>r. tr_ledger_id r = tx_LedgerID t \<and>
             (tr_transaction_id r = tx_TransactionID t \<or> ref \<noteq> None \<and> tr_reference r = ref))
           (transactions d)
      then Inl UniqueViolation
      else Inr ((), d\<lparr>transactions := transactions d @ [\<lparr>tr_ledger_id = tx_LedgerID t,
             tr_transaction_id = tx_TransactionID t, tr_event_id = tx_EventID t,
             tr_valid_time = tx_ValidTime t, tr_system_time = tx_SystemTime t,
             tr_reference = ref, tr_postings = tx_Postings t,
             tr_metadata = json_of_metadata (tx_Metadata t)\<rparr>]\<rparr>))"

definition InsertTransaction :: "env \<Rightarrow> handle \<Rightarrow> TransactionRecord \<Rightarrow> unit prog" where
  "InsertTransaction E h t =
     mapErr (\<lambda>e. if isUniqueViolation e then ErrTransactionReferenceConflict else e)
       (stmt E h (insert_transaction_sql t))"

definition transaction_record :: "transaction_row \<Rightarrow> error + TransactionRecord" where
  "transaction_record r =
     (case metadata_of_json (tr_metadata r) of
        Inl e \<Rightarrow> Inl (wrapped ''unmarshaling metadata: '' e)
      | Inr md \<Rightarrow> Inr \<lparr>tx_LedgerID = tr_ledger_id r, tx_TransactionID = tr_transaction_id r,
          tx_EventID = tr_event_id r, tx_ValidTime = tr_valid_time r,
          tx_SystemTime = tr_system_time r,
          tx_Reference = (case tr_reference r of None \<Rightarrow> [] | Some s \<Rightarrow> s),
          tx_Postings = tr_postings r, tx_Metadata = md\<rparr>)"

definition find_transaction :: "string \<Rightarrow> string \<Rightarrow> db \<Rightarrow> transaction_row option" where
  "find_transaction l t d =
     find (\<lambda>r. tr_ledger_id r = l \<and> tr_transaction_id r = t) (transactions d)"

definition GetTransaction :: "env \<Rightarrow> handle \<Rightarrow> string \<Rightarrow> string \<Rightarrow> TransactionRecord prog" where
  "GetTransaction E h ledgerID txID =
     andThen (query E h (\<lambda>now. find_transaction ledgerID txID)) (\<lambda>row.
     case row of
       None \<Rightarrow> fail (suffixed ErrNotFound ('': transaction '' @ quoted txID))
     | Some r \<Rightarrow> ofSum (transaction_record r))"

text \<open>\<open>ORDER BY system_time DESC, transaction_id DESC\<close>.\<close>

definition newest_first :: "transaction_row list \<Rightarrow> transaction_row list" where
  "newest_first rs = rev (sort_key tr_system_time (sort_key tr_transaction_id rs))"

definition ListTransactions ::
  "env \<Rightarrow> handle \<Rightarrow> string \<Rightarrow> ListParams \<Rightarrow> (TransactionRecord list \<times> string) prog" where
  "ListTransactions E h ledgerID params =
     (let limit = page_limit params in
      andThen (query E h (\<lambda>now d.
         take (nat (limit + 1)) (newest_first
           (filter (\<lambda>r. tr_ledger_id r = ledgerID \<and>
              (PageToken params = [] \<or> tr_transaction_id r < PageToken params)) (transactions d))))) (\<lambda>rows.
      andThen (ofSum (mapSum transaction_record rows)) (\<lambda>result.
      ok (page_of tx_TransactionID limit result))))"

definition update_tx_metadata_sql :: "string \<Rightarrow> string \<Rightarrow> json \<Rightarrow> nat sql" where
  "update_tx_metadata_sql l t mj now d =
     (let hit = (\<lambda>r. tr_ledger_id r = l \<and> tr_transaction_id r = t) in
      Inr (length (filter hit (transactions d)), d\<lparr>transactions := map (\<lambda>r.
        if hit r then r\<lparr>tr_metadata := jsonb_concat (tr_metadata r) mj\<rparr> else r) (transactions d)\<rparr>))"

definition UpdateTransactionMetadata :: "env \<Rightarrow> handle \<Rightarrow> string \<Rightarrow> string \<Rightarrow> metadata \<Rightarrow> unit prog" where
  "UpdateTransactionMetadata E h ledgerID txID md =
     andThen (stmt E h (update_tx_metadata_sql ledgerID txID (json_of_metadata md))) (\<lambda>n.
     if n = 0 then fail (suffixed ErrNotFound ('': transaction '' @ txID)) else ok ())"

definition delete_tx_key_sql :: "string \<Rightarrow> string \<Rightarrow> string \<Rightarrow> nat sql" where
  "delete_tx_key_sql l t k now d =
     (let hit = (\<lambda>r. tr_ledger_id r = l \<and> tr_transaction_id r = t) in
      if list_ex (\<lambda>r. hit r \<and> (case jsonb_minus (tr_metadata r) k of Inl _ \<Rightarrow> True | Inr _ \<Rightarrow> False))
           (transactions d)
      then Inl InvalidParameterValue
      else Inr (length (filter hit (transactions d)), d\<lparr>transactions := map (\<lambda>r.
        if hit r then r\<lparr>tr_metadata := (case jsonb_minus (tr_metadata r) k of
            Inl _ \<Rightarrow> tr_metadata r | Inr j \<Rightarrow> j)\<rparr> else r) (transactions d)\<rparr>))"

definition DeleteTransactionMetadataKey :: "env \<Rightarrow> handle \<Rightarrow> string \<Rightarrow> string \<Rightarrow> string \<Rightarrow> unit prog" where
  "DeleteTransactionMetadataKey E h ledgerID txID key =
     andThen (stmt E h (delete_tx_key_sql ledgerID txID key)) (\<lambda>n.
     if n = 0 then fail (suffixed ErrNotFound ('': transaction '' @ txID)) else ok ())"

subsection \<open>Volumes\<close>

definition same_bucket :: "VolumeDeltaRecord \<Rightarrow> VolumeDeltaRecord \<Rightarrow> bool" where
  "same_bucket v r \<longleftrightarrow> vd_LedgerID r = vd_LedgerID v \<and> vd_Account r = vd_Account v \<and>
     vd_Asset r = vd_Asset v \<and> vd_Shard r = vd_Shard v \<and> vd_EventID r = vd_EventID v"

definition insert_volume_sql :: "VolumeDeltaRecord \<Rightarrow> unit sql" where
  "insert_volume_sql v now d =
     (if list_ex (same_bucket v) (volumes_delta d) then Inl UniqueViolation
      else Inr ((), d\<lparr>volumes_delta := volumes_delta d @ [v]\<rparr>))"

definition InsertVolumeDelta :: "env \<Rightarrow> handle \<Rightarrow> VolumeDeltaRecord \<Rightarrow> unit prog" where
  "InsertVolumeDelta E h delta = stmt E h (insert_volume_sql delta)"

definition as_of :: "time option \<Rightarrow> time option \<Rightarrow> VolumeDeltaRecord \<Rightarrow> bool" where
  "as_of asOfValid asOfSystem r \<longleftrightarrow>
     (case asOfValid of None \<Rightarrow> True | Some t \<Rightarrow> vd_ValidTime r \<le> t) \<and>
     (case asOfSystem of None \<Rightarrow> True | Some t \<Rightarrow> vd_SystemTime r \<le> t)"

definition in_bucket :: "string \<Rightarrow> string \<Rightarrow> string \<Rightarrow> VolumeDeltaRecord \<Rightarrow> bool" where
  "in_bucket l a s r \<longleftrightarrow> vd_LedgerID r = l \<and> vd_Account r = a \<and> vd_Asset r = s"

definition GetBalance ::
  "env \<Rightarrow> handle \<Rightarrow> string \<Rightarrow> string \<Rightarrow> string \<Rightarrow> time option \<Rightarrow> time option \<Rightarrow> BalanceResult prog" where
  "GetBalance E h ledgerID account asset asOfValid asOfSystem =
     andThen (mapErr (wrapped ''getting balance: '') (query E h (\<lambda>now d.
       let rows = filter (\<lambda>r. in_bucket ledgerID account asset r \<and> as_of asOfValid asOfSystem r)
                    (volumes_delta d)
       in (int_String (sum_list (map vd_InputDelta rows)),
           int_String (sum_list (map vd_OutputDelta rows)))))) (\<lambda>(inputStr, outputStr).
     andThen (ofSum (parseBigInt inputStr ''input_delta'')) (\<lambda>input.
     andThen (ofSum (parseBigInt outputStr ''output_delta'')) (\<lambda>output.
     ok \<lparr>br_Input = input, br_Output = output\<rparr>)))"

text \<open>
  \<open>LIKE ... ESCAPE\<close> on the pattern built by the four replacements: the backslash, percent
  and underscore of the glob are escaped, its star becomes the wildcard.
\<close>

definition like_pattern :: "string \<Rightarrow> string" where
  "like_pattern p = concat (map (\<lambda>c.
     if c = CHR 0x5C then [CHR 0x5C, CHR 0x5C]
     else if c = CHR ''%'' then [CHR 0x5C, CHR ''%'']
     else if c = CHR ''_'' then [CHR 0x5C, CHR ''_'']
     else if c = CHR ''*'' then ''%''
     else [c]) p)"

fun like :: "string \<Rightarrow> string \<Rightarrow> bool" where
  "like [] s = (s = [])"
| "like (c # p) s =
     (if c = CHR ''%'' then like p s \<or> (case s of [] \<Rightarrow> False | x # xs \<Rightarrow> like (c # p) xs)
      else if c = CHR ''_'' then (case s of [] \<Rightarrow> False | x # xs \<Rightarrow> like p xs)
      else if c = CHR 0x5C then
        (case p of
           [] \<Rightarrow> False
         | q # p' \<Rightarrow> (case s of [] \<Rightarrow> False | x # xs \<Rightarrow> x = q \<and> like p' xs))
      else (case s of [] \<Rightarrow> False | x # xs \<Rightarrow> x = c \<and> like p xs))"

definition GetAggregatedBalances ::
  "env \<Rightarrow> handle \<Rightarrow> string \<Rightarrow> string \<Rightarrow> time option \<Rightarrow> time option \<Rightarrow> (string \<times> int) list prog" where
  "GetAggregatedBalances E h ledgerID addressPattern asOfValid asOfSystem =
     andThen (mapErr (wrapped ''getting aggregated balances: '') (query E h (\<lambda>now d.
       let rows = filter (\<lambda>r. vd_LedgerID r = ledgerID \<and>
                      (addressPattern = [] \<or> like (like_pattern addressPattern) (vd_Account r)) \<and>
                      as_of asOfValid asOfSystem r) (volumes_delta d)
       in map (\<lambda>s. (s,
            int_String (sum_list (map vd_InputDelta (filter (\<lambda>r. vd_Asset r = s) rows))),
            int_String (sum_list (map vd_OutputDelta (filter (\<lambda>r. vd_Asset r = s) rows)))))
          (remdups (map vd_Asset rows))))) (\<lambda>rows.
     ofSum (mapSum (\<lambda>(s, inputStr, outputStr).
       case parseBigInt inputStr ''input_delta'' of
         Inl e \<Rightarrow> Inl e
       | Inr input \<Rightarrow>
           (case parseBigInt outputStr ''output_delta'' of
              Inl e \<Rightarrow> Inl e
            | Inr output \<Rightarrow> Inr (s, input - output))) rows))"

subsection \<open>Frames and effects\<close>

lemma keeps_GetLedger [frame_intro]: "keeps tx_frame (GetLedger E h i)"
  unfolding GetLedger_def by (intro tx_frame.keeps_rules frame_intro)

lemma keeps_NextLedgerSeq [frame_intro]: "keeps tx_frame (NextLedgerSeq E l)"
  unfolding NextLedgerSeq_def by (intro tx_frame.keeps_rules frame_intro)

lemma keeps_AppendLogEvent [frame_intro]: "keeps tx_frame (AppendLogEvent E Tx e)"
  unfolding AppendLogEvent_def by (intro tx_frame.keeps_rules frame_intro)

lemma keeps_ListLogEventsByIdempotencyKey [frame_intro]:
  "keeps tx_frame (ListLogEventsByIdempotencyKey E h l k)"
  unfolding ListLogEventsByIdempotencyKey_def by (intro tx_frame.keeps_rules frame_intro)

lemma keeps_GetIdempotencyKey [frame_intro]: "keeps tx_frame (GetIdempotencyKey E h l k)"
  unfolding GetIdempotencyKey_def by (intro tx_frame.keeps_rules frame_intro)

lemma keeps_InsertIdempotencyKey [frame_intro]: "keeps tx_frame (InsertIdempotencyKey E Tx r)"
  unfolding InsertIdempotencyKey_def by (intro tx_frame.keeps_rules frame_intro)

lemma keeps_UpsertAccount [frame_intro]: "keeps tx_frame (UpsertAccount E Tx a)"
  unfolding UpsertAccount_def by (intro tx_frame.keeps_rules frame_intro)

lemma keeps_GetAccount [frame_intro]: "keeps tx_frame (GetAccount E h l a)"
  unfolding GetAccount_def by (intro tx_frame.keeps_rules frame_intro)

lemma keeps_InsertTransaction [frame_intro]: "keeps tx_frame (InsertTransaction E Tx t)"
  unfolding InsertTransaction_def by (intro tx_frame.keeps_rules frame_intro)

lemma keeps_GetTransaction [frame_intro]: "keeps tx_frame (GetTransaction E h l t)"
  unfolding GetTransaction_def by (intro tx_frame.keeps_rules frame_intro)

lemma keeps_UpdateTransactionMetadata [frame_intro]:
  "keeps tx_frame (UpdateTransactionMetadata E Tx l t md)"
  unfolding UpdateTransactionMetadata_def by (intro tx_frame.keeps_rules frame_intro)

lemma keeps_DeleteTransactionMetadataKey [frame_intro]:
  "keeps tx_frame (DeleteTransactionMetadataKey E Tx l t k)"
  unfolding DeleteTransactionMetadataKey_def by (intro tx_frame.keeps_rules frame_intro)

lemma keeps_InsertVolumeDelta [frame_intro]: "keeps tx_frame (InsertVolumeDelta E Tx v)"
  unfolding InsertVolumeDelta_def by (intro tx_frame.keeps_rules frame_intro)

lemma keeps_GetBalance [frame_intro]: "keeps tx_frame (GetBalance E h l a s v t)"
  unfolding GetBalance_def by (intro tx_frame.keeps_rules frame_intro)

text \<open>Inside a transaction a statement that fails aborts it, so only the successful outcome
  leaves a view to speak about; a read that finds nothing leaves the view as it was.\<close>

lemma does_GetLedger [does_intro]:
  "does (GetLedger E Tx i) (\<lambda>d r d'. d' = d \<and>
     (\<forall>x. r = Inr x \<longrightarrow> (\<exists>row. find_ledger i d = Some row \<and> ledger_record row = Inr x)))"
  unfolding GetLedger_def
  by (rule does_weaken, (rule does_intro)+) (auto split: option.splits)

lemma does_NextLedgerSeq [does_intro]:
  "does (NextLedgerSeq E l) (\<lambda>d r d'. d' = d \<and> r = Inr (next_seq l d))"
  unfolding NextLedgerSeq_def
  by (rule does_weaken, (rule does_intro)+) auto

lemma does_AppendLogEvent [does_intro]:
  "does (AppendLogEvent E Tx e) (\<lambda>d r d'. r = Inr () \<and>
     list_all (\<lambda>x. \<not> event_conflict e x) (log_events d) \<and> d' = d\<lparr>log_events := log_events d @ [e]\<rparr>)"
  unfolding AppendLogEvent_def
  by (rule does_weaken, rule does_mapErr, rule does_stmt)
     (auto simp: append_event_sql_def list_ex_iff list_all_iff split: if_splits)

lemma does_InsertIdempotencyKey [does_intro]:
  "does (InsertIdempotencyKey E Tx k) (\<lambda>d r d'. r = Inr () \<and>
     find_key (ik_LedgerID k) (ik_IdempotencyKey k) d = None \<and>
     (\<exists>now. d' = d\<lparr>idempotency_keys := idempotency_keys d @ [k\<lparr>ik_CreatedAt := now\<rparr>]\<rparr>))"
  unfolding InsertIdempotencyKey_def
  by (rule does_weaken, rule does_mapErr, rule does_stmt)
     (auto simp: insert_key_sql_def split: if_splits)

text \<open>The upserts only touch the table of accounts.\<close>

definition upsert_account :: "AccountRecord \<Rightarrow> db \<Rightarrow> db" where
  "upsert_account a d = (case upsert_account_sql a 0 d of Inl _ \<Rightarrow> d | Inr (_, d') \<Rightarrow> d')"

lemma does_UpsertAccount [does_intro]:
  "does (UpsertAccount E Tx a) (\<lambda>d r d'. r = Inr () \<and> d' = upsert_account a d)"
  unfolding UpsertAccount_def
  by (rule does_weaken, rule does_mapErr, rule does_stmt)
     (auto simp: upsert_account_def upsert_account_sql_def Let_def split: if_splits)

lemma does_GetAccount [does_intro]:
  "does (GetAccount E Tx l a) (\<lambda>d r d'. d' = d \<and>
     (\<forall>x. r = Inr x \<longrightarrow> (\<exists>row. find_account l a d = Some row \<and> account_record row = Inr x)))"
  unfolding GetAccount_def
  by (rule does_weaken, (rule does_intro)+) (auto split: option.splits)

definition transaction_row_of :: "TransactionRecord \<Rightarrow> transaction_row" where
  "transaction_row_of t = \<lparr>tr_ledger_id = tx_LedgerID t,
     tr_transaction_id = tx_TransactionID t, tr_event_id = tx_EventID t,
     tr_valid_time = tx_ValidTime t, tr_system_time = tx_SystemTime t,
     tr_reference = nullIfEmpty (tx_Reference t), tr_postings = tx_Postings t,
     tr_metadata = json_of_metadata (tx_Metadata t)\<rparr>"

lemma does_InsertTransaction [does_intro]:
  "does (InsertTransaction E Tx t) (\<lambda>d r d'. r = Inr () \<and>
     find_transaction (tx_LedgerID t) (tx_TransactionID t) d = None \<and>
     d' = d\<lparr>transactions := transactions d @ [transaction_row_of t]\<rparr>)"
  unfolding InsertTransaction_def
  by (rule does_weaken, rule does_mapErr, rule does_stmt)
     (auto simp: insert_transaction_sql_def transaction_row_of_def find_transaction_def Let_def
        find_None_iff list_ex_iff split: if_splits)

lemma does_GetTransaction [does_intro]:
  "does (GetTransaction E Tx l t) (\<lambda>d r d'. d' = d \<and>
     (\<forall>x. r = Inr x \<longrightarrow> (\<exists>row. find_transaction l t d = Some row \<and> transaction_record row = Inr x)))"
  unfolding GetTransaction_def
  by (rule does_weaken, (rule does_intro)+) (auto split: option.splits)

lemma does_UpdateTransactionMetadata [does_intro]:
  "does (UpdateTransactionMetadata E Tx l t md) (\<lambda>d r d'.
     (r = Inr () \<longrightarrow> find_transaction l t d \<noteq> None) \<and>
     d' = d\<lparr>transactions := map (\<lambda>x. if tr_ledger_id x = l \<and> tr_transaction_id x = t
       then x\<lparr>tr_metadata := jsonb_concat (tr_metadata x) (json_of_metadata md)\<rparr> else x) (transactions d)\<rparr>)"
  unfolding UpdateTransactionMetadata_def
  by (rule does_weaken, (rule does_intro does_stmt)+)
     (auto simp: update_tx_metadata_sql_def find_transaction_def Let_def find_None_iff filter_empty_conv
        split: if_splits)

lemma does_DeleteTransactionMetadataKey [does_intro]:
  "does (DeleteTransactionMetadataKey E Tx l t k) (\<lambda>d r d'. \<exists>rows. d' = d\<lparr>transactions := rows\<rparr> \<and>
     map (\<lambda>x. x\<lparr>tr_metadata := JNull\<rparr>) rows = map (\<lambda>x. x\<lparr>tr_metadata := JNull\<rparr>) (transactions d))"
  unfolding DeleteTransactionMetadataKey_def
  by (rule does_weaken, (rule does_intro does_stmt)+)
     (auto simp: delete_tx_key_sql_def Let_def split: if_splits)

lemma does_InsertVolumeDelta [does_intro]:
  "does (InsertVolumeDelta E Tx v) (\<lambda>d r d'. r = Inr () \<and>
     list_all (\<lambda>x. \<not> same_bucket v x) (volumes_delta d) \<and>
     d' = d\<lparr>volumes_delta := volumes_delta d @ [v]\<rparr>)"
  unfolding InsertVolumeDelta_def
  by (rule does_weaken, rule does_stmt)
     (auto simp: insert_volume_sql_def list_ex_iff list_all_iff split: if_splits)

text \<open>Posted input and output of a bucket, and their difference.\<close>

definition total_input :: "string \<Rightarrow> string \<Rightarrow> string \<Rightarrow> db \<Rightarrow> int" where
  "total_input l a s d = sum_where (in_bucket l a s) vd_InputDelta (volumes_delta d)"

definition total_output :: "string \<Rightarrow> string \<Rightarrow> string \<Rightarrow> db \<Rightarrow> int" where
  "total_output l a s d = sum_where (in_bucket l a s) vd_OutputDelta (volumes_delta d)"

definition posted :: "string \<Rightarrow> string \<Rightarrow> string \<Rightarrow> db \<Rightarrow> int" where
  "posted l a s d = total_input l a s d - total_output l a s d"

lemma does_GetBalance [does_intro]:
  "does (GetBalance E Tx l a s None None) (\<lambda>d r d'. d' = d \<and>
     r = Inr \<lparr>br_Input = total_input l a s d, br_Output = total_output l a s d\<rparr>)"
  unfolding GetBalance_def
  by (rule does_weaken, (rule does_intro)+)
     (auto simp: total_input_def total_output_def sum_where_def as_of_def Let_def)

end
