(* ===== verification/Store_Governance.thy ===== *)
theory Store_Governance
  imports Store_Ledger
begin

text \<open>
  The PostgreSQL store, second part: metadata history and schemas (\<^verbatim>\<open>store_metadata.go\<close>),
  holds and transaction relationships (\<^verbatim>\<open>store_holds.go\<close>), policies and approvals
  (\<^verbatim>\<open>store_governance.go\<close>) under \<^verbatim>\<open>src/internal/storage/postgres\<close>.
\<close>

subsection \<open>Metadata history\<close>

definition insert_history_sql :: "MetadataHistoryRecord \<Rightarrow> unit sql" where
  "insert_history_sql m now d =
     (if list_ex (\<lambda>r. mr_ledger_id r = mh_LedgerID m \<and> mr_target_type r = mh_TargetType m \<and>
           mr_target_id r = mh_TargetID m \<and> mr_revision r = mh_Revision m) (metadata_history d)
      then Inl UniqueViolation
      else Inr ((), d\<lparr>metadata_history := metadata_history d @ [\<lparr>mr_ledger_id = mh_LedgerID m,
             mr_target_type = mh_TargetType m, mr_target_id = mh_TargetID m,
             mr_revision = mh_Revision m, mr_metadata = json_of_metadata (mh_Metadata m),
             mr_event_id = mh_EventID m, mr_system_time = mh_SystemTime m\<rparr>]\<rparr>))"

definition InsertMetadataHistory :: "env \<Rightarrow> handle \<Rightarrow> MetadataHistoryRecord \<Rightarrow> unit prog" where
  "InsertMetadataHistory E h record =
     mapErr (wrapped ''inserting metadata history: '') (stmt E h (insert_history_sql record))"

subsection \<open>Schemas\<close>

text \<open>\<open>json.Marshal\<close> of a \<open>[]byte\<close> is a string in standard base64.\<close>

definition base64_char :: "nat \<Rightarrow> char" where
  "base64_char n =
     (if n < 26 then char_of (65 + n) else if n < 52 then char_of (71 + n)
      else if n < 62 then char_of (n - 4) else if n = 62 then CHR ''+'' else CHR ''/'')"

fun base64 :: "bytes \<Rightarrow> string" where
  "base64 [] = []"
| "base64 [a] =
     (let n = of_char a * 16 in [base64_char (n div 64), base64_char (n mod 64), CHR ''='', CHR ''=''])"
| "base64 [a, b] =
     (let n = (of_char a * 256 + of_char b) * 4 in
      [base64_char (n div 4096), base64_char (n div 64 mod 64), base64_char (n mod 64), CHR ''=''])"
| "base64 (a # b # c # rest) =
     (let n = (of_char a * 256 + of_char b) * 256 + of_char c in
      [base64_char (n div 262144), base64_char (n div 4096 mod 64), base64_char (n div 64 mod 64),
       base64_char (n mod 64)] @ base64 rest)"

definition json_of_document :: "document \<Rightarrow> json" where
  "json_of_document doc = (case doc of DocBytes b \<Rightarrow> JStr (base64 b) | DocJson j \<Rightarrow> j)"

definition insert_schema_sql :: "SchemaRecord \<Rightarrow> unit sql" where
  "insert_schema_sql s now d =
     (if list_ex (\<lambda>r. sr_ledger_id r = sc_LedgerID s \<and> sr_version r = sc_Version s) (schemas d)
      then Inl UniqueViolation
      else Inr ((), d\<lparr>schemas := schemas d @ [\<lparr>sr_ledger_id = sc_LedgerID s,
             sr_version = sc_Version s, sr_document = json_of_document (sc_Document s),
             sr_inserted_at = now, sr_event_id = sc_EventID s\<rparr>]\<rparr>))"

definition InsertSchema :: "env \<Rightarrow> handle \<Rightarrow> SchemaRecord \<Rightarrow> unit prog" where
  "InsertSchema E h s =
     mapErr (wrapped (''inserting schema '' @ sc_Version s @ '': '')) (stmt E h (insert_schema_sql s))"

definition GetSchema :: "env \<Rightarrow> handle \<Rightarrow> string \<Rightarrow> string \<Rightarrow> SchemaRecord prog" where
  "GetSchema E h ledgerID version =
     andThen (query E h (\<lambda>now d.
       find (\<lambda>r. sr_ledger_id r = ledgerID \<and> sr_version r = version) (schemas d))) (\<lambda>row.
     case row of
       None \<Rightarrow> fail (suffixed ErrNotFound ('': schema '' @ quoted version))
     | Some r \<Rightarrow> ok \<lparr>sc_LedgerID = sr_ledger_id r, sc_Version = sr_version r,
         sc_Document = DocJson (sr_document r), sc_InsertedAt = sr_inserted_at r,
         sc_EventID = sr_event_id r\<rparr>)"

subsection \<open>Holds\<close>

text \<open>The empty destination hint is stored as NULL and read back as the empty string.\<close>

definition is_hold :: "string \<Rightarrow> string \<Rightarrow> HoldRecord \<Rightarrow> bool" where
  "is_hold l i r \<longleftrightarrow> hd_LedgerID r = l \<and> hd_HoldID r = i"

definition insert_hold_sql :: "HoldRecord \<Rightarrow> unit sql" where
  "insert_hold_sql r now d =
     (if list_ex (is_hold (hd_LedgerID r) (hd_HoldID r)) (holds d) then Inl UniqueViolation
      else Inr ((), d\<lparr>holds := holds d @ [r]\<rparr>))"

definition InsertHold :: "env \<Rightarrow> handle \<Rightarrow> HoldRecord \<Rightarrow> unit prog" where
  "InsertHold E h r = stmt E h (insert_hold_sql r)"

definition find_hold :: "string \<Rightarrow> string \<Rightarrow> db \<Rightarrow> HoldRecord option" where
  "find_hold l i d = find (is_hold l i) (holds d)"

text \<open>The amounts travel as decimal text and are parsed back. The two Go functions, of the pool
  and of the transaction, differ in the row lock only.\<close>

definition hold_record :: "HoldRecord \<Rightarrow> error + HoldRecord" where
  "hold_record r =
     (case parseBigInt (int_String (hd_AuthorizedAmount r)) ''authorized_amount'' of
        Inl e \<Rightarrow> Inl e
      | Inr a \<Rightarrow>
          (case parseBigInt (int_String (hd_CapturedAmount r)) ''captured_amount'' of
             Inl e \<Rightarrow> Inl e
           | Inr c \<Rightarrow> Inr (r\<lparr>hd_AuthorizedAmount := a, hd_CapturedAmount := c\<rparr>)))"

definition GetHold :: "env \<Rightarrow> handle \<Rightarrow> string \<Rightarrow> string \<Rightarrow> HoldRecord prog" where
  "GetHold E h ledgerID holdID =
     andThen (query E h (\<lambda>now. find_hold ledgerID holdID)) (\<lambda>row.
     case row of
       None \<Rightarrow> fail (suffixed ErrNotFound ('': hold '' @ quoted holdID))
     | Some r \<Rightarrow> ofSum (hold_record r))"

definition ListHolds ::
  "env \<Rightarrow> handle \<Rightarrow> string \<Rightarrow> ListParams \<Rightarrow> string \<Rightarrow> (HoldRecord list \<times> string) prog" where
  "ListHolds E h ledgerID params account =
     (let limit = page_limit params in
      andThen (query E h (\<lambda>now d.
         take (nat (limit + 1)) (sort_key hd_HoldID
           (filter (\<lambda>r. hd_LedgerID r = ledgerID \<and>
              (PageToken params = [] \<or> hd_HoldID r > PageToken params) \<and>
              (account = [] \<or> hd_Source r = account)) (holds d))))) (\<lambda>rows.
      andThen (ofSum (mapSum hold_record rows)) (\<lambda>result.
      ok (page_of hd_HoldID limit result))))"

definition active :: "HoldRecord \<Rightarrow> bool" where
  "active r \<longleftrightarrow> \<not> hd_Voided r \<and> \<not> hd_Expired r"

text \<open>\<open>UPDATE holds SET ... WHERE ledger_id = $1 AND hold_id = $2 AND NOT voided AND NOT expired\<close>,
  with the number of rows affected.\<close>

definition update_hold_sql :: "string \<Rightarrow> string \<Rightarrow> (HoldRecord \<Rightarrow> HoldRecord) \<Rightarrow> nat sql" where
  "update_hold_sql l i u now d =
     Inr (length (filter (\<lambda>r. is_hold l i r \<and> active r) (holds d)),
          d\<lparr>holds := map (\<lambda>r. if is_hold l i r \<and> active r then u r else r) (holds d)\<rparr>)"

definition UpdateHoldCaptured :: "env \<Rightarrow> handle \<Rightarrow> string \<Rightarrow> string \<Rightarrow> int \<Rightarrow> unit prog" where
  "UpdateHoldCaptured E h ledgerID holdID capturedDelta =
     andThen (stmt E h (update_hold_sql ledgerID holdID
       (\<lambda>r. r\<lparr>hd_CapturedAmount := hd_CapturedAmount r + capturedDelta\<rparr>))) (\<lambda>n.
     if n = 0 then fail (suffixed ErrNotFound ('': hold '' @ holdID @ '' not updatable (voided or expired)''))
     else ok ())"

definition VoidHold :: "env \<Rightarrow> handle \<Rightarrow> string \<Rightarrow> string \<Rightarrow> unit prog" where
  "VoidHold E h ledgerID holdID =
     andThen (stmt E h (update_hold_sql ledgerID holdID (\<lambda>r. r\<lparr>hd_Voided := True\<rparr>))) (\<lambda>n.
     if n = 0 then fail (suffixed ErrNotFound ('': hold '' @ holdID @ '' not found, already voided, or expired''))
     else ok ())"

definition ExpireHold :: "env \<Rightarrow> handle \<Rightarrow> string \<Rightarrow> string \<Rightarrow> unit prog" where
  "ExpireHold E h ledgerID holdID =
     andThen (stmt E h (update_hold_sql ledgerID holdID (\<lambda>r. r\<lparr>hd_Expired := True\<rparr>))) (\<lambda>n.
     if n = 0 then fail (suffixed ErrNotFound ('': hold '' @ holdID @ '' not found or already voided/expired''))
     else ok ())"

definition expired_holds :: "time \<Rightarrow> db \<Rightarrow> HoldRecord list" where
  "expired_holds now d = take 1000 (sort_key hd_ExpiresAt
     (filter (\<lambda>r. hd_ExpiresAt r < now \<and> active r \<and> hd_CapturedAmount r < hd_AuthorizedAmount r)
       (holds d)))"

definition ListExpiredHolds :: "env \<Rightarrow> handle \<Rightarrow> HoldRecord list prog" where
  "ListExpiredHolds E h =
     andThen (query E h expired_holds) (\<lambda>rows. ofSum (mapSum hold_record rows))"

definition on_hold :: "string \<Rightarrow> string \<Rightarrow> string \<Rightarrow> HoldRecord \<Rightarrow> bool" where
  "on_hold l a s r \<longleftrightarrow> hd_LedgerID r = l \<and> hd_Source r = a \<and> hd_Asset r = s \<and> active r"

definition held :: "string \<Rightarrow> string \<Rightarrow> string \<Rightarrow> db \<Rightarrow> int" where
  "held l a s d = sum_where (on_hold l a s) (\<lambda>r. hd_AuthorizedAmount r - hd_CapturedAmount r) (holds d)"

definition GetActiveHoldsTotal :: "env \<Rightarrow> handle \<Rightarrow> string \<Rightarrow> string \<Rightarrow> string \<Rightarrow> int prog" where
  "GetActiveHoldsTotal E h ledgerID account asset =
     andThen (query E h (\<lambda>now d. int_String (held ledgerID account asset d))) (\<lambda>totalStr.
     ofSum (parseBigInt totalStr ''active_holds_total''))"

subsection \<open>Relationships\<close>

definition insert_relationship_sql :: "RelationshipRecord \<Rightarrow> unit sql" where
  "insert_relationship_sql r now d =
     (if list_ex (\<lambda>q. rl_LedgerID q = rl_LedgerID r \<and> rl_ParentTxID q = rl_ParentTxID r \<and>
           rl_ChildTxID q = rl_ChildTxID r \<and> rl_RelationshipType q = rl_RelationshipType r)
           (transaction_relationships d)
      then Inl UniqueViolation
      else Inr ((), d\<lparr>transaction_relationships := transaction_relationships d @ [r]\<rparr>))"

definition InsertRelationship :: "env \<Rightarrow> handle \<Rightarrow> RelationshipRecord \<Rightarrow> unit prog" where
  "InsertRelationship E h r = stmt E h (insert_relationship_sql r)"

definition related :: "string \<Rightarrow> string \<Rightarrow> RelationshipRecord \<Rightarrow> bool" where
  "related l t r \<longleftrightarrow> rl_LedgerID r = l \<and> (rl_ParentTxID r = t \<or> rl_ChildTxID r = t)"

text \<open>The recursive CTE: the rows found at each depth, joined to the chain so far.\<close>

fun chain_rows :: "RelationshipRecord list \<Rightarrow> nat \<Rightarrow> RelationshipRecord list \<Rightarrow> RelationshipRecord list" where
  "chain_rows rels 0 cur = cur"
| "chain_rows rels (Suc n) cur = cur @ chain_rows rels n
     (concat (map (\<lambda>c. filter (\<lambda>r. rl_LedgerID r = rl_LedgerID c \<and>
        (rl_ParentTxID r = rl_ChildTxID c \<or> rl_ChildTxID r = rl_ParentTxID c)) rels) cur))"

definition relationship_rows :: "string \<Rightarrow> string \<Rightarrow> int \<Rightarrow> db \<Rightarrow> RelationshipRecord list" where
  "relationship_rows l t depth d =
     (let direct = filter (related l t) (transaction_relationships d) in
      sort_key rl_SystemTime
        (if depth = 1 then direct
         else remdups (chain_rows (transaction_relationships d) (nat (depth - 1)) direct)))"

definition GetRelationships ::
  "env \<Rightarrow> handle \<Rightarrow> string \<Rightarrow> string \<Rightarrow> int \<Rightarrow> RelationshipRecord list prog" where
  "GetRelationships E h ledgerID txID depth =
     (let depth = (if depth \<le> 0 then 1 else depth); depth = (if depth > 100 then 100 else depth) in
      query E h (\<lambda>now. relationship_rows ledgerID txID depth))"

subsection \<open>Policies\<close>

definition deactivate_policies_sql :: "string \<Rightarrow> unit sql" where
  "deactivate_policies_sql l now d =
     Inr ((), d\<lparr>policies := map (\<lambda>r. if po_LedgerID r = l then r\<lparr>po_Active := False\<rparr> else r) (policies d)\<rparr>)"

definition insert_policy_sql :: "PolicyRecord \<Rightarrow> unit sql" where
  "insert_policy_sql p now d =
     (if list_ex (\<lambda>r. po_LedgerID r = po_LedgerID p \<and> po_Version r = po_Version p) (policies d)
      then Inl UniqueViolation
      else Inr ((), d\<lparr>policies := policies d @ [p\<lparr>po_InsertedAt := now, po_Active := True\<rparr>]\<rparr>))"

definition insertPolicy :: "env \<Rightarrow> handle \<Rightarrow> PolicyRecord \<Rightarrow> unit prog" where
  "insertPolicy E h p =
     andThen (mapErr (wrapped ''deactivating policies: '')
       (stmt E h (deactivate_policies_sql (po_LedgerID p)))) (\<lambda>_.
     mapErr (wrapped ''inserting policy: '') (stmt E h (insert_policy_sql p)))"

text \<open>\<open>InsertPolicy\<close> on the store brackets the two statements in a transaction of its own.\<close>

definition InsertPolicy :: "env \<Rightarrow> PolicyRecord \<Rightarrow> unit prog" where
  "InsertPolicy E p =
     andThen (mapErr (\<lambda>e. wrapped ''beginning policy tx: '' e) (BeginTx E)) (\<lambda>_.
     deferRollback (
       andThen (insertPolicy E Tx p) (\<lambda>_.
       Commit E)))"

definition active_policy :: "string \<Rightarrow> db \<Rightarrow> PolicyRecord option" where
  "active_policy l d =
     (case rev (sort_key po_InsertedAt (filter (\<lambda>r. po_LedgerID r = l \<and> po_Active r) (policies d))) of
        [] \<Rightarrow> None | r # _ \<Rightarrow> Some r)"

definition GetActivePolicy :: "env \<Rightarrow> handle \<Rightarrow> string \<Rightarrow> PolicyRecord option prog" where
  "GetActivePolicy E h ledgerID = query E h (\<lambda>now. active_policy ledgerID)"

subsection \<open>Approvals\<close>

definition is_approval :: "string \<Rightarrow> string \<Rightarrow> approval_row \<Rightarrow> bool" where
  "is_approval l i r \<longleftrightarrow> pr_ledger_id r = l \<and> pr_intent_id r = i"

text \<open>A nil slice of approvals is marshalled to \<open>null\<close>; \<open>submitted_at\<close> keeps its default \<open>now()\<close>.
  The slice of the record is nil exactly when it is empty here: the only caller leaves the field
  unset.\<close>

definition insert_approval_sql :: "PendingApprovalRecord \<Rightarrow> unit sql" where
  "insert_approval_sql a now d =
     (if list_ex (is_approval (pa_LedgerID a) (pa_IntentID a)) (pending_approvals d)
      then Inl UniqueViolation
      else Inr ((), d\<lparr>pending_approvals := pending_approvals d @ [\<lparr>pr_ledger_id = pa_LedgerID a,
             pr_intent_id = pa_IntentID a, pr_intent_payload = pa_IntentPayload a,
             pr_intent_hash = pa_IntentHash a, pr_required_approvers = pa_RequiredApprovers a,
             pr_received_approvals = (if pa_ReceivedApprovals a = [] then None
               else Some (map Some (pa_ReceivedApprovals a))),
             pr_expires_at = pa_ExpiresAt a, pr_state = pa_State a, pr_submitted_at = now,
             pr_submitted_by = pa_SubmittedBy a, pr_executing_at = None\<rparr>]\<rparr>))"

definition InsertPendingApproval :: "env \<Rightarrow> handle \<Rightarrow> PendingApprovalRecord \<Rightarrow> unit prog" where
  "InsertPendingApproval E h a = stmt E h (insert_approval_sql a)"

text \<open>\<open>json.Unmarshal\<close> into a slice of entries: \<open>null\<close> gives a nil slice and a \<open>null\<close> element
  the zero entry.\<close>

definition zero_entry :: ApprovalEntry where
  "zero_entry = \<lparr>ae_Principal = [], ae_Signature = [], ae_SignedAt = 0\<rparr>"

definition entries_of :: "ApprovalEntry option list option \<Rightarrow> ApprovalEntry list" where
  "entries_of v =
     (case v of
        None \<Rightarrow> []
      | Some xs \<Rightarrow> map (\<lambda>x. case x of None \<Rightarrow> zero_entry | Some e \<Rightarrow> e) xs)"

definition approval_record :: "approval_row \<Rightarrow> PendingApprovalRecord" where
  "approval_record r = \<lparr>pa_LedgerID = pr_ledger_id r, pa_IntentID = pr_intent_id r,
     pa_IntentPayload = pr_intent_payload r, pa_IntentHash = pr_intent_hash r,
     pa_RequiredApprovers = pr_required_approvers r,
     pa_ReceivedApprovals = entries_of (pr_received_approvals r),
     pa_ExpiresAt = pr_expires_at r, pa_State = pr_state r, pa_SubmittedAt = pr_submitted_at r,
     pa_SubmittedBy = pr_submitted_by r\<rparr>"

definition find_approval :: "string \<Rightarrow> string \<Rightarrow> db \<Rightarrow> approval_row option" where
  "find_approval l i d = find (is_approval l i) (pending_approvals d)"

definition GetPendingApproval :: "env \<Rightarrow> handle \<Rightarrow> string \<Rightarrow> string \<Rightarrow> PendingApprovalRecord prog" where
  "GetPendingApproval E h ledgerID intentID =
     andThen (query E h (\<lambda>now. find_approval ledgerID intentID)) (\<lambda>row.
     case row of
       None \<Rightarrow> fail (suffixed ErrNotFound ('': pending approval '' @ quoted intentID))
     | Some r \<Rightarrow> ok (approval_record r))"

text \<open>\<open>received_approvals || jsonb_build_array(entry)\<close>: a stored \<open>null\<close> becomes an element.\<close>

definition approvals_concat ::
  "ApprovalEntry option list option \<Rightarrow> ApprovalEntry \<Rightarrow> ApprovalEntry option list option" where
  "approvals_concat v e =
     (case v of None \<Rightarrow> Some [None, Some e] | Some xs \<Rightarrow> Some (xs @ [Some e]))"

definition update_approval_sql ::
  "(approval_row \<Rightarrow> bool) \<Rightarrow> (time \<Rightarrow> approval_row \<Rightarrow> approval_row) \<Rightarrow> nat sql" where
  "update_approval_sql P u now d =
     Inr (length (filter P (pending_approvals d)),
          d\<lparr>pending_approvals := map (\<lambda>r. if P r then u now r else r) (pending_approvals d)\<rparr>)"

definition AddApproval :: "env \<Rightarrow> handle \<Rightarrow> string \<Rightarrow> string \<Rightarrow> string \<Rightarrow> string \<Rightarrow> unit prog" where
  "AddApproval E h ledgerID intentID prin signature =
     andThen (time_Now E) (\<lambda>signedAt.
     let entry = \<lparr>ae_Principal = prin, ae_Signature = signature, ae_SignedAt = signedAt\<rparr> in
     andThen (stmt E h (update_approval_sql
       (\<lambda>r. is_approval ledgerID intentID r \<and> pr_state r = ''pending'')
       (\<lambda>now r. r\<lparr>pr_received_approvals := approvals_concat (pr_received_approvals r) entry\<rparr>))) (\<lambda>n.
     if n = 0 then fail (suffixed ErrNotFound ('': approval '' @ quoted intentID @ '' is no longer pending''))
     else ok ()))"

definition UpdateApprovalState :: "env \<Rightarrow> handle \<Rightarrow> string \<Rightarrow> string \<Rightarrow> string \<Rightarrow> unit prog" where
  "UpdateApprovalState E h ledgerID intentID state =
     andThen (stmt E h (update_approval_sql (is_approval ledgerID intentID)
       (\<lambda>now r. r\<lparr>pr_state := state\<rparr>))) (\<lambda>_. ok ())"

definition MarkApprovalExecuting :: "env \<Rightarrow> handle \<Rightarrow> string \<Rightarrow> string \<Rightarrow> unit prog" where
  "MarkApprovalExecuting E h ledgerID intentID =
     andThen (stmt E h (update_approval_sql (is_approval ledgerID intentID)
       (\<lambda>now r. r\<lparr>pr_state := ''executing'', pr_executing_at := Some now\<rparr>))) (\<lambda>_. ok ())"

definition UpdateApprovalStateIf ::
  "env \<Rightarrow> handle \<Rightarrow> string \<Rightarrow> string \<Rightarrow> string \<Rightarrow> string \<Rightarrow> bool prog" where
  "UpdateApprovalStateIf E h ledgerID intentID fromState toState =
     andThen (stmt E h (update_approval_sql
       (\<lambda>r. is_approval ledgerID intentID r \<and> pr_state r = fromState)
       (\<lambda>now r. r\<lparr>pr_state := toState\<rparr>))) (\<lambda>n. ok (n > 0))"

definition stuck_since :: "approval_row \<Rightarrow> time" where
  "stuck_since r = (case pr_executing_at r of None \<Rightarrow> pr_submitted_at r | Some t \<Rightarrow> t)"

definition ListStuckApprovals :: "env \<Rightarrow> handle \<Rightarrow> time \<Rightarrow> PendingApprovalRecord list prog" where
  "ListStuckApprovals E h stuckThreshold =
     andThen (query E h (\<lambda>now d. take 1000 (filter
       (\<lambda>r. pr_state r = ''executing'' \<and> stuck_since r < now - stuckThreshold) (pending_approvals d)))) (\<lambda>rows.
     ok (map approval_record rows))"

definition ListPendingApprovals ::
  "env \<Rightarrow> handle \<Rightarrow> string \<Rightarrow> ListParams \<Rightarrow> (PendingApprovalRecord list \<times> string) prog" where
  "ListPendingApprovals E h ledgerID params =
     (let pageSize = (if PageSize params \<le> 0 \<or> PageSize params > maxPageSize then 100
                      else PageSize params) in
      andThen (query E h (\<lambda>now d. take (nat (pageSize + 1)) (sort_key pr_intent_id (filter
        (\<lambda>r. pr_ledger_id r = ledgerID \<and> pr_state r = ''pending'' \<and>
           (PageToken params = [] \<or> pr_intent_id r > PageToken params)) (pending_approvals d))))) (\<lambda>rows.
      ok (page_of pa_IntentID pageSize (map approval_record rows))))"

definition ListExpiredApprovals :: "env \<Rightarrow> handle \<Rightarrow> PendingApprovalRecord list prog" where
  "ListExpiredApprovals E h =
     andThen (query E h (\<lambda>now d. take 1000 (filter
       (\<lambda>r. pr_state r = ''pending'' \<and> pr_expires_at r < now) (pending_approvals d)))) (\<lambda>rows.
     ok (map approval_record rows))"

subsection \<open>Frames and effects\<close>

lemma keeps_InsertMetadataHistory [frame_intro]: "keeps tx_frame (InsertMetadataHistory E Tx m)"
  unfolding InsertMetadataHistory_def by (intro tx_frame.keeps_rules frame_intro)

lemma keeps_InsertSchema [frame_intro]: "keeps tx_frame (InsertSchema E Tx s)"
  unfolding InsertSchema_def by (intro tx_frame.keeps_rules frame_intro)

lemma keeps_GetSchema [frame_intro]: "keeps tx_frame (GetSchema E h l v)"
  unfolding GetSchema_def by (intro tx_frame.keeps_rules frame_intro)

lemma keeps_InsertHold [frame_intro]: "keeps tx_frame (InsertHold E Tx r)"
  unfolding InsertHold_def by (intro tx_frame.keeps_rules frame_intro)

lemma keeps_GetHold [frame_intro]: "keeps tx_frame (GetHold E h l i)"
  unfolding GetHold_def by (intro tx_frame.keeps_rules frame_intro)

lemma keeps_UpdateHoldCaptured [frame_intro]: "keeps tx_frame (UpdateHoldCaptured E Tx l i c)"
  unfolding UpdateHoldCaptured_def by (intro tx_frame.keeps_rules frame_intro)

lemma keeps_VoidHold [frame_intro]: "keeps tx_frame (VoidHold E Tx l i)"
  unfolding VoidHold_def by (intro tx_frame.keeps_rules frame_intro)

lemma keeps_ExpireHold [frame_intro]: "keeps tx_frame (ExpireHold E Tx l i)"
  unfolding ExpireHold_def by (intro tx_frame.keeps_rules frame_intro)

lemma keeps_ListExpiredHolds [frame_intro]: "keeps tx_frame (ListExpiredHolds E h)"
  unfolding ListExpiredHolds_def by (intro tx_frame.keeps_rules frame_intro)

lemma keeps_GetActiveHoldsTotal [frame_intro]: "keeps tx_frame (GetActiveHoldsTotal E h l a s)"
  unfolding GetActiveHoldsTotal_def by (intro tx_frame.keeps_rules frame_intro)

lemma keeps_InsertRelationship [frame_intro]: "keeps tx_frame (InsertRelationship E Tx r)"
  unfolding InsertRelationship_def by (intro tx_frame.keeps_rules frame_intro)

lemma keeps_GetRelationships [frame_intro]: "keeps tx_frame (GetRelationships E h l t n)"
  unfolding GetRelationships_def Let_def by (intro tx_frame.keeps_rules frame_intro)

lemma keeps_GetActivePolicy [frame_intro]: "keeps tx_frame (GetActivePolicy E h l)"
  unfolding GetActivePolicy_def by (intro tx_frame.keeps_rules frame_intro)

lemma keeps_GetPendingApproval [frame_intro]: "keeps tx_frame (GetPendingApproval E h l i)"
  unfolding GetPendingApproval_def by (intro tx_frame.keeps_rules frame_intro)

lemma keeps_AddApproval [frame_intro]: "keeps tx_frame (AddApproval E Tx l i p s)"
  unfolding AddApproval_def Let_def by (intro tx_frame.keeps_rules frame_intro)

lemma keeps_MarkApprovalExecuting [frame_intro]: "keeps tx_frame (MarkApprovalExecuting E Tx l i)"
  unfolding MarkApprovalExecuting_def by (intro tx_frame.keeps_rules frame_intro)

lemma keeps_UpdateApprovalState [frame_intro]: "keeps tx_frame (UpdateApprovalState E Tx l i s)"
  unfolding UpdateApprovalState_def by (intro tx_frame.keeps_rules frame_intro)

lemma hold_record_id [simp]: "hold_record r = Inr r"
  by (simp add: hold_record_def)

lemma mapSum_hold_record [simp]: "mapSum hold_record rs = Inr rs"
  by (induction rs) simp_all

lemma does_InsertMetadataHistory [does_intro]:
  "does (InsertMetadataHistory E Tx m) (\<lambda>d r d'. r = Inr () \<and>
     (\<exists>row. d' = d\<lparr>metadata_history := metadata_history d @ [row]\<rparr> \<and>
        mr_metadata row = json_of_metadata (mh_Metadata m) \<and> mr_revision row = mh_Revision m \<and>
        mr_target_id row = mh_TargetID m \<and> mr_ledger_id row = mh_LedgerID m))"
  unfolding InsertMetadataHistory_def
  by (rule does_weaken, rule does_mapErr, rule does_stmt)
     (auto simp: insert_history_sql_def split: if_splits)

lemma does_InsertSchema [does_intro]:
  "does (InsertSchema E Tx s) (\<lambda>d r d'. r = Inr () \<and> (\<exists>rows. d' = d\<lparr>schemas := rows\<rparr>))"
  unfolding InsertSchema_def
  by (rule does_weaken, rule does_mapErr, rule does_stmt)
     (auto simp: insert_schema_sql_def split: if_splits)

lemma does_GetSchema_Pool [does_intro]:
  "does (GetSchema E Pool l v) (\<lambda>d r d'. d' = d \<and> (\<forall>s. r = Inr s \<longrightarrow> (\<exists>j. sc_Document s = DocJson j)))"
  unfolding GetSchema_def
  by (rule does_weaken, (rule does_intro)+) (auto split: option.splits)

lemma does_InsertHold [does_intro]:
  "does (InsertHold E Tx r) (\<lambda>d x d'. x = Inr () \<and>
     find_hold (hd_LedgerID r) (hd_HoldID r) d = None \<and> d' = d\<lparr>holds := holds d @ [r]\<rparr>)"
  unfolding InsertHold_def
  by (rule does_weaken, rule does_stmt)
     (auto simp: insert_hold_sql_def find_hold_def find_None_iff list_ex_iff split: if_splits)

lemma does_GetHold [does_intro]:
  "does (GetHold E Tx l i) (\<lambda>d r d'. d' = d \<and> (\<forall>h. r = Inr h \<longrightarrow> find_hold l i d = Some h))"
  unfolding GetHold_def
  by (rule does_weaken, (rule does_intro)+) (auto split: option.splits)

definition update_hold :: "string \<Rightarrow> string \<Rightarrow> (HoldRecord \<Rightarrow> HoldRecord) \<Rightarrow> db \<Rightarrow> db" where
  "update_hold l i u d = d\<lparr>holds := map (\<lambda>r. if is_hold l i r \<and> active r then u r else r) (holds d)\<rparr>"

lemma does_UpdateHoldCaptured [does_intro]:
  "does (UpdateHoldCaptured E Tx l i c) (\<lambda>d r d'.
     d' = update_hold l i (\<lambda>h. h\<lparr>hd_CapturedAmount := hd_CapturedAmount h + c\<rparr>) d)"
  unfolding UpdateHoldCaptured_def
  by (rule does_weaken, (rule does_intro does_stmt)+)
     (auto simp: update_hold_sql_def update_hold_def split: if_splits)

lemma does_VoidHold [does_intro]:
  "does (VoidHold E Tx l i) (\<lambda>d r d'. d' = update_hold l i (\<lambda>h. h\<lparr>hd_Voided := True\<rparr>) d)"
  unfolding VoidHold_def
  by (rule does_weaken, (rule does_intro does_stmt)+)
     (auto simp: update_hold_sql_def update_hold_def split: if_splits)

lemma does_ExpireHold [does_intro]:
  "does (ExpireHold E Tx l i) (\<lambda>d r d'. d' = update_hold l i (\<lambda>h. h\<lparr>hd_Expired := True\<rparr>) d)"
  unfolding ExpireHold_def
  by (rule does_weaken, (rule does_intro does_stmt)+)
     (auto simp: update_hold_sql_def update_hold_def split: if_splits)

lemma does_GetActiveHoldsTotal [does_intro]:
  "does (GetActiveHoldsTotal E Tx l a s) (\<lambda>d r d'. d' = d \<and> r = Inr (held l a s d))"
  unfolding GetActiveHoldsTotal_def
  by (rule does_weaken, (rule does_intro)+) auto

lemma does_InsertRelationship [does_intro]:
  "does (InsertRelationship E Tx r) (\<lambda>d x d'. x = Inr () \<and>
     d' = d\<lparr>transaction_relationships := transaction_relationships d @ [r]\<rparr>)"
  unfolding InsertRelationship_def
  by (rule does_weaken, rule does_stmt) (auto simp: insert_relationship_sql_def split: if_splits)

lemma does_GetRelationships [does_intro]:
  "does (GetRelationships E Tx l t 1) (\<lambda>d r d'. d' = d \<and> r = Inr (relationship_rows l t 1 d))"
  unfolding GetRelationships_def Let_def
  by (rule does_weaken, (rule does_intro)+) auto

end
