(* ===== verification/Merkle.thy ===== *)
theory Merkle
  imports Go_Std
begin

text \<open>
  Merkle roots of log batches, \<^verbatim>\<open>src/internal/log/merkle/merkle.go\<close>. SHA-256 is the
  parameter \<open>sha\<close>; a hash state fed by \<open>h.Write\<close> is the concatenation of what was written.
\<close>

definition leafPrefix :: bytes where
  "leafPrefix = [CHR 0x00]"

definition internalPrefix :: bytes where
  "internalPrefix = [CHR 0x01]"

definition writeField :: "bytes \<Rightarrow> bytes \<Rightarrow> bytes" where
  "writeField h data = h @ be32 (length data) @ data"

definition LeafHash :: "(bytes \<Rightarrow> bytes) \<Rightarrow> string \<Rightarrow> bytes \<Rightarrow> bytes \<Rightarrow> bytes \<Rightarrow> bytes" where
  "LeafHash sha eventID systemTime eventType payload =
     sha (writeField (writeField (writeField (writeField leafPrefix eventID) systemTime)
       eventType) payload)"

definition internalHash :: "(bytes \<Rightarrow> bytes) \<Rightarrow> bytes \<Rightarrow> bytes \<Rightarrow> bytes" where
  "internalHash sha left right = sha (internalPrefix @ left @ right)"

text \<open>One pass of the inner loop: the level above, an unpaired last node doubled.\<close>

fun next_level :: "(bytes \<Rightarrow> bytes) \<Rightarrow> bytes list \<Rightarrow> bytes list" where
  "next_level sha [] = []"
| "next_level sha [left] = [internalHash sha left left]"
| "next_level sha (left # right # rest) = internalHash sha left right # next_level sha rest"

lemma length_next_level: "length (next_level sha xs) = (length xs + 1) div 2"
  by (induction sha xs rule: next_level.induct) simp_all

text \<open>The outer loop \<open>for len(level) > 1\<close>.\<close>

function climb :: "(bytes \<Rightarrow> bytes) \<Rightarrow> bytes list \<Rightarrow> bytes list" where
  "climb sha level = (if length level > 1 then climb sha (next_level sha level) else level)"
  by pat_completeness auto
termination
  by (relation "measure (\<lambda>(sha, level). length level)") (auto simp: length_next_level)

declare climb.simps [simp del]

definition ComputeRoot :: "(bytes \<Rightarrow> bytes) \<Rightarrow> bytes list \<Rightarrow> bytes option" where
  "ComputeRoot sha leaves =
     (case leaves of
        [] \<Rightarrow> None
      | [l] \<Rightarrow> Some l
      | _ \<Rightarrow> (case climb sha leaves of [] \<Rightarrow> None | root # _ \<Rightarrow> Some root))"

definition Verify :: "(bytes \<Rightarrow> bytes) \<Rightarrow> bytes list \<Rightarrow> bytes option \<Rightarrow> bool" where
  "Verify sha leaves expectedRoot =
     (case (ComputeRoot sha leaves, expectedRoot) of
        (Some computed, Some expected) \<Rightarrow> computed = expected
      | _ \<Rightarrow> False)"

subsection \<open>The root is one node, whatever the number of leaves\<close>

lemma climb_single: "climb sha [l] = [l]"
  by (simp add: climb.simps [of sha "[l]"])

lemma length_climb: "level \<noteq> [] \<Longrightarrow> length (climb sha level) = 1"
proof (induction sha level rule: climb.induct)
  case (1 sha level)
  show ?case
  proof (cases "length level > 1")
    case True
    then have "next_level sha level \<noteq> []"
      using length_next_level [of sha level] by auto
    with True 1 show ?thesis by (simp add: climb.simps [of sha level])
  next
    case False
    with "1.prems" obtain l where "level = [l]"
      by (cases level rule: remdups_adj.cases) auto
    then show ?thesis by (simp add: climb_single)
  qed
qed

lemma ComputeRoot_climb: "leaves \<noteq> [] \<Longrightarrow> ComputeRoot sha leaves = Some (hd (climb sha leaves))"
  by (cases leaves rule: remdups_adj.cases; cases "climb sha leaves")
     (use length_climb [of leaves sha] in \<open>auto simp: ComputeRoot_def climb_single\<close>)

subsection \<open>Tampering\<close>

text \<open>
  The byte strings that are fed to the hash while a root is computed. Collision freedom is
  only ever assumed of these: a hash with a fixed output length cannot be injective.
\<close>

fun level_inputs :: "bytes list \<Rightarrow> bytes list" where
  "level_inputs [] = []"
| "level_inputs [left] = [internalPrefix @ left @ left]"
| "level_inputs (left # right # rest) = (internalPrefix @ left @ right) # level_inputs rest"

function climb_inputs :: "(bytes \<Rightarrow> bytes) \<Rightarrow> bytes list \<Rightarrow> bytes list" where
  "climb_inputs sha level =
     (if length level > 1 then level_inputs level @ climb_inputs sha (next_level sha level) else [])"
  by pat_completeness auto
termination
  by (relation "measure (\<lambda>(sha, level). length level)") (auto simp: length_next_level)

declare climb_inputs.simps [simp del]

definition uniform :: "nat \<Rightarrow> bytes list \<Rightarrow> bool" where
  "uniform n xs \<longleftrightarrow> (\<forall>x \<in> set xs. length x = n)"

lemma next_level_map: "next_level sha xs = map sha (level_inputs xs)"
  by (induction xs rule: level_inputs.induct) (simp_all add: internalHash_def)

lemma uniform_next_level:
  "\<forall>b. length (sha b) = n \<Longrightarrow> uniform n (next_level sha xs)"
  by (simp add: next_level_map uniform_def)

text \<open>Lists without repetition are determined by what they feed to the hash: only a repeated node could
  be taken for an unpaired last one.\<close>

lemma level_inputs_inject:
  "distinct xs \<Longrightarrow> distinct ys \<Longrightarrow> uniform n xs \<Longrightarrow> uniform n ys \<Longrightarrow>
     level_inputs xs = level_inputs ys \<Longrightarrow> xs = ys"
proof (induction xs arbitrary: ys rule: level_inputs.induct)
  case 1
  then show ?case by (cases ys rule: level_inputs.cases) simp_all
next
  case (2 x)
  then show ?case
    by (cases ys rule: level_inputs.cases) (auto simp: uniform_def)
next
  case (3 x x' xs)
  then obtain y y' zs where ys: "ys = y # y' # zs"
    by (cases ys rule: level_inputs.cases) (auto simp: uniform_def)
  with 3 have "x = y \<and> x' = y'" by (simp add: uniform_def)
  moreover have "xs = zs"
    using "3.prems" ys by (intro "3.IH") (simp_all add: uniform_def)
  ultimately show ?case using ys by simp
qed

lemma level_input_left:
  "b \<in> set (level_inputs xs) \<Longrightarrow> \<exists>left \<in> set xs. \<exists>right \<in> set xs. b = internalPrefix @ left @ right"
  by (induction xs rule: level_inputs.induct) auto

lemma distinct_level_inputs: "distinct xs \<Longrightarrow> uniform n xs \<Longrightarrow> distinct (level_inputs xs)"
proof (induction xs rule: level_inputs.induct)
  case (3 x x' xs)
  have "internalPrefix @ x @ x' \<notin> set (level_inputs xs)"
  proof
    assume "internalPrefix @ x @ x' \<in> set (level_inputs xs)"
    then obtain left right where "left \<in> set xs" "internalPrefix @ x @ x' = internalPrefix @ left @ right"
      using level_input_left by blast
    then have "x \<in> set xs" using "3.prems"(2) by (auto simp: uniform_def)
    then show False using "3.prems"(1) by simp
  qed
  with 3 show ?case by (simp add: uniform_def)
qed simp_all

subsection \<open>The height of a node\<close>

text \<open>
  The two prefixes separate leaves from inner nodes, so a hash value stands at one height only, as long
  as no two of the inputs \<open>I\<close> collide.
\<close>

inductive node :: "(bytes \<Rightarrow> bytes) \<Rightarrow> bytes set \<Rightarrow> nat \<Rightarrow> bytes \<Rightarrow> bool" for sha I where
  node_leaf: "leafPrefix @ b \<in> I \<Longrightarrow> node sha I 0 (sha (leafPrefix @ b))"
| node_inner: "node sha I k left \<Longrightarrow> node sha I k right \<Longrightarrow> internalPrefix @ left @ right \<in> I \<Longrightarrow>
    node sha I (Suc k) (sha (internalPrefix @ left @ right))"

lemma node_length: "node sha I k v \<Longrightarrow> \<forall>b. length (sha b) = n \<Longrightarrow> length v = n"
  by (cases rule: node.cases) auto

lemma node_height:
  assumes "node sha I j v" "node sha I k v" "inj_on sha I" "\<forall>b. length (sha b) = n"
  shows "j = k"
  using assms
proof (induction arbitrary: k rule: node.induct)
  case (node_leaf b)
  from node_leaf.prems(1) show ?case
  proof (cases rule: node.cases)
    case (node_inner m left right)
    then have "leafPrefix @ b = internalPrefix @ left @ right"
      using node_leaf.hyps inj_onD [OF node_leaf.prems(2)] by blast
    then show ?thesis by (simp add: leafPrefix_def internalPrefix_def)
  qed simp
next
  case (node_inner j left right)
  from node_inner.prems(1) show ?case
  proof (cases rule: node.cases)
    case (node_leaf b)
    then have "internalPrefix @ left @ right = leafPrefix @ b"
      using node_inner.hyps(3) inj_onD [OF node_inner.prems(2)] by blast
    then show ?thesis by (simp add: leafPrefix_def internalPrefix_def)
  next
    case inner: (node_inner m left' right')
    then have "internalPrefix @ left @ right = internalPrefix @ left' @ right'"
      using node_inner inj_onD [OF node_inner.prems(2)] by blast
    moreover have "length left = length left'"
      using node_length node_inner.hyps(1) inner(3) node_inner.prems(3) by metis
    ultimately have "left = left'" by simp
    then show ?thesis using node_inner.IH(1) inner node_inner.prems(2,3) by simp
  qed
qed

lemma node_next_level:
  assumes "list_all (node sha I k) xs" "set (level_inputs xs) \<subseteq> I"
  shows "list_all (node sha I (Suc k)) (next_level sha xs)"
  using assms level_input_left unfolding next_level_map list_all_iff
  by (force intro: node_inner)

lemma climb_height:
  "list_all (node sha I k) xs \<Longrightarrow> set (climb_inputs sha xs) \<subseteq> I \<Longrightarrow> xs \<noteq> [] \<Longrightarrow>
     \<exists>j\<ge>k. node sha I j (hd (climb sha xs)) \<and> (length xs > 1 \<longrightarrow> j > k)"
proof (induction sha xs arbitrary: k rule: climb.induct)
  case (1 sha xs)
  show ?case
  proof (cases "length xs > 1")
    case True
    have inp: "set (level_inputs xs) \<subseteq> I" "set (climb_inputs sha (next_level sha xs)) \<subseteq> I"
      using "1.prems"(2) True by (auto simp: climb_inputs.simps [of sha xs])
    have "next_level sha xs \<noteq> []" using True length_next_level [of sha xs] by auto
    from "1.IH" [OF True node_next_level [OF "1.prems"(1) inp(1)] inp(2) this]
    show ?thesis using True by (auto simp: climb.simps [of sha xs] intro: Suc_leD)
  next
    case False
    then show ?thesis using "1.prems"
      by (intro exI [of _ k]) (auto simp: climb.simps [of sha xs] list_all_iff)
  qed
qed

lemma climb_inject:
  assumes "\<forall>b. length (sha b) = n" "inj_on sha I"
    and "list_all (node sha I k) xs" "list_all (node sha I k) ys" "distinct xs" "distinct ys"
    and "set (climb_inputs sha xs) \<subseteq> I" "set (climb_inputs sha ys) \<subseteq> I" "xs \<noteq> []" "ys \<noteq> []"
    and "hd (climb sha xs) = hd (climb sha ys)"
  shows "xs = ys"
  using assms
proof (induction sha xs arbitrary: k ys rule: climb.induct)
  case (1 sha xs)
  note len = "1.prems"(1) and inj = "1.prems"(2)
  have uni: "uniform n xs" "uniform n ys"
    using "1.prems"(3,4) node_length len by (auto simp: uniform_def list_all_iff)
  have longs: "length xs > 1 \<longleftrightarrow> length ys > 1"
    using climb_height [OF "1.prems"(3,7,9)] climb_height [OF "1.prems"(4,8,10)] "1.prems"(11)
      node_height [OF _ _ inj len] "1.prems"(3,4,9,10)
      climb.simps [of sha xs] climb.simps [of sha ys]
    by (metis hd_in_set list_all_iff nat_neq_iff)
  show ?case
  proof (cases "length xs > 1")
    case True
    note long = True longs [THEN iffD1, OF True]
    have inp: "set (level_inputs xs) \<subseteq> I" "set (level_inputs ys) \<subseteq> I"
        "set (climb_inputs sha (next_level sha xs)) \<subseteq> I" "set (climb_inputs sha (next_level sha ys)) \<subseteq> I"
      using "1.prems"(7,8) long by (auto simp: climb_inputs.simps [of sha xs] climb_inputs.simps [of sha ys])
    have ne: "next_level sha xs \<noteq> []" "next_level sha ys \<noteq> []"
      using long length_next_level [of sha xs] length_next_level [of sha ys] by auto
    have dist: "distinct (next_level sha xs)" "distinct (next_level sha ys)"
      using "1.prems"(5,6) uni inp(1,2) distinct_level_inputs inj_on_subset [OF inj]
      by (auto simp: next_level_map distinct_map)
    have "hd (climb sha (next_level sha xs)) = hd (climb sha (next_level sha ys))"
      using "1.prems"(11) long by (simp add: climb.simps [of sha xs] climb.simps [of sha ys])
    from "1.IH" [OF True len inj node_next_level [OF "1.prems"(3) inp(1)] node_next_level [OF "1.prems"(4) inp(2)]
        dist inp(3,4) ne this]
    have "level_inputs xs = level_inputs ys"
      unfolding next_level_map by (rule map_inj_on) (use inp in \<open>blast intro: inj_on_subset [OF inj]\<close>)
    then show ?thesis using level_inputs_inject "1.prems"(5,6) uni by blast
  next
    case False
    then obtain x y where "xs = [x]" "ys = [y]" using longs "1.prems"(9,10)
      by (cases xs rule: level_inputs.cases; cases ys rule: level_inputs.cases) auto
    then show ?thesis using "1.prems"(11) by (simp add: climb_single)
  qed
qed

subsection \<open>Leaves\<close>

type_synonym leaf = "string \<times> bytes \<times> bytes \<times> bytes"
  \<comment> \<open>event id, formatted system time, event type, payload\<close>

definition leaf_input :: "leaf \<Rightarrow> bytes" where
  "leaf_input l =
     (case l of (eventID, systemTime, eventType, payload) \<Rightarrow>
        leafPrefix @ concat (map field [eventID, systemTime, eventType, payload]))"

definition leaf_hash :: "(bytes \<Rightarrow> bytes) \<Rightarrow> leaf \<Rightarrow> bytes" where
  "leaf_hash sha l =
     (case l of (eventID, systemTime, eventType, payload) \<Rightarrow>
        LeafHash sha eventID systemTime eventType payload)"

definition leaf_bounded :: "leaf \<Rightarrow> bool" where
  "leaf_bounded l =
     (case l of (eventID, systemTime, eventType, payload) \<Rightarrow>
        length eventID < 2 ^ 32 \<and> length systemTime < 2 ^ 32 \<and>
        length eventType < 2 ^ 32 \<and> length payload < 2 ^ 32)"

lemma leaf_hash_input: "leaf_hash sha l = sha (leaf_input l)"
  by (cases l) (simp add: leaf_hash_def leaf_input_def LeafHash_def writeField_def field_def)

lemma leaf_input_inject:
  assumes "leaf_bounded l" "leaf_bounded m" "leaf_input l = leaf_input m"
  shows "l = m"
proof -
  obtain a b c d where l: "l = (a, b, c, d)" by (cases l)
  obtain a' b' c' d' where m: "m = (a', b', c', d')" by (cases m)
  have "[a, b, c, d] = [a', b', c', d']"
    using assms by (intro concat_fields_inject) (simp_all add: l m leaf_input_def leaf_bounded_def)
  then show ?thesis by (simp add: l m)
qed

text \<open>Every byte string hashed on the way from the events to the root.\<close>

definition root_inputs :: "(bytes \<Rightarrow> bytes) \<Rightarrow> leaf list \<Rightarrow> bytes list" where
  "root_inputs sha es = map leaf_input es @ climb_inputs sha (map (leaf_hash sha) es)"

lemma Verify_iff: "leaves \<noteq> [] \<Longrightarrow> Verify sha leaves (Some r) \<longleftrightarrow> hd (climb sha leaves) = r"
  by (simp add: Verify_def ComputeRoot_climb)

lemma leaf_node: "leaf_input e \<in> I \<Longrightarrow> node sha I 0 (leaf_hash sha e)"
  by (cases e) (auto simp: leaf_hash_input leaf_input_def intro!: node_leaf)

text \<open>A list of different events is determined by its root.\<close>

lemma root_inject:
  assumes len: "\<forall>b. length (sha b) = n" and dist: "distinct es" "distinct es'" and ne: "es \<noteq> []" "es' \<noteq> []"
    and bnd: "\<forall>e \<in> set es \<union> set es'. leaf_bounded e"
    and inj: "inj_on sha (set (root_inputs sha es) \<union> set (root_inputs sha es'))"
    and eq: "hd (climb sha (map (leaf_hash sha) es')) = hd (climb sha (map (leaf_hash sha) es))"
  shows "es' = es"
proof -
  let ?I = "set (root_inputs sha es) \<union> set (root_inputs sha es')" and ?h = "leaf_hash sha"
  have leaf: "inj_on leaf_input (set es \<union> set es')"
    using bnd by (intro inj_onI leaf_input_inject) auto
  have "leaf_input ` (set es \<union> set es') \<subseteq> ?I" by (auto simp: root_inputs_def)
  then have "inj_on (sha \<circ> leaf_input) (set es \<union> set es')"
    by (intro comp_inj_on leaf inj_on_subset [OF inj])
  then have h: "inj_on ?h (set es \<union> set es')" by (simp add: leaf_hash_input inj_on_def)
  have "map ?h es' = map ?h es"
    by (rule climb_inject [OF len inj, of 0])
       (use dist ne eq inj_on_subset [OF h] leaf_node in \<open>auto simp: list_all_iff distinct_map root_inputs_def\<close>)
  then show ?thesis by (rule map_inj_on) (simp add: h Un_commute)
qed

text \<open>C37. Tamper evidence of a closed batch: a stored root is matched by the events it was computed from
  and by no other list of different events, whatever its length, order or content, when no two of
  the byte strings hashed for the two lists collide, the hash has a fixed output length and no field
  of an event is longer than its length prefix can say. The events of a list have to differ, as the
  primary key of the log makes them differ: with a repeated last event the doubling of an unpaired
  node would show.\<close>

theorem Verify_tamper_evident:
  assumes "\<forall>b. length (sha b) = n" and "distinct es" and "distinct es'"
    and "\<forall>e \<in> set es \<union> set es'. leaf_bounded e"
    and "inj_on sha (set (root_inputs sha es) \<union> set (root_inputs sha es'))"
  shows "Verify sha (map (leaf_hash sha) es') (ComputeRoot sha (map (leaf_hash sha) es)) \<longleftrightarrow> es' = es \<and> es \<noteq> []"
proof (cases "es = [] \<or> es' = []")
  case True
  then show ?thesis by (auto simp: Verify_def ComputeRoot_def split: option.splits)
next
  case False
  then show ?thesis
    using root_inject [OF assms(1-3) _ _ assms(4,5)] by (auto simp: Verify_iff ComputeRoot_climb)
qed

lemma inj_on_set_if_distinct: "distinct (map f (remdups xs)) \<Longrightarrow> inj_on f (set xs)"
  by (metis distinct_map set_remdups)

definition sample_sha :: "bytes \<Rightarrow> bytes" where
  "sample_sha b = take 64 (filter (\<lambda>c. c \<noteq> CHR 0x00) b @ replicate 64 CHR 0x00)"

lemma length_sample_sha: "length (sample_sha b) = 64"
  by (simp add: sample_sha_def)

definition sample_events :: "leaf list" where
  "sample_events = [(''e1'', ''t'', ''ty'', ''p''), (''e2'', ''t'', ''ty'', ''q''), (''e3'', ''t'', ''ty'', ''r'')]"

text \<open>Three events, the same with a fourth added, and the same with one changed.\<close>

theorem Verify_tamper_evident_witness:
  "\<not> Verify sample_sha (map (leaf_hash sample_sha) (sample_events @ [(''e4'', ''t'', ''ty'', ''r'')]))
      (ComputeRoot sample_sha (map (leaf_hash sample_sha) sample_events)) \<and>
   \<not> Verify sample_sha (map (leaf_hash sample_sha) (sample_events[1 := (''e2'', ''t'', ''ty'', ''x'')]))
      (ComputeRoot sample_sha (map (leaf_hash sample_sha) sample_events))"
proof
  let ?es = "sample_events @ [(''e4'', ''t'', ''ty'', ''r'')]"
  have "inj_on sample_sha (set (root_inputs sample_sha sample_events) \<union> set (root_inputs sample_sha ?es))"
    unfolding set_append [symmetric] by (rule inj_on_set_if_distinct) code_simp
  from Verify_tamper_evident [of sample_sha, OF _ _ _ _ this]
  show "\<not> Verify sample_sha (map (leaf_hash sample_sha) ?es)
      (ComputeRoot sample_sha (map (leaf_hash sample_sha) sample_events))"
    by (simp add: length_sample_sha sample_events_def leaf_bounded_def)
next
  let ?es = "sample_events[1 := (''e2'', ''t'', ''ty'', ''x'')]"
  have "inj_on sample_sha (set (root_inputs sample_sha sample_events) \<union> set (root_inputs sample_sha ?es))"
    unfolding set_append [symmetric] by (rule inj_on_set_if_distinct) code_simp
  from Verify_tamper_evident [of sample_sha, OF _ _ _ _ this]
  show "\<not> Verify sample_sha (map (leaf_hash sample_sha) ?es)
      (ComputeRoot sample_sha (map (leaf_hash sample_sha) sample_events))"
    by (simp add: length_sample_sha sample_events_def leaf_bounded_def)
qed

lemma next_level_double_last:
  "even (length xs) \<Longrightarrow> next_level sha (xs @ [x, x]) = next_level sha (xs @ [x])"
  by (induction sha xs rule: next_level.induct) simp_all

text \<open>The root does not determine the number of leaves: an unpaired last leaf is doubled,
  so appending a copy of the last leaf of an odd-length batch of at least three leaves
  leaves the root as it is.\<close>

theorem ComputeRoot_double_last:
  assumes "even (length xs)" "xs \<noteq> []"
  shows "ComputeRoot sha (xs @ [x, x]) = ComputeRoot sha (xs @ [x])"
proof -
  have "length xs \<ge> 2" using assms by (cases xs rule: remdups_adj.cases) auto
  then have "climb sha (xs @ [x, x]) = climb sha (xs @ [x])"
    using next_level_double_last [OF assms(1)] assms(2)
    by (simp add: climb.simps [of sha "xs @ [x, x]"] climb.simps [of sha "xs @ [x]"])
  then show ?thesis by (simp add: ComputeRoot_climb)
qed

theorem ComputeRoot_double_last_witness:
  "ComputeRoot sample_sha [''a'', ''b'', ''c'', ''c''] = ComputeRoot sample_sha [''a'', ''b'', ''c'']"
  using ComputeRoot_double_last [of "[''a'', ''b'']" sample_sha "''c''"] by simp

text \<open>Whatever leaves a batch has, as long as it has any, its own root verifies; an empty
  batch has no root and never verifies.\<close>

theorem Verify_ComputeRoot:
  "Verify sha leaves (ComputeRoot sha leaves) \<longleftrightarrow> leaves \<noteq> []"
  by (cases "leaves = []") (simp_all add: Verify_iff ComputeRoot_climb, simp add: Verify_def ComputeRoot_def)

end
