(* ===== verification/Batch_Manager.thy ===== *)
theory Batch_Manager
  imports Store_Governance Merkle
begin

text \<open>
  The Merkle batch manager, \<^verbatim>\<open>src/internal/log/batch/manager.go\<close>, and the batch statements of
  \<^verbatim>\<open>src/internal/storage/postgres/store_batches.go\<close>. The manager always works on the pool,
  outside the transaction of the request that asks for a batch, so the table of batches is kept
  apart from the transactional tables. Its mutexes serialise calls; asynchronous closes are
  queued in \<open>spawned\<close>.
\<close>

definition DefaultMaxEvents :: int where "DefaultMaxEvents = 1000"

text \<open>Durations in microseconds.\<close>

definition DefaultMaxAge :: time where "DefaultMaxAge = 5000000"
definition maxCloseRetries :: nat where "maxCloseRetries = 3"
definition initialCloseBackoff :: time where "initialCloseBackoff = 50000"
definition maxCloseBackoff :: time where "maxCloseBackoff = 5000000"

subsection \<open>Batch statements\<close>

definition batch_stmt ::
  "env \<Rightarrow> (time \<Rightarrow> BatchRecord list \<Rightarrow> sqlstate + 'a \<times> BatchRecord list) \<Rightarrow> 'a prog" where
  "batch_stmt E f w =
     (let k = n_sql w; w1 = w\<lparr>n_sql := Suc k\<rparr> in
      case fault E k of
        Some c \<Rightarrow> (Inl (PgError c), w1)
      | None \<Rightarrow>
          (case f (db_clock E k) (log_batches w) of
             Inl c \<Rightarrow> (Inl (PgError c), w1)
           | Inr (x, bs) \<Rightarrow> (Inr x, w1\<lparr>log_batches := bs\<rparr>)))"

definition create_batch_sql ::
  "BatchRecord \<Rightarrow> time \<Rightarrow> BatchRecord list \<Rightarrow> sqlstate + unit \<times> BatchRecord list" where
  "create_batch_sql b now bs =
     (if bt_BatchID b \<in> bt_BatchID ` set bs then Inl UniqueViolation
      else if bt_PrevBatchID b \<noteq> [] \<and> bt_PrevBatchID b \<notin> bt_BatchID ` set bs then Inl ForeignKeyViolation
      else Inr ((), bs @ [b\<lparr>bt_ClosedAt := None, bt_MerkleRoot := None, bt_AttestationURI := []\<rparr>]))"

definition CreateBatch :: "env \<Rightarrow> BatchRecord \<Rightarrow> unit prog" where
  "CreateBatch E b =
     mapErr (wrapped (''creating batch '' @ bt_BatchID b @ '': '')) (batch_stmt E (create_batch_sql b))"

definition close_batch_sql ::
  "string \<Rightarrow> bytes option \<Rightarrow> int \<Rightarrow> time \<Rightarrow> BatchRecord list \<Rightarrow> sqlstate + unit \<times> BatchRecord list" where
  "close_batch_sql batchID root n now bs =
     Inr ((), map (\<lambda>b. if bt_BatchID b = batchID
       then b\<lparr>bt_ClosedAt := Some now, bt_MerkleRoot := root, bt_EventCount := n\<rparr> else b) bs)"

definition CloseBatch :: "env \<Rightarrow> string \<Rightarrow> bytes option \<Rightarrow> int \<Rightarrow> unit prog" where
  "CloseBatch E batchID merkleRoot eventCount =
     mapErr (wrapped (''closing batch '' @ batchID @ '': ''))
       (batch_stmt E (close_batch_sql batchID merkleRoot eventCount))"

definition GetBatch :: "env \<Rightarrow> string \<Rightarrow> BatchRecord prog" where
  "GetBatch E batchID =
     andThen (mapErr (wrapped (''getting batch '' @ batchID @ '': ''))
       (batch_stmt E (\<lambda>now bs. Inr (find (\<lambda>b. bt_BatchID b = batchID) bs, bs)))) (\<lambda>row.
     case row of
       None \<Rightarrow> fail (suffixed ErrNotFound ('': batch '' @ quoted batchID))
     | Some b \<Rightarrow> ok b)"

definition open_batches :: "time \<Rightarrow> time \<Rightarrow> BatchRecord list \<Rightarrow> BatchRecord list" where
  "open_batches olderThan now bs = take 100 (sort_key bt_OpenedAt
     (filter (\<lambda>b. bt_ClosedAt b = None \<and> bt_OpenedAt b < now - olderThan) bs))"

definition ListOpenBatches :: "env \<Rightarrow> time \<Rightarrow> BatchRecord list prog" where
  "ListOpenBatches E olderThan =
     mapErr (wrapped ''listing open batches: '')
       (batch_stmt E (\<lambda>now bs. Inr (open_batches olderThan now bs, bs)))"

definition batch_events :: "string \<Rightarrow> db \<Rightarrow> LogEventRecord list" where
  "batch_events batchID d =
     sort_key ev_LedgerSeq (filter (\<lambda>e. ev_BatchID e = batchID) (log_events d))"

definition ListBatchEvents :: "env \<Rightarrow> string \<Rightarrow> LogEventRecord list prog" where
  "ListBatchEvents E batchID =
     mapErr (wrapped (''listing batch events for '' @ batchID @ '': ''))
       (query E Pool (\<lambda>now. batch_events batchID))"

subsection \<open>The manager\<close>

definition put_open :: "string \<Rightarrow> openBatchState \<Rightarrow> world \<Rightarrow> world" where
  "put_open l st w = w\<lparr>openBatch := obj_put l st (openBatch w)\<rparr>"

text \<open>The slow path of \<open>CurrentBatchID\<close>: create a batch that follows the old one, remember it
  as the open batch and queue the close of the old one.\<close>

definition roll_batch :: "env \<Rightarrow> string \<Rightarrow> string \<Rightarrow> string prog" where
  "roll_batch E ledgerID oldBatchID =
     andThen (ulid_Make E) (\<lambda>batchID.
     andThen (time_Now E) (\<lambda>now.
     andThen (mapErr (wrapped ''creating batch: '') (CreateBatch E \<lparr>bt_BatchID = batchID,
       bt_LedgerID = ledgerID, bt_OpenedAt = now, bt_ClosedAt = None, bt_EventCount = 0,
       bt_MerkleRoot = None, bt_PrevBatchID = oldBatchID, bt_AttestationURI = []\<rparr>)) (\<lambda>_.
     andThen (putS (put_open ledgerID \<lparr>ob_batchID = batchID, ob_openedAt = now, ob_eventCount = 1\<rparr>)) (\<lambda>_.
     andThen (whenM (oldBatchID \<noteq> [])
       (putS (\<lambda>w. w\<lparr>spawned := spawned w @ [(ledgerID, oldBatchID)]\<rparr>))) (\<lambda>_.
     ok batchID)))))"

definition CurrentBatchID :: "env \<Rightarrow> string \<Rightarrow> string prog" where
  "CurrentBatchID E ledgerID =
     andThen (getS (\<lambda>w. map_of (openBatch w) ledgerID)) (\<lambda>state.
     case state of
       None \<Rightarrow> roll_batch E ledgerID []
     | Some st \<Rightarrow>
         if ob_eventCount st < DefaultMaxEvents then
           andThen (time_Now E) (\<lambda>now.
           if now - ob_openedAt st < DefaultMaxAge then
             andThen (putS (put_open ledgerID (st\<lparr>ob_eventCount := ob_eventCount st + 1\<rparr>))) (\<lambda>_.
             ok (ob_batchID st))
           else roll_batch E ledgerID (ob_batchID st))
         else roll_batch E ledgerID (ob_batchID st))"

definition markPendingClose :: "string \<Rightarrow> bool prog" where
  "markPendingClose batchID w =
     (if batchID \<in> set (pendingClose w) then (Inr False, w)
      else (Inr True, w\<lparr>pendingClose := batchID # pendingClose w\<rparr>))"

definition unmarkPendingClose :: "string \<Rightarrow> unit prog" where
  "unmarkPendingClose batchID = putS (\<lambda>w. w\<lparr>pendingClose := removeAll batchID (pendingClose w)\<rparr>)"

text \<open>The leaf of an event: its type as two big-endian bytes, its system time in RFC 3339.\<close>

definition event_leaf :: "env \<Rightarrow> LogEventRecord \<Rightarrow> leaf" where
  "event_leaf E e = (ev_EventID e, format_time E (ev_SystemTime e), be16 (ev_Type e), ev_Payload e)"

definition leaves_of :: "env \<Rightarrow> LogEventRecord list \<Rightarrow> bytes list" where
  "leaves_of E events = map (\<lambda>e. leaf_hash (sha256 E) (event_leaf E e)) events"

definition closeBatch :: "env \<Rightarrow> string \<Rightarrow> string \<Rightarrow> unit prog" where
  "closeBatch E ledgerID batchID =
     andThen (mapErr (wrapped ''listing batch events: '') (ListBatchEvents E batchID)) (\<lambda>events.
     if events = [] then ok ()
     else
       let root = ComputeRoot (sha256 E) (leaves_of E events) in
       mapErr (wrapped ''closing batch: '') (CloseBatch E batchID root (int (length events))))"

text \<open>The retry loop; the last argument counts the retries that are left.\<close>

fun closeBatchLoop :: "env \<Rightarrow> string \<Rightarrow> string \<Rightarrow> time \<Rightarrow> nat \<Rightarrow> unit prog" where
  "closeBatchLoop E ledgerID batchID backoff left =
     attempt (closeBatch E ledgerID batchID) (\<lambda>r.
     case r of
       Inr _ \<Rightarrow> ok ()
     | Inl e \<Rightarrow>
         (case left of
            0 \<Rightarrow> ok ()
          | Suc left' \<Rightarrow>
              andThen (sleep E backoff) (\<lambda>cancelled.
              if cancelled then ok ()
              else closeBatchLoop E ledgerID batchID
                (if backoff * 2 > maxCloseBackoff then maxCloseBackoff else backoff * 2) left')))"

declare closeBatchLoop.simps [simp del]

definition closeBatchWithRetry :: "env \<Rightarrow> string \<Rightarrow> string \<Rightarrow> unit prog" where
  "closeBatchWithRetry E ledgerID batchID =
     andThen (markPendingClose batchID) (\<lambda>claimed.
     if \<not> claimed then ok ()
     else attempt (closeBatchLoop E ledgerID batchID initialCloseBackoff maxCloseRetries) (\<lambda>r.
          andThen (unmarkPendingClose batchID) (\<lambda>_. ofSum r)))"

text \<open>The sweep: drop the aged entries of the in-memory map and close them, then the orphans.\<close>

definition CloseExpiredBatches :: "env \<Rightarrow> unit prog" where
  "CloseExpiredBatches E =
     andThen (time_Now E) (\<lambda>now.
     andThen (getS (\<lambda>w. filter (\<lambda>(l, st). now - ob_openedAt st \<ge> DefaultMaxAge) (openBatch w))) (\<lambda>toClose.
     andThen (putS (\<lambda>w. w\<lparr>openBatch :=
       filter (\<lambda>(l, st). \<not> now - ob_openedAt st \<ge> DefaultMaxAge) (openBatch w)\<rparr>)) (\<lambda>_.
     andThen (forM (\<lambda>(l, st). closeBatchWithRetry E l (ob_batchID st)) toClose) (\<lambda>_.
     attempt (ListOpenBatches E DefaultMaxAge) (\<lambda>r.
     case r of
       Inl e \<Rightarrow> ok ()
     | Inr orphaned \<Rightarrow> forM (\<lambda>b. closeBatchWithRetry E (bt_LedgerID b) (bt_BatchID b)) orphaned)))))"

definition VerifyBatch :: "env \<Rightarrow> string \<Rightarrow> (bool \<times> bytes \<times> nat) prog" where
  "VerifyBatch E batchID =
     andThen (GetBatch E batchID) (\<lambda>batch.
     case bt_MerkleRoot batch of
       None \<Rightarrow> fail (Errorf (''batch '' @ quoted batchID @ '' is not yet closed''))
     | Some root \<Rightarrow>
         andThen (ListBatchEvents E batchID) (\<lambda>events.
         ok (Verify (sha256 E) (leaves_of E events) (Some root), root, length events)))"

subsection \<open>Frames and effects\<close>

lemma keeps_batch_stmt [frame_intro]: "keeps tx_frame (batch_stmt E f)"
  by (rule keepsI)
     (auto simp: tx_frame_def batch_stmt_def Let_def split: option.split sum.split prod.split)

lemma does_batch_stmt [does_intro]: "does (batch_stmt E f) (\<lambda>d r d'. d' = d)"
  by (auto simp: does_def batch_stmt_def Let_def split: option.splits sum.splits prod.splits)

lemma keeps_roll_batch [frame_intro]: "keeps tx_frame (roll_batch E l old)"
proof -
  have put: "keeps tx_frame (putS (put_open l st))" for st
    by (rule keepsI) (simp add: tx_frame_def put_open_def)
  have spawn: "keeps tx_frame (putS (\<lambda>w. w\<lparr>spawned := spawned w @ xs\<rparr>))" for xs
    by (rule keepsI) (simp add: tx_frame_def)
  show ?thesis
    unfolding roll_batch_def CreateBatch_def
    by (intro tx_frame.keeps_rules frame_intro put spawn)
qed

lemma keeps_CurrentBatchID [frame_intro]: "keeps tx_frame (CurrentBatchID E l)"
proof -
  have put: "keeps tx_frame (putS (put_open l st))" for st
    by (rule keepsI) (simp add: tx_frame_def put_open_def)
  show ?thesis
    unfolding CurrentBatchID_def by (intro tx_frame.keeps_rules frame_intro put)
qed

lemma does_of_frame:
  assumes "\<And>w. tx (snd (m w)) = tx w"
  shows "does m (\<lambda>d r d'. d' = d)"
  unfolding does_def using assms by (metis snd_conv)

lemma tx_roll_batch: "tx (snd (roll_batch E l old w)) = tx w"
  by (auto simp: roll_batch_def CreateBatch_def ulid_Make_def time_Now_def batch_stmt_def andThen_def
      mapErr_def whenM_def put_open_def Let_def split: option.splits sum.splits prod.splits)

lemma does_CurrentBatchID [does_intro]: "does (CurrentBatchID E l) (\<lambda>d r d'. d' = d)"
  by (rule does_of_frame)
     (auto simp: CurrentBatchID_def andThen_def time_Now_def put_open_def tx_roll_batch split: option.splits)

subsection \<open>Closing and verifying\<close>

lemma query_Pool_run:
  "fault E (n_sql w) = None \<Longrightarrow>
     query E Pool g w = (Inr (g (db_clock E (n_sql w)) (pg w)), w\<lparr>n_sql := Suc (n_sql w)\<rparr>)"
  by (simp add: query_def stmt_def Let_def)

lemma batch_stmt_run:
  "fault E (n_sql w) = None \<Longrightarrow> f (db_clock E (n_sql w)) (log_batches w) = Inr (x, bs) \<Longrightarrow>
     batch_stmt E f w = (Inr x, w\<lparr>n_sql := Suc (n_sql w), log_batches := bs\<rparr>)"
  by (simp add: batch_stmt_def Let_def)

lemma find_map_closed:
  "find (\<lambda>b. bt_BatchID b = i) bs = Some b \<Longrightarrow>
     find (\<lambda>b. bt_BatchID b = i) (map (\<lambda>b. if bt_BatchID b = i then u b else b) bs) = Some (u b)"
  if "\<And>b. bt_BatchID (u b) = bt_BatchID b"
  using that by (induction bs) (auto split: if_splits)

lemma closeBatch_row:
  assumes "\<And>k. fault E k = None" and "batch_events i (pg w) \<noteq> []"
    and "find (\<lambda>b. bt_BatchID b = i) (log_batches w) = Some b"
  shows "\<exists>b' w'. closeBatch E l i w = (Inr (), w') \<and>
    find (\<lambda>b. bt_BatchID b = i) (log_batches w') = Some b' \<and>
    bt_MerkleRoot b' = ComputeRoot (sha256 E) (leaves_of E (batch_events i (pg w)))"
  using assms
  by (simp add: closeBatch_def ListBatchEvents_def CloseBatch_def close_batch_sql_def andThen_def mapErr_def
      query_Pool_run batch_stmt_run Let_def find_map_closed)

lemma ComputeRoot_leaves: "es \<noteq> [] \<Longrightarrow> \<exists>r. ComputeRoot sha (leaves_of E es) = Some r"
  by (simp add: leaves_of_def ComputeRoot_climb)

lemma Verify_root: "leaves \<noteq> [] \<Longrightarrow> ComputeRoot sha leaves = Some r \<Longrightarrow> Verify sha leaves (Some r)"
  by (simp add: Verify_iff ComputeRoot_climb)

lemma VerifyBatch_run:
  assumes "\<And>k. fault E k = None" and "find (\<lambda>b. bt_BatchID b = i) (log_batches w) = Some b"
    and "bt_MerkleRoot b = Some root"
  shows "fst (VerifyBatch E i w) =
    Inr (Verify (sha256 E) (leaves_of E (batch_events i (pg w))) (Some root), root,
         length (batch_events i (pg w)))"
  using assms
  by (simp add: VerifyBatch_def GetBatch_def ListBatchEvents_def andThen_def mapErr_def query_Pool_run
      batch_stmt_run)

subsection \<open>The open batch\<close>

text \<open>The manager hands out the identifier of an open batch at most \<open>DefaultMaxEvents\<close> times:
  the count it keeps never exceeds that bound.\<close>

definition open_bounded :: "world \<Rightarrow> bool" where
  "open_bounded w \<longleftrightarrow>
     (\<forall>l st. map_of (openBatch w) l = Some st \<longrightarrow> 1 \<le> ob_eventCount st \<and> ob_eventCount st \<le> DefaultMaxEvents)"


end
