(* ===== verification/Redis_Cache.thy ===== *)
theory Redis_Cache
  imports Storage
begin

text \<open>
  The Redis client, \<^verbatim>\<open>src/internal/storage/redis/redis.go\<close>: the cache of idempotency keys and
  the publication of events. Redis answers each command as the environment decides: it may
  fail, and a cached key may have expired. The notifications of
  \<^verbatim>\<open>src/internal/subscriptions/manager.go\<close> are recorded in the order they are published.
\<close>

definition idempotencyKey :: "string \<Rightarrow> string \<Rightarrow> string" where
  "idempotencyKey ledgerID key = ''ik:'' @ ledgerID @ '':'' @ key"

definition BalanceKey :: "string \<Rightarrow> string \<Rightarrow> string \<Rightarrow> string" where
  "BalanceKey ledgerID account asset = ''bal:'' @ ledgerID @ '':'' @ account @ '':'' @ asset"

definition SubscriptionChannel :: "string \<Rightarrow> string" where
  "SubscriptionChannel ledgerID = ''sub:'' @ ledgerID"

definition redis_error :: error where
  "redis_error = Errorf ''redis''"

definition SetIdempotencyKey :: "env \<Rightarrow> string \<Rightarrow> string \<Rightarrow> string \<Rightarrow> bytes \<Rightarrow> unit prog" where
  "SetIdempotencyKey E ledgerID key eventID hash w =
     (let w1 = w\<lparr>n_redis := Suc (n_redis w)\<rparr> in
      case redis E (n_redis w) of
        RedisErr \<Rightarrow> (Inl redis_error, w1)
      | _ \<Rightarrow> (Inr (), w1\<lparr>cache := obj_put (idempotencyKey ledgerID key) (eventID, hash) (cache w)\<rparr>))"

text \<open>The cached event and hash, \<open>None\<close> when the key is not found.\<close>

definition GetCachedKey :: "env \<Rightarrow> string \<Rightarrow> string \<Rightarrow> (string \<times> bytes) option prog" where
  "GetCachedKey E ledgerID key w =
     (let w1 = w\<lparr>n_redis := Suc (n_redis w)\<rparr>; rkey = idempotencyKey ledgerID key in
      case redis E (n_redis w) of
        RedisErr \<Rightarrow> (Inl redis_error, w1)
      | RedisExpired \<Rightarrow> (Inr None, w1\<lparr>cache := obj_delete rkey (cache w)\<rparr>)
      | RedisOk \<Rightarrow> (Inr (map_of (cache w) rkey), w1))"

definition Publish :: "env \<Rightarrow> notification \<Rightarrow> unit prog" where
  "Publish E n w =
     (let w1 = w\<lparr>n_redis := Suc (n_redis w)\<rparr> in
      case redis E (n_redis w) of
        RedisErr \<Rightarrow> (Inl redis_error, w1)
      | _ \<Rightarrow> (Inr (), w1\<lparr>published := published w @ [n]\<rparr>))"

text \<open>Redis commands touch neither the tables nor the transaction.\<close>

definition db_frame :: "world \<Rightarrow> world \<Rightarrow> bool" where
  "db_frame w w' \<longleftrightarrow> pg w' = pg w \<and> tx w' = tx w \<and> n_sql w' = n_sql w"

interpretation db_frame: frame db_frame
  by unfold_locales (simp_all add: db_frame_def)

lemma keeps_SetIdempotencyKey: "keeps db_frame (SetIdempotencyKey E l k e h)"
  by (rule keepsI) (simp add: db_frame_def SetIdempotencyKey_def Let_def split: redis_reply.split)

lemma keeps_GetCachedKey: "keeps db_frame (GetCachedKey E l k)"
  by (rule keepsI) (simp add: db_frame_def GetCachedKey_def Let_def split: redis_reply.split)

lemma keeps_Publish: "keeps db_frame (Publish E n)"
  by (rule keepsI) (simp add: db_frame_def Publish_def Let_def split: redis_reply.split)

text \<open>The cache key of a pair is not unique to it: a colon in the ledger identifier and a
  colon in the key are not told apart, so two requests on different ledgers can share an
  entry; it is unique among ledgers whose identifier has no colon.\<close>

lemma idempotencyKey_collision:
  "idempotencyKey ''a'' ''b:c'' = idempotencyKey ''a:b'' ''c'' \<and>
   (CHR '':'' \<notin> set l \<and> CHR '':'' \<notin> set l' \<and> idempotencyKey l k = idempotencyKey l' k' \<longrightarrow>
     l = l' \<and> k = k')"
proof -
  have "l = l' \<and> k = k'"
    if "CHR '':'' \<notin> set l" "CHR '':'' \<notin> set l'" "l @ CHR '':'' # k = l' @ CHR '':'' # k'"
  proof -
    have "Some (l, k) = Some (l', k')"
      using that by (metis cut_at_append)
    then show ?thesis by simp
  qed
  then show ?thesis by (simp add: idempotencyKey_def)
qed

end
