(* ===== verification/Chart.thy ===== *)
theory Chart
  imports Go_Std
begin

text \<open>
  The chart of accounts, \<^verbatim>\<open>src/internal/ir/schema.go\<close>: parsing a JSON document into a tree of
  segments and validating account addresses against it. A Go map of nodes is the list of its
  entries in the order in which \<open>range\<close> happens to visit them. The regular expressions of
  variable segments are compiled by the parameter \<open>compile\<close>, \<open>None\<close> for a syntax error.
\<close>

type_synonym compiler = "string \<Rightarrow> (string \<Rightarrow> bool) option"

definition SchemaStrict :: string where "SchemaStrict = ''strict''"
definition SchemaBestEffort :: string where "SchemaBestEffort = ''best_effort''"
definition SchemaDisabled :: string where "SchemaDisabled = ''disabled''"

datatype ChartNode = ChartNode
  (Children: "(string \<times> ChartNode) list")
  (Pattern: string)
  (compiledPattern: "(string \<Rightarrow> bool) option")
  (IsLeaf: bool)
  (DefaultMetadata: metadata)

datatype ChartOfAccounts = ChartOfAccounts (Root: "(string \<times> ChartNode) list")

definition new_node :: ChartNode where
  "new_node = ChartNode [] [] None False None"

text \<open>The switch of \<open>parseNode\<close> on one key that is not a child.\<close>

definition parse_attribute :: "compiler \<Rightarrow> string \<Rightarrow> json \<Rightarrow> ChartNode \<Rightarrow> error + ChartNode" where
  "parse_attribute compile key val node =
     (case node of ChartNode ch p c leaf md \<Rightarrow>
        if key = ''.pattern'' then
          (case val of
             JStr s \<Rightarrow>
               (case compile s of
                  None \<Rightarrow> Inl (Errorf (''compiling pattern '' @ quoted s))
                | Some m \<Rightarrow> Inr (ChartNode ch s (Some m) leaf md))
           | JNull \<Rightarrow>
               (case compile [] of
                  None \<Rightarrow> Inl (Errorf (''compiling pattern '' @ quoted []))
                | Some m \<Rightarrow> Inr (ChartNode ch [] (Some m) leaf md))
           | _ \<Rightarrow> Inl (wrapped ''unmarshaling .pattern: '' (Errorf ''json: cannot unmarshal into string'')))
        else if key = ''.self'' then Inr (ChartNode ch p c True md)
        else
          (case metadata_of_json val of
             Inl e \<Rightarrow> Inl (wrapped ''unmarshaling .metadata: '' e)
           | Inr m \<Rightarrow> Inr (ChartNode ch p c leaf m)))"

definition is_attribute :: "string \<Rightarrow> bool" where
  "is_attribute key \<longleftrightarrow> key = ''.pattern'' \<or> key = ''.self'' \<or> key = ''.metadata''"

definition add_child :: "string \<Rightarrow> ChartNode \<Rightarrow> ChartNode \<Rightarrow> ChartNode" where
  "add_child key child node =
     (case node of ChartNode ch p c leaf md \<Rightarrow> ChartNode (ch @ [(key, child)]) p c leaf md)"

definition implicit_leaf :: "ChartNode \<Rightarrow> ChartNode" where
  "implicit_leaf node =
     (case node of ChartNode ch p c leaf md \<Rightarrow>
        ChartNode ch p c (leaf \<or> ch = []) md)"

fun parseNode :: "compiler \<Rightarrow> json \<Rightarrow> error + ChartNode"
  and parseMembers :: "compiler \<Rightarrow> (string \<times> json) list \<Rightarrow> ChartNode \<Rightarrow> error + ChartNode" where
  "parseNode compile (JObj kvs) =
     (case parseMembers compile kvs new_node of Inl e \<Rightarrow> Inl e | Inr n \<Rightarrow> Inr (implicit_leaf n))"
| "parseNode compile JNull = Inr (implicit_leaf new_node)"
| "parseNode compile _ = Inl (Errorf ''json: cannot unmarshal into map[string]json.RawMessage'')"
| "parseMembers compile [] node = Inr node"
| "parseMembers compile ((key, val) # kvs) node =
     (if is_attribute key then
        (case parse_attribute compile key val node of
           Inl e \<Rightarrow> Inl e
         | Inr node' \<Rightarrow> parseMembers compile kvs node')
      else
        (case parseNode compile val of
           Inl e \<Rightarrow> Inl (wrapped (''child '' @ quoted key @ '': '') e)
         | Inr child \<Rightarrow> parseMembers compile kvs (add_child key child node)))"

fun parseRoot :: "compiler \<Rightarrow> (string \<times> json) list \<Rightarrow> error + (string \<times> ChartNode) list" where
  "parseRoot compile [] = Inr []"
| "parseRoot compile ((key, val) # kvs) =
     (case parseNode compile val of
        Inl e \<Rightarrow> Inl (wrapped (''parsing node '' @ quoted key @ '': '') e)
      | Inr node \<Rightarrow>
          (case parseRoot compile kvs of Inl e \<Rightarrow> Inl e | Inr ns \<Rightarrow> Inr ((key, node) # ns)))"

text \<open>\<open>ParseChartOfAccounts\<close> on the document its bytes decode to (\<open>None\<close>: not JSON).\<close>

definition ParseChartOfAccounts :: "compiler \<Rightarrow> json option \<Rightarrow> error + ChartOfAccounts" where
  "ParseChartOfAccounts compile doc =
     (case doc of
        Some (JObj kvs) \<Rightarrow>
          (case parseRoot compile kvs of Inl e \<Rightarrow> Inl e | Inr root \<Rightarrow> Inr (ChartOfAccounts root))
      | Some JNull \<Rightarrow> Inr (ChartOfAccounts [])
      | _ \<Rightarrow> Inl (wrapped ''parsing chart of accounts: '' (Errorf ''invalid document'')))"

definition variable_matches :: "string \<Rightarrow> string \<times> ChartNode \<Rightarrow> bool" where
  "variable_matches seg entry =
     (case entry of (key, node) \<Rightarrow> HasPrefix key ''$'' \<and>
        (case compiledPattern node of None \<Rightarrow> True | Some m \<Rightarrow> m seg))"

text \<open>The node a segment leads to: an exact match, else the first variable that matches.\<close>

definition step_node :: "(string \<times> ChartNode) list \<Rightarrow> string \<Rightarrow> ChartNode option" where
  "step_node nodes seg =
     (case map_of nodes seg of
        Some node \<Rightarrow> Some node
      | None \<Rightarrow> map_option snd (find (variable_matches seg) nodes))"

fun validateSegments :: "string list \<Rightarrow> (string \<times> ChartNode) list \<Rightarrow> string \<Rightarrow> error option"
  and matchNode :: "string list \<Rightarrow> ChartNode \<Rightarrow> string \<Rightarrow> error option" where
  "validateSegments [] nodes fullAddr =
     Some (Errorf (''account '' @ quoted fullAddr @ '': incomplete address for chart''))"
| "validateSegments (seg # remaining) nodes fullAddr =
     (case step_node nodes seg of
        Some node \<Rightarrow> matchNode remaining node fullAddr
      | None \<Rightarrow> Some (Errorf (''account '' @ quoted fullAddr @ '': segment '' @ quoted seg @
          '' not allowed by chart of accounts'')))"
| "matchNode [] node fullAddr =
     (if IsLeaf node \<or> Children node = [] then None
      else Some (Errorf (''account '' @ quoted fullAddr @ '': not a valid leaf in chart of accounts'')))"
| "matchNode (seg # remaining) node fullAddr =
     (if Children node = [] then
        Some (Errorf (''account '' @ quoted fullAddr @ '': too many segments for chart of accounts''))
      else validateSegments (seg # remaining) (Children node) fullAddr)"

text \<open>A nil chart is \<open>None\<close>.\<close>

definition ValidateAccount :: "ChartOfAccounts option \<Rightarrow> string \<Rightarrow> error option" where
  "ValidateAccount c address =
     (case c of
        None \<Rightarrow> None
      | Some coa \<Rightarrow>
          if Root coa = [] then None
          else validateSegments (split_on CHR '':'' address) (Root coa) address)"

definition ValidatePosting :: "ChartOfAccounts option \<Rightarrow> string \<Rightarrow> string \<Rightarrow> error option" where
  "ValidatePosting c source destination =
     (case ValidateAccount c source of
        Some e \<Rightarrow> Some (wrapped ''source: '' e)
      | None \<Rightarrow>
          (case ValidateAccount c destination of
             Some e \<Rightarrow> Some (wrapped ''destination: '' e)
           | None \<Rightarrow> None))"

subsection \<open>The accounts a chart admits\<close>

text \<open>A path of nodes from the root to a leaf, one node per segment.\<close>

inductive admits :: "(string \<times> ChartNode) list \<Rightarrow> string list \<Rightarrow> bool" where
  last: "step_node nodes seg = Some node \<Longrightarrow> IsLeaf node \<or> Children node = [] \<Longrightarrow> admits nodes [seg]"
| more: "step_node nodes seg = Some node \<Longrightarrow> admits (Children node) (s # segs) \<Longrightarrow>
     admits nodes (seg # s # segs)"

inductive_cases admits_NilE: "admits nodes []"
inductive_simps admits_single: "admits nodes [seg]"
inductive_simps admits_more: "admits nodes (seg # s # segs)"

lemma step_node_Nil [simp]: "step_node [] seg = None"
  by (simp add: step_node_def)

lemma validateSegments_iff:
  "validateSegments segs nodes a = None \<longleftrightarrow> admits nodes segs"
  "matchNode segs node a = None \<longleftrightarrow>
     (if segs = [] then IsLeaf node \<or> Children node = [] else admits (Children node) segs)"
proof (induction segs nodes a and segs node a rule: validateSegments_matchNode.induct)
  case (2 seg remaining nodes fullAddr)
  then show ?case
    by (cases remaining) (auto simp: admits_single admits_more split: option.splits)
next
  case (4 seg remaining node fullAddr)
  then show ?case
    by (cases remaining) (auto simp: admits_single admits_more)
qed (auto elim: admits_NilE)

text \<open>An address passes the chart exactly when its segments lead, each to an exact child
  or else to the first variable child whose pattern accepts it, to a node marked as a leaf or
  without children; without a chart every address passes.\<close>

theorem ValidateAccount_iff:
  "ValidateAccount (Some coa) address = None \<longleftrightarrow>
     Root coa = [] \<or> admits (Root coa) (split_on CHR '':'' address)"
  by (simp add: ValidateAccount_def validateSegments_iff)

text \<open>The verdict may depend on the iteration order of a Go map: of two variable segments
  at one level only the first one visited is tried, so the same chart admits an address in one
  order and rejects it in the other.\<close>

theorem ValidateAccount_order_dependent:
  "\<exists>a b address. distinct (map fst [a, b]) \<and>
     ValidateAccount (Some (ChartOfAccounts [a, b])) address = None \<and>
     ValidateAccount (Some (ChartOfAccounts [b, a])) address \<noteq> None"
proof -
  let ?leaf = "ChartNode [] [] None True None"
  let ?a = "(''$user'', ?leaf)"
  let ?b = "(''$org'', ChartNode [(''main'', ?leaf)] [] None False None)"
  have "distinct (map fst [?a, ?b])"
    "ValidateAccount (Some (ChartOfAccounts [?a, ?b])) ''bob'' = None"
    "ValidateAccount (Some (ChartOfAccounts [?b, ?a])) ''bob'' \<noteq> None"
    by (simp_all add: ValidateAccount_def step_node_def variable_matches_def HasPrefix_def)
  then show ?thesis by blast
qed

end
