(* ===== verification/Regexp.thy ===== *)
theory Regexp
  imports Go_Std
begin

text \<open>
  The regular expressions of \<open>pkg/accounts\<close> and \<open>pkg/assets\<close>, matched as Go's \<open>regexp\<close>
  matches an expression anchored by \<open>^\<close> and \<open>$\<close>: the whole string must belong to the
  language. \<open>denotes\<close> is the language, rule by rule; \<open>match_re\<close> is an executable matcher
  by derivatives, and \<open>match_re_iff\<close> says that they agree.
\<close>

datatype re =
    Zero
  | One
  | Cls "char \<Rightarrow> bool"
  | Cat re re
  | Alt re re
  | Star re

inductive denotes :: "re \<Rightarrow> string \<Rightarrow> bool" where
  denotes_One: "denotes One []"
| denotes_Cls: "p c \<Longrightarrow> denotes (Cls p) [c]"
| denotes_Cat: "denotes r s \<Longrightarrow> denotes q t \<Longrightarrow> denotes (Cat r q) (s @ t)"
| denotes_AltL: "denotes r s \<Longrightarrow> denotes (Alt r q) s"
| denotes_AltR: "denotes q s \<Longrightarrow> denotes (Alt r q) s"
| denotes_Star0: "denotes (Star r) []"
| denotes_StarS: "denotes r s \<Longrightarrow> denotes (Star r) t \<Longrightarrow> denotes (Star r) (s @ t)"

inductive_simps denotes_Zero_iff [simp]: "denotes Zero s"
inductive_simps denotes_One_iff [simp]: "denotes One s"
inductive_simps denotes_Cls_iff [simp]: "denotes (Cls p) s"
inductive_simps denotes_Cat_iff: "denotes (Cat r q) s"
inductive_simps denotes_Alt_iff [simp]: "denotes (Alt r q) s"
inductive_cases denotes_StarE: "denotes (Star r) s"

text \<open>\<open>r+\<close>, \<open>r?\<close> and \<open>r{0,n}\<close>.\<close>

definition Plus :: "re \<Rightarrow> re" where
  "Plus r = Cat r (Star r)"

definition Opt :: "re \<Rightarrow> re" where
  "Opt r = Alt One r"

primrec UpTo :: "nat \<Rightarrow> re \<Rightarrow> re" where
  "UpTo 0 r = One"
| "UpTo (Suc n) r = Alt One (Cat r (UpTo n r))"

fun nullable :: "re \<Rightarrow> bool" where
  "nullable Zero = False"
| "nullable One = True"
| "nullable (Cls p) = False"
| "nullable (Cat r q) = (nullable r \<and> nullable q)"
| "nullable (Alt r q) = (nullable r \<or> nullable q)"
| "nullable (Star r) = True"

fun deriv :: "char \<Rightarrow> re \<Rightarrow> re" where
  "deriv c Zero = Zero"
| "deriv c One = Zero"
| "deriv c (Cls p) = (if p c then One else Zero)"
| "deriv c (Cat r q) =
     (if nullable r then Alt (Cat (deriv c r) q) (deriv c q) else Cat (deriv c r) q)"
| "deriv c (Alt r q) = Alt (deriv c r) (deriv c q)"
| "deriv c (Star r) = Cat (deriv c r) (Star r)"

fun match_re :: "re \<Rightarrow> string \<Rightarrow> bool" where
  "match_re r [] = nullable r"
| "match_re r (c # s) = match_re (deriv c r) s"

lemma nullable_iff: "nullable r \<longleftrightarrow> denotes r []"
  by (induction r) (auto simp: denotes_Cat_iff intro: denotes.intros)

lemma star_Cons:
  assumes "denotes (Star r) (c # s)"
  shows "\<exists>t u. s = t @ u \<and> denotes r (c # t) \<and> denotes (Star r) u"
proof -
  have "denotes q w \<Longrightarrow> q = Star r \<Longrightarrow> w = c # s \<Longrightarrow>
      \<exists>t u. s = t @ u \<and> denotes r (c # t) \<and> denotes (Star r) u" for q w
  proof (induction q w arbitrary: s rule: denotes.induct)
    case (denotes_StarS r' x y)
    then show ?case by (cases x) auto
  qed auto
  with assms show ?thesis by blast
qed

lemma deriv_iff: "denotes (deriv c r) s \<longleftrightarrow> denotes r (c # s)"
proof (induction r arbitrary: s)
  case (Cat r q)
  have split: "denotes (Cat r q) (c # s) \<longleftrightarrow>
      denotes r [] \<and> denotes q (c # s) \<or> (\<exists>t u. s = t @ u \<and> denotes r (c # t) \<and> denotes q u)"
    by (auto simp: denotes_Cat_iff Cons_eq_append_conv)
  show ?case
    unfolding split by (auto simp: Cat.IH denotes_Cat_iff nullable_iff)
next
  case (Star r)
  show ?case
  proof
    assume "denotes (deriv c (Star r)) s"
    then obtain t u where "s = t @ u" "denotes r (c # t)" "denotes (Star r) u"
      by (auto simp: denotes_Cat_iff Star.IH)
    then show "denotes (Star r) (c # s)"
      using denotes_StarS [of r "c # t" u] by simp
  next
    assume "denotes (Star r) (c # s)"
    then show "denotes (deriv c (Star r)) s"
      using star_Cons [of r c s] by (auto simp: denotes_Cat_iff Star.IH)
  qed
qed auto

lemma match_re_iff: "match_re r s \<longleftrightarrow> denotes r s"
  by (induction s arbitrary: r) (simp_all add: nullable_iff deriv_iff)

lemma denotes_Cat3:
  "denotes (Cat a (Cat b c)) s \<longleftrightarrow>
     (\<exists>x y z. s = x @ y @ z \<and> denotes a x \<and> denotes b y \<and> denotes c z)"
  unfolding denotes_Cat_iff by blast

subsection \<open>Repetitions of a character class\<close>

lemma denotes_Star_Cls [simp]: "denotes (Star (Cls p)) s \<longleftrightarrow> list_all p s"
proof
  assume "denotes (Star (Cls p)) s"
  then have "match_re (Star (Cls p)) s" by (simp add: match_re_iff)
  then show "list_all p s"
  proof (induction s)
    case (Cons c s)
    then have "denotes (Star (Cls p)) (c # s)" by (simp only: match_re_iff)
    then obtain t u where "s = t @ u" "denotes (Cls p) (c # t)" "denotes (Star (Cls p)) u"
      using star_Cons by blast
    with Cons.IH show ?case by (simp add: match_re_iff)
  qed simp
next
  assume "list_all p s"
  then show "denotes (Star (Cls p)) s"
  proof (induction s)
    case (Cons c s)
    then show ?case using denotes_StarS [of "Cls p" "[c]" s] by simp
  qed (rule denotes_Star0)
qed

lemma denotes_Cat_Cls [simp]:
  "denotes (Cat (Cls p) q) s \<longleftrightarrow> (\<exists>c t. s = c # t \<and> p c \<and> denotes q t)"
proof
  assume "denotes (Cat (Cls p) q) s"
  then show "\<exists>c t. s = c # t \<and> p c \<and> denotes q t"
    by (auto simp: denotes_Cat_iff)
next
  assume "\<exists>c t. s = c # t \<and> p c \<and> denotes q t"
  then obtain c t where "s = [c] @ t" "p c" "denotes q t" by auto
  then show "denotes (Cat (Cls p) q) s"
    using denotes_Cat [OF denotes_Cls] by metis
qed

lemma denotes_Plus_Cls [simp]: "denotes (Plus (Cls p)) s \<longleftrightarrow> s \<noteq> [] \<and> list_all p s"
  by (cases s) (auto simp: Plus_def)

lemma denotes_Opt [simp]: "denotes (Opt r) s \<longleftrightarrow> s = [] \<or> denotes r s"
  by (simp add: Opt_def)

lemma denotes_UpTo_Cls [simp]: "denotes (UpTo n (Cls p)) s \<longleftrightarrow> length s \<le> n \<and> list_all p s"
proof (induction n arbitrary: s)
  case (Suc n)
  then show ?case by (cases s) auto
qed auto

end
