(* ===== verification/Accounts.thy ===== *)
theory Accounts
  imports Regexp
begin

text \<open>
  Account addresses, \<^verbatim>\<open>src/pkg/accounts/accounts.go\<close>: validation against the address
  expression, segments, reserved roots, issuer accounts and wildcard patterns.
\<close>

definition isSegmentChar :: "char \<Rightarrow> bool" where
  "isSegmentChar c \<longleftrightarrow>
     (let n = (of_char c :: nat) in
      97 \<le> n \<and> n \<le> 122 \<or> 65 \<le> n \<and> n \<le> 90 \<or> 48 \<le> n \<and> n \<le> 57 \<or> c = CHR ''_'' \<or> c = CHR ''-'')"

definition SegmentRegex :: re where
  "SegmentRegex = Plus (Cls isSegmentChar)"

definition addressRe :: re where
  "addressRe = Cat SegmentRegex (Star (Cat (Cls (\<lambda>c. c = CHR '':'')) SegmentRegex))"

definition MaxAddressLength :: nat where
  "MaxAddressLength = 1024"

definition World :: string where
  "World = ''_world''"

definition ReservedRoots :: "string list" where
  "ReservedRoots = [''_'']"

definition Validate :: "string \<Rightarrow> error option" where
  "Validate address =
     (if address = '''' then Some (Errorf ''account address cannot be empty'')
      else if length address > MaxAddressLength
        then Some (Errorf (''account address exceeds maximum length of '' @
               nat_String MaxAddressLength @ '' characters''))
      else if \<not> match_re addressRe address
        then Some (Errorf (''invalid account address '' @ quoted address @
               '': must match ^[a-zA-Z0-9_-]+(:[a-zA-Z0-9_-]+)*$''))
      else None)"

fun IsIssuer :: "string \<Rightarrow> string list \<Rightarrow> bool" where
  "IsIssuer address [] = False"
| "IsIssuer address (issuer # rest) = (if address = issuer then True else IsIssuer address rest)"

definition Segments :: "string \<Rightarrow> string list" where
  "Segments address = split_on CHR '':'' address"

definition Root :: "string \<Rightarrow> string" where
  "Root address = (case Segments address of [] \<Rightarrow> '''' | p # _ \<Rightarrow> p)"

definition IsReserved :: "string \<Rightarrow> bool" where
  "IsReserved address \<longleftrightarrow> Root address \<in> set ReservedRoots"

text \<open>The loop of \<open>MatchPattern\<close>, over the paired segments.\<close>

fun matchParts :: "string list \<Rightarrow> string list \<Rightarrow> bool" where
  "matchParts (a # as) (p # ps) =
     (if p = ''*'' then matchParts as ps else if p \<noteq> a then False else matchParts as ps)"
| "matchParts _ _ = True"

definition MatchPattern :: "string \<Rightarrow> string \<Rightarrow> bool" where
  "MatchPattern address pattern =
     (let addrParts = Segments address; patParts = Segments pattern in
      if length addrParts \<noteq> length patParts then False else matchParts addrParts patParts)"

subsection \<open>Which addresses are valid\<close>

definition valid_segment :: "string \<Rightarrow> bool" where
  "valid_segment g \<longleftrightarrow> g \<noteq> [] \<and> list_all isSegmentChar g"

lemma colon_not_segment_char [simp]: "\<not> isSegmentChar CHR '':''"
  by (simp add: isSegmentChar_def)

lemma star_not_segment_char [simp]: "\<not> isSegmentChar CHR ''*''"
  by (simp add: isSegmentChar_def)

lemma valid_segment_no_colon: "valid_segment g \<Longrightarrow> CHR '':'' \<notin> set g"
  by (auto simp: valid_segment_def list_all_iff)

lemma denotes_tail_segments:
  "denotes (Star (Cat (Cls (\<lambda>c. c = CHR '':'')) SegmentRegex)) s \<longleftrightarrow>
     (\<exists>gs. list_all valid_segment gs \<and> s = concat (map (\<lambda>g. CHR '':'' # g) gs))"
  (is "denotes ?S s \<longleftrightarrow> ?P s")
proof
  have "denotes r s \<Longrightarrow> r = ?S \<Longrightarrow> ?P s" for r
  proof (induction r s rule: denotes.induct)
    case (denotes_Star0 r)
    show ?case by (intro exI [of _ "[]"]) simp
  next
    case (denotes_StarS r x y)
    then obtain g where "x = CHR '':'' # g" "valid_segment g"
      by (auto simp: SegmentRegex_def valid_segment_def)
    moreover from denotes_StarS obtain gs where
      "list_all valid_segment gs" "y = concat (map (\<lambda>g. CHR '':'' # g) gs)" by auto
    ultimately show ?case by (intro exI [of _ "g # gs"]) simp
  qed simp_all
  then show "denotes ?S s \<Longrightarrow> ?P s" by simp
next
  assume "?P s"
  then obtain gs where "list_all valid_segment gs" "s = concat (map (\<lambda>g. CHR '':'' # g) gs)"
    by blast
  then show "denotes ?S s"
  proof (induction gs arbitrary: s)
    case (Cons g gs)
    then have "denotes (Cat (Cls (\<lambda>c. c = CHR '':'')) SegmentRegex) (CHR '':'' # g)"
      by (auto simp: SegmentRegex_def valid_segment_def)
    with Cons show ?case
      using denotes_StarS [of _ "CHR '':'' # g"] by simp
  qed (simp add: denotes_Star0)
qed

lemma join_with_colon: "join_with c (g # gs) = g @ concat (map (\<lambda>h. c # h) gs)"
  by (induction gs arbitrary: g) simp_all

lemma addressRe_iff: "match_re addressRe s \<longleftrightarrow> list_all valid_segment (Segments s)"
proof
  assume "match_re addressRe s"
  then obtain g t where "s = g @ t" "valid_segment g"
      "denotes (Star (Cat (Cls (\<lambda>c. c = CHR '':'')) SegmentRegex)) t"
    by (auto simp: match_re_iff addressRe_def denotes_Cat_iff SegmentRegex_def valid_segment_def)
  then obtain gs where gs: "s = join_with CHR '':'' (g # gs)" "list_all valid_segment (g # gs)"
    unfolding denotes_tail_segments by (auto simp: join_with_colon)
  then have "Segments s = g # gs"
    unfolding Segments_def gs(1)
    by (intro split_join) (auto simp: list_all_iff valid_segment_no_colon)
  with gs(2) show "list_all valid_segment (Segments s)" by simp
next
  assume v: "list_all valid_segment (Segments s)"
  obtain g gs where g: "Segments s = g # gs"
    by (metis Segments_def split_on_nonempty neq_Nil_conv)
  then have s: "s = g @ concat (map (\<lambda>h. CHR '':'' # h) gs)"
    by (metis Segments_def join_split join_with_colon)
  have "denotes SegmentRegex g"
    using v g by (simp add: SegmentRegex_def valid_segment_def)
  moreover have "denotes (Star (Cat (Cls (\<lambda>c. c = CHR '':'')) SegmentRegex))
      (concat (map (\<lambda>h. CHR '':'' # h) gs))"
    using v g by (auto simp: denotes_tail_segments)
  ultimately show "match_re addressRe s"
    unfolding match_re_iff addressRe_def s by (rule denotes_Cat)
qed

lemma Validate_address_iff:
  "Validate s = None \<longleftrightarrow> s \<noteq> [] \<and> length s \<le> 1024 \<and> list_all valid_segment (Segments s)"
  by (simp add: Validate_def addressRe_iff MaxAddressLength_def)

subsection \<open>Segments, issuers, patterns\<close>

lemma IsIssuer_iff [simp]: "IsIssuer a xs \<longleftrightarrow> a \<in> set xs"
  by (induction xs) auto

lemma matchParts_iff:
  "length as = length ps \<Longrightarrow>
     matchParts as ps \<longleftrightarrow> (\<forall>i < length ps. ps ! i = ''*'' \<or> ps ! i = as ! i)"
proof (induction as ps rule: matchParts.induct)
  case (1 a as p ps)
  then show ?case by (auto simp: less_Suc_eq_0_disj)
qed auto

lemma MatchPattern_iff:
  "MatchPattern a p \<longleftrightarrow>
     length (Segments a) = length (Segments p) \<and>
     (\<forall>i < length (Segments p). Segments p ! i = ''*'' \<or> Segments p ! i = Segments a ! i)"
  by (auto simp: MatchPattern_def Let_def matchParts_iff)

text \<open>A pattern that is itself a valid address has no wildcard, so it matches only itself.\<close>

lemma MatchPattern_valid:
  assumes "Validate p = None"
  shows "MatchPattern a p \<longleftrightarrow> a = p"
proof -
  have "Segments p ! i \<noteq> ''*''" if "i < length (Segments p)" for i
  proof -
    have "valid_segment (Segments p ! i)"
      using assms that by (auto simp: Validate_address_iff list_all_length)
    then show ?thesis by (auto simp: valid_segment_def)
  qed
  then have "MatchPattern a p \<longleftrightarrow> Segments a = Segments p"
    by (auto simp: MatchPattern_iff intro: nth_equalityI)
  then show ?thesis
    using split_on_inject by (auto simp: Segments_def)
qed

end
