(* ===== verification/Assets.thy ===== *)
theory Assets
  imports Regexp
begin

text \<open>
  Asset identifiers \<open>TICKER[_SUFFIX][/PRECISION]\<close>, \<^verbatim>\<open>src/pkg/assets/assets.go\<close>:
  validation against the identifier expression and the split into components.
\<close>

definition isUpper :: "char \<Rightarrow> bool" where
  "isUpper c \<longleftrightarrow> (let n = (of_char c :: nat) in 65 \<le> n \<and> n \<le> 90)"

definition isDigit :: "char \<Rightarrow> bool" where
  "isDigit c \<longleftrightarrow> (let n = (of_char c :: nat) in 48 \<le> n \<and> n \<le> 57)"

text \<open>\<open>^[A-Z][A-Z0-9]{0,16}(_[A-Z]{1,16})?(\/\d{1,6})?$\<close>, group by group.\<close>

definition tickerRe :: re where
  "tickerRe = Cat (Cls isUpper) (UpTo 16 (Cls (\<lambda>c. isUpper c \<or> isDigit c)))"

definition suffixRe :: re where
  "suffixRe = Opt (Cat (Cls (\<lambda>c. c = CHR ''_'')) (Cat (Cls isUpper) (UpTo 15 (Cls isUpper))))"

definition precisionRe :: re where
  "precisionRe = Opt (Cat (Cls (\<lambda>c. c = CHR ''/'')) (Cat (Cls isDigit) (UpTo 5 (Cls isDigit))))"

definition Pattern :: re where
  "Pattern = Cat tickerRe (Cat suffixRe precisionRe)"

record Asset =
  as_Raw :: string
  as_Ticker :: string
  as_Suffix :: string
  as_Precision :: int

definition Validate :: "string \<Rightarrow> error option" where
  "Validate asset =
     (if asset = '''' then Some (Errorf ''asset cannot be empty'')
      else if \<not> match_re Pattern asset then Some (Errorf (''invalid asset '' @ quoted asset @
        '': must match ^[A-Z][A-Z0-9]{0,16}(_[A-Z]{1,16})?('' @ CHR 0x5C # ''/'' @ CHR 0x5C # ''d{1,6})?$''))
      else None)"

text \<open>\<open>strconv.Atoi\<close> reads what \<open>SetString\<close> reads in base 10; the six digits the
  expression allows are far from its range limit.\<close>

definition Parse :: "string \<Rightarrow> error + Asset" where
  "Parse raw =
     (case Validate raw of
        Some e \<Rightarrow> Inl e
      | None \<Rightarrow>
         (let split_suffix = (\<lambda>prec remaining.
                (case cut_at CHR ''_'' remaining of
                   Some (t, u) \<Rightarrow>
                     Inr \<lparr>as_Raw = raw, as_Ticker = t, as_Suffix = u, as_Precision = prec\<rparr>
                 | None \<Rightarrow>
                     Inr \<lparr>as_Raw = raw, as_Ticker = remaining, as_Suffix = '''',
                          as_Precision = prec\<rparr>))
          in case cut_last CHR ''/'' raw of
               Some (a, precStr) \<Rightarrow>
                 (case SetString precStr of
                    None \<Rightarrow> Inl (Errorf (''invalid precision in asset '' @ quoted raw))
                  | Some prec \<Rightarrow> split_suffix prec a)
             | None \<Rightarrow> split_suffix (- 1) raw))"

subsection \<open>The shape of a valid identifier\<close>

definition ticker_ok :: "string \<Rightarrow> bool" where
  "ticker_ok t \<longleftrightarrow>
     (\<exists>c u. t = c # u \<and> isUpper c \<and> length u \<le> 16 \<and> list_all (\<lambda>c. isUpper c \<or> isDigit c) u)"

definition suffix_ok :: "string \<Rightarrow> bool" where
  "suffix_ok u \<longleftrightarrow> u = [] \<or> length u \<le> 16 \<and> list_all isUpper u"

definition suffix_part :: "string \<Rightarrow> string" where
  "suffix_part u = (if u = [] then [] else CHR ''_'' # u)"

definition digits_ok :: "string \<Rightarrow> bool" where
  "digits_ok d \<longleftrightarrow> d \<noteq> [] \<and> length d \<le> 6 \<and> list_all isDigit d"

definition precision_part :: "string option \<Rightarrow> string" where
  "precision_part p = (case p of None \<Rightarrow> [] | Some d \<Rightarrow> CHR ''/'' # d)"

lemma denotes_tickerRe: "denotes tickerRe t \<longleftrightarrow> ticker_ok t"
  by (simp add: tickerRe_def ticker_ok_def)

lemma denotes_suffixRe: "denotes suffixRe x \<longleftrightarrow> (\<exists>u. x = suffix_part u \<and> suffix_ok u)"
proof
  assume "denotes suffixRe x"
  then have "x = [] \<or> (\<exists>t. x = CHR ''_'' # t \<and>
      (\<exists>d w. t = d # w \<and> isUpper d \<and> length w \<le> 15 \<and> list_all isUpper w))"
    by (simp add: suffixRe_def)
  then show "\<exists>u. x = suffix_part u \<and> suffix_ok u"
  proof (elim disjE exE conjE)
    assume "x = []"
    then show ?thesis by (intro exI [of _ "[]"]) (simp add: suffix_part_def suffix_ok_def)
  next
    fix t d w
    assume "x = CHR ''_'' # t" "t = d # w" "isUpper d" "length w \<le> 15" "list_all isUpper w"
    then show ?thesis by (intro exI [of _ t]) (simp add: suffix_part_def suffix_ok_def)
  qed
next
  assume "\<exists>u. x = suffix_part u \<and> suffix_ok u"
  then obtain u where "x = suffix_part u" "suffix_ok u" by blast
  then show "denotes suffixRe x"
    by (cases u) (auto simp: suffix_part_def suffix_ok_def suffixRe_def)
qed

lemma denotes_precisionRe:
  "denotes precisionRe y \<longleftrightarrow> (\<exists>p. y = precision_part p \<and> pred_option digits_ok p)"
proof
  assume "denotes precisionRe y"
  then have "y = [] \<or> (\<exists>t. y = CHR ''/'' # t \<and>
      (\<exists>d w. t = d # w \<and> isDigit d \<and> length w \<le> 5 \<and> list_all isDigit w))"
    by (simp add: precisionRe_def)
  then show "\<exists>p. y = precision_part p \<and> pred_option digits_ok p"
  proof (elim disjE exE conjE)
    assume "y = []"
    then show ?thesis by (intro exI [of _ None]) (simp add: precision_part_def)
  next
    fix t d w
    assume "y = CHR ''/'' # t" "t = d # w" "isDigit d" "length w \<le> 5" "list_all isDigit w"
    then show ?thesis
      by (intro exI [of _ "Some t"]) (simp add: digits_ok_def precision_part_def)
  qed
next
  assume "\<exists>p. y = precision_part p \<and> pred_option digits_ok p"
  then obtain p where "y = precision_part p" "pred_option digits_ok p" by blast
  then show "denotes precisionRe y"
    by (cases p; cases "the p") (auto simp: precision_part_def digits_ok_def precisionRe_def)
qed

lemma Pattern_iff:
  "match_re Pattern s \<longleftrightarrow>
     (\<exists>t u p. s = t @ suffix_part u @ precision_part p \<and> ticker_ok t \<and> suffix_ok u \<and>
        pred_option digits_ok p)"
  unfolding match_re_iff Pattern_def denotes_Cat3 denotes_tickerRe denotes_suffixRe
    denotes_precisionRe
  by blast

lemma Validate_asset_iff:
  "Validate s = None \<longleftrightarrow>
     (\<exists>t u p. s = t @ suffix_part u @ precision_part p \<and> ticker_ok t \<and> suffix_ok u \<and>
        pred_option digits_ok p)"
proof -
  have "Validate s = None \<longleftrightarrow> match_re Pattern s"
    by (cases s) (simp_all add: Validate_def Pattern_def tickerRe_def)
  then show ?thesis by (simp add: Pattern_iff)
qed

lemma separators [simp]:
  "\<not> isUpper CHR ''_''" "\<not> isDigit CHR ''_''" "\<not> isUpper CHR ''/''" "\<not> isDigit CHR ''/''"
  by (simp_all add: isUpper_def isDigit_def)

lemma list_all_notin: "list_all p xs \<Longrightarrow> \<not> p c \<Longrightarrow> c \<notin> set xs"
  by (auto simp: list_all_iff)

lemma ticker_chars: "ticker_ok t \<Longrightarrow> list_all (\<lambda>c. isUpper c \<or> isDigit c) t"
  by (auto simp: ticker_ok_def)

lemma no_underscore: "ticker_ok t \<Longrightarrow> CHR ''_'' \<notin> set t"
  by (rule list_all_notin [OF ticker_chars]) simp_all

lemma no_slash:
  "ticker_ok t \<Longrightarrow> CHR ''/'' \<notin> set t" "suffix_ok u \<Longrightarrow> CHR ''/'' \<notin> set (suffix_part u)"
  "digits_ok d \<Longrightarrow> CHR ''/'' \<notin> set d"
  by (auto dest!: ticker_chars list_all_notin [where c = "CHR ''/''"]
      simp: suffix_ok_def suffix_part_def digits_ok_def)

lemma digit_val_isDigit: "isDigit c \<longleftrightarrow> digit_val c \<noteq> None"
  by (simp add: isDigit_def digit_val_def Let_def)

lemma parse_digits_total: "list_all isDigit d \<Longrightarrow> \<exists>n. parse_digits a d = Some n"
  by (induction d arbitrary: a) (auto simp: digit_val_isDigit)

lemma digits_SetString:
  assumes "digits_ok d"
  shows "SetString d = map_option int (parse_nat d) \<and> (\<exists>n. parse_nat d = Some n)"
proof -
  obtain c cs where d: "d = c # cs" "isDigit c"
    using assms by (cases d) (auto simp: digits_ok_def)
  then have "c \<noteq> CHR ''-''" "c \<noteq> CHR ''+''"
    by (auto simp: isDigit_def)
  moreover have "\<exists>n. parse_nat d = Some n"
    using assms parse_digits_total [of d 0] by (auto simp: digits_ok_def parse_nat_def)
  ultimately show ?thesis using d by (simp add: SetString_def)
qed

text \<open>Parsing an identifier that is put together from a ticker, an optional suffix and an optional
  precision gives these parts back, with the precision as a number and minus one for none.\<close>

theorem Parse_parts:
  assumes "ticker_ok t" "suffix_ok u" "pred_option digits_ok p"
    and s: "s = t @ suffix_part u @ precision_part p"
  shows "Parse s = Inr \<lparr>as_Raw = s, as_Ticker = t, as_Suffix = u,
     as_Precision = (case p of None \<Rightarrow> - 1 | Some d \<Rightarrow> int (the (parse_nat d)))\<rparr>"
proof -
  have valid: "Validate s = None" using assms by (auto simp: Validate_asset_iff)
  have cut: "cut_at CHR ''_'' (t @ suffix_part u) = (if u = [] then None else Some (t, u))"
    using no_underscore [OF assms(1)] by (simp add: suffix_part_def cut_at_append cut_at_None)
  show ?thesis
  proof (cases p)
    case None
    then have "cut_last CHR ''/'' s = None"
      using no_slash assms by (simp add: precision_part_def cut_last_None)
    with None valid cut s show ?thesis
      by (auto simp: Parse_def precision_part_def suffix_part_def)
  next
    case (Some d)
    then have "cut_last CHR ''/'' s = Some (t @ suffix_part u, d)"
      using no_slash assms(3) s cut_last_append [of "CHR ''/''" d "t @ suffix_part u"]
      by (simp add: precision_part_def)
    with Some valid cut digits_SetString [of d] assms(3) show ?thesis
      by (auto simp: Parse_def suffix_part_def)
  qed
qed

theorem Parse_parts_witness:
  "Parse ''USDC_ETH/6'' = Inr \<lparr>as_Raw = ''USDC_ETH/6'', as_Ticker = ''USDC'', as_Suffix = ''ETH'', as_Precision = 6\<rparr>"
proof -
  have "ticker_ok ''USDC''" "suffix_ok ''ETH''" "pred_option digits_ok (Some ''6'')"
    "''USDC_ETH/6'' = ''USDC'' @ suffix_part ''ETH'' @ precision_part (Some ''6'')"
    by (simp_all add: ticker_ok_def suffix_ok_def digits_ok_def suffix_part_def precision_part_def isUpper_def isDigit_def)
  moreover have "the (parse_nat ''6'') = 6" by code_simp
  ultimately show ?thesis using Parse_parts [of "''USDC''" "''ETH''" "Some ''6''" "''USDC_ETH/6''"] by simp
qed

end
