(* ===== verification/Policy.thy ===== *)
theory Policy
  imports Go_Std
begin

text \<open>
  The deny-list policy evaluator, \<^verbatim>\<open>src/internal/policy/evaluator.go\<close>.
\<close>

record PolicyResult =
  Denied :: bool
  Reason :: string

definition allow :: PolicyResult where
  "allow = \<lparr>Denied = False, Reason = []\<rparr>"

text \<open>\<open>"*"\<close> matches everything, a pattern ending in \<open>":*"\<close> matches a prefix, any other itself.\<close>

definition matchPattern :: "string \<Rightarrow> string \<Rightarrow> bool" where
  "matchPattern pat val \<longleftrightarrow>
     (if pat = ''*'' then True
      else if HasSuffix pat '':*'' then HasPrefix val (butlast pat)
      else pat = val)"

text \<open>The three patterns of a rule line, for a line that is a rule at all.\<close>

definition rule_of :: "string \<Rightarrow> (string \<times> string \<times> string) option" where
  "rule_of line =
     (let parts = Fields line in
      if length parts < 2 \<or> parts ! 0 \<noteq> ''deny'' then None
      else Some (parts ! 1, if length parts \<ge> 3 then parts ! 2 else ''*'',
                 if length parts \<ge> 4 then parts ! 3 else ''*''))"

fun eval_lines :: "string \<Rightarrow> string \<Rightarrow> string list \<Rightarrow> string list \<Rightarrow> PolicyResult" where
  "eval_lines who operation touchedAccounts [] = allow"
| "eval_lines who operation touchedAccounts (raw # lines) =
     (let line = TrimSpace raw; next = eval_lines who operation touchedAccounts lines in
      if line = [] \<or> HasPrefix line ''#'' then next
      else if line = ''deny all'' then \<lparr>Denied = True, Reason = ''blanket deny policy''\<rparr>
      else
        (case rule_of line of
           None \<Rightarrow> next
         | Some (principalPattern, operationPattern, accountPattern) \<Rightarrow>
             if \<not> matchPattern principalPattern who then next
             else if \<not> matchPattern operationPattern operation then next
             else if accountPattern = ''*'' then
               \<lparr>Denied = True, Reason = ''denied by rule: '' @ line\<rparr>
             else
               (case find (matchPattern accountPattern) touchedAccounts of
                  None \<Rightarrow> next
                | Some acct \<Rightarrow> \<lparr>Denied = True,
                    Reason = ''denied by rule: '' @ line @ '' (account '' @ acct @ '')''\<rparr>)))"

definition Evaluate :: "string \<Rightarrow> string \<Rightarrow> string \<Rightarrow> string list \<Rightarrow> PolicyResult" where
  "Evaluate policyText who operation touchedAccounts =
     (if policyText = [] then allow
      else eval_lines who operation touchedAccounts (split_on CHR 0x0A policyText))"

text \<open>The error message of a malformed line, with its one-based number.\<close>

fun validate_lines :: "nat \<Rightarrow> string list \<Rightarrow> error option" where
  "validate_lines i [] = None"
| "validate_lines i (raw # lines) =
     (let line = TrimSpace raw in
      if line = [] \<or> HasPrefix line ''#'' \<or> line = ''deny all'' then validate_lines (Suc i) lines
      else let parts = Fields line in
        if length parts < 2 \<or> parts ! 0 \<noteq> ''deny'' then
          Some (Errorf (''line '' @ nat_String (i + 1) @ '': unrecognized rule '' @ quoted line @
            '' (expected '' @ quoted ''deny all'' @ '' or '' @ quoted ''deny <principal> [operation] [account]'' @ '')''))
        else if length parts > 4 then
          Some (Errorf (''line '' @ nat_String (i + 1) @ '': too many fields in rule '' @ quoted line @
            '' (expected at most: deny <principal> <operation> <account>)''))
        else validate_lines (Suc i) lines)"

definition ValidatePolicy :: "string \<Rightarrow> error option" where
  "ValidatePolicy policyText = validate_lines 0 (split_on CHR 0x0A policyText)"

subsection \<open>What a policy denies\<close>

text \<open>
  The rule language, stated on the words of a line and without the evaluator's own parser and matcher.
  A pattern covers a value when it is the star, the value itself, or \<open>prefix:*\<close> for a value that begins
  with \<open>prefix:\<close>; this holds of principals and operations as well as of accounts.
\<close>

definition pattern_covers :: "string \<Rightarrow> string \<Rightarrow> bool" where
  "pattern_covers pat val \<longleftrightarrow> pat = ''*'' \<or> pat = val \<or> (\<exists>p rest. pat = p @ '':*'' \<and> val = p @ '':'' @ rest)"

text \<open>The words after the principal: an operation pattern and an account pattern, either may be missing.\<close>

fun scope_covers :: "string list \<Rightarrow> string \<Rightarrow> string list \<Rightarrow> bool" where
  "scope_covers [] operation accts = True"
| "scope_covers [op] operation accts = pattern_covers op operation"
| "scope_covers (op # ap # _) operation accts \<longleftrightarrow>
     pattern_covers op operation \<and> (ap = ''*'' \<or> (\<exists>a \<in> set accts. pattern_covers ap a))"

definition line_denies :: "string \<Rightarrow> string \<Rightarrow> string list \<Rightarrow> string \<Rightarrow> bool" where
  "line_denies who operation accts raw \<longleftrightarrow>
     TrimSpace raw = ''deny all'' \<or>
     \<not> HasPrefix (TrimSpace raw) ''#'' \<and>
     (\<exists>pp scope. Fields (TrimSpace raw) = ''deny'' # pp # scope \<and> pattern_covers pp who \<and>
        scope_covers scope operation accts)"

text \<open>The reason given: the line, and the first account that its account pattern covers, if it has one
  other than the star.\<close>

definition denial_reason :: "string list \<Rightarrow> string \<Rightarrow> string" where
  "denial_reason accts raw =
     (if TrimSpace raw = ''deny all'' then ''blanket deny policy''
      else ''denied by rule: '' @ TrimSpace raw @
        (case Fields (TrimSpace raw) of
           _ # _ # _ # ap # _ \<Rightarrow>
             if ap = ''*'' then [] else '' (account '' @ the (find (pattern_covers ap) accts) @ '')''
         | _ \<Rightarrow> []))"

lemma HasSuffix_eq: "HasSuffix s p \<longleftrightarrow> (\<exists>q. s = q @ p)"
proof
  assume "HasSuffix s p"
  then have "s = take (length s - length p) s @ p"
    by (metis HasSuffix_def append_take_drop_id)
  then show "\<exists>q. s = q @ p" by blast
qed (auto simp: HasSuffix_def)

lemma HasPrefix_eq: "HasPrefix s p \<longleftrightarrow> (\<exists>q. s = p @ q)"
  by (metis HasPrefix_def append_eq_conv_conj)

lemma matchPattern_iff: "matchPattern pat val \<longleftrightarrow> pattern_covers pat val"
  by (auto simp: matchPattern_def pattern_covers_def HasSuffix_eq HasPrefix_eq butlast_append)

lemma matchPattern_covers: "matchPattern = pattern_covers"
  by (intro ext) (rule matchPattern_iff)

lemma covers_star: "pattern_covers ''*'' val"
  by (simp add: pattern_covers_def)

lemma rule_of_words: "rule_of line = (case Fields line of
    d # pp # scope \<Rightarrow> if d \<noteq> ''deny'' then None else
      Some (pp, case scope of [] \<Rightarrow> ''*'' | op # _ \<Rightarrow> op, case scope of _ # ap # _ \<Rightarrow> ap | _ \<Rightarrow> ''*'')
  | _ \<Rightarrow> None)"
  by (auto simp: rule_of_def split: list.splits)

lemma find_ex: "find P xs = Some x \<Longrightarrow> \<exists>y \<in> set xs. P y"
  by (metis find_Some_iff nth_mem)

lemma no_words: "Fields [] = []"
  by (simp add: Fields_def)

lemma eval_lines_Cons:
  "eval_lines who operation accts (raw # lines) =
     (if line_denies who operation accts raw then \<lparr>Denied = True, Reason = denial_reason accts raw\<rparr>
      else eval_lines who operation accts lines)"
  by (auto simp: Let_def line_denies_def denial_reason_def rule_of_words matchPattern_covers covers_star no_words
      HasPrefix_def find_None_iff split: list.splits option.splits dest: find_ex)

text \<open>C35. The evaluator is a deny list with the first match: a request is denied by the first line of the
  policy that is the blanket rule, or that consists of \<open>deny\<close> and patterns which cover the
  principal, the operation and one of the accounts touched, where a pattern left out covers
  everything; the reason names that line and the first account it covers. When no line
  does so the request is allowed; comments and blank lines deny nothing. A pattern is the star, a literal or
  \<open>prefix:*\<close>, for the principal and the operation too, while the comment of the evaluator allows
  them a literal or the star only.\<close>

theorem Evaluate_first_match:
  "Evaluate policyText who operation accts =
     (case find (line_denies who operation accts) (split_on CHR 0x0A policyText) of
        None \<Rightarrow> \<lparr>Denied = False, Reason = []\<rparr>
      | Some raw \<Rightarrow> \<lparr>Denied = True, Reason = denial_reason accts raw\<rparr>)"
proof -
  have "eval_lines who operation accts lines =
     (case find (line_denies who operation accts) lines of
        None \<Rightarrow> \<lparr>Denied = False, Reason = []\<rparr>
      | Some raw \<Rightarrow> \<lparr>Denied = True, Reason = denial_reason accts raw\<rparr>)" for lines
    by (induction lines) (simp_all add: eval_lines_Cons allow_def del: eval_lines.simps(2))
  moreover have "find (line_denies who operation accts) (split_on CHR 0x0A []) = None"
    by (simp add: line_denies_def TrimSpace_def no_words)
  ultimately show ?thesis by (simp add: Evaluate_def allow_def)
qed

text \<open>A line that is meaningful as a whole: nothing of it is skipped by the evaluator.\<close>

definition line_understood :: "string \<Rightarrow> bool" where
  "line_understood raw =
     (let line = TrimSpace raw in
      line = [] \<or> HasPrefix line ''#'' \<or> line = ''deny all'' \<or>
      rule_of line \<noteq> None \<and> length (Fields line) \<le> 4)"

lemma validate_lines_None: "validate_lines i lines = None \<longleftrightarrow> list_all line_understood lines"
proof (induction lines arbitrary: i)
  case (Cons raw lines)
  have "validate_lines i (raw # lines) = None \<longleftrightarrow>
      line_understood raw \<and> validate_lines (Suc i) lines = None"
    by (simp add: Let_def rule_of_def line_understood_def)
  with Cons.IH [of "Suc i"] show ?case by simp
qed simp

text \<open>A policy that passes validation has no line the evaluator would skip silently: every
  line is blank, a comment, the blanket rule, or a rule whose patterns are all used.\<close>

theorem ValidatePolicy_no_silent_skip:
  "ValidatePolicy policyText = None \<longleftrightarrow> list_all line_understood (split_on CHR 0x0A policyText)"
  by (simp add: ValidatePolicy_def validate_lines_None)

end
