(* ===== verification/Planner_Base.thy ===== *)
theory Planner_Base
  imports Store_Governance Batch_Manager Redis_Cache Chart Accounts Assets Policy
begin

text \<open>
  The base of the planner, \<^verbatim>\<open>src/internal/planner\<close>: results and inputs, sealed check and
  publication (\<^verbatim>\<open>planner.go\<close>), the validation, event and balance helpers of
  \<^verbatim>\<open>operations_shared.go\<close>, and the idempotent, deadlock-retried submission path with its
  hashes (\<^verbatim>\<open>operations_post.go\<close>).
\<close>

definition ledgerStateSealed :: string where "ledgerStateSealed = ''sealed''"
definition maxDeadlockRetries :: nat where "maxDeadlockRetries = 5"
definition schemaVersionV1 :: int where "schemaVersionV1 = 1"
definition featureSchemaEnforcement :: string where
  "featureSchemaEnforcement = ''schema_enforcement''"
definition featureActiveSchemaVersion :: string where
  "featureActiveSchemaVersion = ''active_schema_version''"

record SubmitResult =
  EventID :: string
  IdempotentHit :: bool
  Transaction :: "TransactionRecord option"
  HoldID :: string
  ConversionID :: string

definition submitted :: "string \<Rightarrow> SubmitResult" where
  "submitted eventID = \<lparr>EventID = eventID, IdempotentHit = False, Transaction = None,
     HoldID = [], ConversionID = []\<rparr>"

definition idempotent_hit :: "string \<Rightarrow> SubmitResult" where
  "idempotent_hit eventID = (submitted eventID)\<lparr>IdempotentHit := True\<rparr>"

record PostingInput =
  Source :: string
  Destination :: string
  Amount :: "int option"
  Asset :: string

text \<open>The amount of a posting that passed validation.\<close>

definition amount_of :: "PostingInput \<Rightarrow> int" where
  "amount_of p = (case Amount p of None \<Rightarrow> 0 | Some a \<Rightarrow> a)"

definition publishEvent :: "env \<Rightarrow> string \<Rightarrow> string \<Rightarrow> int \<Rightarrow> unit prog" where
  "publishEvent E ledgerID eventID eventType =
     (if \<not> has_subs E then ok ()
      else attempt (Publish E \<lparr>nt_LedgerID = ledgerID, nt_EventID = eventID, nt_Type = eventType\<rparr>)
             (\<lambda>_. ok ()))"

definition checkLedgerNotSealed :: "env \<Rightarrow> string \<Rightarrow> LedgerRecord prog" where
  "checkLedgerNotSealed E ledgerID =
     andThen (mapErr (wrapped ''getting ledger: '') (GetLedger E Pool ledgerID)) (\<lambda>ledger.
     if lr_State ledger = ledgerStateSealed then fail ErrLedgerSealed else ok ledger)"

definition isIdempotencyConflict :: "error \<Rightarrow> bool" where
  "isIdempotencyConflict e = errors_is e ErrIdempotencyKeyConflict"

definition resolveIdempotencyConflict :: "env \<Rightarrow> string \<Rightarrow> string \<Rightarrow> SubmitResult prog" where
  "resolveIdempotencyConflict E ledgerID key =
     attempt (GetIdempotencyKey E Pool ledgerID key) (\<lambda>r.
     case r of
       Inr (Some ikRecord) \<Rightarrow> ok (idempotent_hit (ik_EventID ikRecord))
     | _ \<Rightarrow> fail ErrIdempotencyKeyConflict)"

subsection \<open>Validation of postings\<close>

definition validate_posting :: "nat \<Rightarrow> PostingInput \<Rightarrow> error option" where
  "validate_posting i p =
     (case Accounts.Validate (Source p) of
        Some e \<Rightarrow> Some (wrapped (''posting '' @ nat_String i @ '' source: '') e)
      | None \<Rightarrow>
     (case Accounts.Validate (Destination p) of
        Some e \<Rightarrow> Some (wrapped (''posting '' @ nat_String i @ '' destination: '') e)
      | None \<Rightarrow>
     (case Assets.Validate (Asset p) of
        Some e \<Rightarrow> Some (wrapped (''posting '' @ nat_String i @ '' asset: '') e)
      | None \<Rightarrow>
     (case Amount p of
        None \<Rightarrow> Some (Errorf (''posting '' @ nat_String i @ '': amount must be positive''))
      | Some a \<Rightarrow> if a \<le> 0 then Some (Errorf (''posting '' @ nat_String i @ '': amount must be positive''))
                  else None))))"

fun validate_from :: "nat \<Rightarrow> PostingInput list \<Rightarrow> error option" where
  "validate_from i [] = None"
| "validate_from i (p # ps) =
     (case validate_posting i p of Some e \<Rightarrow> Some e | None \<Rightarrow> validate_from (Suc i) ps)"

definition validatePostings :: "PostingInput list \<Rightarrow> error option" where
  "validatePostings postings =
     (if postings = [] then Some (Errorf ''at least one posting is required'')
      else validate_from 0 postings)"

definition valid_posting :: "PostingInput \<Rightarrow> bool" where
  "valid_posting p \<longleftrightarrow> Accounts.Validate (Source p) = None \<and> Accounts.Validate (Destination p) = None \<and>
     Assets.Validate (Asset p) = None \<and> (\<exists>a. Amount p = Some a \<and> 0 < a)"

lemma validate_from_None: "validate_from i ps = None \<longleftrightarrow> list_all valid_posting ps"
  by (induction ps arbitrary: i)
     (auto simp: validate_posting_def valid_posting_def split: option.splits)

lemma validatePostings_None: "validatePostings ps = None \<longleftrightarrow> ps \<noteq> [] \<and> list_all valid_posting ps"
  by (simp add: validatePostings_def validate_from_None)

subsection \<open>Appending an event\<close>

definition new_event ::
  "string \<Rightarrow> string \<Rightarrow> int \<Rightarrow> int \<Rightarrow> bytes \<Rightarrow> string \<Rightarrow> bytes option \<Rightarrow> string \<Rightarrow> time \<Rightarrow> time \<Rightarrow> LogEventRecord" where
  "new_event eventID ledgerID seq eventType payload key ikHash batchID vt now =
     \<lparr>ev_EventID = eventID, ev_LedgerID = ledgerID, ev_LedgerSeq = seq, ev_SystemTime = now,
      ev_ValidTime = vt, ev_Type = eventType, ev_Payload = payload, ev_IdempotencyKey = key,
      ev_IdempotencyHash = (if key \<noteq> [] then ikHash else None),
      ev_BatchID = batchID, ev_SchemaVersion = schemaVersionV1\<rparr>"

definition appendEvent ::
  "env \<Rightarrow> string \<Rightarrow> int \<Rightarrow> bytes \<Rightarrow> string \<Rightarrow> bytes option \<Rightarrow> time \<Rightarrow> time \<Rightarrow> (string \<times> int) prog" where
  "appendEvent E ledgerID eventType payload key ikHash vt now =
     andThen (ulid_Make E) (\<lambda>eventID.
     andThen (mapErr (wrapped ''getting batch ID: '') (CurrentBatchID E ledgerID)) (\<lambda>batchID.
     andThen (mapErr (wrapped ''getting next seq: '') (NextLedgerSeq E ledgerID)) (\<lambda>seq.
     andThen (AppendLogEvent E Tx
       (new_event eventID ledgerID seq eventType payload key ikHash batchID vt now)) (\<lambda>_.
     ok (eventID, seq)))))"

text \<open>A view extended by one event of a ledger, numbered next.\<close>

definition next_event :: "string \<Rightarrow> int \<Rightarrow> bytes \<Rightarrow> string \<Rightarrow> db \<Rightarrow> LogEventRecord \<Rightarrow> bool" where
  "next_event l ty payload key d ev \<longleftrightarrow> ev_LedgerID ev = l \<and> ev_Type ev = ty \<and> ev_Payload ev = payload
     \<and> ev_IdempotencyKey ev = key \<and> ev_LedgerSeq ev = next_seq l d
     \<and> list_all (\<lambda>x. \<not> event_conflict ev x) (log_events d)"

lemma keeps_appendEvent [frame_intro]: "keeps tx_frame (appendEvent E l ty pl k h vt now)"
  unfolding appendEvent_def by (intro tx_frame.keeps_rules frame_intro)

lemma does_appendEvent [does_intro]:
  "does (appendEvent E l ty pl k h vt now) (\<lambda>d r d'. \<forall>x. r = Inr x \<longrightarrow>
     (\<exists>ev. next_event l ty pl k d ev \<and> ev_ValidTime ev = vt \<and> ev_SystemTime ev = now \<and>
        x = (ev_EventID ev, ev_LedgerSeq ev) \<and> d' = d\<lparr>log_events := log_events d @ [ev]\<rparr>))"
proof (rule does_weaken)
  show "does (appendEvent E l ty pl k h vt now) (\<lambda>d r d'. \<forall>x. r = Inr x \<longrightarrow>
     (\<exists>i b. let ev = new_event i l (next_seq l d) ty pl k h b vt now in
        x = (i, next_seq l d) \<and> list_all (\<lambda>x. \<not> event_conflict ev x) (log_events d) \<and>
        d' = d\<lparr>log_events := log_events d @ [ev]\<rparr>))"
    unfolding appendEvent_def
    by (rule does_weaken, (rule does_intro)+) (auto simp: Let_def)
qed (fastforce simp: Let_def next_event_def new_event_def)

subsection \<open>Balances\<close>

type_synonym acctAsset = "string \<times> string"

definition availableBalance :: "env \<Rightarrow> string \<Rightarrow> string \<Rightarrow> string \<Rightarrow> int prog" where
  "availableBalance E ledgerID account asset =
     andThen (mapErr (wrapped (''getting balance for '' @ account @ ''/'' @ asset @ '': ''))
       (GetBalance E Tx ledgerID account asset None None)) (\<lambda>bal.
     andThen (mapErr (wrapped (''getting active holds for '' @ account @ ''/'' @ asset @ '': ''))
       (GetActiveHoldsTotal E Tx ledgerID account asset)) (\<lambda>activeHolds.
     ok (br_Input bal - br_Output bal - activeHolds)))"

text \<open>What is posted to a bucket and not held.\<close>

definition available :: "string \<Rightarrow> string \<Rightarrow> string \<Rightarrow> db \<Rightarrow> int" where
  "available l a s d = posted l a s d - held l a s d"

lemma keeps_availableBalance [frame_intro]: "keeps tx_frame (availableBalance E l a s)"
  unfolding availableBalance_def by (intro tx_frame.keeps_rules frame_intro)

lemma does_availableBalance [does_intro]:
  "does (availableBalance E l a s) (\<lambda>d r d'. d' = d \<and> r = Inr (available l a s d))"
  unfolding availableBalance_def
  by (rule does_weaken, (rule does_intro)+) (auto simp: available_def posted_def)

text \<open>A Go map from buckets to sums, in the order of first use.\<close>

fun add_to :: "acctAsset \<Rightarrow> int \<Rightarrow> (acctAsset \<times> int) list \<Rightarrow> (acctAsset \<times> int) list" where
  "add_to k v [] = [(k, v)]"
| "add_to k v ((k', v') # kvs) = (if k' = k then (k', v' + v) # kvs else (k', v') # add_to k v kvs)"

text \<open>One iteration of the loop, then the loop over the map.\<close>

definition checkSourceBalance ::
  "env \<Rightarrow> LedgerRecord \<Rightarrow> (acctAsset \<times> int) list \<Rightarrow> acctAsset \<Rightarrow> int \<Rightarrow> unit prog" where
  "checkSourceBalance E ledger netInputs key output =
     (if IsIssuer (fst key) (lr_IssuerAccounts ledger) then ok ()
      else andThen (availableBalance E (lr_ID ledger) (fst key) (snd key)) (\<lambda>avail.
        if (case map_of netInputs key of None \<Rightarrow> avail | Some netIn \<Rightarrow> avail + netIn) < output
        then fail (suffixed ErrInsufficientFunds ('': account '' @ fst key @ '', asset '' @ snd key))
        else ok ()))"

definition checkSourceBalances ::
  "env \<Rightarrow> LedgerRecord \<Rightarrow> (acctAsset \<times> int) list \<Rightarrow> (acctAsset \<times> int) list \<Rightarrow> unit prog" where
  "checkSourceBalances E ledger netOutputs netInputs =
     forM (\<lambda>(key, output). checkSourceBalance E ledger netInputs key output) netOutputs"

definition covered :: "LedgerRecord \<Rightarrow> (acctAsset \<times> int) list \<Rightarrow> db \<Rightarrow> acctAsset \<times> int \<Rightarrow> bool" where
  "covered lr netInputs d e =
     (case e of (key, output) \<Rightarrow> IsIssuer (fst key) (lr_IssuerAccounts lr) \<or>
        output \<le> available (lr_ID lr) (fst key) (snd key) d +
          (case map_of netInputs key of None \<Rightarrow> 0 | Some n \<Rightarrow> n))"

lemma keeps_checkSourceBalances [frame_intro]: "keeps tx_frame (checkSourceBalances E lr os ins)"
  unfolding checkSourceBalances_def checkSourceBalance_def
  by (intro tx_frame.keeps_rules frame_intro)

lemma iterates_covered:
  "iterates (\<lambda>e d r d'. d' = d \<and> (r = Inr () \<longrightarrow> covered lr ins d e)) es d r d' \<Longrightarrow>
     d' = d \<and> (r = Inr () \<longrightarrow> list_all (covered lr ins d) es)"
  by (induction es arbitrary: d) fastforce+

lemma does_checkSourceBalances [does_intro]:
  "does (checkSourceBalances E lr os ins)
     (\<lambda>d r d'. d' = d \<and> (r = Inr () \<longrightarrow> list_all (covered lr ins d) os))"
proof -
  have "does (case e of (key, output) \<Rightarrow> checkSourceBalance E lr ins key output)
     (\<lambda>d r d'. d' = d \<and> (r = Inr () \<longrightarrow> covered lr ins d e))" for e
    unfolding checkSourceBalance_def
    by (rule does_weaken, (rule does_intro)+) (auto simp: covered_def split: prod.splits option.splits if_splits)
  then show ?thesis
    unfolding checkSourceBalances_def
    by (rule does_weaken [OF does_forM]) (auto dest: iterates_covered)
qed

end
