(* ===== verification/Planner_Submit.thy ===== *)
theory Planner_Submit
  imports Planner_Base
begin

text \<open>
  The write path shared by all operations, \<^verbatim>\<open>src/internal/planner/operations_post.go\<close>: the
  request hashes, the two-tier idempotency lookup, the transaction with deadlock retry,
  commit, cache population and publication. The locale \<open>tx_operation\<close> is the contract
  between this path and the operations it runs inside the transaction.
\<close>

subsection \<open>Hashes\<close>

definition writeHashField :: "bytes \<Rightarrow> bytes \<Rightarrow> bytes" where
  "writeHashField h data = h @ be32 (length data) @ data"

text \<open>\<open>fmt.Sprint\<close> of a metadata value.\<close>

fun Sprint :: "json \<Rightarrow> string" where
  "Sprint JNull = ''<nil>''"
| "Sprint (JBool b) = (if b then ''true'' else ''false'')"
| "Sprint (JInt i) = int_String i"
| "Sprint (JStr s) = s"
| "Sprint (JTime s p) = p"
| "Sprint (JArr xs) = CHR ''['' # join_with CHR '' '' (map Sprint xs) @ '']''"
| "Sprint (JObj kvs) = ''map['' @ join_with CHR '' ''
     (map (\<lambda>(k, s). k @ CHR '':'' # s) (sort_key fst (map (\<lambda>(k, v). (k, Sprint v)) kvs))) @ '']''"

text \<open>The fields of a post, in the order in which they are written to the hash.\<close>

definition hash_fields ::
  "env \<Rightarrow> string \<Rightarrow> PostingInput list \<Rightarrow> string \<Rightarrow> metadata \<Rightarrow> time option \<Rightarrow> bytes list" where
  "hash_fields E ledgerID postings reference md validTime =
     [ledgerID, reference]
     @ concat (map (\<lambda>p. [Source p, Destination p, int_String (amount_of p), Asset p]) postings)
     @ (case md of None \<Rightarrow> [] | Some kvs \<Rightarrow> concat (map (\<lambda>(k, v). [k, Sprint v]) (sort_key fst kvs)))
     @ (case validTime of None \<Rightarrow> [] | Some t \<Rightarrow> [format_time E t])"

definition computeIdempotencyHash ::
  "env \<Rightarrow> string \<Rightarrow> PostingInput list \<Rightarrow> string \<Rightarrow> metadata \<Rightarrow> time option \<Rightarrow> bytes" where
  "computeIdempotencyHash E ledgerID postings reference md validTime =
     sha256 E (fold (\<lambda>f h. writeHashField h f) (hash_fields E ledgerID postings reference md validTime) [])"

definition computeGenericIdempotencyHash :: "env \<Rightarrow> string list \<Rightarrow> bytes" where
  "computeGenericIdempotencyHash E fs = sha256 E (fold (\<lambda>f h. writeHashField h f) fs [])"

lemma fold_writeHashField: "fold (\<lambda>f h. writeHashField h f) fs h = h @ concat (map field fs)"
  by (induction fs arbitrary: h) (simp_all add: writeHashField_def field_def)

text \<open>\<open>string(nil)\<close> is the empty string.\<close>

definition hash_bytes :: "bytes option \<Rightarrow> bytes" where
  "hash_bytes h = (case h of None \<Rightarrow> [] | Some b \<Rightarrow> b)"

subsection \<open>Idempotency\<close>

definition checkIdempotency :: "env \<Rightarrow> string \<Rightarrow> string \<Rightarrow> bytes option \<Rightarrow> SubmitResult option prog" where
  "checkIdempotency E ledgerID key ikHash =
     attempt (GetCachedKey E ledgerID key) (\<lambda>cached.
     case cached of
       Inr (Some (eventID, storedHash)) \<Rightarrow>
         (if storedHash \<noteq> hash_bytes ikHash then fail ErrInvalidIdempotencyInput
          else ok (Some (idempotent_hit eventID)))
     | _ \<Rightarrow>
         andThen (mapErr (wrapped ''checking idempotency key in PG: '') (GetIdempotencyKey E Pool ledgerID key)) (\<lambda>row.
         case row of
           None \<Rightarrow> ok None
         | Some ikRecord \<Rightarrow>
             if ik_IdempotencyHash ikRecord \<noteq> hash_bytes ikHash then fail ErrInvalidIdempotencyInput
             else attempt (SetIdempotencyKey E ledgerID key (ik_EventID ikRecord) (ik_IdempotencyHash ikRecord)) (\<lambda>_.
                  ok (Some (idempotent_hit (ik_EventID ikRecord))))))"

definition recordIdempotency :: "env \<Rightarrow> string \<Rightarrow> string \<Rightarrow> string \<Rightarrow> bytes option \<Rightarrow> unit prog" where
  "recordIdempotency E ledgerID key eventID ikHash =
     attempt (InsertIdempotencyKey E Tx \<lparr>ik_LedgerID = ledgerID, ik_IdempotencyKey = key,
       ik_IdempotencyHash = hash_bytes ikHash, ik_EventID = eventID, ik_CreatedAt = 0\<rparr>) (\<lambda>r.
     case r of
       Inl e \<Rightarrow> if errors_is e ErrIdempotencyKeyConflict then ok ()
                else fail (wrapped ''inserting idempotency key: '' e)
     | Inr _ \<Rightarrow> ok ())"

text \<open>The guard with which every operation ends: \<open>if idempotencyKey != "" && ikHash != nil\<close>.\<close>

definition recordIfKeyed :: "env \<Rightarrow> string \<Rightarrow> string \<Rightarrow> string \<Rightarrow> bytes option \<Rightarrow> unit prog" where
  "recordIfKeyed E ledgerID key eventID ikHash =
     whenM (key \<noteq> [] \<and> ikHash \<noteq> None) (recordIdempotency E ledgerID key eventID ikHash)"

definition postCommitIdempotency :: "env \<Rightarrow> string \<Rightarrow> string \<Rightarrow> string \<Rightarrow> bytes option \<Rightarrow> unit prog" where
  "postCommitIdempotency E ledgerID key eventID ikHash =
     attempt (SetIdempotencyKey E ledgerID key eventID (hash_bytes ikHash)) (\<lambda>_. ok ())"

subsection \<open>Retries\<close>

text \<open>Durations in microseconds; the last argument counts the retries that are left.\<close>

fun deadlockLoop :: "env \<Rightarrow> time \<Rightarrow> nat \<Rightarrow> 'a prog \<Rightarrow> 'a prog" where
  "deadlockLoop E backoff left fn =
     attempt fn (\<lambda>r.
     case r of
       Inr x \<Rightarrow> ok x
     | Inl e \<Rightarrow>
         if \<not> errors_is e ErrDeadlock then fail e
         else
           (case left of
              0 \<Rightarrow> fail e
            | Suc left' \<Rightarrow>
                andThen (sleep E backoff) (\<lambda>cancelled.
                if cancelled then fail ErrContextDone
                else deadlockLoop E (if backoff * 2 > 5000000 then 5000000 else backoff * 2) left' fn)))"

declare deadlockLoop.simps [simp del]

definition withDeadlockRetry :: "env \<Rightarrow> nat \<Rightarrow> 'a prog \<Rightarrow> 'a prog" where
  "withDeadlockRetry E maxRetries fn = deadlockLoop E 10000 maxRetries fn"

definition backoffRetryInitial :: time where "backoffRetryInitial = 20000"
definition backoffRetryMax :: time where "backoffRetryMax = 2000000"

fun backoffLoop :: "env \<Rightarrow> time \<Rightarrow> nat \<Rightarrow> unit prog \<Rightarrow> unit prog" where
  "backoffLoop E backoff left fn =
     attempt fn (\<lambda>r.
     case r of
       Inr x \<Rightarrow> ok x
     | Inl e \<Rightarrow>
         (case left of
            0 \<Rightarrow> fail e
          | Suc left' \<Rightarrow>
              andThen (sleep E backoff) (\<lambda>cancelled.
              if cancelled then fail ErrContextDone
              else backoffLoop E (if backoff * 2 > backoffRetryMax then backoffRetryMax else backoff * 2) left' fn)))"

declare backoffLoop.simps [simp del]

definition withBackoffRetry :: "env \<Rightarrow> nat \<Rightarrow> unit prog \<Rightarrow> unit prog" where
  "withBackoffRetry E maxRetries fn = backoffLoop E backoffRetryInitial maxRetries fn"

subsection \<open>The submission path\<close>

text \<open>One attempt: begin, work, commit (or roll back on a dry run), populate the cache, publish.\<close>

definition submitOnce ::
  "env \<Rightarrow> string \<Rightarrow> string \<Rightarrow> bytes option \<Rightarrow> int \<Rightarrow> bool \<Rightarrow> SubmitResult prog \<Rightarrow> SubmitResult prog" where
  "submitOnce E ledgerID key ikHash eventType dryRun work =
     andThen (mapErr (wrapped ''beginning tx: '') (BeginTx E)) (\<lambda>_.
     deferRollback (
       andThen work (\<lambda>r.
       if dryRun then attempt Rollback (\<lambda>_. ok r)
       else
         andThen (mapErr (wrapped ''committing transaction: '') (Commit E)) (\<lambda>_.
         andThen (whenM (key \<noteq> []) (postCommitIdempotency E ledgerID key (EventID r) ikHash)) (\<lambda>_.
         andThen (publishEvent E ledgerID (EventID r) eventType) (\<lambda>_.
         ok r))))))"

definition submitWithIdempotency ::
  "env \<Rightarrow> string \<Rightarrow> string \<Rightarrow> bytes option \<Rightarrow> int \<Rightarrow> bool \<Rightarrow> SubmitResult prog \<Rightarrow> SubmitResult prog" where
  "submitWithIdempotency E ledgerID key ikHash eventType dryRun work =
     andThen (if key \<noteq> [] then checkIdempotency E ledgerID key ikHash else ok None) (\<lambda>hit.
     case hit of
       Some result \<Rightarrow> ok result
     | None \<Rightarrow>
         attempt (withDeadlockRetry E maxDeadlockRetries
           (submitOnce E ledgerID key ikHash eventType dryRun work)) (\<lambda>r.
         case r of
           Inr result \<Rightarrow> ok result
         | Inl e \<Rightarrow>
             if key \<noteq> [] \<and> isIdempotencyConflict e then resolveIdempotencyConflict E ledgerID key
             else fail e))"

subsection \<open>Frames and effects\<close>

lemma keeps_recordIfKeyed [frame_intro]: "keeps tx_frame (recordIfKeyed E l k i h)"
  unfolding recordIfKeyed_def recordIdempotency_def by (intro tx_frame.keeps_rules frame_intro)

text \<open>A recorded key, or none when the guard is false.\<close>

definition keyed :: "string \<Rightarrow> string \<Rightarrow> string \<Rightarrow> bytes option \<Rightarrow> db \<Rightarrow> db \<Rightarrow> bool" where
  "keyed l k i h d d' \<longleftrightarrow>
     (if k \<noteq> [] \<and> h \<noteq> None then find_key l k d = None \<and>
        (\<exists>t. d' = d\<lparr>idempotency_keys := idempotency_keys d @ [\<lparr>ik_LedgerID = l, ik_IdempotencyKey = k,
           ik_IdempotencyHash = hash_bytes h, ik_EventID = i, ik_CreatedAt = t\<rparr>]\<rparr>)
      else d' = d)"

lemma does_recordIfKeyed [does_intro]:
  "does (recordIfKeyed E l k i h) (\<lambda>d r d'. r = Inr () \<and> keyed l k i h d d')"
  unfolding recordIfKeyed_def recordIdempotency_def keyed_def
  by (rule does_weaken, (rule does_intro)+) (auto split: if_splits)

lemma keeps_db_publishEvent: "keeps db_frame (publishEvent E l i ty)"
  unfolding publishEvent_def by (intro db_frame.keeps_rules keeps_Publish)

lemma keeps_db_postCommit: "keeps db_frame (postCommitIdempotency E l k i h)"
  unfolding postCommitIdempotency_def by (intro db_frame.keeps_rules keeps_SetIdempotencyKey)

text \<open>Reads of the pool and commands to Redis leave the committed tables as they are.\<close>

definition pg_frame :: "world \<Rightarrow> world \<Rightarrow> bool" where
  "pg_frame w w' \<longleftrightarrow> pg w' = pg w"

interpretation pg_frame: frame pg_frame
  by unfold_locales (simp_all add: pg_frame_def)

lemma keeps_pg_of_tx: "keeps tx_frame m \<Longrightarrow> keeps pg_frame m"
  by (simp add: keeps_def tx_frame_def pg_frame_def)

lemma keeps_pg_of_db: "keeps db_frame m \<Longrightarrow> keeps pg_frame m"
  by (simp add: keeps_def db_frame_def pg_frame_def)

lemma keeps_pg_Rollback: "keeps pg_frame Rollback"
  by (rule keepsI) (simp add: pg_frame_def Rollback_def split: txstate.split)

lemma keeps_pg_BeginTx: "keeps pg_frame (BeginTx E)"
  by (rule keepsI) (simp add: pg_frame_def BeginTx_def Let_def split: option.split)

lemma keeps_pg_checkIdempotency: "keeps pg_frame (checkIdempotency E l k h)"
  unfolding checkIdempotency_def
  by (intro pg_frame.keeps_rules keeps_pg_of_db [OF keeps_GetCachedKey]
      keeps_pg_of_tx [OF keeps_GetIdempotencyKey] keeps_pg_of_db [OF keeps_SetIdempotencyKey])

lemma keeps_pg_resolve: "keeps pg_frame (resolveIdempotencyConflict E l k)"
  unfolding resolveIdempotencyConflict_def
  by (intro pg_frame.keeps_rules keeps_pg_of_tx [OF keeps_GetIdempotencyKey])

lemma keeps_pg_checkLedgerNotSealed: "keeps pg_frame (checkLedgerNotSealed E l)"
  unfolding checkLedgerNotSealed_def
  by (intro pg_frame.keeps_rules keeps_pg_of_tx [OF keeps_GetLedger])

text \<open>The retry loop ends with the outcome of some attempt whose predecessors all failed.\<close>

lemma deadlockLoop_cases:
  assumes "deadlockLoop E b n fn w = (r, w')"
    and inv: "\<And>v e v'. fn v = (Inl e, v') \<Longrightarrow> I v \<Longrightarrow> I v'" and "I w"
    and wait: "\<And>v b. I v \<Longrightarrow> I (snd (sleep E b v))"
  shows "(\<exists>e. r = Inl e) \<and> I w' \<or> (\<exists>v x. I v \<and> fn v = (Inr x, w') \<and> r = Inr x)"
  using assms(1,3)
proof (induction n arbitrary: b w)
  case 0
  then show ?case using inv
    by (auto simp: deadlockLoop.simps [of _ _ 0] attempt_def split: sum.splits if_splits prod.splits)
next
  case (Suc n)
  obtain q v where q: "fn w = (q, v)" by (cases "fn w")
  show ?case
  proof (cases q)
    case (Inr x)
    then show ?thesis using Suc.prems q by (auto simp: deadlockLoop.simps [of _ _ "Suc n"] attempt_def)
  next
    case (Inl e)
    then have v: "I v" using inv q Suc.prems(2) by simp
    show ?thesis
    proof (cases "errors_is e ErrDeadlock \<and> \<not> ctx_done E (length (waits v))")
      case True
      let ?v = "snd (sleep E b v)"
      have "deadlockLoop E (if b * 2 > 5000000 then 5000000 else b * 2) n fn ?v = (r, w')"
        using Suc.prems(1) q Inl True
        by (simp add: deadlockLoop.simps [of _ _ "Suc n"] attempt_def andThen_def sleep_def Let_def)
      then show ?thesis using Suc.IH wait [OF v] by blast
    next
      case False
      then show ?thesis using Suc.prems(1) q Inl v wait [OF v, of b]
        by (auto simp: deadlockLoop.simps [of _ _ "Suc n"] attempt_def andThen_def sleep_def Let_def
            split: if_splits)
    qed
  qed
qed

lemma snd_deferRollback: "snd (deferRollback m w) = snd (Rollback (snd (m w)))"
  by (simp add: deferRollback_def attempt_def split: prod.split)

lemma fst_deferRollback: "fst (deferRollback m w) = fst (m w)"
  by (simp add: deferRollback_def attempt_def split: prod.split)

lemma deferRollback_run:
  "deferRollback m w = (r, w') \<Longrightarrow> \<exists>v. m w = (r, v) \<and> w' = snd (Rollback v)"
  by (metis fst_deferRollback prod.exhaust_sel snd_conv snd_deferRollback fst_conv)

lemma Rollback_world [simp]:
  "pg (snd (Rollback w)) = pg w" "tx (snd (Rollback w)) = NoTx"
  "cache (snd (Rollback w)) = cache w" "published (snd (Rollback w)) = published w"
  by (auto simp: Rollback_def split: txstate.split)

lemma BeginTx_ok: "BeginTx E w = (Inr x, w') \<Longrightarrow>
    tx w' = OpenTx (pg w) \<and> pg w' = pg w \<and> cache w' = cache w \<and> published w' = published w"
  by (auto simp: BeginTx_def Let_def split: option.splits)

lemma Commit_cases: "Commit E w = (r, w') \<Longrightarrow>
    cache w' = cache w \<and> published w' = published w \<and>
    ((\<exists>e. r = Inl e) \<and> pg w' = pg w \<or> (\<exists>d. r = Inr () \<and> tx w = OpenTx d \<and> pg w' = d \<and> tx w' = NoTx))"
  by (auto simp: Commit_def Let_def split: txstate.splits option.splits)

text \<open>What follows the work of one attempt, and what follows its commit.\<close>

definition announce :: "env \<Rightarrow> string \<Rightarrow> string \<Rightarrow> bytes option \<Rightarrow> int \<Rightarrow> SubmitResult \<Rightarrow> SubmitResult prog" where
  "announce E l k h ty r =
     andThen (whenM (k \<noteq> []) (postCommitIdempotency E l k (EventID r) h)) (\<lambda>_.
     andThen (publishEvent E l (EventID r) ty) (\<lambda>_. ok r))"

definition conclude ::
  "env \<Rightarrow> string \<Rightarrow> string \<Rightarrow> bytes option \<Rightarrow> int \<Rightarrow> bool \<Rightarrow> SubmitResult \<Rightarrow> SubmitResult prog" where
  "conclude E l k h ty dry r =
     (if dry then attempt Rollback (\<lambda>_. ok r)
      else andThen (mapErr (wrapped ''committing transaction: '') (Commit E)) (\<lambda>_. announce E l k h ty r))"

lemma submitOnce_eq:
  "submitOnce E l k h ty dry work =
     andThen (mapErr (wrapped ''beginning tx: '') (BeginTx E)) (\<lambda>_.
     deferRollback (andThen work (conclude E l k h ty dry)))"
  unfolding submitOnce_def conclude_def [abs_def] announce_def by (rule refl)

lemma announce_run: "announce E l k h ty x v = (r, v') \<Longrightarrow> r = Inr x \<and> pg v' = pg v \<and> tx v' = tx v"
proof -
  assume run: "announce E l k h ty x v = (r, v')"
  have "keeps db_frame (announce E l k h ty x)"
    unfolding announce_def
    by (intro db_frame.keeps_rules keeps_db_postCommit keeps_db_publishEvent)
  from keepsD [OF this run] have "pg v' = pg v \<and> tx v' = tx v" by (simp add: db_frame_def)
  moreover have "r = Inr x"
    using run by (auto simp: announce_def andThen_def whenM_def postCommitIdempotency_def
        publishEvent_def attempt_def split: prod.splits sum.splits if_splits)
  ultimately show ?thesis by simp
qed

lemma conclude_run:
  assumes "conclude E l k h ty dry x v = (r, v')"
  shows "(\<exists>e. r = Inl e) \<and> pg v' = pg v \<or> dry \<and> r = Inr x \<and> pg v' = pg v \<or>
    (\<exists>d. \<not> dry \<and> r = Inr x \<and> tx v = OpenTx d \<and> pg v' = d)"
proof (cases dry)
  case True
  then have "r = Inr x \<and> v' = snd (Rollback v)"
    using assms by (auto simp: conclude_def attempt_def split: prod.splits)
  then show ?thesis using True by simp
next
  case False
  obtain c u where cm: "Commit E v = (c, u)" by (cases "Commit E v")
  show ?thesis
  proof (cases c)
    case (Inl e)
    then show ?thesis using assms False cm Commit_cases [OF cm]
      by (auto simp: conclude_def andThen_def mapErr_def)
  next
    case (Inr y)
    then have "announce E l k h ty x u = (r, v')"
      using assms False cm by (simp add: conclude_def andThen_def mapErr_def)
    from announce_run [OF this] show ?thesis
      using False Inr Commit_cases [OF cm] by auto
  qed
qed

lemma resolve_run:
  assumes "resolveIdempotencyConflict E l k w = (r, w')"
  shows "pg w' = pg w" and "r = Inr x \<Longrightarrow> IdempotentHit x"
proof -
  show "pg w' = pg w" using keepsD [OF keeps_pg_resolve assms] by (simp add: pg_frame_def)
  obtain q v where "GetIdempotencyKey E Pool l k w = (q, v)" by (cases "GetIdempotencyKey E Pool l k w")
  then show "r = Inr x \<Longrightarrow> IdempotentHit x"
    using assms by (auto simp: resolveIdempotencyConflict_def attempt_def idempotent_hit_def
        split: sum.splits option.splits)
qed

lemma ledger_record_simps:
  assumes "ledger_record row = Inr lr"
  shows "lr_ID lr = lg_id row" "lr_State lr = lg_state row" "lr_IssuerAccounts lr = lg_issuer_accounts row"
  using assms by (auto simp: ledger_record_def split: sum.splits)

lemma find_ledger_id: "find_ledger l d = Some row \<Longrightarrow> lg_id row = l"
  by (auto simp: find_ledger_def find_Some_iff)

text \<open>A ledger that may be written to, as the sealed check found it.\<close>

definition open_ledger :: "string \<Rightarrow> db \<Rightarrow> LedgerRecord \<Rightarrow> bool" where
  "open_ledger l d lr \<longleftrightarrow> (\<exists>row. find_ledger l d = Some row \<and> ledger_record row = Inr lr \<and>
     lg_state row \<noteq> ledgerStateSealed)"

lemma open_ledger_id: "open_ledger l d lr \<Longrightarrow> lr_ID lr = l"
  using ledger_record_simps(1) find_ledger_id by (fastforce simp: open_ledger_def)

lemma query_Pool_ok:
  "query E Pool g w = (r, w') \<Longrightarrow> pg w' = pg w \<and> (\<forall>x. r = Inr x \<longrightarrow> (\<exists>t. x = g t (pg w)))"
  by (auto simp: query_def stmt_def Let_def abort_tx_def split: option.splits)

lemma checkLedger_run:
  assumes "checkLedgerNotSealed E l w = (r, w')"
  shows "pg w' = pg w" and "r = Inr lr \<Longrightarrow> open_ledger l (pg w) lr"
proof -
  show "pg w' = pg w" using keepsD [OF keeps_pg_checkLedgerNotSealed assms] by (simp add: pg_frame_def)
  obtain q v where q: "query E Pool (\<lambda>now. find_ledger l) w = (q, v)"
    by (cases "query E Pool (\<lambda>now. find_ledger l) w")
  from query_Pool_ok [OF q] show "open_ledger l (pg w) lr" if "r = Inr lr"
    using assms q that
    by (auto simp: checkLedgerNotSealed_def GetLedger_def andThen_def mapErr_def open_ledger_def
        ledger_record_simps(2) split: sum.splits option.splits if_splits)
qed

subsection \<open>The contract of an operation\<close>

text \<open>
  An operation runs inside the open transaction: it stays inside the frame (in particular it
  neither commits nor rolls back), and when it returns a result and the transaction is not
  aborted, the view has moved as \<open>Q\<close> says. The submission path turns this into a statement
  about the committed tables.
\<close>

locale tx_operation =
  fixes op :: "SubmitResult prog" and Q :: "db \<Rightarrow> SubmitResult \<Rightarrow> db \<Rightarrow> bool"
  assumes op_keeps: "keeps tx_frame op"
    and op_does: "does op (\<lambda>d r d'. \<forall>x. r = Inr x \<longrightarrow> Q d x d')"
begin

lemma once_run:
  assumes "submitOnce E l k h ty dry op w = (r, w')"
  shows "(\<exists>e. r = Inl e) \<and> pg w' = pg w \<or> dry \<and> pg w' = pg w \<or>
    (\<exists>x. r = Inr x \<and> \<not> dry \<and> Q (pg w) x (pg w'))"
proof (cases "BeginTx E w")
  case (Pair b v)
  show ?thesis
  proof (cases b)
    case (Inl e)
    then show ?thesis
      using assms Pair keepsD [OF keeps_pg_BeginTx Pair]
      by (auto simp: submitOnce_eq andThen_def mapErr_def pg_frame_def)
  next
    case (Inr u)
    note v = BeginTx_ok [OF Pair [unfolded Inr]]
    have "deferRollback (andThen op (conclude E l k h ty dry)) v = (r, w')"
      using assms Pair Inr by (simp add: submitOnce_eq andThen_def mapErr_def)
    then obtain v' where body: "andThen op (conclude E l k h ty dry) v = (r, v')" and w': "pg w' = pg v'"
      using deferRollback_run Rollback_world(1) by metis
    obtain q v1 where op: "op v = (q, v1)" by (cases "op v")
    have fr: "pg v1 = pg w" using keepsD [OF op_keeps op] v by (simp add: tx_frame_def)
    show ?thesis
    proof (cases q)
      case (Inl e)
      then show ?thesis using body op fr w' by (auto simp: andThen_def)
    next
      case q: (Inr x)
      then have "conclude E l k h ty dry x v1 = (r, v')" using body op by (simp add: andThen_def)
      then show ?thesis
        using conclude_run does_open [OF op_does op, of "pg w"] v q fr w' by fastforce
    qed
  qed
qed

lemma loop_run:
  assumes "withDeadlockRetry E n (submitOnce E l k h ty dry op) w = (r, w')"
  shows "(\<exists>e. r = Inl e) \<and> pg w' = pg w \<or> dry \<and> pg w' = pg w \<or>
    (\<exists>x. r = Inr x \<and> \<not> dry \<and> Q (pg w) x (pg w'))"
proof -
  have "(\<exists>e. r = Inl e) \<and> pg w' = pg w \<or>
      (\<exists>u x. pg u = pg w \<and> submitOnce E l k h ty dry op u = (Inr x, w') \<and> r = Inr x)"
  proof (rule deadlockLoop_cases [where I = "\<lambda>u. pg u = pg w"])
    show "deadlockLoop E 10000 n (submitOnce E l k h ty dry op) w = (r, w')"
      using assms by (simp add: withDeadlockRetry_def)
    show "pg v' = pg w" if "submitOnce E l k h ty dry op v = (Inl e, v')" "pg v = pg w" for v e v'
      using once_run [OF that(1)] that(2) by auto
  qed (simp_all add: sleep_def Let_def)
  then show ?thesis using once_run by fastforce
qed

lemma submit_run:
  assumes "submitWithIdempotency E l k h ty dry op w = (r, w')"
  shows "(\<exists>e. r = Inl e) \<and> pg w' = pg w \<or> (\<exists>x. r = Inr x \<and> (dry \<or> IdempotentHit x) \<and> pg w' = pg w) \<or>
      (\<exists>x. r = Inr x \<and> \<not> dry \<and> Q (pg w) x (pg w'))"
proof -
  define look where "look = (if k \<noteq> [] then checkIdempotency E l k h else ok None)"
  obtain q v where q: "look w = (q, v)" by (cases "look w")
  have "keeps pg_frame look"
    unfolding look_def by (intro pg_frame.keeps_rules keeps_pg_checkIdempotency)
  from keepsD [OF this q] have v: "pg v = pg w" by (simp add: pg_frame_def)
  have hit: "IdempotentHit x" if "q = Inr (Some x)" for x
    using q that
    by (auto simp: look_def checkIdempotency_def attempt_def andThen_def mapErr_def idempotent_hit_def
        split: prod.splits sum.splits option.splits if_splits)
  show ?thesis
  proof (cases "q = Inr None")
    case False
    then show ?thesis using assms q v hit
      by (auto simp: submitWithIdempotency_def andThen_def simp flip: look_def split: sum.splits option.splits)
  next
    case True
    obtain c u where c: "withDeadlockRetry E maxDeadlockRetries (submitOnce E l k h ty dry op) v = (c, u)"
      by (cases "withDeadlockRetry E maxDeadlockRetries (submitOnce E l k h ty dry op) v")
    have rest: "(case c of Inr result \<Rightarrow> ok result | Inl e \<Rightarrow>
        if k \<noteq> [] \<and> isIdempotencyConflict e then resolveIdempotencyConflict E l k else fail e) u = (r, w')"
      using assms q True c
      by (simp add: submitWithIdempotency_def andThen_def attempt_def flip: look_def)
    show ?thesis
    proof (cases c)
      case (Inr x)
      then show ?thesis using rest loop_run [OF c] v by auto
    next
      case (Inl e)
      have u: "pg u = pg w" using loop_run [OF c] Inl v by auto
      then show ?thesis using rest Inl resolve_run [of E l k u r w']
        by (cases r) (auto split: if_splits)
    qed
  qed
qed

text \<open>Nothing is committed when the submission reports an error or is a dry run.\<close>

lemma submit_error_or_dry:
  "submitWithIdempotency E l k h ty dry op w = (r, w') \<Longrightarrow> (\<exists>e. r = Inl e) \<or> dry \<Longrightarrow> pg w' = pg w"
  using submit_run by blast

text \<open>What every step of the operation preserves is preserved by the submission.\<close>

lemma submit_invariant:
  assumes "submitWithIdempotency E l k h ty dry op w = (r, w')" and "I (pg w)"
    and "\<And>d x d'. Q d x d' \<Longrightarrow> I d \<Longrightarrow> I d'"
  shows "I (pg w')"
  using submit_run [OF assms(1)] assms(2,3) by auto

end

subsection \<open>Operations on an open ledger\<close>

text \<open>
  The three outcomes of a submission: an error, a dry run or a replayed result, each with the
  committed tables as they were; or the effect \<open>Q\<close> of the operation on a ledger that was not
  sealed.
\<close>

definition outcome ::
  "string \<Rightarrow> bool \<Rightarrow> (LedgerRecord \<Rightarrow> db \<Rightarrow> SubmitResult \<Rightarrow> db \<Rightarrow> bool) \<Rightarrow> world \<Rightarrow> error + SubmitResult \<Rightarrow> world \<Rightarrow> bool" where
  "outcome l dry Q w r w' \<longleftrightarrow>
     (\<exists>e. r = Inl e) \<and> pg w' = pg w \<or>
     (\<exists>x. r = Inr x \<and> (dry \<or> IdempotentHit x) \<and> pg w' = pg w) \<or>
     (\<exists>x lr. r = Inr x \<and> \<not> dry \<and> open_ledger l (pg w) lr \<and> Q lr (pg w) x (pg w'))"

lemma outcome_mono:
  "outcome l dry Q w r w' \<Longrightarrow> (\<And>lr d x d'. Q lr d x d' \<Longrightarrow> R lr d x d') \<Longrightarrow> outcome l dry R w r w'"
  unfolding outcome_def by blast

lemma outcome_invariant:
  "outcome l dry Q w r w' \<Longrightarrow> I (pg w) \<Longrightarrow>
     (\<And>lr x. open_ledger l (pg w) lr \<Longrightarrow> Q lr (pg w) x (pg w') \<Longrightarrow> I (pg w')) \<Longrightarrow> I (pg w')"
  unfolding outcome_def by auto

lemma outcome_fail: "pg w' = pg w \<Longrightarrow> outcome l dry Q w (Inl e) w'"
  by (simp add: outcome_def)

text \<open>An operation that needs the ledger found by the sealed check and the time of the request.\<close>

locale ledger_operation =
  fixes op :: "LedgerRecord \<Rightarrow> time \<Rightarrow> SubmitResult prog"
    and Q :: "LedgerRecord \<Rightarrow> time \<Rightarrow> db \<Rightarrow> SubmitResult \<Rightarrow> db \<Rightarrow> bool"
  assumes each: "tx_operation (op lr now) (Q lr now)"
begin

lemma guarded_run:
  assumes run: "andThen (checkLedgerNotSealed E l) (\<lambda>lr. andThen (time_Now E) (\<lambda>now.
      submitWithIdempotency E l k h ty dry (op lr now))) w = (r, w')"
  shows "outcome l dry (\<lambda>lr d x d'. \<exists>now. Q lr now d x d') w r w'"
proof -
  obtain q v where q: "checkLedgerNotSealed E l w = (q, v)" by (cases "checkLedgerNotSealed E l w")
  note ck = checkLedger_run [OF q]
  show ?thesis
  proof (cases q)
    case (Inl e)
    then show ?thesis using run q ck(1) by (auto simp: andThen_def outcome_def)
  next
    case (Inr lr)
    let ?now = "clock E (n_clock v)"
    have "submitWithIdempotency E l k h ty dry (op lr ?now) (v\<lparr>n_clock := Suc (n_clock v)\<rparr>) = (r, w')"
      using run q Inr by (simp add: andThen_def time_Now_def)
    from tx_operation.submit_run [OF each this] show ?thesis
      using ck Inr unfolding outcome_def by fastforce
  qed
qed

end

end
