(* ===== verification/Accounting.thy ===== *)
theory Accounting
  imports Planner_Submit
begin

text \<open>
  The accounting view of the tables, against which the operations of the planner are specified:
  volume rows in groups that sum to zero per asset, a log numbered without gaps, holds within
  their authorisation, and balances that are never overdrawn. Each operation is shown to move
  the tables by one \<open>booked\<close> step; the lemmas of this theory carry the invariants over such a
  step.
\<close>

subsection \<open>Invariants\<close>

definition net :: "VolumeDeltaRecord \<Rightarrow> int" where
  "net v = vd_InputDelta v - vd_OutputDelta v"

definition zero_sum :: "VolumeDeltaRecord list \<Rightarrow> bool" where
  "zero_sum vs \<longleftrightarrow> (\<forall>s. sum_where (\<lambda>v. vd_Asset v = s) net vs = 0)"

text \<open>Every event moves as much of an asset into accounts as out of accounts.\<close>

definition balanced :: "db \<Rightarrow> bool" where
  "balanced d \<longleftrightarrow> (\<forall>l e s. sum_where
     (\<lambda>v. vd_LedgerID v = l \<and> vd_EventID v = e \<and> vd_Asset v = s) net (volumes_delta d) = 0)"

text \<open>The balances of a ledger add up to zero in every asset.\<close>

definition conserved :: "db \<Rightarrow> bool" where
  "conserved d \<longleftrightarrow> (\<forall>l s. sum_where (\<lambda>v. vd_LedgerID v = l \<and> vd_Asset v = s) net (volumes_delta d) = 0)"

text \<open>The events of a ledger carry the sequence numbers 1, 2, 3, ... in log order.\<close>

definition contiguous :: "db \<Rightarrow> bool" where
  "contiguous d \<longleftrightarrow> (\<forall>l. seqs l d = [1..int (length (seqs l d))])"

definition hold_ok :: "HoldRecord \<Rightarrow> bool" where
  "hold_ok h \<longleftrightarrow> 0 \<le> hd_CapturedAmount h \<and> hd_CapturedAmount h \<le> hd_AuthorizedAmount h
     \<and> \<not> (hd_Voided h \<and> hd_Expired h)"

definition holds_ok :: "db \<Rightarrow> bool" where
  "holds_ok d \<longleftrightarrow> list_all hold_ok (holds d) \<and>
     distinct (map (\<lambda>h. (hd_LedgerID h, hd_HoldID h)) (holds d))"

text \<open>Volume rows belong to logged events.\<close>

definition sourced :: "db \<Rightarrow> bool" where
  "sourced d \<longleftrightarrow> vd_EventID ` set (volumes_delta d) \<subseteq> ev_EventID ` set (log_events d)"

definition sound :: "db \<Rightarrow> bool" where
  "sound d \<longleftrightarrow> balanced d \<and> conserved d \<and> contiguous d \<and> holds_ok d \<and> sourced d"

definition solvent :: "string \<Rightarrow> string list \<Rightarrow> db \<Rightarrow> bool" where
  "solvent l issuers d \<longleftrightarrow> (\<forall>a s. \<not> IsIssuer a issuers \<longrightarrow> 0 \<le> available l a s d)"

lemma empty_sound: "sound empty_db"
  by (simp add: sound_def balanced_def conserved_def contiguous_def holds_ok_def sourced_def
      seqs_def empty_db_def)

subsection \<open>Booked steps\<close>

text \<open>One event is appended, with the volume rows that belong to it.\<close>

definition booked :: "string \<Rightarrow> LogEventRecord \<Rightarrow> VolumeDeltaRecord list \<Rightarrow> db \<Rightarrow> db \<Rightarrow> bool" where
  "booked l ev vs d d' \<longleftrightarrow>
     log_events d' = log_events d @ [ev] \<and> ev_LedgerID ev = l \<and> ev_LedgerSeq ev = next_seq l d \<and>
     list_all (\<lambda>x. \<not> event_conflict ev x) (log_events d) \<and>
     volumes_delta d' = volumes_delta d @ vs \<and>
     list_all (\<lambda>v. vd_LedgerID v = l \<and> vd_EventID v = ev_EventID ev) vs \<and> zero_sum vs \<and>
     ledgers d' = ledgers d \<and> policies d' = policies d \<and> pending_approvals d' = pending_approvals d"

lemma sum_where_all:
  "list_all P vs \<Longrightarrow> sum_where (\<lambda>v. P v \<and> Q v) f vs = sum_where Q f vs"
  by (rule sum_where_cong) (auto simp: list_all_iff)

lemma zero_sum_grouped:
  assumes "list_all (\<lambda>v. vd_LedgerID v = l \<and> vd_EventID v = e) vs" "zero_sum vs"
  shows "sum_where (\<lambda>v. vd_LedgerID v = l' \<and> vd_EventID v = e' \<and> vd_Asset v = s) net vs = 0"
    and "sum_where (\<lambda>v. vd_LedgerID v = l' \<and> vd_Asset v = s) net vs = 0"
proof -
  have z: "sum_where (\<lambda>v. vd_Asset v = s) net vs = 0" using assms(2) by (simp add: zero_sum_def)
  have "sum_where (\<lambda>v. vd_LedgerID v = l' \<and> vd_EventID v = e' \<and> vd_Asset v = s) net vs =
      (if l' = l \<and> e' = e then sum_where (\<lambda>v. vd_Asset v = s) net vs else 0)"
    using assms(1) by (auto simp: list_all_iff intro!: sum_where_cong sum_where_none)
  then show "sum_where (\<lambda>v. vd_LedgerID v = l' \<and> vd_EventID v = e' \<and> vd_Asset v = s) net vs = 0"
    using z by simp
  have "sum_where (\<lambda>v. vd_LedgerID v = l' \<and> vd_Asset v = s) net vs =
      (if l' = l then sum_where (\<lambda>v. vd_Asset v = s) net vs else 0)"
    using assms(1) by (auto simp: list_all_iff intro!: sum_where_cong sum_where_none)
  then show "sum_where (\<lambda>v. vd_LedgerID v = l' \<and> vd_Asset v = s) net vs = 0" using z by simp
qed

lemma booked_balanced: "booked l ev vs d d' \<Longrightarrow> balanced d \<Longrightarrow> balanced d'"
  using zero_sum_grouped(1) [of l "ev_EventID ev" vs] by (simp add: booked_def balanced_def)

lemma booked_conserved: "booked l ev vs d d' \<Longrightarrow> conserved d \<Longrightarrow> conserved d'"
  using zero_sum_grouped(2) [of l "ev_EventID ev" vs] by (simp add: booked_def conserved_def)

lemma fold_max_upto: "fold max [2..int n] 1 = (if n = 0 then 1 else int n)"
proof (induction n)
  case (Suc n)
  show ?case
  proof (cases "n = 0")
    case False
    then have "[2..int (Suc n)] = [2..int n] @ [int (Suc n)]"
      using upto_rec2 [of 2 "int (Suc n)"] by simp
    with Suc False show ?thesis by (simp add: max_def)
  qed simp
qed simp

lemma contiguous_next_seq: "contiguous d \<Longrightarrow> next_seq l d = int (length (seqs l d)) + 1"
proof -
  assume "contiguous d"
  then have s: "seqs l d = [1..int (length (seqs l d))]" by (simp add: contiguous_def)
  show ?thesis
  proof (cases "length (seqs l d)")
    case 0
    then show ?thesis by (simp add: next_seq_def)
  next
    case (Suc n)
    then have "seqs l d = 1 # [2..int (Suc n)]"
      using s upto_rec1 [of 1 "int (Suc n)"] by simp
    then show ?thesis using fold_max_upto [of "Suc n"] Suc by (simp add: next_seq_def)
  qed
qed

lemma booked_contiguous:
  assumes "booked l ev vs d d'" "contiguous d"
  shows "contiguous d'"
  unfolding contiguous_def
proof
  fix k
  have s: "seqs k d = [1..int (length (seqs k d))]" using assms(2) by (simp add: contiguous_def)
  show "seqs k d' = [1..int (length (seqs k d'))]"
  proof (cases "k = l")
    case True
    then have e: "seqs k d' = seqs k d @ [int (length (seqs k d)) + 1]"
      using assms contiguous_next_seq [OF assms(2), of l] by (simp add: booked_def seqs_def)
    show ?thesis
      unfolding e using s upto_rec2 [of 1 "int (length (seqs k d)) + 1"] by (simp add: add.commute)
  next
    case False
    then have "seqs k d' = seqs k d" using assms(1) by (simp add: booked_def seqs_def)
    then show ?thesis using s by simp
  qed
qed

lemma booked_sourced: "booked l ev vs d d' \<Longrightarrow> sourced d \<Longrightarrow> sourced d'"
  by (auto simp: booked_def sourced_def list_all_iff)

lemma booked_sound: "booked l ev vs d d' \<Longrightarrow> sound d \<Longrightarrow> holds_ok d' \<Longrightarrow> sound d'"
  by (simp add: sound_def booked_balanced booked_conserved booked_contiguous booked_sourced)

lemma holds_ok_same: "holds d' = holds d \<Longrightarrow> holds_ok d' = holds_ok d"
  by (simp add: holds_ok_def)

lemma sound_holds_ok: "sound d \<Longrightarrow> holds_ok d"
  by (simp add: sound_def)

lemma booked_sound_holds: "booked l ev vs d d' \<Longrightarrow> holds d' = holds d \<Longrightarrow> sound d \<Longrightarrow> sound d'"
  using booked_sound [of l ev vs d d'] holds_ok_same [of d' d] sound_holds_ok [of d] by simp

text \<open>Balances after a step.\<close>

lemma posted_net: "posted l a s d = sum_where (in_bucket l a s) net (volumes_delta d)"
  unfolding posted_def total_input_def total_output_def sum_where_diff [symmetric]
  by (simp add: net_def [abs_def])

lemma booked_posted:
  "booked l ev vs d d' \<Longrightarrow> posted k a s d' = posted k a s d + sum_where (in_bucket k a s) net vs"
  by (simp add: posted_net booked_def)

lemma booked_other_ledger:
  assumes "booked l ev vs d d'" "k \<noteq> l"
  shows "posted k a s d' = posted k a s d" "seqs k d' = seqs k d"
proof -
  have "sum_where (in_bucket k a s) net vs = 0"
    using assms by (intro sum_where_none) (auto simp: booked_def list_all_iff in_bucket_def)
  then show "posted k a s d' = posted k a s d" using booked_posted [OF assms(1)] by simp
  show "seqs k d' = seqs k d" using assms by (simp add: booked_def seqs_def)
qed

subsection \<open>Volume rows of postings\<close>

lemma held_same: "holds d' = holds d \<Longrightarrow> held l a s d' = held l a s d"
  by (simp add: held_def)

definition vdelta :: "string \<Rightarrow> string \<Rightarrow> string \<Rightarrow> string \<Rightarrow> time \<Rightarrow> time \<Rightarrow> int \<Rightarrow> int \<Rightarrow> VolumeDeltaRecord" where
  "vdelta l a s eventID vt now input output = \<lparr>vd_LedgerID = l, vd_Account = a, vd_Asset = s,
     vd_Shard = 0, vd_EventID = eventID, vd_ValidTime = vt, vd_SystemTime = now,
     vd_InputDelta = input, vd_OutputDelta = output\<rparr>"

lemma vdelta_simps [simp]:
  "vd_LedgerID (vdelta l a s i vt now x y) = l" "vd_EventID (vdelta l a s i vt now x y) = i"
  "vd_Account (vdelta l a s i vt now x y) = a" "vd_Asset (vdelta l a s i vt now x y) = s"
  "net (vdelta l a s i vt now x y) = x - y"
  "in_bucket k b t (vdelta l a s i vt now x y) = (l = k \<and> a = b \<and> s = t)"
  by (auto simp: vdelta_def net_def in_bucket_def)

definition posting_deltas :: "string \<Rightarrow> string \<Rightarrow> time \<Rightarrow> time \<Rightarrow> PostingInput list \<Rightarrow> VolumeDeltaRecord list" where
  "posting_deltas l i vt now ps = concat (map (\<lambda>p.
     [vdelta l (Source p) (Asset p) i vt now 0 (amount_of p),
      vdelta l (Destination p) (Asset p) i vt now (amount_of p) 0]) ps)"

definition inflow :: "PostingInput list \<Rightarrow> string \<Rightarrow> string \<Rightarrow> int" where
  "inflow ps a s = sum_where (\<lambda>p. Destination p = a \<and> Asset p = s) amount_of ps"

definition outflow :: "PostingInput list \<Rightarrow> string \<Rightarrow> string \<Rightarrow> int" where
  "outflow ps a s = sum_where (\<lambda>p. Source p = a \<and> Asset p = s) amount_of ps"

lemma posting_deltas_zero_sum: "zero_sum (posting_deltas l i vt now ps)"
  by (induction ps) (simp_all add: zero_sum_def posting_deltas_def)

lemma posting_deltas_owner:
  "list_all (\<lambda>v. vd_LedgerID v = l \<and> vd_EventID v = i) (posting_deltas l i vt now ps)"
  by (induction ps) (simp_all add: posting_deltas_def)

lemma posting_deltas_bucket:
  "sum_where (in_bucket l a s) net (posting_deltas l i vt now ps) = inflow ps a s - outflow ps a s"
  by (induction ps) (auto simp: posting_deltas_def inflow_def outflow_def)

subsection \<open>Net maps\<close>

definition netOutputs :: "PostingInput list \<Rightarrow> (acctAsset \<times> int) list" where
  "netOutputs ps = fold (\<lambda>p m. if amount_of p = 0 then m
     else add_to (Source p, Asset p) (amount_of p) m) ps []"

definition netInputs :: "PostingInput list \<Rightarrow> (acctAsset \<times> int) list" where
  "netInputs ps = fold (\<lambda>p m. if amount_of p = 0 then m
     else add_to (Destination p, Asset p) (amount_of p) m) ps []"

definition lookup0 :: "(acctAsset \<times> int) list \<Rightarrow> acctAsset \<Rightarrow> int" where
  "lookup0 m k = (case map_of m k of None \<Rightarrow> 0 | Some v \<Rightarrow> v)"

lemma lookup0_add_to: "lookup0 (add_to k v m) k' = lookup0 m k' + (if k' = k then v else 0)"
  by (induction m) (auto simp: lookup0_def)

lemma lookup0_fold:
  "lookup0 (fold (\<lambda>p m. if amount_of p = 0 then m else add_to (f p) (amount_of p) m) ps m) k =
     lookup0 m k + sum_where (\<lambda>p. f p = k) amount_of ps"
  by (induction ps arbitrary: m) (auto simp: lookup0_add_to)

lemma lookup0_netOutputs: "lookup0 (netOutputs ps) (a, s) = outflow ps a s"
  unfolding netOutputs_def lookup0_fold by (simp add: lookup0_def outflow_def)

lemma lookup0_netInputs: "lookup0 (netInputs ps) (a, s) = inflow ps a s"
  unfolding netInputs_def lookup0_fold by (simp add: lookup0_def inflow_def)

lemma covered_netOutputs:
  assumes "list_all (covered lr (netInputs ps) d) (netOutputs ps)"
    and "\<not> IsIssuer a (lr_IssuerAccounts lr)" and "0 \<le> available (lr_ID lr) a s d" and "0 \<le> inflow ps a s"
  shows "outflow ps a s \<le> available (lr_ID lr) a s d + inflow ps a s"
proof (cases "map_of (netOutputs ps) (a, s)")
  case None
  then have "outflow ps a s = 0" using lookup0_netOutputs [of ps a s] by (simp add: lookup0_def)
  then show ?thesis using assms(3,4) by simp
next
  case (Some n)
  then have "((a, s), n) \<in> set (netOutputs ps)" by (rule map_of_SomeD)
  then have "covered lr (netInputs ps) d ((a, s), n)" using assms(1) by (simp add: list_all_iff)
  moreover have "outflow ps a s = n" using lookup0_netOutputs [of ps a s] Some by (simp add: lookup0_def)
  ultimately show ?thesis
    using assms(2) lookup0_netInputs [of ps a s] by (simp add: covered_def lookup0_def)
qed

end
