(* ===== verification/Planner_Post.thy ===== *)
theory Planner_Post
  imports Accounting
begin

text \<open>
  Posting transactions: \<open>doPostInTx\<close> of \<^verbatim>\<open>src/internal/planner/operations_shared.go\<close>, and
  \<open>SubmitPost\<close> and \<open>validatePostingsAgainstSchema\<close> of
  \<^verbatim>\<open>src/internal/planner/operations_post.go\<close>.
\<close>

subsection \<open>Schema enforcement\<close>

definition feature :: "LedgerRecord \<Rightarrow> string \<Rightarrow> string" where
  "feature ledger key =
     (case lr_Features ledger of
        None \<Rightarrow> []
      | Some kvs \<Rightarrow> (case map_of kvs key of None \<Rightarrow> [] | Some v \<Rightarrow> v))"

fun schema_check :: "ChartOfAccounts \<Rightarrow> nat \<Rightarrow> PostingInput list \<Rightarrow> error option" where
  "schema_check coa i [] = None"
| "schema_check coa i (p # ps) =
     (case ValidatePosting (Some coa) (Source p) (Destination p) of
        Some e \<Rightarrow> Some (wrapped (''posting '' @ nat_String i @ '': '') e)
      | None \<Rightarrow> schema_check coa (Suc i) ps)"

text \<open>The Go type of a decoded JSON value, as \<open>%T\<close> prints it.\<close>

definition Sprintf_T :: "json \<Rightarrow> string" where
  "Sprintf_T j =
     (case j of
        JNull \<Rightarrow> ''<nil>''
      | JBool b \<Rightarrow> ''bool''
      | JInt i \<Rightarrow> ''float64''
      | JStr s \<Rightarrow> ''string''
      | JTime s p \<Rightarrow> ''time.Time''
      | JArr xs \<Rightarrow> ''[]interface {}''
      | JObj kvs \<Rightarrow> ''map[string]interface {}'')"

text \<open>In best-effort mode every failure is logged and the postings pass.\<close>

definition validatePostingsAgainstSchema ::
  "env \<Rightarrow> string \<Rightarrow> string \<Rightarrow> PostingInput list \<Rightarrow> string \<Rightarrow> unit prog" where
  "validatePostingsAgainstSchema E ledgerID schemaVersion postings mode =
     (if schemaVersion = [] then ok ()
      else attempt (GetSchema E Pool ledgerID schemaVersion) (\<lambda>r.
      case r of
        Inl e \<Rightarrow> ok ()
      | Inr schema \<Rightarrow>
          (case sc_Document schema of
             DocJson j \<Rightarrow>
               (if mode = SchemaStrict then fail (Errorf
                  (''schema document has unexpected type '' @ Sprintf_T j @ '', expected []byte''))
                else ok ())
           | DocBytes docBytes \<Rightarrow>
               (case ParseChartOfAccounts (regexp_Compile E) (json_Unmarshal E docBytes) of
                  Inl e \<Rightarrow> if mode = SchemaStrict then fail (wrapped ''invalid chart of accounts: '' e) else ok ()
                | Inr coa \<Rightarrow>
                    if mode = SchemaStrict then ofErr (schema_check coa 0 postings) else ok ()))))"

text \<open>Programs that do not touch the transaction at all, such as reads of the pool.\<close>

definition tx_same :: "world \<Rightarrow> world \<Rightarrow> bool" where
  "tx_same w w' \<longleftrightarrow> pg w' = pg w \<and> cache w' = cache w \<and> published w' = published w \<and> tx w' = tx w"

interpretation tx_same: frame tx_same
  by unfold_locales (simp_all add: tx_same_def)

lemma keeps_tx_of_same: "keeps tx_same m \<Longrightarrow> keeps tx_frame m"
  by (simp add: keeps_def tx_same_def tx_frame_def)

lemma does_of_same: "keeps tx_same m \<Longrightarrow> does m (\<lambda>d r d'. d' = d)"
  by (rule does_of_frame) (simp add: keeps_def tx_same_def)

lemma keeps_same_validateSchema: "keeps tx_same (validatePostingsAgainstSchema E l v ps m)"
proof -
  have doc: "keeps tx_same (case x of DocBytes b \<Rightarrow> f b | DocJson j \<Rightarrow> g j)"
    if "\<And>b. keeps tx_same (f b)" "\<And>j. keeps tx_same (g j)" for x f and g :: "json \<Rightarrow> unit prog"
    using that by (cases x) simp_all
  have read: "keeps tx_same (query E Pool g)" for g :: "time \<Rightarrow> db \<Rightarrow> 'b"
    by (rule keepsI) (simp add: tx_same_def query_def stmt_def Let_def abort_tx_def split: option.split)
  show ?thesis
    unfolding validatePostingsAgainstSchema_def GetSchema_def
    by (intro tx_same.keeps_rules read doc)
qed

text \<open>The enforcement step of \<open>doPostInTx\<close>, on the mode and version in the ledger's features.\<close>

definition enforceSchema :: "env \<Rightarrow> LedgerRecord \<Rightarrow> PostingInput list \<Rightarrow> unit prog" where
  "enforceSchema E ledger postings =
     (let mode = feature ledger featureSchemaEnforcement in
      whenM (mode = SchemaStrict \<or> mode = SchemaBestEffort)
        (validatePostingsAgainstSchema E (lr_ID ledger) (feature ledger featureActiveSchemaVersion) postings mode))"

lemma keeps_same_enforceSchema: "keeps tx_same (enforceSchema E lr ps)"
  unfolding enforceSchema_def by (intro tx_same.keeps_rules keeps_same_validateSchema)

lemmas keeps_enforceSchema [frame_intro] = keeps_tx_of_same [OF keeps_same_enforceSchema]

lemmas does_enforceSchema [does_intro] = does_of_same [OF keeps_same_enforceSchema]

subsection \<open>Rows\<close>

definition posting_record :: "PostingInput \<Rightarrow> PostingRecord" where
  "posting_record p = \<lparr>pr_Source = Source p, pr_Destination = Destination p,
     pr_Amount = int_String (amount_of p), pr_Asset = Asset p\<rparr>"

definition json_of_posting :: "PostingRecord \<Rightarrow> json" where
  "json_of_posting r = JObj [(''source'', JStr (pr_Source r)), (''destination'', JStr (pr_Destination r)),
     (''amount'', JStr (pr_Amount r)), (''asset'', JStr (pr_Asset r))]"

definition post_payload :: "string \<Rightarrow> PostingRecord list \<Rightarrow> metadata \<Rightarrow> string \<Rightarrow> bytes" where
  "post_payload txID rs md reference = json_marshal (json_map
     [(''transaction_id'', JStr txID), (''postings'', JArr (map json_of_posting rs)),
      (''metadata'', json_of_metadata md), (''reference'', JStr reference)])"

text \<open>The two volume rows of one posting; postings of zero are skipped.\<close>

definition insertPosting :: "env \<Rightarrow> string \<Rightarrow> string \<Rightarrow> time \<Rightarrow> time \<Rightarrow> PostingInput \<Rightarrow> unit prog" where
  "insertPosting E ledgerID eventID vt now p =
     (if amount_of p = 0 then ok ()
      else
        andThen (mapErr (wrapped ''inserting source volume delta: '') (InsertVolumeDelta E Tx
          (vdelta ledgerID (Source p) (Asset p) eventID vt now 0 (amount_of p)))) (\<lambda>_.
        mapErr (wrapped ''inserting dest volume delta: '') (InsertVolumeDelta E Tx
          (vdelta ledgerID (Destination p) (Asset p) eventID vt now (amount_of p) 0))))"

definition insertPostings :: "env \<Rightarrow> string \<Rightarrow> string \<Rightarrow> time \<Rightarrow> time \<Rightarrow> PostingInput list \<Rightarrow> unit prog" where
  "insertPostings E ledgerID eventID vt now postings = forM (insertPosting E ledgerID eventID vt now) postings"

definition touchedAccounts :: "PostingInput list \<Rightarrow> string list" where
  "touchedAccounts ps =
     remdups (concat (map (\<lambda>p. if amount_of p = 0 then [] else [Source p, Destination p]) ps))"

definition touch :: "string \<Rightarrow> string \<Rightarrow> time \<Rightarrow> AccountRecord" where
  "touch ledgerID addr now = \<lparr>ac_LedgerID = ledgerID, ac_Address = addr, ac_FirstUsage = now,
     ac_UpdatedAt = now, ac_Metadata = Some []\<rparr>"

definition upsertTouched :: "env \<Rightarrow> string \<Rightarrow> time \<Rightarrow> string list \<Rightarrow> unit prog" where
  "upsertTouched E ledgerID now addrs =
     forM (\<lambda>addr. mapErr (wrapped (''upserting account '' @ addr @ '': ''))
       (UpsertAccount E Tx (touch ledgerID addr now))) addrs"

subsection \<open>The operation\<close>

definition doPostInTx ::
  "env \<Rightarrow> LedgerRecord \<Rightarrow> PostingInput list \<Rightarrow> string \<Rightarrow> metadata \<Rightarrow> string \<Rightarrow> bytes option \<Rightarrow>
     time \<Rightarrow> time \<Rightarrow> bool \<Rightarrow> SubmitResult prog" where
  "doPostInTx E ledger postings reference md key ikHash vt now dryRun =
     andThen (ofErr (validatePostings postings)) (\<lambda>_.
     andThen (enforceSchema E ledger postings) (\<lambda>_.
     andThen (checkSourceBalances E ledger (netOutputs postings) (netInputs postings)) (\<lambda>_.
     if dryRun then ok (submitted ''dry-run'')
     else
       andThen (ulid_Make E) (\<lambda>txID.
       let postingRecords = map posting_record postings in
       andThen (appendEvent E (lr_ID ledger) EventTypeTransactionPosted
         (post_payload txID postingRecords md reference) key ikHash vt now) (\<lambda>(eventID, _).
       let txRec = \<lparr>tx_LedgerID = lr_ID ledger, tx_TransactionID = txID, tx_EventID = eventID,
             tx_ValidTime = vt, tx_SystemTime = now, tx_Reference = reference,
             tx_Postings = postingRecords, tx_Metadata = md\<rparr> in
       andThen (mapErr (\<lambda>e. if errors_is e ErrTransactionReferenceConflict then e
           else wrapped ''inserting transaction: '' e) (InsertTransaction E Tx txRec)) (\<lambda>_.
       andThen (whenM (md \<noteq> None \<and> md \<noteq> Some []) (mapErr (wrapped ''inserting initial metadata history: '')
         (InsertMetadataHistory E Tx \<lparr>mh_LedgerID = lr_ID ledger, mh_TargetType = TargetTypeTransaction,
           mh_TargetID = txID, mh_Revision = 0, mh_Metadata = md, mh_EventID = eventID,
           mh_SystemTime = now\<rparr>))) (\<lambda>_.
       andThen (insertPostings E (lr_ID ledger) eventID vt now postings) (\<lambda>_.
       andThen (upsertTouched E (lr_ID ledger) now (touchedAccounts postings)) (\<lambda>_.
       andThen (recordIfKeyed E (lr_ID ledger) key eventID ikHash) (\<lambda>_.
       ok ((submitted eventID)\<lparr>Transaction := Some txRec\<rparr>)))))))))))"

definition SubmitPost ::
  "env \<Rightarrow> string \<Rightarrow> PostingInput list \<Rightarrow> string \<Rightarrow> metadata \<Rightarrow> string \<Rightarrow> time option \<Rightarrow> bool \<Rightarrow> SubmitResult prog" where
  "SubmitPost E ledgerID postings reference md key validTime dryRun =
     andThen (ofErr (validatePostings postings)) (\<lambda>_.
     let ikHash = (if key \<noteq> [] then Some (computeIdempotencyHash E ledgerID postings reference md validTime)
                   else None) in
     andThen (checkLedgerNotSealed E ledgerID) (\<lambda>ledger.
     andThen (time_Now E) (\<lambda>now.
     let vt = (case validTime of None \<Rightarrow> now | Some t \<Rightarrow> t) in
     submitWithIdempotency E ledgerID key ikHash EventTypeTransactionPosted dryRun
       (doPostInTx E ledger postings reference md key ikHash vt now dryRun))))"

subsection \<open>Frame\<close>

lemma keeps_insertPostings [frame_intro]: "keeps tx_frame (insertPostings E l i vt now ps)"
  unfolding insertPostings_def insertPosting_def by (intro tx_frame.keeps_rules frame_intro)

lemma keeps_upsertTouched [frame_intro]: "keeps tx_frame (upsertTouched E l now as)"
  unfolding upsertTouched_def by (intro tx_frame.keeps_rules frame_intro)

lemma keeps_doPostInTx [frame_intro]: "keeps tx_frame (doPostInTx E lr ps ref md k h vt now dry)"
  unfolding doPostInTx_def Let_def by (intro tx_frame.keeps_rules frame_intro)

subsection \<open>Effect\<close>

text \<open>The primary key of a volume row, apart from the shard, which is always zero.\<close>

definition bucket :: "VolumeDeltaRecord \<Rightarrow> string \<times> string \<times> string \<times> int \<times> string" where
  "bucket v = (vd_LedgerID v, vd_Account v, vd_Asset v, vd_Shard v, vd_EventID v)"

lemma same_bucket_iff: "same_bucket v r \<longleftrightarrow> bucket r = bucket v"
  by (auto simp: same_bucket_def bucket_def)

definition adds_rows :: "VolumeDeltaRecord list \<Rightarrow> db \<Rightarrow> db \<Rightarrow> bool" where
  "adds_rows vs d d' \<longleftrightarrow> d' = d\<lparr>volumes_delta := volumes_delta d @ vs\<rparr> \<and> distinct (map bucket vs) \<and>
     bucket ` set vs \<inter> bucket ` set (volumes_delta d) = {}"

lemma adds_rows_append:
  "adds_rows vs d d1 \<Longrightarrow> adds_rows us d1 d' \<Longrightarrow> adds_rows (vs @ us) d d'"
  by (auto simp: adds_rows_def)

lemma does_InsertVolumeDelta_rows:
  "does (InsertVolumeDelta E Tx v) (\<lambda>d r d'. r = Inr () \<and> adds_rows [v] d d')"
  by (rule does_weaken [OF does_InsertVolumeDelta])
     (auto simp: adds_rows_def same_bucket_iff list_all_iff)

definition nonzero :: "PostingInput list \<Rightarrow> PostingInput list" where
  "nonzero ps = filter (\<lambda>p. amount_of p \<noteq> 0) ps"

lemma does_insertPosting:
  "does (insertPosting E l i vt now p) (\<lambda>d r d'. r = Inr () \<longrightarrow>
     adds_rows (posting_deltas l i vt now (nonzero [p])) d d')"
  unfolding insertPosting_def
  by (rule does_weaken, (rule does_if does_ok does_andThen does_mapErr does_InsertVolumeDelta_rows)+)
     (auto simp: posting_deltas_def nonzero_def adds_rows_def split: if_splits)

lemma posting_deltas_Cons:
  "posting_deltas l i vt now (nonzero (p # ps)) =
     posting_deltas l i vt now (nonzero [p]) @ posting_deltas l i vt now (nonzero ps)"
  by (simp add: posting_deltas_def nonzero_def)

lemma does_insertPostings [does_intro]:
  "does (insertPostings E l i vt now ps) (\<lambda>d r d'. r = Inr () \<longrightarrow>
     adds_rows (posting_deltas l i vt now (nonzero ps)) d d')"
  unfolding insertPostings_def
proof (rule does_weaken [OF does_forM [OF does_insertPosting]])
  fix d r d'
  assume "iterates (\<lambda>p d r d'. r = Inr () \<longrightarrow> adds_rows (posting_deltas l i vt now (nonzero [p])) d d') ps d r d'"
  then show "r = Inr () \<longrightarrow> adds_rows (posting_deltas l i vt now (nonzero ps)) d d'"
  proof (induction ps arbitrary: d)
    case Nil
    then show ?case by (simp add: nonzero_def posting_deltas_def adds_rows_def)
  next
    case (Cons p ps)
    then show ?case
      using adds_rows_append unfolding posting_deltas_Cons [of l i vt now p ps] by fastforce
  qed
qed

lemma upsert_account_only: "\<exists>as. upsert_account a d = d\<lparr>accounts := as\<rparr>"
  by (auto simp: upsert_account_def upsert_account_sql_def Let_def)

lemma does_UpsertAccount_only:
  "does (UpsertAccount E Tx a) (\<lambda>d r d'. \<exists>as. d' = d\<lparr>accounts := as\<rparr>)"
  by (rule does_weaken [OF does_UpsertAccount]) (use upsert_account_only in auto)

lemma does_upsertTouched [does_intro]:
  "does (upsertTouched E l now addrs) (\<lambda>d r d'. \<exists>as. d' = d\<lparr>accounts := as\<rparr>)"
  unfolding upsertTouched_def
proof (rule does_weaken [OF does_forM [OF does_weaken [OF does_mapErr [OF does_UpsertAccount_only]]]])
  fix d r d'
  assume "iterates (\<lambda>x d r d'. \<exists>as. d' = d\<lparr>accounts := as\<rparr>) addrs d r d'"
  then show "\<exists>as. d' = d\<lparr>accounts := as\<rparr>"
  proof (induction addrs arbitrary: d)
    case Nil
    have "d = d\<lparr>accounts := accounts d\<rparr>" by simp
    with Nil show ?case by (metis iterates.simps(1))
  next
    case (Cons a addrs)
    then show ?case by fastforce
  qed
qed auto

text \<open>The rows of the idempotency table after an operation.\<close>

definition key_rows :: "string \<Rightarrow> string \<Rightarrow> string \<Rightarrow> bytes option \<Rightarrow> db \<Rightarrow> db \<Rightarrow> bool" where
  "key_rows l k i h d d' \<longleftrightarrow>
     (if k \<noteq> [] \<and> h \<noteq> None then find_key l k d = None \<and>
        (\<exists>t. idempotency_keys d' = idempotency_keys d @ [\<lparr>ik_LedgerID = l, ik_IdempotencyKey = k,
           ik_IdempotencyHash = hash_bytes h, ik_EventID = i, ik_CreatedAt = t\<rparr>])
      else idempotency_keys d' = idempotency_keys d)"

lemma keyed_elim:
  assumes "keyed l k i h d1 d'" and "idempotency_keys d1 = idempotency_keys d"
  shows "key_rows l k i h d d' \<and> (\<exists>ks. d' = d1\<lparr>idempotency_keys := ks\<rparr>)"
proof -
  have "d1 = d1\<lparr>idempotency_keys := idempotency_keys d1\<rparr>" by simp
  then have "\<exists>ks. d' = d1\<lparr>idempotency_keys := ks\<rparr>"
    using assms(1) unfolding keyed_def by (metis)
  moreover have "key_rows l k i h d d'"
    using assms by (auto simp: keyed_def key_rows_def find_key_def split: if_splits)
  ultimately show ?thesis by simp
qed

definition post_effect ::
  "LedgerRecord \<Rightarrow> PostingInput list \<Rightarrow> string \<Rightarrow> bytes option \<Rightarrow> time \<Rightarrow> time \<Rightarrow> bool \<Rightarrow> db \<Rightarrow> SubmitResult \<Rightarrow> db \<Rightarrow> bool" where
  "post_effect lr ps k h vt now dry d x d' \<longleftrightarrow>
     validatePostings ps = None \<and> list_all (covered lr (netInputs ps) d) (netOutputs ps) \<and>
     \<not> IdempotentHit x \<and>
     (if dry then d' = d else
        (\<exists>ev t. let vs = posting_deltas (lr_ID lr) (ev_EventID ev) vt now ps in
           booked (lr_ID lr) ev vs d d' \<and> distinct (map bucket vs) \<and> holds d' = holds d \<and>
           ev_Type ev = EventTypeTransactionPosted \<and> ev_IdempotencyKey ev = k \<and>
           EventID x = ev_EventID ev \<and> Transaction x = Some t \<and> tx_Postings t = map posting_record ps \<and>
           tx_LedgerID t = lr_ID lr \<and> find_transaction (lr_ID lr) (tx_TransactionID t) d = None \<and>
           transactions d' = transactions d @ [transaction_row_of t] \<and>
           transaction_relationships d' = transaction_relationships d \<and>
           key_rows (lr_ID lr) k (ev_EventID ev) h d d'))"

lemma nonzero_valid: "list_all valid_posting ps \<Longrightarrow> nonzero ps = ps"
  by (induction ps) (auto simp: nonzero_def valid_posting_def amount_of_def)

lemma does_history:
  "does (whenM b (mapErr f (InsertMetadataHistory E Tx m))) (\<lambda>d r d'. \<exists>rows. d' = d\<lparr>metadata_history := rows\<rparr>)"
proof -
  have "does (InsertMetadataHistory E Tx m) (\<lambda>d r d'. \<exists>rows. d' = d\<lparr>metadata_history := rows\<rparr>)"
    by (rule does_weaken [OF does_InsertMetadataHistory]) blast
  from does_mapErr [OF this, of f]
  have "does (mapErr f (InsertMetadataHistory E Tx m)) (\<lambda>d r d'. \<exists>rows. d' = d\<lparr>metadata_history := rows\<rparr>)"
    by (rule does_weaken) blast
  moreover have "does (ok ()) (\<lambda>d r d'. \<exists>rows. d' = d\<lparr>metadata_history := rows\<rparr>)"
    by (rule does_weaken [OF does_ok]) (metis db.surjective db.update_convs(9))
  ultimately show ?thesis by (simp add: whenM_def)
qed

text \<open>Putting the parts of a post together.\<close>

lemma post_effectI:
  assumes "validatePostings ps = None" and "list_all (covered lr (netInputs ps) d) (netOutputs ps)"
    and ev: "next_event (lr_ID lr) EventTypeTransactionPosted pl k d ev"
    and t: "tx_Postings t = map posting_record ps" "tx_LedgerID t = lr_ID lr"
      "find_transaction (lr_ID lr) (tx_TransactionID t) (d\<lparr>log_events := log_events d @ [ev]\<rparr>) = None"
    and rows: "adds_rows (posting_deltas (lr_ID lr) (ev_EventID ev) vt now (nonzero ps))
      (d\<lparr>log_events := log_events d @ [ev], transactions := transactions d @ [transaction_row_of t],
         metadata_history := mh\<rparr>) d2"
    and key: "keyed (lr_ID lr) k (ev_EventID ev) h (d2\<lparr>accounts := acs\<rparr>) d'"
    and x: "x = (submitted (ev_EventID ev))\<lparr>Transaction := Some t\<rparr>"
  shows "post_effect lr ps k h vt now False d x d'"
proof -
  have nz: "nonzero ps = ps" using assms(1) nonzero_valid by (simp add: validatePostings_None)
  have d2: "d2 = d\<lparr>log_events := log_events d @ [ev],
      transactions := transactions d @ [transaction_row_of t], metadata_history := mh,
      volumes_delta := volumes_delta d @ posting_deltas (lr_ID lr) (ev_EventID ev) vt now ps\<rparr>"
    using rows by (simp add: adds_rows_def nz)
  obtain ks where d': "d' = d2\<lparr>accounts := acs, idempotency_keys := ks\<rparr>"
    and kr: "key_rows (lr_ID lr) k (ev_EventID ev) h d d'"
    using keyed_elim [OF key, of d] d2 by auto
  have "booked (lr_ID lr) ev (posting_deltas (lr_ID lr) (ev_EventID ev) vt now ps) d d'"
    using ev posting_deltas_zero_sum posting_deltas_owner
    by (simp add: booked_def next_event_def d' d2)
  then show ?thesis
    using assms(1,2) ev t rows kr x
    by (simp add: post_effect_def next_event_def adds_rows_def nz d' d2 submitted_def Let_def find_transaction_def)
       blast
qed

lemma does_doPostInTx:
  "does (doPostInTx E lr ps ref md k h vt now dry)
     (\<lambda>d r d'. \<forall>x. r = Inr x \<longrightarrow> post_effect lr ps k h vt now dry d x d')"
  unfolding doPostInTx_def Let_def
proof (rule does_weaken, (rule does_history does_intro)+, intro allI impI, goal_cases)
  case (1 d r d' x)
  show ?case
  proof (cases dry)
    case True
    with 1 show ?thesis by (auto simp: post_effect_def submitted_def split: option.splits)
  next
    case False
    with 1 have v: "validatePostings ps = None" by (auto split: option.splits)
    with 1 False show ?thesis by clarsimp (rule post_effectI, assumption+, simp_all add: find_transaction_def)
  qed
qed

interpretation post: tx_operation "doPostInTx E lr ps ref md k h vt now dry"
    "post_effect lr ps k h vt now dry" for E lr ps ref md k h vt now dry
  by unfold_locales (rule keeps_doPostInTx, rule does_doPostInTx)

subsection \<open>Consequences\<close>

lemma outflow_inflow_nonneg:
  assumes "validatePostings ps = None"
  shows "0 \<le> inflow ps a s" "0 \<le> outflow ps a s"
  using assms
  by (auto simp: validatePostings_None list_all_iff valid_posting_def amount_of_def inflow_def outflow_def
      intro!: sum_where_nonneg)

lemma post_effect_sound: "post_effect lr ps k h vt now dry d x d' \<Longrightarrow> sound d \<Longrightarrow> sound d'"
  by (auto simp: post_effect_def Let_def elim: booked_sound_holds split: if_splits)

lemma post_effect_posted:
  assumes "post_effect lr ps k h vt now False d x d'"
  shows "posted (lr_ID lr) a s d' = posted (lr_ID lr) a s d + inflow ps a s - outflow ps a s"
    and "l \<noteq> lr_ID lr \<Longrightarrow> posted l a s d' = posted l a s d"
proof -
  obtain ev where b: "booked (lr_ID lr) ev (posting_deltas (lr_ID lr) (ev_EventID ev) vt now ps) d d'"
    using assms by (auto simp: post_effect_def Let_def)
  show "posted (lr_ID lr) a s d' = posted (lr_ID lr) a s d + inflow ps a s - outflow ps a s"
    using booked_posted [OF b] by (simp add: posting_deltas_bucket)
  show "l \<noteq> lr_ID lr \<Longrightarrow> posted l a s d' = posted l a s d"
    using booked_other_ledger(1) [OF b] .
qed

lemma post_effect_holds: "post_effect lr ps k h vt now dry d x d' \<Longrightarrow> holds d' = holds d"
  by (auto simp: post_effect_def Let_def split: if_splits)

lemma post_effect_available:
  assumes "post_effect lr ps k h vt now False d x d'"
  shows "available (lr_ID lr) a s d' = available (lr_ID lr) a s d + inflow ps a s - outflow ps a s"
    and "l \<noteq> lr_ID lr \<Longrightarrow> available l a s d' = available l a s d"
  using post_effect_posted [OF assms] held_same [OF post_effect_holds [OF assms]]
  by (simp_all add: available_def)

lemma post_effect_solvent:
  assumes "post_effect lr ps k h vt now dry d x d'" "solvent l issuers d"
    and "l = lr_ID lr \<Longrightarrow> lr_IssuerAccounts lr = issuers"
  shows "solvent l issuers d'"
proof (cases dry)
  case True
  then show ?thesis using assms(1,2) by (simp add: post_effect_def)
next
  case False
  then have e: "post_effect lr ps k h vt now False d x d'" using assms(1) by simp
  show ?thesis
    unfolding solvent_def
  proof (intro allI impI)
    fix a s assume a: "\<not> IsIssuer a issuers"
    then have av: "0 \<le> available l a s d" using assms(2) by (simp add: solvent_def)
    show "0 \<le> available l a s d'"
    proof (cases "l = lr_ID lr")
      case True
      then have "outflow ps a s \<le> available l a s d + inflow ps a s"
        using e a av assms(3) outflow_inflow_nonneg(1) covered_netOutputs [of lr ps d a s]
        by (simp add: post_effect_def)
      then show ?thesis using post_effect_available(1) [OF e, of a s] True by simp
    next
      case False
      then show ?thesis using post_effect_available(2) [OF e] av by simp
    qed
  qed
qed

text \<open>The outcomes of a submitted post.\<close>

interpretation post_at: ledger_operation "\<lambda>lr now. doPostInTx E lr ps ref md k h (f now) now dry"
    "\<lambda>lr now. post_effect lr ps k h (f now) now dry" for E ps ref md k h f dry
  by unfold_locales (rule keeps_doPostInTx, rule does_doPostInTx)

lemma SubmitPost_run:
  assumes "SubmitPost E l ps ref md k validTime dry w = (r, w')"
  shows "outcome l dry (\<lambda>lr d x d'. \<exists>h vt now. post_effect lr ps k h vt now dry d x d') w r w'"
proof (cases "validatePostings ps")
  case (Some e)
  then show ?thesis using assms by (auto simp: SubmitPost_def andThen_def outcome_def)
next
  case None
  then show ?thesis using assms
    by (simp add: SubmitPost_def Let_def) (auto dest!: post_at.guarded_run elim!: outcome_mono)
qed

end
