(* ===== verification/Planner_Holds.thy ===== *)
theory Planner_Holds
  imports Planner_Post
begin

text \<open>
  Holds: \<open>doAuthorizeInTx\<close>, \<open>doCaptureInTx\<close> and \<open>doVoidInTx\<close> of
  \<^verbatim>\<open>src/internal/planner/operations_shared.go\<close>, the submissions of
  \<^verbatim>\<open>src/internal/planner/operations_holds.go\<close> and the expiry sweep of
  \<^verbatim>\<open>src/internal/planner/expire.go\<close>.
\<close>

definition authorize_payload ::
  "env \<Rightarrow> string \<Rightarrow> string \<Rightarrow> string \<Rightarrow> int \<Rightarrow> string \<Rightarrow> time \<Rightarrow> bytes" where
  "authorize_payload E holdID source destHint amount asset expiresAt = json_marshal (json_map
     [(''hold_id'', JStr holdID), (''source'', JStr source), (''destination_hint'', JStr destHint),
      (''amount'', JStr (int_String amount)), (''asset'', JStr asset),
      (''expires_at'', JStr (format_time E expiresAt))])"

definition checkAvailable :: "env \<Rightarrow> LedgerRecord \<Rightarrow> string \<Rightarrow> string \<Rightarrow> int \<Rightarrow> (int \<Rightarrow> string) \<Rightarrow> unit prog" where
  "checkAvailable E ledger account asset required detail =
     (if IsIssuer account (lr_IssuerAccounts ledger) then ok ()
      else andThen (availableBalance E (lr_ID ledger) account asset) (\<lambda>avail.
        if avail < required then fail (suffixed ErrInsufficientFunds (detail avail)) else ok ()))"

definition authorize_detail :: "string \<Rightarrow> string \<Rightarrow> int \<Rightarrow> int \<Rightarrow> string" where
  "authorize_detail source asset amount avail = '': account '' @ source @ '', asset '' @ asset @
     '' (available: '' @ int_String avail @ '', requested: '' @ int_String amount @ '')''"

definition doAuthorizeInTx ::
  "env \<Rightarrow> LedgerRecord \<Rightarrow> string \<Rightarrow> string \<Rightarrow> string \<Rightarrow> int option \<Rightarrow> time \<Rightarrow> string \<Rightarrow> bytes option \<Rightarrow> time \<Rightarrow> SubmitResult prog" where
  "doAuthorizeInTx E ledger source destHint asset amount expiresAt key ikHash now =
     (case amount of
        None \<Rightarrow> fail (Errorf ''authorize amount must be positive'')
      | Some amt \<Rightarrow>
     if amt \<le> 0 then fail (Errorf ''authorize amount must be positive'')
     else
       andThen (ulid_Make E) (\<lambda>holdID.
       andThen (checkAvailable E ledger source asset amt (authorize_detail source asset amt)) (\<lambda>_.
       andThen (appendEvent E (lr_ID ledger) EventTypeHoldCreated
         (authorize_payload E holdID source destHint amt asset expiresAt) key ikHash now now) (\<lambda>(eventID, _).
       andThen (InsertHold E Tx \<lparr>hd_LedgerID = lr_ID ledger, hd_HoldID = holdID, hd_Source = source,
         hd_DestinationHint = destHint, hd_Asset = asset, hd_AuthorizedAmount = amt,
         hd_CapturedAmount = 0, hd_Voided = False, hd_Expired = False, hd_ExpiresAt = expiresAt,
         hd_AuthorizedEventID = eventID, hd_ValidTime = now, hd_SystemTime = now\<rparr>) (\<lambda>_.
       andThen (mapErr (wrapped ''upserting source account: '')
         (UpsertAccount E Tx (touch (lr_ID ledger) source now))) (\<lambda>_.
       andThen (recordIfKeyed E (lr_ID ledger) key eventID ikHash) (\<lambda>_.
       ok ((submitted eventID)\<lparr>HoldID := holdID\<rparr>))))))))"

text \<open>The guards on a hold that capture and void share.\<close>

definition checkHoldOpen :: "HoldRecord \<Rightarrow> string \<Rightarrow> error option" where
  "checkHoldOpen hold holdID =
     (if hd_Voided hold then Some (suffixed ErrHoldVoided ('': '' @ holdID))
      else if hd_Expired hold then Some (suffixed ErrHoldExpired ('': '' @ holdID))
      else None)"

definition capture_payload :: "string \<Rightarrow> int \<Rightarrow> string \<Rightarrow> bytes" where
  "capture_payload holdID amount dest = json_marshal (json_map
     [(''hold_id'', JStr holdID), (''amount'', JStr (int_String amount)), (''destination'', JStr dest)])"

definition doCaptureInTx ::
  "env \<Rightarrow> string \<Rightarrow> string \<Rightarrow> int option \<Rightarrow> string \<Rightarrow> string \<Rightarrow> bytes option \<Rightarrow> time \<Rightarrow> SubmitResult prog" where
  "doCaptureInTx E ledgerID holdID amount destination key ikHash now =
     (case amount of
        None \<Rightarrow> fail (Errorf ''capture amount must be positive'')
      | Some amt \<Rightarrow>
     if amt \<le> 0 then fail (Errorf ''capture amount must be positive'')
     else
       andThen (GetHold E Tx ledgerID holdID) (\<lambda>hold.
       andThen (ofErr (checkHoldOpen hold holdID)) (\<lambda>_.
       if amt > hd_AuthorizedAmount hold - hd_CapturedAmount hold then
         fail (suffixed ErrInsufficientFunds ('': capture '' @ int_String amt @ '' exceeds remaining '' @
           int_String (hd_AuthorizedAmount hold - hd_CapturedAmount hold) @ '' on hold '' @ holdID))
       else
         let dest = (if destination = [] then hd_DestinationHint hold else destination) in
         if dest = [] then fail (Errorf ''destination required for capture (no destination_hint on hold)'')
         else
           andThen (appendEvent E ledgerID EventTypeHoldConfirmed (capture_payload holdID amt dest)
             key ikHash now now) (\<lambda>(eventID, _).
           andThen (UpdateHoldCaptured E Tx ledgerID holdID amt) (\<lambda>_.
           andThen (InsertVolumeDelta E Tx (vdelta ledgerID (hd_Source hold) (hd_Asset hold) eventID now now 0 amt)) (\<lambda>_.
           andThen (InsertVolumeDelta E Tx (vdelta ledgerID dest (hd_Asset hold) eventID now now amt 0)) (\<lambda>_.
           andThen (mapErr (wrapped ''upserting destination account: '')
             (UpsertAccount E Tx (touch ledgerID dest now))) (\<lambda>_.
           andThen (recordIfKeyed E ledgerID key eventID ikHash) (\<lambda>_.
           ok (submitted eventID))))))))))"

definition void_payload :: "string \<Rightarrow> bytes" where
  "void_payload holdID = json_marshal (json_map [(''hold_id'', JStr holdID)])"

definition doVoidInTx :: "env \<Rightarrow> string \<Rightarrow> string \<Rightarrow> string \<Rightarrow> bytes option \<Rightarrow> time \<Rightarrow> SubmitResult prog" where
  "doVoidInTx E ledgerID holdID key ikHash now =
     andThen (GetHold E Tx ledgerID holdID) (\<lambda>hold.
     andThen (ofErr (checkHoldOpen hold holdID)) (\<lambda>_.
     andThen (appendEvent E ledgerID EventTypeHoldVoided (void_payload holdID) key ikHash now now) (\<lambda>(eventID, _).
     andThen (VoidHold E Tx ledgerID holdID) (\<lambda>_.
     andThen (recordIfKeyed E ledgerID key eventID ikHash) (\<lambda>_.
     ok (submitted eventID))))))"

subsection \<open>Submissions\<close>

definition SubmitAuthorize ::
  "env \<Rightarrow> string \<Rightarrow> string \<Rightarrow> string \<Rightarrow> string \<Rightarrow> int option \<Rightarrow> time \<Rightarrow> string \<Rightarrow> SubmitResult prog" where
  "SubmitAuthorize E ledgerID source destHint asset amount expiresAt key =
     (case amount of
        None \<Rightarrow> fail (Errorf ''authorize amount must be positive'')
      | Some amt \<Rightarrow>
     if amt \<le> 0 then fail (Errorf ''authorize amount must be positive'')
     else
       andThen (checkLedgerNotSealed E ledgerID) (\<lambda>ledger.
       let ikHash = (if key \<noteq> [] then Some (computeGenericIdempotencyHash E
             [ledgerID, ''authorize'', source, destHint, asset, int_String amt, format_time E expiresAt])
             else None) in
       andThen (time_Now E) (\<lambda>now.
       submitWithIdempotency E ledgerID key ikHash EventTypeHoldCreated False
         (doAuthorizeInTx E ledger source destHint asset amount expiresAt key ikHash now))))"

definition SubmitCapture ::
  "env \<Rightarrow> string \<Rightarrow> string \<Rightarrow> int option \<Rightarrow> string \<Rightarrow> string \<Rightarrow> SubmitResult prog" where
  "SubmitCapture E ledgerID holdID amount destination key =
     (case amount of
        None \<Rightarrow> fail (Errorf ''capture amount must be positive'')
      | Some amt \<Rightarrow>
     if amt \<le> 0 then fail (Errorf ''capture amount must be positive'')
     else
       andThen (checkLedgerNotSealed E ledgerID) (\<lambda>_.
       let ikHash = (if key \<noteq> [] then Some (computeGenericIdempotencyHash E
             [ledgerID, ''capture'', holdID, int_String amt, destination]) else None) in
       andThen (time_Now E) (\<lambda>now.
       submitWithIdempotency E ledgerID key ikHash EventTypeHoldConfirmed False
         (doCaptureInTx E ledgerID holdID amount destination key ikHash now))))"

definition SubmitVoid :: "env \<Rightarrow> string \<Rightarrow> string \<Rightarrow> string \<Rightarrow> SubmitResult prog" where
  "SubmitVoid E ledgerID holdID key =
     andThen (checkLedgerNotSealed E ledgerID) (\<lambda>_.
     let ikHash = (if key \<noteq> [] then Some (computeGenericIdempotencyHash E [ledgerID, ''void'', holdID])
                   else None) in
     andThen (time_Now E) (\<lambda>now.
     submitWithIdempotency E ledgerID key ikHash EventTypeHoldVoided False
       (doVoidInTx E ledgerID holdID key ikHash now)))"

subsection \<open>Expiry\<close>

definition expire_payload :: "HoldRecord \<Rightarrow> bytes" where
  "expire_payload hold = json_marshal (json_map
     [(''hold_id'', JStr (hd_HoldID hold)), (''source'', JStr (hd_Source hold)), (''asset'', JStr (hd_Asset hold))])"

text \<open>The body between begin and commit; \<open>None\<close> when the hold was already handled.\<close>

definition expireInTx :: "env \<Rightarrow> HoldRecord \<Rightarrow> time \<Rightarrow> string option prog" where
  "expireInTx E hold now =
     andThen (GetHold E Tx (hd_LedgerID hold) (hd_HoldID hold)) (\<lambda>currentHold.
     if hd_Expired currentHold \<or> hd_Voided currentHold then ok None
     else
       andThen (appendEvent E (hd_LedgerID hold) EventTypeHoldExpired (expire_payload hold) [] None now now) (\<lambda>(eventID, _).
       andThen (ExpireHold E Tx (hd_LedgerID hold) (hd_HoldID hold)) (\<lambda>_.
       ok (Some eventID))))"

definition expireSingleHold :: "env \<Rightarrow> HoldRecord \<Rightarrow> unit prog" where
  "expireSingleHold E hold =
     andThen (time_Now E) (\<lambda>now.
     andThen (BeginTx E) (\<lambda>_.
     deferRollback (
       andThen (expireInTx E hold now) (\<lambda>done.
       case done of
         None \<Rightarrow> ok ()
       | Some eventID \<Rightarrow>
           andThen (Commit E) (\<lambda>_.
           publishEvent E (hd_LedgerID hold) eventID EventTypeHoldExpired)))))"

definition expiredHoldsBatchSize :: nat where "expiredHoldsBatchSize = 1000"

text \<open>One page of the sweep: failures are logged and counted out.\<close>

fun expirePage :: "env \<Rightarrow> HoldRecord list \<Rightarrow> nat prog" where
  "expirePage E [] = ok 0"
| "expirePage E (hold # rest) =
     attempt (expireSingleHold E hold) (\<lambda>r.
     andThen (expirePage E rest) (\<lambda>n.
     ok (case r of Inl e \<Rightarrow> n | Inr _ \<Rightarrow> Suc n)))"

text \<open>
  The sweep. The loop ends when a page is empty, makes no progress or is short; each further
  round follows a full page of which some hold was expired. The argument \<open>fuel\<close> bounds the
  number of rounds; \<open>None\<close> is a sweep that has not ended within the bound.
\<close>

fun ExpireHolds :: "nat \<Rightarrow> env \<Rightarrow> unit option prog" where
  "ExpireHolds 0 E = ok None"
| "ExpireHolds (Suc fuel) E =
     andThen (ListExpiredHolds E Pool) (\<lambda>expired.
     if expired = [] then ok (Some ())
     else
       andThen (expirePage E expired) (\<lambda>progressed.
       if progressed = 0 then ok (Some ())
       else if length expired < expiredHoldsBatchSize then ok (Some ())
       else ExpireHolds fuel E))"

subsection \<open>Frames\<close>

lemma keeps_checkAvailable [frame_intro]: "keeps tx_frame (checkAvailable E lr a s n dt)"
  unfolding checkAvailable_def by (intro tx_frame.keeps_rules frame_intro)

lemma keeps_doAuthorizeInTx [frame_intro]: "keeps tx_frame (doAuthorizeInTx E lr so hi as am ex k h now)"
  unfolding doAuthorizeInTx_def by (intro tx_frame.keeps_rules frame_intro)

lemma keeps_doCaptureInTx [frame_intro]: "keeps tx_frame (doCaptureInTx E l i am ds k h now)"
  unfolding doCaptureInTx_def Let_def by (intro tx_frame.keeps_rules frame_intro)

lemma keeps_doVoidInTx [frame_intro]: "keeps tx_frame (doVoidInTx E l i k h now)"
  unfolding doVoidInTx_def by (intro tx_frame.keeps_rules frame_intro)

lemma keeps_expireInTx [frame_intro]: "keeps tx_frame (expireInTx E hold now)"
  unfolding expireInTx_def by (intro tx_frame.keeps_rules frame_intro)

subsection \<open>Effects\<close>

lemma does_checkAvailable [does_intro]:
  "does (checkAvailable E lr a s n dt) (\<lambda>d r d'. d' = d \<and>
     (r = Inr () \<longrightarrow> IsIssuer a (lr_IssuerAccounts lr) \<or> n \<le> available (lr_ID lr) a s d))"
  unfolding checkAvailable_def
  by (rule does_weaken, (rule does_intro)+) (auto split: if_splits)

lemma does_touch:
  "does (mapErr f (UpsertAccount E Tx a)) (\<lambda>d r d'. \<exists>as. d' = d\<lparr>accounts := as\<rparr>)"
  by (rule does_weaken [OF does_mapErr [OF does_UpsertAccount_only]]) auto

definition authorize_effect ::
  "LedgerRecord \<Rightarrow> string \<Rightarrow> string \<Rightarrow> int option \<Rightarrow> string \<Rightarrow> bytes option \<Rightarrow> db \<Rightarrow> SubmitResult \<Rightarrow> db \<Rightarrow> bool" where
  "authorize_effect lr source asset amount k h d x d' \<longleftrightarrow>
     (\<exists>amt ev hold. amount = Some amt \<and> 0 < amt \<and>
        (IsIssuer source (lr_IssuerAccounts lr) \<or> amt \<le> available (lr_ID lr) source asset d) \<and>
        booked (lr_ID lr) ev [] d d' \<and> holds d' = holds d @ [hold] \<and>
        transaction_relationships d' = transaction_relationships d \<and>
        find_hold (lr_ID lr) (hd_HoldID hold) d = None \<and>
        hd_LedgerID hold = lr_ID lr \<and> hd_Source hold = source \<and> hd_Asset hold = asset \<and>
        hd_AuthorizedAmount hold = amt \<and> hd_CapturedAmount hold = 0 \<and> active hold \<and>
        ev_Type ev = EventTypeHoldCreated \<and> EventID x = ev_EventID ev \<and> HoldID x = hd_HoldID hold \<and>
        \<not> IdempotentHit x \<and> key_rows (lr_ID lr) k (ev_EventID ev) h d d')"

lemma booked_nil:
  assumes "next_event l ty pl k d ev" and "keyed l k (ev_EventID ev) h d1 d'"
    and "d1 = db\<lparr>log_events := log_events d @ [ev]\<rparr>"
    and "volumes_delta db = volumes_delta d" "ledgers db = ledgers d" "policies db = policies d"
      "pending_approvals db = pending_approvals d" "idempotency_keys db = idempotency_keys d"
  shows "booked l ev [] d d' \<and> key_rows l k (ev_EventID ev) h d d' \<and> (\<exists>ks. d' = d1\<lparr>idempotency_keys := ks\<rparr>)"
proof -
  have kr: "key_rows l k (ev_EventID ev) h d d' \<and> (\<exists>ks. d' = d1\<lparr>idempotency_keys := ks\<rparr>)"
    using keyed_elim [OF assms(2), of d] assms(3,8) by simp
  then obtain ks where "d' = d1\<lparr>idempotency_keys := ks\<rparr>" by blast
  then have "booked l ev [] d d'"
    using assms by (simp add: booked_def next_event_def zero_sum_def)
  with kr show ?thesis by simp
qed

lemma authorize_effectI:
  assumes key: "keyed (lr_ID lr) k (ev_EventID ev) h
      (d\<lparr>log_events := log_events d @ [ev], holds := holds d @ [hold], accounts := as\<rparr>) d'"
    and ev: "next_event (lr_ID lr) EventTypeHoldCreated pl k d ev"
    and amt: "0 < amt" "IsIssuer source (lr_IssuerAccounts lr) \<or> amt \<le> available (lr_ID lr) source asset d"
    and new: "find_hold (lr_ID lr) (hd_HoldID hold) d = None"
    and hold: "hd_LedgerID hold = lr_ID lr" "hd_Source hold = source" "hd_Asset hold = asset"
      "hd_AuthorizedAmount hold = amt" "hd_CapturedAmount hold = 0" "\<not> hd_Voided hold" "\<not> hd_Expired hold"
    and x: "x = (submitted (ev_EventID ev))\<lparr>HoldID := hd_HoldID hold\<rparr>"
  shows "authorize_effect lr source asset (Some amt) k h d x d'"
proof -
  let ?db = "d\<lparr>holds := holds d @ [hold], accounts := as\<rparr>"
  have "booked (lr_ID lr) ev [] d d' \<and> key_rows (lr_ID lr) k (ev_EventID ev) h d d' \<and>
      (\<exists>ks. d' = (d\<lparr>log_events := log_events d @ [ev], holds := holds d @ [hold], accounts := as\<rparr>)
        \<lparr>idempotency_keys := ks\<rparr>)"
    by (rule booked_nil [OF ev key, where db = ?db]) simp_all
  moreover from this have "holds d' = holds d @ [hold]" "transaction_relationships d' = transaction_relationships d" by auto
  ultimately show ?thesis
    unfolding authorize_effect_def using amt new hold x ev
    by (intro exI [of _ amt] exI [of _ ev] exI [of _ hold])
       (simp add: active_def submitted_def next_event_def)
qed

lemma does_doAuthorizeInTx:
  "does (doAuthorizeInTx E lr so hi as am ex k h now)
     (\<lambda>d r d'. \<forall>x. r = Inr x \<longrightarrow> authorize_effect lr so as am k h d x d')"
  unfolding doAuthorizeInTx_def
proof (rule does_weaken, (rule does_touch does_intro)+, intro allI impI, goal_cases)
  case (1 d r d' x)
  then show ?case
    by (clarsimp simp: find_hold_def split: option.splits if_splits)
       (rule authorize_effectI, assumption, simp_all add: find_hold_def)
qed

interpretation authorize: tx_operation "doAuthorizeInTx E lr so hi as am ex k h now"
    "authorize_effect lr so as am k h" for E lr so hi as am ex k h now
  by unfold_locales (rule keeps_doAuthorizeInTx, rule does_doAuthorizeInTx)

definition capture_effect ::
  "string \<Rightarrow> string \<Rightarrow> int option \<Rightarrow> string \<Rightarrow> string \<Rightarrow> bytes option \<Rightarrow> db \<Rightarrow> SubmitResult \<Rightarrow> db \<Rightarrow> bool" where
  "capture_effect l i amount destination k h d x d' \<longleftrightarrow>
     (\<exists>amt ev hold dest now. amount = Some amt \<and> 0 < amt \<and> find_hold l i d = Some hold \<and> active hold \<and>
        amt \<le> hd_AuthorizedAmount hold - hd_CapturedAmount hold \<and>
        dest = (if destination = [] then hd_DestinationHint hold else destination) \<and> dest \<noteq> [] \<and>
        dest \<noteq> hd_Source hold \<and>
        booked l ev [vdelta l (hd_Source hold) (hd_Asset hold) (ev_EventID ev) now now 0 amt,
          vdelta l dest (hd_Asset hold) (ev_EventID ev) now now amt 0] d d' \<and>
        holds d' = holds (update_hold l i (\<lambda>h. h\<lparr>hd_CapturedAmount := hd_CapturedAmount h + amt\<rparr>) d) \<and>
        transaction_relationships d' = transaction_relationships d \<and>
        ev_Type ev = EventTypeHoldConfirmed \<and> EventID x = ev_EventID ev \<and> \<not> IdempotentHit x \<and>
        key_rows l k (ev_EventID ev) h d d')"

lemma checkHoldOpen_None: "checkHoldOpen hold i = None \<longleftrightarrow> active hold"
  by (simp add: checkHoldOpen_def active_def)

lemma capture_effectI:
  assumes key: "keyed l k (ev_EventID ev) h (d3\<lparr>accounts := as\<rparr>) d'"
    and rows: "adds_rows [vdelta l (hd_Source hold) (hd_Asset hold) (ev_EventID ev) now now 0 amt] dh dm"
      "adds_rows [vdelta l dest (hd_Asset hold) (ev_EventID ev) now now amt 0] dm d3"
    and dh: "dh = update_hold l i (\<lambda>h. h\<lparr>hd_CapturedAmount := hd_CapturedAmount h + amt\<rparr>)
      (d\<lparr>log_events := log_events d @ [ev]\<rparr>)"
    and ev: "next_event l EventTypeHoldConfirmed pl k d ev"
    and amt: "0 < amt" "amt \<le> hd_AuthorizedAmount hold - hd_CapturedAmount hold"
    and hold: "find_hold l i d = Some hold" "checkHoldOpen hold i = None"
    and dest: "dest = (if destination = [] then hd_DestinationHint hold else destination)" "dest \<noteq> []"
    and x: "x = submitted (ev_EventID ev)"
  shows "capture_effect l i (Some amt) destination k h d x d'"
proof -
  let ?vs = "[vdelta l (hd_Source hold) (hd_Asset hold) (ev_EventID ev) now now 0 amt,
    vdelta l dest (hd_Asset hold) (ev_EventID ev) now now amt 0]"
  have r: "adds_rows ?vs dh d3" using adds_rows_append [OF rows] by simp
  then have d3: "d3 = dh\<lparr>volumes_delta := volumes_delta dh @ ?vs\<rparr>" and ne: "dest \<noteq> hd_Source hold"
    by (auto simp: adds_rows_def bucket_def vdelta_def)
  have "idempotency_keys (d3\<lparr>accounts := as\<rparr>) = idempotency_keys d"
    by (simp add: d3 dh update_hold_def)
  from keyed_elim [OF key this] obtain ks where d': "d' = d3\<lparr>accounts := as, idempotency_keys := ks\<rparr>"
    and kr: "key_rows l k (ev_EventID ev) h d d'" by auto
  have "booked l ev ?vs d d'"
    using ev by (simp add: booked_def next_event_def d' d3 dh update_hold_def zero_sum_def)
  moreover have "holds d' = holds (update_hold l i (\<lambda>h. h\<lparr>hd_CapturedAmount := hd_CapturedAmount h + amt\<rparr>) d)"
    "transaction_relationships d' = transaction_relationships d"
    by (simp_all add: d' d3 dh update_hold_def)
  ultimately show ?thesis
    unfolding capture_effect_def using amt hold dest ev x kr ne
    by (intro exI [of _ amt] exI [of _ ev] exI [of _ hold] exI [of _ dest] exI [of _ now])
       (simp add: checkHoldOpen_None next_event_def submitted_def)
qed

lemma does_doCaptureInTx:
  "does (doCaptureInTx E l i am ds k h now)
     (\<lambda>d r d'. \<forall>x. r = Inr x \<longrightarrow> capture_effect l i am ds k h d x d')"
  unfolding doCaptureInTx_def Let_def
proof (rule does_weaken, (rule does_touch does_InsertVolumeDelta_rows does_intro)+, intro allI impI, goal_cases)
  case (1 d r d' x)
  then show ?case
    by (clarsimp split: option.splits if_splits)
       (rule capture_effectI, assumption, assumption, assumption, simp_all)+
qed

interpretation capture: tx_operation "doCaptureInTx E l i am ds k h now"
    "capture_effect l i am ds k h" for E l i am ds k h now
  by unfold_locales (rule keeps_doCaptureInTx, rule does_doCaptureInTx)

definition close_effect ::
  "string \<Rightarrow> string \<Rightarrow> int \<Rightarrow> (HoldRecord \<Rightarrow> HoldRecord) \<Rightarrow> string \<Rightarrow> bytes option \<Rightarrow> db \<Rightarrow> string \<Rightarrow> db \<Rightarrow> bool" where
  "close_effect l i ty u k h d eventID d' \<longleftrightarrow>
     (\<exists>ev hold. find_hold l i d = Some hold \<and> active hold \<and> booked l ev [] d d' \<and>
        holds d' = holds (update_hold l i u d) \<and> transaction_relationships d' = transaction_relationships d \<and>
        ev_Type ev = ty \<and> eventID = ev_EventID ev \<and>
        key_rows l k (ev_EventID ev) h d d')"

lemma close_effectI:
  assumes key: "keyed l k (ev_EventID ev) h (update_hold l i u (d\<lparr>log_events := log_events d @ [ev]\<rparr>)) d'"
    and ev: "next_event l ty pl k d ev"
    and hold: "find_hold l i d = Some hold" "active hold"
  shows "close_effect l i ty u k h d (ev_EventID ev) d'"
proof -
  have "booked l ev [] d d' \<and> key_rows l k (ev_EventID ev) h d d' \<and>
      (\<exists>ks. d' = (update_hold l i u (d\<lparr>log_events := log_events d @ [ev]\<rparr>))\<lparr>idempotency_keys := ks\<rparr>)"
    by (rule booked_nil [OF ev key, where db = "update_hold l i u d"]) (simp_all add: update_hold_def)
  moreover from this have "holds d' = holds (update_hold l i u d)" "transaction_relationships d' = transaction_relationships d"
    by (auto simp: update_hold_def)
  ultimately show ?thesis
    unfolding close_effect_def using hold ev
    by (intro exI [of _ ev] exI [of _ hold]) (simp add: next_event_def)
qed

definition void_effect ::
  "string \<Rightarrow> string \<Rightarrow> string \<Rightarrow> bytes option \<Rightarrow> db \<Rightarrow> SubmitResult \<Rightarrow> db \<Rightarrow> bool" where
  "void_effect l i k h d x d' \<longleftrightarrow> \<not> IdempotentHit x \<and>
     close_effect l i EventTypeHoldVoided (\<lambda>h. h\<lparr>hd_Voided := True\<rparr>) k h d (EventID x) d'"

lemma does_doVoidInTx:
  "does (doVoidInTx E l i k h now) (\<lambda>d r d'. \<forall>x. r = Inr x \<longrightarrow> void_effect l i k h d x d')"
  unfolding doVoidInTx_def
proof (rule does_weaken, (rule does_intro)+, intro allI impI, goal_cases)
  case (1 d r d' x)
  then show ?case
    by (clarsimp simp: void_effect_def submitted_def checkHoldOpen_None split: option.splits)
       (rule close_effectI, assumption, simp_all)
qed

interpretation void: tx_operation "doVoidInTx E l i k h now" "void_effect l i k h" for E l i k h now
  by unfold_locales (rule keeps_doVoidInTx, rule does_doVoidInTx)

lemma does_expireInTx:
  "does (expireInTx E hold now) (\<lambda>d r d'. (r = Inr None \<longrightarrow> d' = d) \<and>
     (\<forall>i. r = Inr (Some i) \<longrightarrow> close_effect (hd_LedgerID hold) (hd_HoldID hold) EventTypeHoldExpired
        (\<lambda>h. h\<lparr>hd_Expired := True\<rparr>) [] None d i d'))"
  unfolding expireInTx_def
proof (rule does_weaken, (rule does_intro)+, goal_cases)
  case (1 d r d')
  have "close_effect (hd_LedgerID hold) (hd_HoldID hold) EventTypeHoldExpired
      (\<lambda>h. h\<lparr>hd_Expired := True\<rparr>) [] None d i d'" if r: "r = Inr (Some i)" for i
  proof -
    from 1 r obtain x ev where "find_hold (hd_LedgerID hold) (hd_HoldID hold) d = Some x" "active x"
      "next_event (hd_LedgerID hold) EventTypeHoldExpired (expire_payload hold) [] d ev" "i = ev_EventID ev"
      "d' = update_hold (hd_LedgerID hold) (hd_HoldID hold) (\<lambda>h. h\<lparr>hd_Expired := True\<rparr>)
        (d\<lparr>log_events := log_events d @ [ev]\<rparr>)"
      by (auto simp: active_def split: if_splits)
    then show ?thesis using close_effectI [of "hd_LedgerID hold" "[]" ev None] by (simp add: keyed_def)
  qed
  moreover have "d' = d" if "r = Inr None" using 1 that by (auto split: if_splits)
  ultimately show ?case by blast
qed

subsection \<open>Holds after a step\<close>

lemma filter_distinct_key:
  "distinct (map f xs) \<Longrightarrow> h \<in> set xs \<Longrightarrow> filter (\<lambda>x. f x = f h) xs = [h]"
proof (induction xs)
  case (Cons x xs)
  then show ?case
  proof (cases "x = h")
    case True
    then have "filter (\<lambda>x. f x = f h) xs = []"
      using Cons.prems(1) by (auto simp: filter_empty_conv) (metis image_eqI)
    then show ?thesis using True by simp
  next
    case False
    then have "f x \<noteq> f h" using Cons.prems by auto
    then show ?thesis using Cons False by simp
  qed
qed simp

lemma find_hold_filter:
  assumes "holds_ok d" "find_hold l i d = Some h" "active h"
  shows "filter (\<lambda>r. is_hold l i r \<and> active r) (holds d) = [h]"
proof -
  have h: "h \<in> set (holds d)" "is_hold l i h"
    using assms(2) by (auto simp: find_hold_def find_Some_iff set_conv_nth)
  let ?key = "\<lambda>h. (hd_LedgerID h, hd_HoldID h)"
  have "filter (\<lambda>r. ?key r = ?key h) (holds d) = [h]"
    using assms(1) h by (intro filter_distinct_key [where f = ?key]) (simp_all add: holds_ok_def)
  then have "filter active (filter (\<lambda>r. ?key r = ?key h) (holds d)) = [h]" using assms(3) by simp
  moreover have "(\<lambda>r. ?key r = ?key h \<and> active r) = (\<lambda>r. is_hold l i r \<and> active r)"
    using h(2) by (auto simp: is_hold_def)
  ultimately show ?thesis unfolding filter_filter by simp
qed

lemma sum_where_update:
  assumes "filter Q xs = [h]"
  shows "sum_where P f (map (\<lambda>r. if Q r then u r else r) xs) =
    sum_where P f xs - (if P h then f h else 0) + (if P (u h) then f (u h) else 0)"
  using assms
proof (induction xs)
  case (Cons x xs)
  show ?case
  proof (cases "Q x")
    case True
    then have "x = h" "filter Q xs = []" using Cons.prems by auto
    moreover from this have "map (\<lambda>r. if Q r then u r else r) xs = xs"
      by (intro map_idI) (auto simp: filter_empty_conv)
    ultimately show ?thesis using True by simp
  next
    case False
    then show ?thesis using Cons by simp
  qed
qed simp

lemma update_hold_ok:
  assumes "holds_ok d" "find_hold l i d = Some h" "active h" "hold_ok (u h)"
    and "\<And>r. hd_LedgerID (u r) = hd_LedgerID r \<and> hd_HoldID (u r) = hd_HoldID r"
  shows "holds_ok (update_hold l i u d)"
proof -
  have "r = h" if "r \<in> set (holds d)" "is_hold l i r" "active r" for r
  proof -
    have "r \<in> set (filter (\<lambda>r. is_hold l i r \<and> active r) (holds d))" using that by simp
    then show ?thesis unfolding find_hold_filter [OF assms(1-3)] by simp
  qed
  then have "list_all hold_ok (holds (update_hold l i u d))"
    using assms(1,4) by (auto simp: update_hold_def holds_ok_def list_all_iff)
  moreover have "map (\<lambda>h. (hd_LedgerID h, hd_HoldID h)) (holds (update_hold l i u d)) =
      map (\<lambda>h. (hd_LedgerID h, hd_HoldID h)) (holds d)"
    using assms(5) by (simp add: update_hold_def)
  ultimately show ?thesis using assms(1) unfolding holds_ok_def by simp
qed

lemma held_update:
  assumes "holds_ok d" "find_hold l i d = Some h" "active h"
    and "\<And>r. hd_LedgerID (u r) = hd_LedgerID r \<and> hd_Source (u r) = hd_Source r \<and> hd_Asset (u r) = hd_Asset r"
  shows "held k a s (update_hold l i u d) = held k a s d -
    (if k = l \<and> hd_Source h = a \<and> hd_Asset h = s then
       hd_AuthorizedAmount h - hd_CapturedAmount h -
       (if active (u h) then hd_AuthorizedAmount (u h) - hd_CapturedAmount (u h) else 0) else 0)"
proof -
  have "hd_LedgerID h = l" using assms(2) by (auto simp: find_hold_def find_Some_iff is_hold_def)
  moreover have "held k a s (update_hold l i u d) =
      sum_where (on_hold k a s) (\<lambda>r. hd_AuthorizedAmount r - hd_CapturedAmount r)
        (map (\<lambda>r. if is_hold l i r \<and> active r then u r else r) (holds d))"
    by (simp add: held_def update_hold_def)
  ultimately show ?thesis
    unfolding sum_where_update [OF find_hold_filter [OF assms(1-3)]]
    using assms(3,4) by (auto simp: on_hold_def held_def)
qed

text \<open>Every operation on holds keeps the tables sound, and no one is overdrawn by it.\<close>

lemma authorize_effect_sound:
  assumes "authorize_effect lr so as am k h d x d'" "sound d"
  shows "sound d'"
proof -
  obtain ev hold where b: "booked (lr_ID lr) ev [] d d'" and hs: "holds d' = holds d @ [hold]"
    and new: "find_hold (lr_ID lr) (hd_HoldID hold) d = None" "hd_LedgerID hold = lr_ID lr" and ok: "hold_ok hold"
    using assms(1) by (auto simp: authorize_effect_def hold_ok_def active_def)
  have "(hd_LedgerID hold, hd_HoldID hold) \<notin> (\<lambda>h. (hd_LedgerID h, hd_HoldID h)) ` set (holds d)"
    using new by (auto simp: find_hold_def find_None_iff is_hold_def)
  then have "holds_ok d'"
    using ok sound_holds_ok [OF assms(2)] by (simp add: holds_ok_def hs)
  then show ?thesis using booked_sound [OF b assms(2)] by simp
qed

lemma authorize_effect_available:
  assumes "authorize_effect lr so as am k h d x d'"
  shows "available l a s d' = available l a s d -
    (if l = lr_ID lr \<and> a = so \<and> s = as then the am else 0)"
proof -
  obtain amt ev hold where b: "booked (lr_ID lr) ev [] d d'" and hs: "holds d' = holds d @ [hold]"
    and hold: "hd_LedgerID hold = lr_ID lr" "hd_Source hold = so" "hd_Asset hold = as"
      "hd_AuthorizedAmount hold = amt" "hd_CapturedAmount hold = 0" "active hold" and am: "am = Some amt"
    using assms by (auto simp: authorize_effect_def)
  have "held l a s d' = held l a s d + (if l = lr_ID lr \<and> a = so \<and> s = as then amt else 0)"
    using hold by (auto simp: held_def hs on_hold_def)
  then show ?thesis using booked_posted [OF b] am by (simp add: available_def)
qed

lemma authorize_effect_solvent:
  assumes "authorize_effect lr so as am k h d x d'" "solvent l issuers d"
    and "l = lr_ID lr \<Longrightarrow> lr_IssuerAccounts lr = issuers"
  shows "solvent l issuers d'"
proof -
  have "IsIssuer so (lr_IssuerAccounts lr) \<or> the am \<le> available (lr_ID lr) so as d"
    using assms(1) by (auto simp: authorize_effect_def)
  then show ?thesis
    using assms(2,3) authorize_effect_available [OF assms(1), of l] unfolding solvent_def by fastforce
qed

lemma capture_effect_sound:
  assumes "capture_effect l i am ds k h d x d'" "sound d"
  shows "sound d'"
proof -
  obtain amt ev hold dest now where b: "booked l ev [vdelta l (hd_Source hold) (hd_Asset hold) (ev_EventID ev) now now 0 amt,
          vdelta l dest (hd_Asset hold) (ev_EventID ev) now now amt 0] d d'"
    and hs: "holds d' = holds (update_hold l i (\<lambda>h. h\<lparr>hd_CapturedAmount := hd_CapturedAmount h + amt\<rparr>) d)"
    and hold: "find_hold l i d = Some hold" "active hold" "0 < amt"
      "amt \<le> hd_AuthorizedAmount hold - hd_CapturedAmount hold"
    using assms(1) unfolding capture_effect_def by blast
  have "hold_ok hold"
    using sound_holds_ok [OF assms(2)] hold(1)
    by (auto simp: holds_ok_def list_all_iff find_hold_def find_Some_iff)
  then have "holds_ok (update_hold l i (\<lambda>h. h\<lparr>hd_CapturedAmount := hd_CapturedAmount h + amt\<rparr>) d)"
    using update_hold_ok [OF sound_holds_ok [OF assms(2)] hold(1,2)] hold(3,4) by (simp add: hold_ok_def)
  then show ?thesis using booked_sound [OF b assms(2)] holds_ok_same [OF hs] by simp
qed

text \<open>A capture leaves the available balance of the source as it is and raises the destination's.\<close>

lemma capture_effect_available:
  assumes "capture_effect l i am ds k h d x d'" "sound d"
  shows "\<exists>hold dest. find_hold l i d = Some hold \<and>
    dest = (if ds = [] then hd_DestinationHint hold else ds) \<and>
    (\<forall>k a s. available k a s d' = available k a s d + (if k = l \<and> a = dest \<and> s = hd_Asset hold then the am else 0))"
proof -
  obtain amt ev hold dest now where b: "booked l ev [vdelta l (hd_Source hold) (hd_Asset hold) (ev_EventID ev) now now 0 amt,
          vdelta l dest (hd_Asset hold) (ev_EventID ev) now now amt 0] d d'"
    and hs: "holds d' = holds (update_hold l i (\<lambda>h. h\<lparr>hd_CapturedAmount := hd_CapturedAmount h + amt\<rparr>) d)"
    and hold: "find_hold l i d = Some hold" "active hold"
    and dest: "dest = (if ds = [] then hd_DestinationHint hold else ds)" "dest \<noteq> hd_Source hold" and am: "am = Some amt"
    using assms(1) unfolding capture_effect_def by blast
  have "available k a s d' = available k a s d + (if k = l \<and> a = dest \<and> s = hd_Asset hold then amt else 0)" for k a s
  proof -
    have "held k a s d' = held k a s d - (if k = l \<and> hd_Source hold = a \<and> hd_Asset hold = s then amt else 0)"
      using held_update [OF sound_holds_ok [OF assms(2)] hold,
          of "\<lambda>h. h\<lparr>hd_CapturedAmount := hd_CapturedAmount h + amt\<rparr>" k a s] held_same [OF hs, of k a s] hold(2)
      by (simp add: active_def)
    then show ?thesis using booked_posted [OF b, of k a s] dest(2) by (auto simp: available_def)
  qed
  then show ?thesis using hold(1) dest(1) am by auto
qed

lemma capture_effect_solvent:
  assumes "capture_effect l i am ds k h d x d'" "sound d" "solvent l' issuers d"
  shows "solvent l' issuers d'"
proof -
  have "0 < the am" using assms(1) by (auto simp: capture_effect_def)
  then show ?thesis
    using capture_effect_available [OF assms(1,2)] assms(3) unfolding solvent_def by fastforce
qed

lemma close_effect_sound:
  assumes "close_effect l i ty u k h d e d'" "sound d"
    and "\<And>r. active r \<Longrightarrow> hold_ok r \<Longrightarrow> hold_ok (u r)"
    and "\<And>r. hd_LedgerID (u r) = hd_LedgerID r \<and> hd_HoldID (u r) = hd_HoldID r"
  shows "sound d'"
proof -
  obtain ev hold where b: "booked l ev [] d d'" and hs: "holds d' = holds (update_hold l i u d)"
    and hold: "find_hold l i d = Some hold" "active hold"
    using assms(1) unfolding close_effect_def by blast
  have "hold_ok hold"
    using sound_holds_ok [OF assms(2)] hold(1)
    by (auto simp: holds_ok_def list_all_iff find_hold_def find_Some_iff)
  then have "holds_ok (update_hold l i u d)"
    using update_hold_ok [OF sound_holds_ok [OF assms(2)] hold] assms(3) [OF hold(2)] assms(4) by blast
  then show ?thesis using booked_sound [OF b assms(2)] holds_ok_same [OF hs] by simp
qed

text \<open>Closing a hold gives what was left on it back to the source.\<close>

lemma close_effect_available:
  assumes "close_effect l i ty u k h d e d'" "sound d" and u: "\<And>r. \<not> active (u r)"
    "\<And>r. hd_LedgerID (u r) = hd_LedgerID r \<and> hd_Source (u r) = hd_Source r \<and> hd_Asset (u r) = hd_Asset r"
  shows "\<exists>hold. find_hold l i d = Some hold \<and> active hold \<and>
    (\<forall>k a s. available k a s d' = available k a s d + (if k = l \<and> a = hd_Source hold \<and> s = hd_Asset hold
       then hd_AuthorizedAmount hold - hd_CapturedAmount hold else 0))"
proof -
  obtain ev hold where b: "booked l ev [] d d'" and hs: "holds d' = holds (update_hold l i u d)"
    and hold: "find_hold l i d = Some hold" "active hold"
    using assms(1) unfolding close_effect_def by blast
  have "available k a s d' = available k a s d + (if k = l \<and> a = hd_Source hold \<and> s = hd_Asset hold
       then hd_AuthorizedAmount hold - hd_CapturedAmount hold else 0)" for k a s
    using held_update [OF sound_holds_ok [OF assms(2)] hold u(2), of k a s] held_same [OF hs, of k a s] u(1)
      booked_posted [OF b, of k a s] by (auto simp: available_def)
  then show ?thesis using hold by blast
qed

lemma close_effect_solvent:
  assumes "close_effect l i ty u k h d e d'" "sound d" "solvent l' issuers d" and u: "\<And>r. \<not> active (u r)"
    "\<And>r. hd_LedgerID (u r) = hd_LedgerID r \<and> hd_Source (u r) = hd_Source r \<and> hd_Asset (u r) = hd_Asset r"
  shows "solvent l' issuers d'"
proof -
  obtain hold where hold: "find_hold l i d = Some hold"
    and av: "\<And>k a s. available k a s d' = available k a s d + (if k = l \<and> a = hd_Source hold \<and> s = hd_Asset hold
       then hd_AuthorizedAmount hold - hd_CapturedAmount hold else 0)"
    using close_effect_available [OF assms(1,2) u] by blast
  have "hd_CapturedAmount hold \<le> hd_AuthorizedAmount hold"
    using sound_holds_ok [OF assms(2)] hold
    by (auto simp: holds_ok_def list_all_iff find_hold_def find_Some_iff hold_ok_def)
  then show ?thesis using assms(3) av unfolding solvent_def by fastforce
qed

lemma void_effect_sound: "void_effect l i k h d x d' \<Longrightarrow> sound d \<Longrightarrow> sound d'"
  unfolding void_effect_def
  by (elim conjE, erule close_effect_sound) (simp_all add: hold_ok_def active_def)

lemma void_effect_solvent:
  "void_effect l i k h d x d' \<Longrightarrow> sound d \<Longrightarrow> solvent l' issuers d \<Longrightarrow> solvent l' issuers d'"
  unfolding void_effect_def
  by (elim conjE, erule close_effect_solvent) (simp_all add: active_def)

subsection \<open>Outcomes\<close>

interpretation authorize_at: ledger_operation "\<lambda>lr now. doAuthorizeInTx E lr so hi as am ex k h now"
    "\<lambda>lr now. authorize_effect lr so as am k h" for E so hi as am ex k h
  by unfold_locales (rule keeps_doAuthorizeInTx, rule does_doAuthorizeInTx)

interpretation capture_at: ledger_operation "\<lambda>lr now. doCaptureInTx E l i am ds k h now"
    "\<lambda>lr now. capture_effect l i am ds k h" for E l i am ds k h
  by unfold_locales (rule keeps_doCaptureInTx, rule does_doCaptureInTx)

interpretation void_at: ledger_operation "\<lambda>lr now. doVoidInTx E l i k h now"
    "\<lambda>lr now. void_effect l i k h" for E l i k h
  by unfold_locales (rule keeps_doVoidInTx, rule does_doVoidInTx)

lemma SubmitAuthorize_run:
  "SubmitAuthorize E l so hi as am ex k w = (r, w') \<Longrightarrow>
     outcome l False (\<lambda>lr d x d'. \<exists>h. authorize_effect lr so as am k h d x d') w r w'"
  unfolding SubmitAuthorize_def Let_def
  by (auto dest!: authorize_at.guarded_run elim!: outcome_mono simp: outcome_fail split: option.splits if_splits)

lemma SubmitCapture_run:
  "SubmitCapture E l i am ds k w = (r, w') \<Longrightarrow>
     outcome l False (\<lambda>lr d x d'. \<exists>h. capture_effect l i am ds k h d x d') w r w'"
  unfolding SubmitCapture_def Let_def
  by (auto dest!: capture_at.guarded_run elim!: outcome_mono simp: outcome_fail split: option.splits if_splits)

lemma SubmitVoid_run:
  "SubmitVoid E l i k w = (r, w') \<Longrightarrow>
     outcome l False (\<lambda>lr d x d'. \<exists>h. void_effect l i k h d x d') w r w'"
  unfolding SubmitVoid_def Let_def
  by (auto dest!: void_at.guarded_run elim!: outcome_mono)

end
