(* ===== verification/Planner_Convert.thy ===== *)
theory Planner_Convert
  imports Planner_Holds
begin

text \<open>
  Currency conversion: \<open>validateConvertParams\<close> and \<open>doConvertInTx\<close> of
  \<^verbatim>\<open>src/internal/planner/operations_shared.go\<close>, and \<open>SubmitConvert\<close> of
  \<^verbatim>\<open>src/internal/planner/operations_convert.go\<close>.
\<close>

record ConvertParams =
  cv_Source :: string
  cv_Destination :: string
  cv_SourceAmount :: "int option"
  cv_SourceAsset :: string
  cv_DestAmount :: "int option"
  cv_DestAsset :: string
  cv_Rate :: string
  cv_RateSource :: string
  cv_SlippageAccount :: string
  cv_SlippageAmount :: "int option"
  cv_ValidTime :: "time option"

definition positive :: "int option \<Rightarrow> bool" where
  "positive a = (case a of None \<Rightarrow> False | Some n \<Rightarrow> 0 < n)"

definition validateConvertParams :: "env \<Rightarrow> ConvertParams \<Rightarrow> error option" where
  "validateConvertParams E params =
     (case Accounts.Validate (cv_Source params) of
        Some e \<Rightarrow> Some (wrapped ''source: '' e)
      | None \<Rightarrow>
     (case Accounts.Validate (cv_Destination params) of
        Some e \<Rightarrow> Some (wrapped ''destination: '' e)
      | None \<Rightarrow>
     (case Assets.Validate (cv_SourceAsset params) of
        Some e \<Rightarrow> Some (wrapped ''source_asset: '' e)
      | None \<Rightarrow>
     (case Assets.Validate (cv_DestAsset params) of
        Some e \<Rightarrow> Some (wrapped ''destination_asset: '' e)
      | None \<Rightarrow>
     (case (if cv_SlippageAccount params \<noteq> [] then Accounts.Validate (cv_SlippageAccount params) else None) of
        Some e \<Rightarrow> Some (wrapped ''slippage_account: '' e)
      | None \<Rightarrow>
     if \<not> positive (cv_SourceAmount params) then Some (Errorf ''source_amount must be positive'')
     else if \<not> positive (cv_DestAmount params) then Some (Errorf ''destination_amount must be positive'')
     else if cv_SourceAsset params = cv_DestAsset params then
       Some (Errorf ''source_asset and destination_asset must differ for conversion'')
     else if cv_Rate params \<noteq> [] then
       (case ParseFloat E (cv_Rate params) of
          Some e \<Rightarrow> Some (wrapped (''invalid conversion rate '' @ quoted (cv_Rate params) @ '': '') e)
        | None \<Rightarrow> None)
     else None)))))"

definition convert_payload :: "string \<Rightarrow> ConvertParams \<Rightarrow> int \<Rightarrow> int \<Rightarrow> bytes" where
  "convert_payload conversionID params sourceAmount destAmount = json_marshal (json_map
     [(''conversion_id'', JStr conversionID), (''source'', JStr (cv_Source params)),
      (''destination'', JStr (cv_Destination params)), (''source_amount'', JStr (int_String sourceAmount)),
      (''source_asset'', JStr (cv_SourceAsset params)), (''destination_amount'', JStr (int_String destAmount)),
      (''destination_asset'', JStr (cv_DestAsset params)), (''rate'', JStr (cv_Rate params)),
      (''rate_source'', JStr (cv_RateSource params))])"

text \<open>The slippage that is moved, if any: it needs a positive amount and an account.\<close>

definition slippage :: "ConvertParams \<Rightarrow> int option" where
  "slippage params =
     (if positive (cv_SlippageAmount params) \<and> cv_SlippageAccount params \<noteq> [] then cv_SlippageAmount params
      else None)"

text \<open>The output of the source that is compared with its balance.\<close>

definition totalSourceOutput :: "ConvertParams \<Rightarrow> int \<Rightarrow> int" where
  "totalSourceOutput params sourceAmount =
     (case cv_SlippageAmount params of
        Some n \<Rightarrow> if 0 < n then sourceAmount + n else sourceAmount
      | None \<Rightarrow> sourceAmount)"

definition convert_postings :: "ConvertParams \<Rightarrow> PostingInput list" where
  "convert_postings params =
     [\<lparr>Source = cv_Source params, Destination = cv_Destination params,
       Amount = cv_SourceAmount params, Asset = cv_SourceAsset params\<rparr>,
      \<lparr>Source = cv_Destination params, Destination = cv_Source params,
       Amount = cv_DestAmount params, Asset = cv_DestAsset params\<rparr>]
     @ (case slippage params of None \<Rightarrow> [] | Some n \<Rightarrow>
         [\<lparr>Source = cv_Source params, Destination = cv_SlippageAccount params,
           Amount = Some n, Asset = cv_SourceAsset params\<rparr>])"

definition insertLegs :: "env \<Rightarrow> VolumeDeltaRecord list \<Rightarrow> unit prog" where
  "insertLegs E legs = forM (InsertVolumeDelta E Tx) legs"

definition upsertConverted :: "env \<Rightarrow> string \<Rightarrow> time \<Rightarrow> string list \<Rightarrow> unit prog" where
  "upsertConverted E ledgerID now addrs =
     forM (\<lambda>addr. mapErr (wrapped ''upserting account: '') (UpsertAccount E Tx (touch ledgerID addr now))) addrs"

text \<open>The legs come in the order source, destination for each of the postings of \<open>convert_postings\<close>.\<close>

definition doConvertInTx ::
  "env \<Rightarrow> LedgerRecord \<Rightarrow> ConvertParams \<Rightarrow> string \<Rightarrow> bytes option \<Rightarrow> time \<Rightarrow> time \<Rightarrow> SubmitResult prog" where
  "doConvertInTx E ledger params key ikHash vt now =
     andThen (ofErr (validateConvertParams E params)) (\<lambda>_.
     andThen (ulid_Make E) (\<lambda>conversionID.
     andThen (ulid_Make E) (\<lambda>txID.
     let sourceAmount = the (cv_SourceAmount params); destAmount = the (cv_DestAmount params) in
     andThen (checkAvailable E ledger (cv_Source params) (cv_SourceAsset params)
       (totalSourceOutput params sourceAmount)
       (\<lambda>_. '': account '' @ cv_Source params @ '', asset '' @ cv_SourceAsset params)) (\<lambda>_.
     andThen (appendEvent E (lr_ID ledger) EventTypeConversionCreated
       (convert_payload conversionID params sourceAmount destAmount) key ikHash vt now) (\<lambda>(eventID, _).
     andThen (insertLegs E (posting_deltas (lr_ID ledger) eventID vt now (convert_postings params))) (\<lambda>_.
     andThen (upsertConverted E (lr_ID ledger) now ([cv_Source params, cv_Destination params]
       @ (if slippage params \<noteq> None then [cv_SlippageAccount params] else []))) (\<lambda>_.
     andThen (mapErr (wrapped ''inserting conversion transaction: '') (InsertTransaction E Tx
       \<lparr>tx_LedgerID = lr_ID ledger, tx_TransactionID = txID, tx_EventID = eventID,
        tx_ValidTime = vt, tx_SystemTime = now, tx_Reference = [],
        tx_Postings = map posting_record (convert_postings params),
        tx_Metadata = Some [(''type'', JStr ''conversion''), (''rate'', JStr (cv_Rate params)),
          (''rate_source'', JStr (cv_RateSource params))]\<rparr>)) (\<lambda>_.
     andThen (recordIfKeyed E (lr_ID ledger) key eventID ikHash) (\<lambda>_.
     ok ((submitted eventID)\<lparr>ConversionID := conversionID\<rparr>))))))))))"

definition SubmitConvert :: "env \<Rightarrow> string \<Rightarrow> ConvertParams \<Rightarrow> string \<Rightarrow> SubmitResult prog" where
  "SubmitConvert E ledgerID params key =
     andThen (ofErr (validateConvertParams E params)) (\<lambda>_.
     andThen (checkLedgerNotSealed E ledgerID) (\<lambda>ledger.
     let ikHash = (if key \<noteq> [] then Some (computeGenericIdempotencyHash E
           [ledgerID, ''convert'', cv_Source params, cv_Destination params,
            int_String (the (cv_SourceAmount params)), cv_SourceAsset params,
            int_String (the (cv_DestAmount params)), cv_DestAsset params, cv_Rate params, cv_RateSource params])
           else None) in
     andThen (time_Now E) (\<lambda>now.
     let vt = (case cv_ValidTime params of None \<Rightarrow> now | Some t \<Rightarrow> t) in
     submitWithIdempotency E ledgerID key ikHash EventTypeConversionCreated False
       (doConvertInTx E ledger params key ikHash vt now))))"

subsection \<open>Frame and effect\<close>

lemma keeps_insertLegs [frame_intro]: "keeps tx_frame (insertLegs E vs)"
  unfolding insertLegs_def by (intro tx_frame.keeps_rules frame_intro)

lemma keeps_upsertConverted [frame_intro]: "keeps tx_frame (upsertConverted E l now as)"
  unfolding upsertConverted_def by (intro tx_frame.keeps_rules frame_intro)

lemma keeps_doConvertInTx [frame_intro]: "keeps tx_frame (doConvertInTx E lr p k h vt now)"
  unfolding doConvertInTx_def Let_def by (intro tx_frame.keeps_rules frame_intro)

lemma adds_rows_Nil: "adds_rows [] d d"
  by (simp add: adds_rows_def)

lemma does_insertLegs [does_intro]:
  "does (insertLegs E vs) (\<lambda>d r d'. r = Inr () \<longrightarrow> adds_rows vs d d')"
  unfolding insertLegs_def
proof (rule does_weaken [OF does_forM [OF does_InsertVolumeDelta_rows]])
  fix d r d'
  assume "iterates (\<lambda>v d r d'. r = Inr () \<and> adds_rows [v] d d') vs d r d'"
  then show "r = Inr () \<longrightarrow> adds_rows vs d d'"
  proof (induction vs arbitrary: d)
    case (Cons v vs)
    then show ?case using adds_rows_append [of "[v]"] by fastforce
  qed (simp add: adds_rows_Nil)
qed

lemma iterates_accounts:
  "iterates (\<lambda>x d r d'. \<exists>as. d' = d\<lparr>accounts := as\<rparr>) xs d r d' \<Longrightarrow> \<exists>as. d' = d\<lparr>accounts := as\<rparr>"
proof (induction xs arbitrary: d)
  case Nil
  have "d = d\<lparr>accounts := accounts d\<rparr>" by simp
  with Nil show ?case by (metis iterates.simps(1))
qed fastforce

lemma does_upsertConverted [does_intro]:
  "does (upsertConverted E l now addrs) (\<lambda>d r d'. \<exists>as. d' = d\<lparr>accounts := as\<rparr>)"
  unfolding upsertConverted_def
  by (rule does_weaken [OF does_forM [OF does_touch]]) (rule iterates_accounts)

definition convert_effect ::
  "LedgerRecord \<Rightarrow> ConvertParams \<Rightarrow> string \<Rightarrow> bytes option \<Rightarrow> time \<Rightarrow> time \<Rightarrow> db \<Rightarrow> SubmitResult \<Rightarrow> db \<Rightarrow> bool" where
  "convert_effect lr p k h vt now d x d' \<longleftrightarrow>
     (\<exists>ev. let vs = posting_deltas (lr_ID lr) (ev_EventID ev) vt now (convert_postings p) in
        positive (cv_SourceAmount p) \<and> positive (cv_DestAmount p) \<and> cv_SourceAsset p \<noteq> cv_DestAsset p \<and>
        (IsIssuer (cv_Source p) (lr_IssuerAccounts lr) \<or>
           totalSourceOutput p (the (cv_SourceAmount p)) \<le> available (lr_ID lr) (cv_Source p) (cv_SourceAsset p) d) \<and>
        booked (lr_ID lr) ev vs d d' \<and> distinct (map bucket vs) \<and> holds d' = holds d \<and>
        transaction_relationships d' = transaction_relationships d \<and>
        ev_Type ev = EventTypeConversionCreated \<and> EventID x = ev_EventID ev \<and> \<not> IdempotentHit x \<and>
        key_rows (lr_ID lr) k (ev_EventID ev) h d d')"

lemma convert_effectI:
  assumes key: "keyed (lr_ID lr) k (ev_EventID ev) h (d3\<lparr>accounts := as, transactions := ts\<rparr>) d'"
    and rows: "adds_rows (posting_deltas (lr_ID lr) (ev_EventID ev) vt now (convert_postings p))
      (d\<lparr>log_events := log_events d @ [ev]\<rparr>) d3"
    and ev: "next_event (lr_ID lr) EventTypeConversionCreated pl k d ev"
    and valid: "validateConvertParams E p = None"
    and av: "IsIssuer (cv_Source p) (lr_IssuerAccounts lr) \<or>
      totalSourceOutput p (the (cv_SourceAmount p)) \<le> available (lr_ID lr) (cv_Source p) (cv_SourceAsset p) d"
    and x: "EventID x = ev_EventID ev" "\<not> IdempotentHit x"
  shows "convert_effect lr p k h vt now d x d'"
proof -
  let ?vs = "posting_deltas (lr_ID lr) (ev_EventID ev) vt now (convert_postings p)"
  have d3: "d3 = d\<lparr>log_events := log_events d @ [ev], volumes_delta := volumes_delta d @ ?vs\<rparr>"
    and di: "distinct (map bucket ?vs)" using rows by (simp_all add: adds_rows_def)
  have "idempotency_keys (d3\<lparr>accounts := as, transactions := ts\<rparr>) = idempotency_keys d" by (simp add: d3)
  from keyed_elim [OF key this] obtain ks
    where d': "d' = d3\<lparr>accounts := as, transactions := ts, idempotency_keys := ks\<rparr>"
      and kr: "key_rows (lr_ID lr) k (ev_EventID ev) h d d'" by auto
  have "booked (lr_ID lr) ev ?vs d d'"
    using ev posting_deltas_zero_sum posting_deltas_owner by (simp add: booked_def next_event_def d' d3)
  moreover have "positive (cv_SourceAmount p)" "positive (cv_DestAmount p)" "cv_SourceAsset p \<noteq> cv_DestAsset p"
    using valid by (auto simp: validateConvertParams_def split: option.splits if_splits)
  ultimately show ?thesis
    unfolding convert_effect_def Let_def using di av x kr ev
    by (intro exI [of _ ev]) (simp add: d' d3 next_event_def)
qed

lemma does_doConvertInTx:
  "does (doConvertInTx E lr p k h vt now) (\<lambda>d r d'. \<forall>x. r = Inr x \<longrightarrow> convert_effect lr p k h vt now d x d')"
  unfolding doConvertInTx_def Let_def
proof (rule does_weaken, (rule does_intro)+, intro allI impI, goal_cases)
  case (1 d r d' x)
  then have "validateConvertParams E p = None" by (auto split: option.splits)
  with 1 show ?case
    by clarsimp (rule convert_effectI, assumption, assumption, assumption, assumption, simp_all add: submitted_def)
qed

interpretation convert: ledger_operation "\<lambda>lr now. doConvertInTx E lr p k h (f now) now"
    "\<lambda>lr now. convert_effect lr p k h (f now) now" for E p k h f
  by unfold_locales (rule keeps_doConvertInTx, rule does_doConvertInTx)

lemma SubmitConvert_run:
  assumes "SubmitConvert E l p k w = (r, w')"
  shows "outcome l False (\<lambda>lr d x d'. \<exists>h vt now. convert_effect lr p k h vt now d x d') w r w'"
proof (cases "validateConvertParams E p")
  case (Some e)
  then show ?thesis using assms by (auto simp: SubmitConvert_def andThen_def outcome_def)
next
  case None
  then show ?thesis using assms
    by (simp add: SubmitConvert_def Let_def) (auto dest!: convert.guarded_run elim!: outcome_mono)
qed

subsection \<open>Consequences\<close>

lemma convert_effect_sound: "convert_effect lr p k h vt now d x d' \<Longrightarrow> sound d \<Longrightarrow> sound d'"
  by (auto simp: convert_effect_def Let_def elim: booked_sound_holds)

text \<open>The slippage leg takes a second output from the source's bucket, so its row cannot be stored.\<close>

lemma convert_effect_no_slippage:
  assumes "convert_effect lr p k h vt now d x d'"
  shows "slippage p = None" "cv_Source p \<noteq> cv_Destination p"
proof -
  obtain ev :: LogEventRecord where "distinct (map bucket (posting_deltas (lr_ID lr) (ev_EventID ev) vt now (convert_postings p)))"
    using assms unfolding convert_effect_def Let_def by blast
  then show "slippage p = None" "cv_Source p \<noteq> cv_Destination p"
    by (cases "slippage p"; auto simp: convert_postings_def posting_deltas_def bucket_def vdelta_def)+
qed

lemma convert_effect_available:
  assumes "convert_effect lr p k h vt now d x d'"
  shows "available (lr_ID lr) a s d' = available (lr_ID lr) a s d +
      inflow (convert_postings p) a s - outflow (convert_postings p) a s"
    and "l \<noteq> lr_ID lr \<Longrightarrow> available l a s d' = available l a s d"
proof -
  obtain ev where b: "booked (lr_ID lr) ev (posting_deltas (lr_ID lr) (ev_EventID ev) vt now (convert_postings p)) d d'"
    and hs: "holds d' = holds d"
    using assms by (auto simp: convert_effect_def Let_def)
  show "available (lr_ID lr) a s d' = available (lr_ID lr) a s d +
      inflow (convert_postings p) a s - outflow (convert_postings p) a s"
    using booked_posted [OF b] held_same [OF hs] by (simp add: available_def posting_deltas_bucket)
  show "l \<noteq> lr_ID lr \<Longrightarrow> available l a s d' = available l a s d"
    using booked_other_ledger(1) [OF b] held_same [OF hs] by (simp add: available_def)
qed

end
