(* ===== verification/Planner_Revert.thy ===== *)
theory Planner_Revert
  imports Planner_Convert
begin

text \<open>
  Reverting and amending transactions: \<open>reversePostings\<close>, \<open>doRevertInTx\<close> and \<open>doAmendInTx\<close> of
  \<^verbatim>\<open>src/internal/planner/operations_shared.go\<close>, and the submissions of
  \<^verbatim>\<open>src/internal/planner/operations_revert.go\<close>.
\<close>

fun reverse_from :: "nat \<Rightarrow> PostingRecord list \<Rightarrow> string \<Rightarrow> error + PostingInput list" where
  "reverse_from i [] originalTxID = Inr []"
| "reverse_from i (p # ps) originalTxID =
     (case SetString (pr_Amount p) of
        None \<Rightarrow> Inl (Errorf (''posting '' @ nat_String i @ '': invalid amount '' @ quoted (pr_Amount p) @
          '' in original transaction '' @ originalTxID))
      | Some amt \<Rightarrow>
          (case reverse_from (Suc i) ps originalTxID of
             Inl e \<Rightarrow> Inl e
           | Inr rs \<Rightarrow> Inr (\<lparr>Source = pr_Destination p, Destination = pr_Source p, Amount = Some amt,
                Asset = pr_Asset p\<rparr> # rs)))"

definition reversePostings :: "PostingRecord list \<Rightarrow> string \<Rightarrow> error + PostingInput list" where
  "reversePostings postings originalTxID =
     (if postings = [] then
        Inl (Errorf (''original transaction '' @ originalTxID @ '' has no postings to revert''))
      else reverse_from 0 postings originalTxID)"

definition already_reverted :: "string \<Rightarrow> RelationshipRecord list \<Rightarrow> bool" where
  "already_reverted originalTxID rels =
     list_ex (\<lambda>rel. rl_RelationshipType rel = 0 \<and> rl_ParentTxID rel = originalTxID) rels"

text \<open>One iteration of the balance check, posting by posting.\<close>

definition checkReversed :: "env \<Rightarrow> string \<Rightarrow> LedgerRecord \<Rightarrow> PostingInput \<Rightarrow> unit prog" where
  "checkReversed E ledgerID ledger posting =
     (if IsIssuer (Source posting) (lr_IssuerAccounts ledger) then ok ()
      else andThen (availableBalance E ledgerID (Source posting) (Asset posting)) (\<lambda>avail.
        if avail < amount_of posting then
          fail (suffixed ErrInsufficientFunds ('': reverting would leave '' @ Source posting @
            '' negative in '' @ Asset posting))
        else ok ()))"

definition checkAllReversed :: "env \<Rightarrow> string \<Rightarrow> LedgerRecord \<Rightarrow> PostingInput list \<Rightarrow> unit prog" where
  "checkAllReversed E ledgerID ledger postings = forM (checkReversed E ledgerID ledger) postings"

definition revert_payload :: "string \<Rightarrow> PostingRecord list \<Rightarrow> metadata \<Rightarrow> bytes" where
  "revert_payload txID rs md = json_marshal (json_map
     [(''transaction_id'', JStr txID), (''postings'', JArr (map json_of_posting rs)),
      (''metadata'', json_of_metadata md)])"

definition doRevertInTx ::
  "env \<Rightarrow> string \<Rightarrow> string \<Rightarrow> bool \<Rightarrow> bool \<Rightarrow> string \<Rightarrow> string \<Rightarrow> bytes option \<Rightarrow> time \<Rightarrow> SubmitResult prog" where
  "doRevertInTx E ledgerID originalTxID force atEffectiveDate reason key ikHash now =
     andThen (ulid_Make E) (\<lambda>txID.
     andThen (GetTransaction E Tx ledgerID originalTxID) (\<lambda>origTx.
     andThen (GetRelationships E Tx ledgerID originalTxID 1) (\<lambda>rels.
     if already_reverted originalTxID rels then fail ErrAlreadyReverted
     else
       andThen (ofSum (reversePostings (tx_Postings origTx) originalTxID)) (\<lambda>reversedPostings.
       andThen (mapErr (wrapped ''getting ledger: '') (GetLedger E Tx ledgerID)) (\<lambda>ledger.
       let vt = (if atEffectiveDate then tx_ValidTime origTx else now) in
       andThen (whenM (\<not> force) (checkAllReversed E ledgerID ledger reversedPostings)) (\<lambda>_.
       let postingRecords = map posting_record reversedPostings;
           md = Some [(''reverts'', JStr originalTxID), (''revert_reason'', JStr reason)] in
       andThen (mapErr (wrapped ''appending log event: '') (appendEvent E ledgerID EventTypeTransactionReverted
         (revert_payload txID postingRecords md) key ikHash vt now)) (\<lambda>(eventID, _).
       let txRec = \<lparr>tx_LedgerID = ledgerID, tx_TransactionID = txID, tx_EventID = eventID,
             tx_ValidTime = vt, tx_SystemTime = now, tx_Reference = [],
             tx_Postings = postingRecords, tx_Metadata = md\<rparr> in
       andThen (mapErr (wrapped ''inserting reverting transaction: '') (InsertTransaction E Tx txRec)) (\<lambda>_.
       andThen (insertPostings E ledgerID eventID vt now reversedPostings) (\<lambda>_.
       andThen (upsertTouched E ledgerID now (touchedAccounts reversedPostings)) (\<lambda>_.
       andThen (mapErr (wrapped ''inserting revert relationship: '') (InsertRelationship E Tx
         \<lparr>rl_LedgerID = ledgerID, rl_ParentTxID = originalTxID, rl_ChildTxID = txID,
          rl_RelationshipType = RelationshipTypeReverts, rl_EventID = eventID, rl_SystemTime = now\<rparr>)) (\<lambda>_.
       andThen (recordIfKeyed E ledgerID key eventID ikHash) (\<lambda>_.
       ok ((submitted eventID)\<lparr>Transaction := Some txRec\<rparr>)))))))))))))"

definition amend_payload :: "string \<Rightarrow> metadata \<Rightarrow> bytes" where
  "amend_payload originalTxID changes = json_marshal (json_map
     [(''original_transaction_id'', JStr originalTxID), (''metadata_changes'', json_of_metadata changes)])"

definition doAmendInTx ::
  "env \<Rightarrow> string \<Rightarrow> string \<Rightarrow> metadata \<Rightarrow> string \<Rightarrow> bytes option \<Rightarrow> time \<Rightarrow> SubmitResult prog" where
  "doAmendInTx E ledgerID originalTxID changes key ikHash now =
     andThen (GetTransaction E Tx ledgerID originalTxID) (\<lambda>_.
     andThen (appendEvent E ledgerID EventTypeTransactionAmended (amend_payload originalTxID changes)
       key ikHash now now) (\<lambda>(eventID, seq).
     andThen (mapErr (wrapped ''updating transaction metadata: '')
       (UpdateTransactionMetadata E Tx ledgerID originalTxID changes)) (\<lambda>_.
     andThen (InsertMetadataHistory E Tx \<lparr>mh_LedgerID = ledgerID, mh_TargetType = TargetTypeTransaction,
       mh_TargetID = originalTxID, mh_Revision = seq, mh_Metadata = changes, mh_EventID = eventID,
       mh_SystemTime = now\<rparr>) (\<lambda>_.
     andThen (InsertRelationship E Tx \<lparr>rl_LedgerID = ledgerID, rl_ParentTxID = originalTxID,
       rl_ChildTxID = eventID, rl_RelationshipType = RelationshipTypeAmends, rl_EventID = eventID,
       rl_SystemTime = now\<rparr>) (\<lambda>_.
     andThen (recordIfKeyed E ledgerID key eventID ikHash) (\<lambda>_.
     ok (submitted eventID)))))))"

definition Sprintf_t :: "bool \<Rightarrow> string" where
  "Sprintf_t b = (if b then ''true'' else ''false'')"

definition SubmitRevert ::
  "env \<Rightarrow> string \<Rightarrow> string \<Rightarrow> bool \<Rightarrow> bool \<Rightarrow> string \<Rightarrow> string \<Rightarrow> SubmitResult prog" where
  "SubmitRevert E ledgerID originalTxID force atEffectiveDate reason key =
     andThen (checkLedgerNotSealed E ledgerID) (\<lambda>_.
     let ikHash = (if key \<noteq> [] then Some (computeGenericIdempotencyHash E
           [ledgerID, ''revert'', originalTxID, Sprintf_t force, Sprintf_t atEffectiveDate, reason])
           else None) in
     andThen (time_Now E) (\<lambda>now.
     submitWithIdempotency E ledgerID key ikHash EventTypeTransactionReverted False
       (doRevertInTx E ledgerID originalTxID force atEffectiveDate reason key ikHash now)))"

definition SubmitAmend ::
  "env \<Rightarrow> string \<Rightarrow> string \<Rightarrow> metadata \<Rightarrow> string \<Rightarrow> SubmitResult prog" where
  "SubmitAmend E ledgerID originalTxID changes key =
     andThen (checkLedgerNotSealed E ledgerID) (\<lambda>_.
     let ikHash = (if key \<noteq> [] then Some (computeGenericIdempotencyHash E
           [ledgerID, ''amend'', originalTxID, json_marshal (json_of_metadata changes)]) else None) in
     andThen (time_Now E) (\<lambda>now.
     submitWithIdempotency E ledgerID key ikHash EventTypeTransactionAmended False
       (doAmendInTx E ledgerID originalTxID changes key ikHash now)))"

subsection \<open>Reversal of postings\<close>

definition swap_posting :: "PostingInput \<Rightarrow> PostingInput" where
  "swap_posting p = \<lparr>Source = Destination p, Destination = Source p, Amount = Some (amount_of p), Asset = Asset p\<rparr>"

lemma swap_posting_simps [simp]:
  "Source (swap_posting p) = Destination p" "Destination (swap_posting p) = Source p"
  "amount_of (swap_posting p) = amount_of p" "Asset (swap_posting p) = Asset p"
  by (simp_all add: swap_posting_def amount_of_def)

lemma reverse_from_records: "reverse_from i (map posting_record ps) t = Inr (map swap_posting ps)"
  by (induction ps arbitrary: i) (simp_all add: posting_record_def swap_posting_def)

lemma reversePostings_records:
  "ps \<noteq> [] \<Longrightarrow> reversePostings (map posting_record ps) t = Inr (map swap_posting ps)"
  by (simp add: reversePostings_def reverse_from_records)

lemma flow_swap:
  "inflow (map swap_posting ps) a s = outflow ps a s" "outflow (map swap_posting ps) a s = inflow ps a s"
  by (induction ps) (simp_all add: inflow_def outflow_def)

lemma flow_nonzero: "inflow (nonzero ps) a s = inflow ps a s" "outflow (nonzero ps) a s = outflow ps a s"
  by (induction ps) (auto simp: inflow_def outflow_def nonzero_def)

subsection \<open>Frames\<close>

lemma keeps_checkAllReversed [frame_intro]: "keeps tx_frame (checkAllReversed E l lr ps)"
  unfolding checkAllReversed_def checkReversed_def by (intro tx_frame.keeps_rules frame_intro)

lemma keeps_doRevertInTx [frame_intro]: "keeps tx_frame (doRevertInTx E l t f a rs k h now)"
  unfolding doRevertInTx_def Let_def by (intro tx_frame.keeps_rules frame_intro)

lemma keeps_doAmendInTx [frame_intro]: "keeps tx_frame (doAmendInTx E l t md k h now)"
  unfolding doAmendInTx_def by (intro tx_frame.keeps_rules frame_intro)

subsection \<open>Effect of a revert\<close>

definition reversible :: "string \<Rightarrow> LedgerRecord \<Rightarrow> db \<Rightarrow> PostingInput \<Rightarrow> bool" where
  "reversible l lr d p \<longleftrightarrow>
     IsIssuer (Source p) (lr_IssuerAccounts lr) \<or> amount_of p \<le> available l (Source p) (Asset p) d"

lemma iterates_reversible:
  "iterates (\<lambda>p d r d'. d' = d \<and> (r = Inr () \<longrightarrow> reversible l lr d p)) ps d r d' \<Longrightarrow>
     d' = d \<and> (r = Inr () \<longrightarrow> list_all (reversible l lr d) ps)"
  by (induction ps arbitrary: d) fastforce+

lemma does_checkAllReversed [does_intro]:
  "does (checkAllReversed E l lr ps) (\<lambda>d r d'. d' = d \<and> (r = Inr () \<longrightarrow> list_all (reversible l lr d) ps))"
proof -
  have "does (checkReversed E l lr p) (\<lambda>d r d'. d' = d \<and> (r = Inr () \<longrightarrow> reversible l lr d p))" for p
    unfolding checkReversed_def
    by (rule does_weaken, (rule does_intro)+) (auto simp: reversible_def split: if_splits)
  then show ?thesis
    unfolding checkAllReversed_def by (rule does_weaken [OF does_forM]) (rule iterates_reversible)
qed

lemma does_unlessForced:
  "does (whenM (\<not> f) (checkAllReversed E l lr ps))
     (\<lambda>d r d'. d' = d \<and> (r = Inr () \<longrightarrow> f \<or> list_all (reversible l lr d) ps))"
  by (rule does_weaken, (rule does_intro)+) (simp split: if_splits)

lemma transaction_record_postings: "transaction_record row = Inr t \<Longrightarrow> tx_Postings t = tr_postings row"
  by (auto simp: transaction_record_def split: sum.splits)

text \<open>A transaction is reverted when a relationship of that type names it as the parent.\<close>

definition reverts :: "string \<Rightarrow> string \<Rightarrow> RelationshipRecord \<Rightarrow> bool" where
  "reverts l t r \<longleftrightarrow> rl_LedgerID r = l \<and> rl_ParentTxID r = t \<and> rl_RelationshipType r = RelationshipTypeReverts"

lemma already_reverted_rows:
  "already_reverted t (relationship_rows l t 1 d) \<longleftrightarrow> list_ex (reverts l t) (transaction_relationships d)"
  by (auto simp: already_reverted_def relationship_rows_def related_def reverts_def list_ex_iff
      RelationshipTypeReverts_def)

definition revert_effect ::
  "string \<Rightarrow> string \<Rightarrow> bool \<Rightarrow> string \<Rightarrow> bytes option \<Rightarrow> db \<Rightarrow> SubmitResult \<Rightarrow> db \<Rightarrow> bool" where
  "revert_effect l t force k h d x d' \<longleftrightarrow>
     (\<exists>row ps lrow lr ev vt now rec rel. find_transaction l t d = Some row \<and>
        reversePostings (tr_postings row) t = Inr ps \<and>
        \<not> list_ex (reverts l t) (transaction_relationships d) \<and>
        find_ledger l d = Some lrow \<and> ledger_record lrow = Inr lr \<and>
        (force \<or> list_all (reversible l lr d) ps) \<and>
        booked l ev (posting_deltas l (ev_EventID ev) vt now (nonzero ps)) d d' \<and>
        distinct (map bucket (posting_deltas l (ev_EventID ev) vt now (nonzero ps))) \<and> holds d' = holds d \<and>
        transactions d' = transactions d @ [transaction_row_of rec] \<and> tx_Postings rec = map posting_record ps \<and>
        reverts l t rel \<and> transaction_relationships d' = transaction_relationships d @ [rel] \<and>
        ev_Type ev = EventTypeTransactionReverted \<and> EventID x = ev_EventID ev \<and> Transaction x = Some rec \<and>
        \<not> IdempotentHit x \<and> key_rows l k (ev_EventID ev) h d d')"

lemma revert_effectI:
  assumes key: "keyed l k (ev_EventID ev) h (dv\<lparr>accounts := as,
      transaction_relationships := transaction_relationships dv @ [rel]\<rparr>) d'"
    and rows: "adds_rows (posting_deltas l (ev_EventID ev) vt now (nonzero ps))
      (d\<lparr>log_events := log_events d @ [ev], transactions := transactions d @ [transaction_row_of rec]\<rparr>) dv"
    and ev: "next_event l EventTypeTransactionReverted pl k d ev"
    and row: "find_transaction l t d = Some row" "reversePostings (tr_postings row) t = Inr ps"
      "\<not> list_ex (reverts l t) (transaction_relationships d)"
    and lrow: "find_ledger l d = Some lrow" "ledger_record lrow = Inr lr"
    and av: "force \<or> list_all (reversible l lr d) ps"
    and out: "tx_Postings rec = map posting_record ps" "reverts l t rel"
      "EventID x = ev_EventID ev" "Transaction x = Some rec" "\<not> IdempotentHit x"
  shows "revert_effect l t force k h d x d'"
proof -
  let ?vs = "posting_deltas l (ev_EventID ev) vt now (nonzero ps)"
  have dv: "dv = d\<lparr>log_events := log_events d @ [ev], transactions := transactions d @ [transaction_row_of rec],
      volumes_delta := volumes_delta d @ ?vs\<rparr>" and di: "distinct (map bucket ?vs)"
    using rows by (simp_all add: adds_rows_def)
  have "idempotency_keys (dv\<lparr>accounts := as,
      transaction_relationships := transaction_relationships dv @ [rel]\<rparr>) = idempotency_keys d"
    by (simp add: dv)
  from keyed_elim [OF key this] obtain ks where d': "d' = dv\<lparr>accounts := as,
      transaction_relationships := transaction_relationships dv @ [rel], idempotency_keys := ks\<rparr>"
    and kr: "key_rows l k (ev_EventID ev) h d d'" by auto
  have b: "booked l ev ?vs d d'"
    using ev posting_deltas_zero_sum posting_deltas_owner by (simp add: booked_def next_event_def d' dv)
  show ?thesis
    unfolding revert_effect_def
    by (rule exI [of _ row], rule exI [of _ ps], rule exI [of _ lrow], rule exI [of _ lr], rule exI [of _ ev],
        rule exI [of _ vt], rule exI [of _ now], rule exI [of _ rec], rule exI [of _ rel])
       (use row lrow av b di out kr ev in \<open>simp add: d' dv next_event_def\<close>)
qed

lemma does_doRevertInTx:
  "does (doRevertInTx E l t f a rs k h now) (\<lambda>d r d'. \<forall>x. r = Inr x \<longrightarrow> revert_effect l t f k h d x d')"
  unfolding doRevertInTx_def Let_def
proof (rule does_weaken, (rule does_unlessForced does_intro)+, intro allI impI, goal_cases)
  case (1 d r d' x)
  then have nr: "\<not> list_ex (reverts l t) (transaction_relationships d)"
    by (clarsimp simp: already_reverted_rows split: if_splits)
  define vt where "vt ox = (if a then tx_ValidTime ox else now)" for ox :: TransactionRecord
  from 1 nr show ?case
    by (clarsimp simp: already_reverted_rows transaction_record_postings simp flip: vt_def)
       (rule revert_effectI, assumption, assumption, assumption, assumption,
        simp_all add: reverts_def submitted_def)
qed

interpretation revert: ledger_operation "\<lambda>lr now. doRevertInTx E l t f a rs k h now"
    "\<lambda>lr now. revert_effect l t f k h" for E l t f a rs k h
  by unfold_locales (rule keeps_doRevertInTx, rule does_doRevertInTx)

lemma SubmitRevert_run:
  "SubmitRevert E l t f a rs k w = (r, w') \<Longrightarrow>
     outcome l False (\<lambda>lr d x d'. \<exists>h. revert_effect l t f k h d x d') w r w'"
  unfolding SubmitRevert_def Let_def by (auto dest!: revert.guarded_run elim!: outcome_mono)

lemma revert_effect_sound: "revert_effect l t f k h d x d' \<Longrightarrow> sound d \<Longrightarrow> sound d'"
  unfolding revert_effect_def by (blast intro: booked_sound_holds)

lemma revert_effect_available:
  assumes "revert_effect l t f k h d x d'" "find_transaction l t d = Some row" "reversePostings (tr_postings row) t = Inr ps"
  shows "posted l a s d' = posted l a s d + inflow ps a s - outflow ps a s"
    and "available l a s d' = available l a s d + inflow ps a s - outflow ps a s"
    and "k' \<noteq> l \<Longrightarrow> available k' a s d' = available k' a s d"
proof -
  obtain ev vt now where b: "booked l ev (posting_deltas l (ev_EventID ev) vt now (nonzero ps)) d d'"
    and hs: "holds d' = holds d"
    using assms unfolding revert_effect_def by clarsimp
  show "posted l a s d' = posted l a s d + inflow ps a s - outflow ps a s"
    "available l a s d' = available l a s d + inflow ps a s - outflow ps a s"
    using booked_posted [OF b] held_same [OF hs] by (simp_all add: available_def posting_deltas_bucket flow_nonzero)
  show "k' \<noteq> l \<Longrightarrow> available k' a s d' = available k' a s d"
    using booked_other_ledger(1) [OF b] held_same [OF hs] by (simp add: available_def)
qed

text \<open>
  The balance check looks at one posting at a time. Because no bucket can be touched twice by one
  event, that is enough: an account is the source of at most one posting of an asset.
\<close>

lemma bucket_vdelta [simp]: "bucket (vdelta l a s i vt now x y) = (l, a, s, 0, i)"
  by (simp add: bucket_def vdelta_def)

lemma distinct_outflow:
  assumes "distinct (map bucket (posting_deltas l i vt now ps))" "p \<in> set ps" "Source p = a" "Asset p = s"
  shows "outflow ps a s = amount_of p \<and> inflow ps a s = 0"
  using assms
proof (induction ps)
  case (Cons q qs)
  let ?b = "(l, a, s, 0, i)"
  have other: "outflow qs a s = 0 \<and> inflow qs a s = 0"
    if "?b \<notin> bucket ` set (posting_deltas l i vt now qs)" for qs
    using that by (induction qs) (auto simp: posting_deltas_def outflow_def inflow_def)
  have mem: "?b \<in> bucket ` set (posting_deltas l i vt now qs)" if "p \<in> set qs"
  proof (rule image_eqI [where x = "vdelta l a s i vt now 0 (amount_of p)"])
    show "vdelta l a s i vt now 0 (amount_of p) \<in> set (posting_deltas l i vt now qs)"
      using that Cons.prems(3,4) by (auto simp: posting_deltas_def)
  qed simp
  have d: "distinct (map bucket (posting_deltas l i vt now qs))"
    "(l, Source q, Asset q, 0, i) \<notin> bucket ` set (posting_deltas l i vt now qs)"
    "(l, Destination q, Asset q, 0, i) \<notin> bucket ` set (posting_deltas l i vt now qs)"
    "Source q \<noteq> Destination q"
    using Cons.prems(1) by (auto simp: posting_deltas_def)
  show ?case
  proof (cases "p = q")
    case True
    then show ?thesis using d other Cons.prems(3,4) by (auto simp: outflow_def inflow_def)
  next
    case False
    then have "p \<in> set qs" using Cons.prems(2) by simp
    then show ?thesis using Cons.IH d mem Cons.prems(3,4) by (auto simp: outflow_def inflow_def)
  qed
qed simp

lemma outflow_none: "(\<And>p. p \<in> set ps \<Longrightarrow> \<not> (Source p = a \<and> Asset p = s)) \<Longrightarrow> outflow ps a s = 0"
  by (auto simp: outflow_def intro!: sum_where_none)

text \<open>An unforced revert of postings of positive amounts overdraws no one.\<close>

lemma revert_effect_solvent:
  assumes e: "revert_effect l t False k h d x d'" and row: "find_transaction l t d = Some row"
    "reversePostings (tr_postings row) t = Inr ps" and pos: "\<And>p. p \<in> set ps \<Longrightarrow> 0 \<le> amount_of p"
    and sol: "solvent l' issuers d" and lg: "find_ledger l d = Some lrow" "l = l' \<Longrightarrow> lg_issuer_accounts lrow = issuers"
  shows "solvent l' issuers d'"
  unfolding solvent_def
proof (intro allI impI)
  fix a s assume a: "\<not> IsIssuer a issuers"
  then have av: "0 \<le> available l' a s d" using sol by (simp add: solvent_def)
  obtain lr vt now and ev :: LogEventRecord where lr: "ledger_record lrow = Inr lr" and ok: "list_all (reversible l lr d) ps"
    and di: "distinct (map bucket (posting_deltas l (ev_EventID ev) vt now (nonzero ps)))"
    using e row lg(1) unfolding revert_effect_def by clarsimp
  show "0 \<le> available l' a s d'"
  proof (cases "l' = l \<and> (\<exists>p \<in> set (nonzero ps). Source p = a \<and> Asset p = s)")
    case True
    then obtain p where p: "p \<in> set (nonzero ps)" "Source p = a" "Asset p = s" by blast
    then have "p \<in> set ps" by (simp add: nonzero_def)
    then have "amount_of p \<le> available l a s d"
      using ok p a lg(2) True ledger_record_simps(3) [OF lr] by (auto simp: list_all_iff reversible_def)
    then show ?thesis
      using revert_effect_available(2) [OF e row, of a s] distinct_outflow [OF di p] True by (simp add: flow_nonzero)
  next
    case False
    have "0 \<le> inflow ps a s" using pos by (auto simp: inflow_def intro!: sum_where_nonneg)
    moreover have "outflow (nonzero ps) a s = 0" if "l' = l" using False that by (intro outflow_none) auto
    ultimately show ?thesis
      using av revert_effect_available(2,3) [OF e row] by (cases "l' = l") (simp_all add: flow_nonzero)
  qed
qed

subsection \<open>Effect of an amendment\<close>

text \<open>
  Operations that only write the event and side tables: the volumes and the holds are as they
  were. \<open>rels\<close> are the relationships added.
\<close>

definition side_effect ::
  "string \<Rightarrow> int \<Rightarrow> RelationshipRecord list \<Rightarrow> string \<Rightarrow> bytes option \<Rightarrow> db \<Rightarrow> SubmitResult \<Rightarrow> db \<Rightarrow> bool" where
  "side_effect l ty rels k h d x d' \<longleftrightarrow>
     (\<exists>ev. booked l ev [] d d' \<and> holds d' = holds d \<and>
        map (\<lambda>r. r\<lparr>tr_metadata := JNull\<rparr>) (transactions d') = map (\<lambda>r. r\<lparr>tr_metadata := JNull\<rparr>) (transactions d) \<and>
        transaction_relationships d' = transaction_relationships d @ rels \<and>
        ev_Type ev = ty \<and> EventID x = ev_EventID ev \<and> \<not> IdempotentHit x \<and> key_rows l k (ev_EventID ev) h d d')"

lemma side_effectI:
  assumes key: "keyed l k (ev_EventID ev) h da d'"
    and ev: "next_event l ty pl k d ev"
    and da: "da = db\<lparr>log_events := log_events d @ [ev]\<rparr>"
    and same: "volumes_delta db = volumes_delta d" "ledgers db = ledgers d" "policies db = policies d"
      "pending_approvals db = pending_approvals d" "idempotency_keys db = idempotency_keys d" "holds db = holds d"
    and rels: "transaction_relationships db = transaction_relationships d @ rels"
    and txs: "map (\<lambda>r. r\<lparr>tr_metadata := JNull\<rparr>) (transactions db) = map (\<lambda>r. r\<lparr>tr_metadata := JNull\<rparr>) (transactions d)"
    and x: "x = submitted (ev_EventID ev)"
  shows "side_effect l ty rels k h d x d'"
proof -
  have b: "booked l ev [] d d' \<and> key_rows l k (ev_EventID ev) h d d' \<and>
      (\<exists>ks. d' = da\<lparr>idempotency_keys := ks\<rparr>)"
    by (rule booked_nil [OF ev key da same(1-5)])
  then have "holds d' = holds db" "transactions d' = transactions db"
    "transaction_relationships d' = transaction_relationships db" by (auto simp: da)
  then show ?thesis
    unfolding side_effect_def using b same(6) rels txs x ev
    by (intro exI [of _ ev]) (simp add: next_event_def submitted_def)
qed

lemma side_effect_sound: "side_effect l ty rels k h d x d' \<Longrightarrow> sound d \<Longrightarrow> sound d'"
  unfolding side_effect_def by (blast intro: booked_sound_holds)

lemma side_effect_available: "side_effect l ty rels k h d x d' \<Longrightarrow> available l' a s d' = available l' a s d"
proof -
  assume "side_effect l ty rels k h d x d'"
  then obtain ev where b: "booked l ev [] d d'" and hs: "holds d' = holds d" by (auto simp: side_effect_def)
  show ?thesis using booked_posted [OF b] held_same [OF hs] by (simp add: available_def)
qed

lemma side_effect_solvent: "side_effect l ty rels k h d x d' \<Longrightarrow> solvent l' issuers d \<Longrightarrow> solvent l' issuers d'"
  by (simp add: solvent_def side_effect_available)

definition amend_effect ::
  "string \<Rightarrow> string \<Rightarrow> metadata \<Rightarrow> string \<Rightarrow> bytes option \<Rightarrow> db \<Rightarrow> SubmitResult \<Rightarrow> db \<Rightarrow> bool" where
  "amend_effect l t md k h d x d' \<longleftrightarrow>
     (\<exists>row rel. find_transaction l t d = Some row \<and> rl_RelationshipType rel = RelationshipTypeAmends \<and>
        rl_LedgerID rel = l \<and> rl_ParentTxID rel = t \<and> side_effect l EventTypeTransactionAmended [rel] k h d x d' \<and>
        transactions d' = map (\<lambda>r. if tr_ledger_id r = l \<and> tr_transaction_id r = t
          then r\<lparr>tr_metadata := jsonb_concat (tr_metadata r) (json_of_metadata md)\<rparr> else r) (transactions d))"

lemma amend_effectI:
  assumes key: "keyed l k (ev_EventID ev) h (d\<lparr>log_events := log_events d @ [ev],
      transactions := map (\<lambda>r. if tr_ledger_id r = l \<and> tr_transaction_id r = t
          then r\<lparr>tr_metadata := jsonb_concat (tr_metadata r) (json_of_metadata md)\<rparr> else r) (transactions d),
      metadata_history := mh,
      transaction_relationships := transaction_relationships d @ [rel]\<rparr>) d'"
    and ev: "next_event l EventTypeTransactionAmended pl k d ev"
    and row: "find_transaction l t d = Some row"
    and rel: "rl_RelationshipType rel = RelationshipTypeAmends" "rl_LedgerID rel = l" "rl_ParentTxID rel = t"
    and x: "x = submitted (ev_EventID ev)"
  shows "amend_effect l t md k h d x d'"
proof -
  let ?ts = "map (\<lambda>r. if tr_ledger_id r = l \<and> tr_transaction_id r = t
          then r\<lparr>tr_metadata := jsonb_concat (tr_metadata r) (json_of_metadata md)\<rparr> else r) (transactions d)"
  let ?db = "d\<lparr>transactions := ?ts, metadata_history := mh,
      transaction_relationships := transaction_relationships d @ [rel]\<rparr>"
  have "side_effect l EventTypeTransactionAmended [rel] k h d x d'"
    by (rule side_effectI [OF key ev, where db = ?db]) (simp_all add: x)
  moreover obtain ks where "d' = (d\<lparr>log_events := log_events d @ [ev], transactions := ?ts, metadata_history := mh,
      transaction_relationships := transaction_relationships d @ [rel]\<rparr>)\<lparr>idempotency_keys := ks\<rparr>"
    using keyed_elim [OF key refl] by blast
  ultimately show ?thesis unfolding amend_effect_def using row rel by auto
qed

lemma does_doAmendInTx:
  "does (doAmendInTx E l t md k h now) (\<lambda>d r d'. \<forall>x. r = Inr x \<longrightarrow> amend_effect l t md k h d x d')"
  unfolding doAmendInTx_def
proof (rule does_weaken, (rule does_intro)+, intro allI impI, goal_cases)
  case (1 d r d' x)
  then show ?case
    by clarsimp (rule amend_effectI, assumption, assumption, assumption, simp_all)
qed

interpretation amend: ledger_operation "\<lambda>lr now. doAmendInTx E l t md k h now"
    "\<lambda>lr now. amend_effect l t md k h" for E l t md k h
  by unfold_locales (rule keeps_doAmendInTx, rule does_doAmendInTx)

lemma SubmitAmend_run:
  "SubmitAmend E l t md k w = (r, w') \<Longrightarrow>
     outcome l False (\<lambda>lr d x d'. \<exists>h. amend_effect l t md k h d x d') w r w'"
  unfolding SubmitAmend_def Let_def by (auto dest!: amend.guarded_run elim!: outcome_mono)

end
