(* ===== verification/Planner_Metadata.thy ===== *)
theory Planner_Metadata
  imports Planner_Revert
begin

text \<open>
  Metadata and schemas: \<open>doSetMetadataInTx\<close> and \<open>doDeleteMetadataInTx\<close> of
  \<^verbatim>\<open>src/internal/planner/operations_shared.go\<close>, and the submissions of
  \<^verbatim>\<open>src/internal/planner/operations_metadata.go\<close> and
  \<^verbatim>\<open>src/internal/planner/operations_schema.go\<close>. Target type 0 is an account and 1 a transaction;
  any other target only gets an event and a history row.
\<close>

subsection \<open>Setting metadata\<close>

definition set_payload :: "int \<Rightarrow> string \<Rightarrow> metadata \<Rightarrow> bytes" where
  "set_payload targetType targetID md = json_marshal (json_map
     [(''target_type'', JInt targetType), (''target_id'', JStr targetID), (''metadata'', json_of_metadata md)])"

definition setTarget :: "env \<Rightarrow> string \<Rightarrow> int \<Rightarrow> string \<Rightarrow> metadata \<Rightarrow> time \<Rightarrow> unit prog" where
  "setTarget E ledgerID targetType targetID md now =
     andThen (whenM (targetType = 0) (UpsertAccount E Tx \<lparr>ac_LedgerID = ledgerID, ac_Address = targetID,
       ac_FirstUsage = now, ac_UpdatedAt = now, ac_Metadata = md\<rparr>)) (\<lambda>_.
     whenM (targetType = 1) (mapErr (wrapped ''updating transaction metadata: '')
       (UpdateTransactionMetadata E Tx ledgerID targetID md)))"

definition doSetMetadataInTx ::
  "env \<Rightarrow> string \<Rightarrow> int \<Rightarrow> string \<Rightarrow> metadata \<Rightarrow> string \<Rightarrow> bytes option \<Rightarrow> time \<Rightarrow> SubmitResult prog" where
  "doSetMetadataInTx E ledgerID targetType targetID md key ikHash now =
     andThen (appendEvent E ledgerID EventTypeMetadataSet (set_payload targetType targetID md)
       key ikHash now now) (\<lambda>(eventID, seq).
     andThen (setTarget E ledgerID targetType targetID md now) (\<lambda>_.
     andThen (InsertMetadataHistory E Tx \<lparr>mh_LedgerID = ledgerID, mh_TargetType = targetType,
       mh_TargetID = targetID, mh_Revision = seq, mh_Metadata = md, mh_EventID = eventID,
       mh_SystemTime = now\<rparr>) (\<lambda>_.
     andThen (recordIfKeyed E ledgerID key eventID ikHash) (\<lambda>_.
     ok (submitted eventID)))))"

definition SubmitSetMetadata ::
  "env \<Rightarrow> string \<Rightarrow> int \<Rightarrow> string \<Rightarrow> metadata \<Rightarrow> string \<Rightarrow> SubmitResult prog" where
  "SubmitSetMetadata E ledgerID targetType targetID md key =
     andThen (checkLedgerNotSealed E ledgerID) (\<lambda>_.
     let ikHash = (if key \<noteq> [] then Some (computeGenericIdempotencyHash E
           [ledgerID, ''set_metadata'', int_String targetType, targetID, json_marshal (json_of_metadata md)])
           else None) in
     andThen (time_Now E) (\<lambda>now.
     submitWithIdempotency E ledgerID key ikHash EventTypeMetadataSet False
       (doSetMetadataInTx E ledgerID targetType targetID md key ikHash now)))"

subsection \<open>Deleting metadata\<close>

definition delete_payload :: "int \<Rightarrow> string \<Rightarrow> string \<Rightarrow> bytes" where
  "delete_payload targetType targetID mkey = json_marshal (json_map
     [(''target_type'', JInt targetType), (''target_id'', JStr targetID), (''key'', JStr mkey)])"

text \<open>A read or write whose target may be missing: \<open>err != nil && !errors.Is(err, ErrNotFound)\<close>.\<close>

definition ifFound :: "'a prog \<Rightarrow> 'a option prog" where
  "ifFound m = attempt m (\<lambda>r. case r of
       Inr x \<Rightarrow> ok (Some x)
     | Inl e \<Rightarrow> if errors_is e ErrNotFound then ok None else fail e)"

definition drop_key :: "string \<Rightarrow> AccountRecord \<Rightarrow> time \<Rightarrow> AccountRecord" where
  "drop_key mkey acct now = acct\<lparr>ac_Metadata := map_option (obj_delete mkey) (ac_Metadata acct), ac_UpdatedAt := now\<rparr>"

definition deleteTarget :: "env \<Rightarrow> string \<Rightarrow> int \<Rightarrow> string \<Rightarrow> string \<Rightarrow> time \<Rightarrow> unit prog" where
  "deleteTarget E ledgerID targetType targetID mkey now =
     andThen (whenM (targetType = 0)
       (andThen (ifFound (GetAccount E Tx ledgerID targetID)) (\<lambda>acct.
        case acct of None \<Rightarrow> ok () | Some a \<Rightarrow> UpsertAccount E Tx (drop_key mkey a now)))) (\<lambda>_.
     whenM (targetType = 1)
       (andThen (mapErr (wrapped ''deleting transaction metadata key: '')
          (ifFound (DeleteTransactionMetadataKey E Tx ledgerID targetID mkey))) (\<lambda>_. ok ())))"

definition currentMetadata :: "env \<Rightarrow> string \<Rightarrow> int \<Rightarrow> string \<Rightarrow> metadata prog" where
  "currentMetadata E ledgerID targetType targetID =
     (if targetType = 0 then
        andThen (ifFound (GetAccount E Tx ledgerID targetID)) (\<lambda>acct.
        ok (case acct of None \<Rightarrow> None | Some a \<Rightarrow> ac_Metadata a))
      else if targetType = 1 then
        andThen (ifFound (GetTransaction E Tx ledgerID targetID)) (\<lambda>t.
        ok (case t of None \<Rightarrow> None | Some r \<Rightarrow> tx_Metadata r))
      else ok None)"

definition doDeleteMetadataInTx ::
  "env \<Rightarrow> string \<Rightarrow> int \<Rightarrow> string \<Rightarrow> string \<Rightarrow> string \<Rightarrow> bytes option \<Rightarrow> time \<Rightarrow> SubmitResult prog" where
  "doDeleteMetadataInTx E ledgerID targetType targetID mkey key ikHash now =
     andThen (appendEvent E ledgerID EventTypeMetadataDeleted (delete_payload targetType targetID mkey)
       key ikHash now now) (\<lambda>(eventID, seq).
     andThen (deleteTarget E ledgerID targetType targetID mkey now) (\<lambda>_.
     andThen (currentMetadata E ledgerID targetType targetID) (\<lambda>current.
     andThen (InsertMetadataHistory E Tx \<lparr>mh_LedgerID = ledgerID, mh_TargetType = targetType,
       mh_TargetID = targetID, mh_Revision = seq,
       mh_Metadata = (case current of None \<Rightarrow> Some [] | Some kvs \<Rightarrow> Some kvs), mh_EventID = eventID,
       mh_SystemTime = now\<rparr>) (\<lambda>_.
     andThen (recordIfKeyed E ledgerID key eventID ikHash) (\<lambda>_.
     ok (submitted eventID))))))"

definition SubmitDeleteMetadata ::
  "env \<Rightarrow> string \<Rightarrow> int \<Rightarrow> string \<Rightarrow> string \<Rightarrow> string \<Rightarrow> SubmitResult prog" where
  "SubmitDeleteMetadata E ledgerID targetType targetID mkey key =
     andThen (checkLedgerNotSealed E ledgerID) (\<lambda>_.
     let ikHash = (if key \<noteq> [] then Some (computeGenericIdempotencyHash E
           [ledgerID, ''delete_metadata'', int_String targetType, targetID, mkey]) else None) in
     andThen (time_Now E) (\<lambda>now.
     submitWithIdempotency E ledgerID key ikHash EventTypeMetadataDeleted False
       (doDeleteMetadataInTx E ledgerID targetType targetID mkey key ikHash now)))"

subsection \<open>Schemas\<close>

definition doInsertSchemaInTx ::
  "env \<Rightarrow> string \<Rightarrow> bytes \<Rightarrow> string \<Rightarrow> string \<Rightarrow> bytes option \<Rightarrow> time \<Rightarrow> SubmitResult prog" where
  "doInsertSchemaInTx E ledgerID schemaBytes version key ikHash now =
     andThen (appendEvent E ledgerID EventTypeSchemaInserted schemaBytes key ikHash now now) (\<lambda>(eventID, _).
     andThen (InsertSchema E Tx \<lparr>sc_LedgerID = ledgerID, sc_Version = version,
       sc_Document = DocBytes schemaBytes, sc_InsertedAt = 0, sc_EventID = eventID\<rparr>) (\<lambda>_.
     andThen (recordIfKeyed E ledgerID key eventID ikHash) (\<lambda>_.
     ok (submitted eventID))))"

definition SubmitInsertSchema ::
  "env \<Rightarrow> string \<Rightarrow> bytes \<Rightarrow> string \<Rightarrow> string \<Rightarrow> SubmitResult prog" where
  "SubmitInsertSchema E ledgerID schemaBytes version key =
     andThen (checkLedgerNotSealed E ledgerID) (\<lambda>_.
     let ikHash = (if key \<noteq> [] then Some (computeGenericIdempotencyHash E
           [ledgerID, ''insert_schema'', version]) else None) in
     andThen (time_Now E) (\<lambda>now.
     submitWithIdempotency E ledgerID key ikHash EventTypeSchemaInserted False
       (doInsertSchemaInTx E ledgerID schemaBytes version key ikHash now)))"

subsection \<open>Frames\<close>

lemma keeps_ifFound [frame_intro]: "keeps tx_frame m \<Longrightarrow> keeps tx_frame (ifFound m)"
  unfolding ifFound_def by (intro tx_frame.keeps_rules frame_intro)

lemma keeps_setTarget [frame_intro]: "keeps tx_frame (setTarget E l tt ti md now)"
  unfolding setTarget_def by (intro tx_frame.keeps_rules frame_intro)

lemma keeps_deleteTarget [frame_intro]: "keeps tx_frame (deleteTarget E l tt ti mk now)"
  unfolding deleteTarget_def by (intro tx_frame.keeps_rules frame_intro)

lemma keeps_currentMetadata [frame_intro]: "keeps tx_frame (currentMetadata E l tt ti)"
  unfolding currentMetadata_def by (intro tx_frame.keeps_rules frame_intro)

lemma keeps_doSetMetadataInTx [frame_intro]: "keeps tx_frame (doSetMetadataInTx E l tt ti md k h now)"
  unfolding doSetMetadataInTx_def by (intro tx_frame.keeps_rules frame_intro)

lemma keeps_doDeleteMetadataInTx [frame_intro]: "keeps tx_frame (doDeleteMetadataInTx E l tt ti mk k h now)"
  unfolding doDeleteMetadataInTx_def by (intro tx_frame.keeps_rules frame_intro)

lemma keeps_doInsertSchemaInTx [frame_intro]: "keeps tx_frame (doInsertSchemaInTx E l b v k h now)"
  unfolding doInsertSchemaInTx_def by (intro tx_frame.keeps_rules frame_intro)

subsection \<open>Effects\<close>

text \<open>The accounts and the metadata of transactions may change, and nothing else.\<close>

definition retagged :: "db \<Rightarrow> db \<Rightarrow> bool" where
  "retagged d d' \<longleftrightarrow> (\<exists>as ts. d' = d\<lparr>accounts := as, transactions := ts\<rparr> \<and>
     map (\<lambda>r. r\<lparr>tr_metadata := JNull\<rparr>) ts = map (\<lambda>r. r\<lparr>tr_metadata := JNull\<rparr>) (transactions d))"

lemma retagged_refl: "retagged d d"
  unfolding retagged_def by (rule exI [of _ "accounts d"], rule exI [of _ "transactions d"]) simp

lemma retagged_trans: "retagged d d1 \<Longrightarrow> retagged d1 d' \<Longrightarrow> retagged d d'"
  unfolding retagged_def by fastforce

lemma retagged_upsert: "retagged d (upsert_account a d)"
proof -
  obtain as where "upsert_account a d = d\<lparr>accounts := as\<rparr>" using upsert_account_only by blast
  then show ?thesis
    unfolding retagged_def by (intro exI [of _ as] exI [of _ "transactions d"]) simp
qed

lemma retagged_transactions:
  "map (\<lambda>r. r\<lparr>tr_metadata := JNull\<rparr>) ts = map (\<lambda>r. r\<lparr>tr_metadata := JNull\<rparr>) (transactions d) \<Longrightarrow>
     retagged d (d\<lparr>transactions := ts\<rparr>)"
  unfolding retagged_def by (intro exI [of _ "accounts d"] exI [of _ ts]) simp

definition retag :: "string \<Rightarrow> string \<Rightarrow> (json \<Rightarrow> json) \<Rightarrow> db \<Rightarrow> db" where
  "retag l t f d = d\<lparr>transactions := map (\<lambda>x. if tr_ledger_id x = l \<and> tr_transaction_id x = t
     then x\<lparr>tr_metadata := f (tr_metadata x)\<rparr> else x) (transactions d)\<rparr>"

lemma retagged_retag: "retagged d (retag l t f d)"
  unfolding retag_def by (rule retagged_transactions) simp

lemma does_setTarget [does_intro]:
  "does (setTarget E l tt ti md now) (\<lambda>d r d'. r = Inr () \<longrightarrow>
     d' = (if tt = 0 then upsert_account \<lparr>ac_LedgerID = l, ac_Address = ti, ac_FirstUsage = now,
             ac_UpdatedAt = now, ac_Metadata = md\<rparr> d
           else if tt = 1 then retag l ti (\<lambda>j. jsonb_concat j (json_of_metadata md)) d else d) \<and>
     (tt = 1 \<longrightarrow> find_transaction l ti d \<noteq> None))"
  unfolding setTarget_def
  by (rule does_weaken, (rule does_intro)+) (auto simp: retag_def split: if_splits)

lemma does_ifFound [does_intro]:
  "does m R \<Longrightarrow> does (ifFound m) (\<lambda>d r d'. (\<forall>x. r = Inr (Some x) \<longrightarrow> R d (Inr x) d') \<and>
     (r = Inr None \<longrightarrow> (\<exists>e. errors_is e ErrNotFound \<and> R d (Inl e) d')) \<and>
     (\<forall>e. r = Inl e \<longrightarrow> R d (Inl e) d'))"
  unfolding ifFound_def
proof (rule does_weaken, (rule does_intro | assumption)+, goal_cases)
  case (1 d r d')
  from 1(2) show ?case
  proof (elim exE conjE)
    fix q d1
    assume "R d q d1" and "case q of Inl e \<Rightarrow> if errors_is e ErrNotFound then r = Inr None \<and> d' = d1
        else r = Inl e \<and> d' = d1 | Inr x \<Rightarrow> r = Inr (Some x) \<and> d' = d1"
    then show ?case by (cases q) (auto split: if_splits)
  qed
qed

definition minus_key :: "string \<Rightarrow> json \<Rightarrow> json" where
  "minus_key k j = (case jsonb_minus j k of Inl _ \<Rightarrow> j | Inr j' \<Rightarrow> j')"

lemma does_DeleteTransactionMetadataKey_rows:
  "does (DeleteTransactionMetadataKey E Tx l t k) (\<lambda>d r d'. d' = retag l t (minus_key k) d)"
  unfolding DeleteTransactionMetadataKey_def
  by (rule does_weaken, (rule does_intro does_stmt)+)
     (auto simp: delete_tx_key_sql_def Let_def retag_def minus_key_def split: if_splits)

text \<open>The effect of a deletion on its target.\<close>

definition deleted :: "string \<Rightarrow> int \<Rightarrow> string \<Rightarrow> string \<Rightarrow> time \<Rightarrow> db \<Rightarrow> db \<Rightarrow> bool" where
  "deleted l tt ti mk now d d' \<longleftrightarrow>
     (if tt = 0 then
        (case find_account l ti d of
           None \<Rightarrow> d' = d
         | Some row \<Rightarrow> \<exists>a. account_record row = Inr a \<and> d' = upsert_account (drop_key mk a now) d)
      else d' = (if tt = 1 then retag l ti (minus_key mk) d else d))"

lemma not_found_account: "does (GetAccount E Tx l a) (\<lambda>d r d'. d' = d \<and>
     (\<forall>x. r = Inr x \<longrightarrow> (\<exists>row. find_account l a d = Some row \<and> account_record row = Inr x)) \<and>
     (\<forall>e. r = Inl e \<longrightarrow> errors_is e ErrNotFound \<longrightarrow> find_account l a d = None))"
  unfolding GetAccount_def
  by (rule does_weaken, (rule does_intro)+)
     (auto simp: account_record_def metadata_of_json_def split: option.splits sum.splits json.splits)

lemma does_deleteTarget [does_intro]:
  "does (deleteTarget E l tt ti mk now) (\<lambda>d r d'. r = Inr () \<longrightarrow> deleted l tt ti mk now d d')"
  unfolding deleteTarget_def
  by (rule does_weaken, (rule not_found_account does_DeleteTransactionMetadataKey_rows does_intro)+)
     (fastforce simp: deleted_def split: if_splits option.splits)

lemma does_currentMetadata [does_intro]:
  "does (currentMetadata E l tt ti) (\<lambda>d r d'. d' = d)"
  unfolding currentMetadata_def
  by (rule does_weaken, (rule does_intro)+) (auto split: if_splits)

lemma retagged_deleted: "deleted l tt ti mk now d d' \<Longrightarrow> retagged d d'"
  by (auto simp: deleted_def retagged_refl retagged_upsert retagged_retag split: if_splits option.splits)

definition set_effect ::
  "string \<Rightarrow> int \<Rightarrow> string \<Rightarrow> metadata \<Rightarrow> string \<Rightarrow> bytes option \<Rightarrow> time \<Rightarrow> db \<Rightarrow> SubmitResult \<Rightarrow> db \<Rightarrow> bool" where
  "set_effect l tt ti md k h now d x d' \<longleftrightarrow>
     side_effect l EventTypeMetadataSet [] k h d x d' \<and> (tt = 1 \<longrightarrow> find_transaction l ti d \<noteq> None) \<and>
     accounts d' = accounts (if tt = 0 then upsert_account \<lparr>ac_LedgerID = l, ac_Address = ti,
       ac_FirstUsage = now, ac_UpdatedAt = now, ac_Metadata = md\<rparr> d else d) \<and>
     transactions d' = transactions (if tt = 1 then retag l ti (\<lambda>j. jsonb_concat j (json_of_metadata md)) d else d)"

definition delete_effect ::
  "string \<Rightarrow> int \<Rightarrow> string \<Rightarrow> string \<Rightarrow> string \<Rightarrow> bytes option \<Rightarrow> time \<Rightarrow> db \<Rightarrow> SubmitResult \<Rightarrow> db \<Rightarrow> bool" where
  "delete_effect l tt ti mk k h now d x d' \<longleftrightarrow>
     side_effect l EventTypeMetadataDeleted [] k h d x d' \<and>
     (\<exists>dd. deleted l tt ti mk now d dd \<and> accounts d' = accounts dd \<and> transactions d' = transactions dd)"

text \<open>An event, a change of accounts or transaction metadata, a history row and a key.\<close>

lemma retagged_effect:
  assumes key: "keyed l k (ev_EventID ev) h (dr\<lparr>metadata_history := mh\<rparr>) d'"
    and rt: "retagged (d\<lparr>log_events := log_events d @ [ev]\<rparr>) dr"
    and ev: "next_event l ty pl k d ev"
  shows "side_effect l ty [] k h d (submitted (ev_EventID ev)) d' \<and>
    accounts d' = accounts dr \<and> transactions d' = transactions dr"
proof -
  obtain as ts where dr: "dr = d\<lparr>log_events := log_events d @ [ev], accounts := as, transactions := ts\<rparr>"
    and ts: "map (\<lambda>r. r\<lparr>tr_metadata := JNull\<rparr>) ts = map (\<lambda>r. r\<lparr>tr_metadata := JNull\<rparr>) (transactions d)"
    using rt by (auto simp: retagged_def)
  have "side_effect l ty [] k h d (submitted (ev_EventID ev)) d'"
    by (rule side_effectI [OF key ev, where db = "d\<lparr>accounts := as, transactions := ts, metadata_history := mh\<rparr>"])
       (simp_all add: dr ts)
  moreover obtain ks where "d' = (dr\<lparr>metadata_history := mh\<rparr>)\<lparr>idempotency_keys := ks\<rparr>"
    using keyed_elim [OF key refl] by blast
  ultimately show ?thesis by simp
qed

lemma upsert_account_log:
  "accounts (upsert_account a (d\<lparr>log_events := es\<rparr>)) = accounts (upsert_account a d)"
  "transactions (upsert_account a (d\<lparr>log_events := es\<rparr>)) = transactions (upsert_account a d)"
  "transactions (upsert_account a d) = transactions d"
  by (simp_all add: upsert_account_def upsert_account_sql_def Let_def)

lemma retag_log:
  "transactions (retag l t f (d\<lparr>log_events := es\<rparr>)) = transactions (retag l t f d)"
  "accounts (retag l t f d) = accounts d"
  by (simp_all add: retag_def)

lemma find_log [simp]:
  "find_transaction l t (d\<lparr>log_events := es\<rparr>) = find_transaction l t d"
  "find_account l t (d\<lparr>log_events := es\<rparr>) = find_account l t d"
  by (simp_all add: find_transaction_def find_account_def)

lemma deleted_log:
  assumes "deleted l tt ti mk now (d\<lparr>log_events := es\<rparr>) dr"
  shows "\<exists>dd. deleted l tt ti mk now d dd \<and> accounts dr = accounts dd \<and> transactions dr = transactions dd"
proof -
  let ?dd = "if tt = 0 then (case find_account l ti d of None \<Rightarrow> d
       | Some row \<Rightarrow> (case account_record row of Inl _ \<Rightarrow> d | Inr a \<Rightarrow> upsert_account (drop_key mk a now) d))
     else if tt = 1 then retag l ti (minus_key mk) d else d"
  have "deleted l tt ti mk now d ?dd \<and> accounts dr = accounts ?dd \<and> transactions dr = transactions ?dd"
    using assms by (auto simp: deleted_def upsert_account_log retag_log split: option.splits)
  then show ?thesis by blast
qed

lemma does_doSetMetadataInTx:
  "does (doSetMetadataInTx E l tt ti md k h now)
     (\<lambda>d r d'. \<forall>x. r = Inr x \<longrightarrow> set_effect l tt ti md k h now d x d')"
  unfolding doSetMetadataInTx_def
proof (rule does_weaken, (rule does_intro)+, intro allI impI, goal_cases)
  case (1 d r d' x)
  then obtain ev dr mh where ev: "next_event l EventTypeMetadataSet (set_payload tt ti md) k d ev"
    and x: "x = submitted (ev_EventID ev)"
    and key: "keyed l k (ev_EventID ev) h (dr\<lparr>metadata_history := mh\<rparr>) d'"
    and dr: "dr = (if tt = 0 then upsert_account \<lparr>ac_LedgerID = l, ac_Address = ti, ac_FirstUsage = now,
             ac_UpdatedAt = now, ac_Metadata = md\<rparr> (d\<lparr>log_events := log_events d @ [ev]\<rparr>)
           else if tt = 1 then retag l ti (\<lambda>j. jsonb_concat j (json_of_metadata md)) (d\<lparr>log_events := log_events d @ [ev]\<rparr>)
           else d\<lparr>log_events := log_events d @ [ev]\<rparr>)"
    and ft: "tt = 1 \<longrightarrow> find_transaction l ti d \<noteq> None"
    by clarsimp
  have "retagged (d\<lparr>log_events := log_events d @ [ev]\<rparr>) dr"
    by (simp add: dr retagged_refl retagged_upsert retagged_retag)
  from retagged_effect [OF key this ev] show ?case
    using x ft by (auto simp: set_effect_def dr upsert_account_log retag_log)
qed

lemma does_doDeleteMetadataInTx:
  "does (doDeleteMetadataInTx E l tt ti mk k h now)
     (\<lambda>d r d'. \<forall>x. r = Inr x \<longrightarrow> delete_effect l tt ti mk k h now d x d')"
  unfolding doDeleteMetadataInTx_def
proof (rule does_weaken, (rule does_intro)+, intro allI impI, goal_cases)
  case (1 d r d' x)
  then obtain ev dr mh where ev: "next_event l EventTypeMetadataDeleted (delete_payload tt ti mk) k d ev"
    and x: "x = submitted (ev_EventID ev)"
    and key: "keyed l k (ev_EventID ev) h (dr\<lparr>metadata_history := mh\<rparr>) d'"
    and dr: "deleted l tt ti mk now (d\<lparr>log_events := log_events d @ [ev]\<rparr>) dr"
    by clarsimp
  from retagged_effect [OF key retagged_deleted [OF dr] ev] deleted_log [OF dr] show ?case
    using x by (auto simp: delete_effect_def)
qed

lemma does_doInsertSchemaInTx:
  "does (doInsertSchemaInTx E l b v k h now)
     (\<lambda>d r d'. \<forall>x. r = Inr x \<longrightarrow> side_effect l EventTypeSchemaInserted [] k h d x d')"
  unfolding doInsertSchemaInTx_def
proof (rule does_weaken, (rule does_intro)+, intro allI impI, goal_cases)
  case (1 d r d' x)
  then obtain ev rows where ev: "next_event l EventTypeSchemaInserted b k d ev"
    and x: "x = submitted (ev_EventID ev)"
    and key: "keyed l k (ev_EventID ev) h (d\<lparr>log_events := log_events d @ [ev], schemas := rows\<rparr>) d'"
    by clarsimp
  show ?case
    by (rule side_effectI [OF key ev, where db = "d\<lparr>schemas := rows\<rparr>"]) (simp_all add: x)
qed

interpretation set_metadata: ledger_operation "\<lambda>lr now. doSetMetadataInTx E l tt ti md k h now"
    "\<lambda>lr now. set_effect l tt ti md k h now" for E l tt ti md k h
  by unfold_locales (rule keeps_doSetMetadataInTx, rule does_doSetMetadataInTx)

interpretation delete_metadata: ledger_operation "\<lambda>lr now. doDeleteMetadataInTx E l tt ti mk k h now"
    "\<lambda>lr now. delete_effect l tt ti mk k h now" for E l tt ti mk k h
  by unfold_locales (rule keeps_doDeleteMetadataInTx, rule does_doDeleteMetadataInTx)

interpretation insert_schema: ledger_operation "\<lambda>lr now. doInsertSchemaInTx E l b v k h now"
    "\<lambda>lr now. side_effect l EventTypeSchemaInserted [] k h" for E l b v k h
  by unfold_locales (rule keeps_doInsertSchemaInTx, rule does_doInsertSchemaInTx)

lemma SubmitSetMetadata_run:
  "SubmitSetMetadata E l tt ti md k w = (r, w') \<Longrightarrow>
     outcome l False (\<lambda>lr d x d'. \<exists>h now. set_effect l tt ti md k h now d x d') w r w'"
  unfolding SubmitSetMetadata_def Let_def by (auto dest!: set_metadata.guarded_run elim!: outcome_mono)

lemma SubmitDeleteMetadata_run:
  "SubmitDeleteMetadata E l tt ti mk k w = (r, w') \<Longrightarrow>
     outcome l False (\<lambda>lr d x d'. \<exists>h now. delete_effect l tt ti mk k h now d x d') w r w'"
  unfolding SubmitDeleteMetadata_def Let_def by (auto dest!: delete_metadata.guarded_run elim!: outcome_mono)

lemma SubmitInsertSchema_run:
  "SubmitInsertSchema E l b v k w = (r, w') \<Longrightarrow>
     outcome l False (\<lambda>lr d x d'. \<exists>h. side_effect l EventTypeSchemaInserted [] k h d x d') w r w'"
  unfolding SubmitInsertSchema_def Let_def by (auto dest!: insert_schema.guarded_run elim!: outcome_mono)

end
