(* ===== verification/Planner_Policy.thy ===== *)
theory Planner_Policy
  imports Accounting
begin

text \<open>
  Policy checks of the planner, \<^verbatim>\<open>src/internal/planner/operations_policy.go\<close>: the evaluation of
  the active policy of a ledger, and the audit event of a denial.
\<close>

text \<open>Denied or not, and the reason. A stored policy that does not parse is an error.\<close>

definition checkPolicy :: "env \<Rightarrow> string \<Rightarrow> string \<Rightarrow> string \<Rightarrow> string list \<Rightarrow> (bool \<times> string) prog" where
  "checkPolicy E ledgerID who operationType accountsTouched =
     andThen (GetActivePolicy E Pool ledgerID) (\<lambda>pol.
     case pol of
       None \<Rightarrow> ok (False, [])
     | Some p \<Rightarrow>
         (case ValidatePolicy (po_CedarPolicy p) of
            Some e \<Rightarrow> fail (wrapped (''active policy for ledger '' @ quoted ledgerID @ '' is malformed: '') e)
          | None \<Rightarrow>
              let result = Evaluate (po_CedarPolicy p) who operationType accountsTouched in
              ok (Denied result, Reason result)))"

definition EvaluatePolicy :: "env \<Rightarrow> string \<Rightarrow> string \<Rightarrow> string \<Rightarrow> string list \<Rightarrow> unit prog" where
  "EvaluatePolicy E ledgerID who operationType accountsTouched =
     andThen (checkPolicy E ledgerID who operationType accountsTouched) (\<lambda>(denied, reason).
     if denied then fail (suffixed ErrPolicyDenied ('': '' @ reason)) else ok ())"

definition denial_payload :: "string \<Rightarrow> string \<Rightarrow> bytes" where
  "denial_payload who reason = json_marshal (json_map [(''principal'', JStr who), (''reason'', JStr reason)])"

definition writePolicyDenialEvent :: "env \<Rightarrow> string \<Rightarrow> string \<Rightarrow> string \<Rightarrow> unit prog" where
  "writePolicyDenialEvent E ledgerID who reason =
     andThen (time_Now E) (\<lambda>now.
     andThen (BeginTx E) (\<lambda>_.
     deferRollback (
       andThen (appendEvent E ledgerID EventTypePolicyDenied (denial_payload who reason) [] None now now) (\<lambda>_.
       Commit E))))"

definition WritePolicyDenialEvent :: "env \<Rightarrow> string \<Rightarrow> string \<Rightarrow> string \<Rightarrow> unit prog" where
  "WritePolicyDenialEvent E ledgerID who reason = writePolicyDenialEvent E ledgerID who reason"

subsection \<open>What a check establishes\<close>

text \<open>
  When the database answers, the check passes exactly if the ledger has no active policy, or has
  a well-formed one that does not deny the request.
\<close>

definition permits :: "string \<Rightarrow> string \<Rightarrow> string \<Rightarrow> string list \<Rightarrow> db \<Rightarrow> bool" where
  "permits l who operation accts d \<longleftrightarrow>
     (case active_policy l d of
        None \<Rightarrow> True
      | Some p \<Rightarrow> ValidatePolicy (po_CedarPolicy p) = None \<and>
          \<not> Denied (Evaluate (po_CedarPolicy p) who operation accts))"

lemma EvaluatePolicy_run:
  assumes "fault E (n_sql w) = None"
  shows "fst (EvaluatePolicy E l who operation accts w) = Inr () \<longleftrightarrow> permits l who operation accts (pg w)"
    and "pg (snd (EvaluatePolicy E l who operation accts w)) = pg w"
  unfolding EvaluatePolicy_def checkPolicy_def GetActivePolicy_def permits_def
  by (simp_all add: andThen_def query_Pool_run [OF assms] Let_def split: option.split)

subsection \<open>The audit event of a denial\<close>

lemma tx_bracket:
  assumes run: "andThen (mapErr f (BeginTx E)) (\<lambda>_. deferRollback (andThen m (\<lambda>_. mapErr g (Commit E)))) w = (r, w')"
    and keep: "keeps tx_frame m" and eff: "does m (\<lambda>d r d'. \<forall>x. r = Inr x \<longrightarrow> Q d d')"
  shows "(\<exists>e. r = Inl e) \<and> pg w' = pg w \<or> r = Inr () \<and> Q (pg w) (pg w')"
proof (cases "BeginTx E w")
  case (Pair b v)
  show ?thesis
  proof (cases b)
    case (Inl e)
    then show ?thesis using run Pair keepsD [OF keeps_pg_BeginTx Pair]
      by (auto simp: andThen_def mapErr_def pg_frame_def)
  next
    case (Inr u)
    note v = BeginTx_ok [OF Pair [unfolded Inr]]
    have "deferRollback (andThen m (\<lambda>_. mapErr g (Commit E))) v = (r, w')"
      using run Pair Inr by (simp add: andThen_def mapErr_def)
    then obtain v' where body: "andThen m (\<lambda>_. mapErr g (Commit E)) v = (r, v')" and w': "pg w' = pg v'"
      using deferRollback_run Rollback_world(1) by metis
    obtain q v1 where m: "m v = (q, v1)" by (cases "m v")
    have fr: "pg v1 = pg w" using keepsD [OF keep m] v by (simp add: tx_frame_def)
    obtain c u where c: "Commit E v1 = (c, u)" by (cases "Commit E v1")
    show ?thesis
      using body m fr w' c Commit_cases [OF c] does_open [OF eff m, of "pg w"] v
      by (cases q; cases c) (auto simp: andThen_def mapErr_def)
  qed
qed

text \<open>A step that appends one event of a ledger and nothing else.\<close>

definition logged :: "string \<Rightarrow> int \<Rightarrow> db \<Rightarrow> db \<Rightarrow> bool" where
  "logged l ty d d' \<longleftrightarrow> (\<exists>ev. booked l ev [] d d' \<and> ev_Type ev = ty \<and> d' = d\<lparr>log_events := log_events d @ [ev]\<rparr>)"

lemma logged_sound: "logged l ty d d' \<Longrightarrow> sound d \<Longrightarrow> sound d'"
  unfolding logged_def using booked_sound_holds by fastforce

lemma does_logged:
  "does (appendEvent E l ty pl [] None vt now) (\<lambda>d r d'. \<forall>x. r = Inr x \<longrightarrow> logged l ty d d')"
  by (rule does_weaken [OF does_appendEvent])
     (fastforce simp: logged_def booked_def next_event_def zero_sum_def)

lemma writePolicyDenialEvent_run:
  assumes "writePolicyDenialEvent E l who reason w = (r, w')"
  shows "(\<exists>e. r = Inl e) \<and> pg w' = pg w \<or> r = Inr () \<and> logged l EventTypePolicyDenied (pg w) (pg w')"
proof -
  let ?now = "clock E (n_clock w)"
  have "andThen (mapErr (\<lambda>e. e) (BeginTx E)) (\<lambda>_. deferRollback (andThen (appendEvent E l EventTypePolicyDenied
      (denial_payload who reason) [] None ?now ?now) (\<lambda>_. mapErr (\<lambda>e. e) (Commit E)))) (w\<lparr>n_clock := Suc (n_clock w)\<rparr>) = (r, w')"
    using assms by (simp add: writePolicyDenialEvent_def andThen_def [of "time_Now E"] time_Now_def mapErr_id)
  from tx_bracket [OF this keeps_appendEvent does_logged] show ?thesis by simp
qed

end
