(* ===== verification/Planner_Batch.thy ===== *)
theory Planner_Batch
  imports Planner_Metadata Planner_Policy
begin

text \<open>
  Batches of intents, \<^verbatim>\<open>src/internal/planner/operations_batch.go\<close>. In mode \<open>ALL_OR_NOTHING\<close> all
  intents run in one transaction, in mode \<open>BEST_EFFORT\<close> each is submitted on its own.
\<close>

record BatchIntent =
  bi_Type :: string
  bi_Postings :: "PostingInput list"
  bi_Reference :: string
  bi_Metadata :: metadata
  bi_IdempotencyKey :: string
  bi_Source :: string
  bi_DestinationHint :: string
  bi_Asset :: string
  bi_Amount :: "int option"
  bi_ExpiresAt :: time
  bi_HoldID :: string
  bi_Destination :: string
  bi_OriginalTxID :: string
  bi_Force :: bool
  bi_AtEffectiveDate :: bool
  bi_Reason :: string
  bi_ConvertParams :: "ConvertParams option"
  bi_TargetType :: int
  bi_TargetID :: string
  bi_MetadataKey :: string

text \<open>The text of an error is kept as the error itself.\<close>

record BatchIntentResult =
  ir_EventID :: string
  ir_Success :: bool
  ir_Error :: "error option"

record BatchResult =
  br_Results :: "BatchIntentResult list"
  br_Successes :: nat
  br_Failures :: nat
  br_Failed :: bool
  br_FailedAt :: nat
  br_Error :: "error option"

definition empty_result :: BatchIntentResult where
  "empty_result = \<lparr>ir_EventID = [], ir_Success = False, ir_Error = None\<rparr>"

definition succeeded :: "SubmitResult \<Rightarrow> BatchIntentResult" where
  "succeeded r = \<lparr>ir_EventID = EventID r, ir_Success = True, ir_Error = None\<rparr>"

subsection \<open>Intents inside the batch's transaction\<close>

definition executePostInTx :: "env \<Rightarrow> string \<Rightarrow> BatchIntent \<Rightarrow> SubmitResult prog" where
  "executePostInTx E ledgerID intent =
     andThen (GetLedger E Tx ledgerID) (\<lambda>ledger.
     andThen (time_Now E) (\<lambda>now.
     doPostInTx E ledger (bi_Postings intent) (bi_Reference intent) (bi_Metadata intent)
       (bi_IdempotencyKey intent) None now now False))"

definition executeSetMetadataInTx :: "env \<Rightarrow> string \<Rightarrow> BatchIntent \<Rightarrow> SubmitResult prog" where
  "executeSetMetadataInTx E ledgerID intent =
     andThen (time_Now E) (\<lambda>now.
     doSetMetadataInTx E ledgerID (bi_TargetType intent) (bi_TargetID intent) (bi_Metadata intent) [] None now)"

definition executeDeleteMetadataInTx :: "env \<Rightarrow> string \<Rightarrow> BatchIntent \<Rightarrow> SubmitResult prog" where
  "executeDeleteMetadataInTx E ledgerID intent =
     andThen (time_Now E) (\<lambda>now.
     doDeleteMetadataInTx E ledgerID (bi_TargetType intent) (bi_TargetID intent) (bi_MetadataKey intent) [] None now)"

definition executeAuthorizeInTx :: "env \<Rightarrow> string \<Rightarrow> BatchIntent \<Rightarrow> SubmitResult prog" where
  "executeAuthorizeInTx E ledgerID intent =
     andThen (GetLedger E Tx ledgerID) (\<lambda>ledger.
     andThen (time_Now E) (\<lambda>now.
     doAuthorizeInTx E ledger (bi_Source intent) (bi_DestinationHint intent) (bi_Asset intent)
       (bi_Amount intent) (bi_ExpiresAt intent) [] None now))"

definition executeCaptureInTx :: "env \<Rightarrow> string \<Rightarrow> BatchIntent \<Rightarrow> SubmitResult prog" where
  "executeCaptureInTx E ledgerID intent =
     andThen (time_Now E) (\<lambda>now.
     doCaptureInTx E ledgerID (bi_HoldID intent) (bi_Amount intent) (bi_Destination intent) [] None now)"

definition executeVoidInTx :: "env \<Rightarrow> string \<Rightarrow> BatchIntent \<Rightarrow> SubmitResult prog" where
  "executeVoidInTx E ledgerID intent =
     andThen (time_Now E) (\<lambda>now. doVoidInTx E ledgerID (bi_HoldID intent) [] None now)"

definition executeRevertInTx :: "env \<Rightarrow> string \<Rightarrow> BatchIntent \<Rightarrow> SubmitResult prog" where
  "executeRevertInTx E ledgerID intent =
     andThen (time_Now E) (\<lambda>now.
     doRevertInTx E ledgerID (bi_OriginalTxID intent) (bi_Force intent) (bi_AtEffectiveDate intent)
       (bi_Reason intent) [] None now)"

definition executeAmendInTx :: "env \<Rightarrow> string \<Rightarrow> BatchIntent \<Rightarrow> SubmitResult prog" where
  "executeAmendInTx E ledgerID intent =
     andThen (time_Now E) (\<lambda>now.
     doAmendInTx E ledgerID (bi_OriginalTxID intent) (bi_Metadata intent) [] None now)"

definition executeConvertInTx :: "env \<Rightarrow> string \<Rightarrow> BatchIntent \<Rightarrow> SubmitResult prog" where
  "executeConvertInTx E ledgerID intent =
     (case bi_ConvertParams intent of
        None \<Rightarrow> fail (Errorf ''convert intent missing params'')
      | Some params \<Rightarrow>
          andThen (GetLedger E Tx ledgerID) (\<lambda>ledger.
          andThen (time_Now E) (\<lambda>now.
          let vt = (case cv_ValidTime params of None \<Rightarrow> now | Some t \<Rightarrow> t) in
          doConvertInTx E ledger params [] None vt now)))"

definition executeIntentInTx :: "env \<Rightarrow> string \<Rightarrow> BatchIntent \<Rightarrow> SubmitResult prog" where
  "executeIntentInTx E ledgerID intent =
     (let ty = bi_Type intent in
      if ty = ''post'' then executePostInTx E ledgerID intent
      else if ty = ''set_metadata'' then executeSetMetadataInTx E ledgerID intent
      else if ty = ''delete_metadata'' then executeDeleteMetadataInTx E ledgerID intent
      else if ty = ''authorize'' then executeAuthorizeInTx E ledgerID intent
      else if ty = ''capture'' then executeCaptureInTx E ledgerID intent
      else if ty = ''void'' then executeVoidInTx E ledgerID intent
      else if ty = ''revert'' then executeRevertInTx E ledgerID intent
      else if ty = ''amend'' then executeAmendInTx E ledgerID intent
      else if ty = ''convert'' then executeConvertInTx E ledgerID intent
      else fail (Errorf (''unsupported operation type '' @ quoted ty @ '' in batch'')))"

subsection \<open>Intents submitted on their own\<close>

definition executeIntent :: "env \<Rightarrow> string \<Rightarrow> BatchIntent \<Rightarrow> SubmitResult prog" where
  "executeIntent E ledgerID intent =
     (let ty = bi_Type intent; key = bi_IdempotencyKey intent in
      if ty = ''post'' then
        SubmitPost E ledgerID (bi_Postings intent) (bi_Reference intent) (bi_Metadata intent) key None False
      else if ty = ''authorize'' then
        SubmitAuthorize E ledgerID (bi_Source intent) (bi_DestinationHint intent) (bi_Asset intent)
          (bi_Amount intent) (bi_ExpiresAt intent) key
      else if ty = ''capture'' then
        SubmitCapture E ledgerID (bi_HoldID intent) (bi_Amount intent) (bi_Destination intent) key
      else if ty = ''void'' then SubmitVoid E ledgerID (bi_HoldID intent) key
      else if ty = ''revert'' then
        SubmitRevert E ledgerID (bi_OriginalTxID intent) (bi_Force intent) (bi_AtEffectiveDate intent)
          (bi_Reason intent) key
      else if ty = ''amend'' then SubmitAmend E ledgerID (bi_OriginalTxID intent) (bi_Metadata intent) key
      else if ty = ''convert'' then
        (case bi_ConvertParams intent of
           None \<Rightarrow> fail (Errorf ''convert intent missing params'')
         | Some params \<Rightarrow> SubmitConvert E ledgerID params key)
      else if ty = ''set_metadata'' then
        SubmitSetMetadata E ledgerID (bi_TargetType intent) (bi_TargetID intent) (bi_Metadata intent) key
      else if ty = ''delete_metadata'' then
        SubmitDeleteMetadata E ledgerID (bi_TargetType intent) (bi_TargetID intent) (bi_MetadataKey intent) key
      else fail (Errorf (''unsupported batch intent type: '' @ ty)))"

subsection \<open>The two modes\<close>

text \<open>
  The loop of \<open>ALL_OR_NOTHING\<close>: the results so far, and the error of the first failing intent.
\<close>

fun runIntents :: "env \<Rightarrow> string \<Rightarrow> BatchIntent list \<Rightarrow> (BatchIntentResult list \<times> error option) prog" where
  "runIntents E ledgerID [] = ok ([], None)"
| "runIntents E ledgerID (intent # rest) =
     attempt (executeIntentInTx E ledgerID intent) (\<lambda>r.
     case r of
       Inl e \<Rightarrow> ok ([], Some e)
     | Inr result \<Rightarrow>
         andThen (runIntents E ledgerID rest) (\<lambda>(rs, err). ok (succeeded result # rs, err)))"

definition submitAtomic :: "env \<Rightarrow> string \<Rightarrow> BatchIntent list \<Rightarrow> (BatchResult \<times> error option) prog" where
  "submitAtomic E ledgerID intents =
     andThen (mapErr (wrapped ''beginning batch tx: '') (BeginTx E)) (\<lambda>_.
     deferRollback (
       andThen (runIntents E ledgerID intents) (\<lambda>(rs, err).
       case err of
         Some e \<Rightarrow> ok (\<lparr>br_Results = rs @ replicate (length intents - length rs) empty_result,
           br_Successes = 0, br_Failures = 0, br_Failed = True, br_FailedAt = length rs, br_Error = Some e\<rparr>, Some e)
       | None \<Rightarrow>
           andThen (mapErr (wrapped ''committing batch: '') (Commit E)) (\<lambda>_.
           ok (\<lparr>br_Results = rs, br_Successes = length intents, br_Failures = 0,
             br_Failed = False, br_FailedAt = 0, br_Error = None\<rparr>, None)))))"

fun submitEach :: "env \<Rightarrow> string \<Rightarrow> BatchIntent list \<Rightarrow> BatchIntentResult list prog" where
  "submitEach E ledgerID [] = ok []"
| "submitEach E ledgerID (intent # rest) =
     attempt (executeIntent E ledgerID intent) (\<lambda>r.
     andThen (submitEach E ledgerID rest) (\<lambda>rs.
     ok ((case r of Inl e \<Rightarrow> \<lparr>ir_EventID = [], ir_Success = False, ir_Error = Some e\<rparr>
          | Inr result \<Rightarrow> succeeded result) # rs)))"

text \<open>Both a result and an error are returned when an intent of an atomic batch fails.\<close>

definition SubmitBatch ::
  "env \<Rightarrow> string \<Rightarrow> BatchIntent list \<Rightarrow> string \<Rightarrow> (BatchResult \<times> error option) prog" where
  "SubmitBatch E ledgerID intents mode =
     andThen (checkLedgerNotSealed E ledgerID) (\<lambda>_.
     if mode = ''ALL_OR_NOTHING'' then submitAtomic E ledgerID intents
     else if mode = ''BEST_EFFORT'' then
       andThen (submitEach E ledgerID intents) (\<lambda>rs.
       ok (\<lparr>br_Results = rs, br_Successes = length (filter ir_Success rs),
         br_Failures = length (filter (\<lambda>r. \<not> ir_Success r) rs), br_Failed = False, br_FailedAt = 0,
         br_Error = None\<rparr>, None))
     else fail (Errorf (''unsupported batch mode: '' @ mode)))"

subsection \<open>Effects of intents\<close>

text \<open>What any single operation does to the tables of a ledger.\<close>

inductive op_effect :: "string \<Rightarrow> db \<Rightarrow> SubmitResult \<Rightarrow> db \<Rightarrow> bool" for l where
  op_post: "post_effect lr ps k h vt now False d x d' \<Longrightarrow> lr_ID lr = l \<Longrightarrow> op_effect l d x d'"
| op_authorize: "authorize_effect lr so as am k h d x d' \<Longrightarrow> lr_ID lr = l \<Longrightarrow> op_effect l d x d'"
| op_capture: "capture_effect l i am ds k h d x d' \<Longrightarrow> op_effect l d x d'"
| op_void: "void_effect l i k h d x d' \<Longrightarrow> op_effect l d x d'"
| op_revert: "revert_effect l t f k h d x d' \<Longrightarrow> op_effect l d x d'"
| op_amend: "amend_effect l t md k h d x d' \<Longrightarrow> op_effect l d x d'"
| op_convert: "convert_effect lr p k h vt now d x d' \<Longrightarrow> lr_ID lr = l \<Longrightarrow> op_effect l d x d'"
| op_set: "set_effect l tt ti md k h now d x d' \<Longrightarrow> op_effect l d x d'"
| op_delete: "delete_effect l tt ti mk k h now d x d' \<Longrightarrow> op_effect l d x d'"
| op_schema: "side_effect l EventTypeSchemaInserted [] k h d x d' \<Longrightarrow> op_effect l d x d'"

lemma amend_side: "amend_effect l t md k h d x d' \<Longrightarrow> \<exists>rels. side_effect l EventTypeTransactionAmended rels k h d x d'"
  by (auto simp: amend_effect_def)

lemma set_side: "set_effect l tt ti md k h now d x d' \<Longrightarrow> side_effect l EventTypeMetadataSet [] k h d x d'"
  by (simp add: set_effect_def)

lemma delete_side: "delete_effect l tt ti mk k h now d x d' \<Longrightarrow> side_effect l EventTypeMetadataDeleted [] k h d x d'"
  by (simp add: delete_effect_def)

lemma op_effect_sound: "op_effect l d x d' \<Longrightarrow> sound d \<Longrightarrow> sound d'"
  by (induction rule: op_effect.induct)
     (blast intro: post_effect_sound authorize_effect_sound capture_effect_sound void_effect_sound
       revert_effect_sound convert_effect_sound side_effect_sound dest: amend_side set_side delete_side)+

lemma op_effect_fresh: "op_effect l d x d' \<Longrightarrow> \<not> IdempotentHit x"
  by (induction rule: op_effect.induct)
     (auto simp: post_effect_def authorize_effect_def capture_effect_def void_effect_def
      revert_effect_def amend_effect_def convert_effect_def set_effect_def delete_effect_def side_effect_def Let_def)

subsection \<open>The transaction of an atomic batch\<close>

lemma keeps_executeIntentInTx [frame_intro]: "keeps tx_frame (executeIntentInTx E l intent)"
  unfolding executeIntentInTx_def executePostInTx_def executeSetMetadataInTx_def executeDeleteMetadataInTx_def
    executeAuthorizeInTx_def executeCaptureInTx_def executeVoidInTx_def executeRevertInTx_def
    executeAmendInTx_def executeConvertInTx_def Let_def
  by (intro tx_frame.keeps_rules frame_intro)

lemma found_ledger_id: "find_ledger l d = Some row \<Longrightarrow> ledger_record row = Inr lr \<Longrightarrow> lr_ID lr = l"
  using ledger_record_simps(1) find_ledger_id by force

lemmas does_ops = does_doPostInTx does_doAuthorizeInTx does_doCaptureInTx does_doVoidInTx does_doRevertInTx
  does_doAmendInTx does_doConvertInTx does_doSetMetadataInTx does_doDeleteMetadataInTx

text \<open>
  What one intent does to the tables when it runs inside the transaction of a batch: the effect of
  the operation its type names, with the fields of the intent as arguments. Only a post passes its
  idempotency key on.
\<close>

definition ledger_at :: "string \<Rightarrow> db \<Rightarrow> LedgerRecord \<Rightarrow> bool" where
  "ledger_at l d lr \<longleftrightarrow> (\<exists>row. find_ledger l d = Some row \<and> ledger_record row = Inr lr)"

definition intent_effect :: "string \<Rightarrow> BatchIntent \<Rightarrow> db \<Rightarrow> SubmitResult \<Rightarrow> db \<Rightarrow> bool" where
  "intent_effect l intent d x d' \<longleftrightarrow>
     (let ty = bi_Type intent in
      if ty = ''post'' then (\<exists>lr now. ledger_at l d lr \<and>
        post_effect lr (bi_Postings intent) (bi_IdempotencyKey intent) None now now False d x d')
      else if ty = ''set_metadata'' then (\<exists>now.
        set_effect l (bi_TargetType intent) (bi_TargetID intent) (bi_Metadata intent) [] None now d x d')
      else if ty = ''delete_metadata'' then (\<exists>now.
        delete_effect l (bi_TargetType intent) (bi_TargetID intent) (bi_MetadataKey intent) [] None now d x d')
      else if ty = ''authorize'' then (\<exists>lr. ledger_at l d lr \<and>
        authorize_effect lr (bi_Source intent) (bi_Asset intent) (bi_Amount intent) [] None d x d')
      else if ty = ''capture'' then
        capture_effect l (bi_HoldID intent) (bi_Amount intent) (bi_Destination intent) [] None d x d'
      else if ty = ''void'' then void_effect l (bi_HoldID intent) [] None d x d'
      else if ty = ''revert'' then revert_effect l (bi_OriginalTxID intent) (bi_Force intent) [] None d x d'
      else if ty = ''amend'' then amend_effect l (bi_OriginalTxID intent) (bi_Metadata intent) [] None d x d'
      else ty = ''convert'' \<and> (\<exists>lr p now. ledger_at l d lr \<and> bi_ConvertParams intent = Some p \<and>
        convert_effect lr p [] None (case cv_ValidTime p of None \<Rightarrow> now | Some t \<Rightarrow> t) now d x d'))"

lemma ledger_at_id: "ledger_at l d lr \<Longrightarrow> lr_ID lr = l"
  by (auto simp: ledger_at_def intro: found_ledger_id)

lemma intent_effect_op: "intent_effect l intent d x d' \<Longrightarrow> op_effect l d x d'"
  unfolding intent_effect_def Let_def
  by (auto split: if_splits dest: ledger_at_id intro: op_effect.intros)

lemma does_executeIntentInTx:
  "does (executeIntentInTx E l intent) (\<lambda>d r d'. \<forall>x. r = Inr x \<longrightarrow> intent_effect l intent d x d')"
  unfolding executeIntentInTx_def executePostInTx_def executeSetMetadataInTx_def executeDeleteMetadataInTx_def
    executeAuthorizeInTx_def executeCaptureInTx_def executeVoidInTx_def executeRevertInTx_def
    executeAmendInTx_def executeConvertInTx_def Let_def
  by (rule does_weaken, (rule does_ops does_intro)+)
     (auto simp: intent_effect_def ledger_at_def split: if_splits option.splits)

text \<open>The views after each intent of a batch: the intents one after the other, each on the tables the one
  before left.\<close>

inductive chain :: "string \<Rightarrow> BatchIntent list \<Rightarrow> db \<Rightarrow> BatchIntentResult list \<Rightarrow> db \<Rightarrow> bool" for l where
  chain_Nil: "chain l [] d [] d"
| chain_Cons: "intent_effect l intent d x d1 \<Longrightarrow> chain l intents d1 rs d' \<Longrightarrow>
    chain l (intent # intents) d (succeeded x # rs) d'"

inductive_cases chain_NilE: "chain l [] d rs d'"
inductive_cases chain_ConsE: "chain l (intent # intents) d rs d'"

lemma chain_sound: "chain l intents d rs d' \<Longrightarrow> sound d \<Longrightarrow> sound d'"
  by (induction rule: chain.induct) (auto intro: op_effect_sound intent_effect_op)

lemma chain_success: "chain l intents d rs d' \<Longrightarrow> list_all ir_Success rs"
  by (induction rule: chain.induct) (simp_all add: succeeded_def)

lemma chain_length: "chain l intents d rs d' \<Longrightarrow> length rs = length intents"
  by (induction rule: chain.induct) simp_all

lemma keeps_runIntents [frame_intro]: "keeps tx_frame (runIntents E l intents)"
  by (induction intents; unfold runIntents.simps) (intro tx_frame.keeps_rules frame_intro | assumption)+

lemma does_runIntents:
  "does (runIntents E l intents) (\<lambda>d r d'. \<forall>rs. r = Inr (rs, None) \<longrightarrow> chain l intents d rs d')"
proof (induction intents)
  case Nil
  show ?case unfolding runIntents.simps by (rule does_weaken [OF does_ok]) (auto intro: chain_Nil)
next
  case (Cons intent intents)
  show ?case unfolding runIntents.simps
  proof (rule does_weaken, (rule does_executeIntentInTx Cons.IH does_intro)+, intro allI impI, goal_cases)
    case (1 d r d' rs)
    from 1(1) show ?case
    proof (elim exE conjE)
      fix q :: "error + SubmitResult" and d1
      assume q: "\<forall>x. q = Inr x \<longrightarrow> intent_effect l intent d x d1"
      assume "case q of Inl e \<Rightarrow> r = Inr ([], Some e) \<and> d' = d1 | Inr x \<Rightarrow>
        (\<exists>e. r = Inl e \<and> (\<forall>rs. Inl e = Inr (rs, None) \<longrightarrow> chain l intents d1 rs d')) \<or>
        (\<exists>p d2. (\<forall>rs. (Inr p :: error + _) = Inr (rs, None) \<longrightarrow> chain l intents d1 rs d2) \<and>
          (case p of (rs, err) \<Rightarrow> r = Inr (succeeded x # rs, err) \<and> d' = d2))"
      with 1(2) q show ?case by (cases q) (auto intro: chain_Cons)
    qed
  qed
qed

lemma deferRollback_pg: "pg (snd (deferRollback m w)) = pg (snd (m w))"
  by (simp add: snd_deferRollback)

text \<open>
  An atomic batch commits all of its intents, in order, or nothing at all.
\<close>

lemma submitAtomic_run:
  assumes "submitAtomic E l intents w = (r, w')"
  shows "(\<exists>e. r = Inl e) \<and> pg w' = pg w \<or> (\<exists>res e. r = Inr (res, Some e) \<and> br_Failed res \<and> pg w' = pg w) \<or>
    (\<exists>res. r = Inr (res, None) \<and> \<not> br_Failed res \<and> chain l intents (pg w) (br_Results res) (pg w'))"
proof (cases "BeginTx E w")
  case (Pair b v)
  show ?thesis
  proof (cases b)
    case (Inl e)
    then show ?thesis using assms Pair keepsD [OF keeps_pg_BeginTx Pair]
      by (auto simp: submitAtomic_def andThen_def mapErr_def pg_frame_def)
  next
    case (Inr u)
    note v = BeginTx_ok [OF Pair [unfolded Inr]]
    obtain q v1 where q: "runIntents E l intents v = (q, v1)" by (cases "runIntents E l intents v")
    have fr: "pg v1 = pg w" using keepsD [OF keeps_runIntents q] v by (simp add: tx_frame_def)
    note eff = does_open [OF does_runIntents q conjunct1 [OF v]]
    have "deferRollback (andThen (runIntents E l intents) (\<lambda>(rs, err).
       case err of
         Some e \<Rightarrow> ok (\<lparr>br_Results = rs @ replicate (length intents - length rs) empty_result,
           br_Successes = 0, br_Failures = 0, br_Failed = True, br_FailedAt = length rs, br_Error = Some e\<rparr>, Some e)
       | None \<Rightarrow>
           andThen (mapErr (wrapped ''committing batch: '') (Commit E)) (\<lambda>_.
           ok (\<lparr>br_Results = rs, br_Successes = length intents, br_Failures = 0,
             br_Failed = False, br_FailedAt = 0, br_Error = None\<rparr>, None)))) v = (r, w')"
      using assms Pair Inr by (simp add: submitAtomic_def andThen_def mapErr_def)
    from deferRollback_run [OF this] q fr eff show ?thesis
      by (auto simp: andThen_def mapErr_def split: sum.splits option.splits prod.splits dest!: Commit_cases)
  qed
qed

subsection \<open>Intents on their own\<close>

lemma outcome_op:
  assumes "outcome l dry Q w r w'"
    and "\<And>lr d x d'. lr_ID lr = l \<Longrightarrow> \<not> dry \<Longrightarrow> Q lr d x d' \<Longrightarrow> op_effect l d x d'"
  shows "outcome l dry (\<lambda>_. op_effect l) w r w'"
  using assms open_ledger_id unfolding outcome_def by blast

lemma Submit_ops:
  "SubmitPost E l ps ref md k vt dry w = (r, w') \<Longrightarrow> outcome l dry (\<lambda>_. op_effect l) w r w'"
  "SubmitAuthorize E l so hi as am ex k w = (r, w') \<Longrightarrow> outcome l False (\<lambda>_. op_effect l) w r w'"
  "SubmitCapture E l i am ds k w = (r, w') \<Longrightarrow> outcome l False (\<lambda>_. op_effect l) w r w'"
  "SubmitVoid E l i k w = (r, w') \<Longrightarrow> outcome l False (\<lambda>_. op_effect l) w r w'"
  "SubmitRevert E l t f a rs k w = (r, w') \<Longrightarrow> outcome l False (\<lambda>_. op_effect l) w r w'"
  "SubmitAmend E l t md k w = (r, w') \<Longrightarrow> outcome l False (\<lambda>_. op_effect l) w r w'"
  "SubmitConvert E l p k w = (r, w') \<Longrightarrow> outcome l False (\<lambda>_. op_effect l) w r w'"
  "SubmitSetMetadata E l tt ti md k w = (r, w') \<Longrightarrow> outcome l False (\<lambda>_. op_effect l) w r w'"
  "SubmitDeleteMetadata E l tt ti mk k w = (r, w') \<Longrightarrow> outcome l False (\<lambda>_. op_effect l) w r w'"
  "SubmitInsertSchema E l b v k w = (r, w') \<Longrightarrow> outcome l False (\<lambda>_. op_effect l) w r w'"
  by ((drule SubmitPost_run SubmitAuthorize_run SubmitCapture_run SubmitVoid_run SubmitRevert_run SubmitAmend_run
        SubmitConvert_run SubmitSetMetadata_run SubmitDeleteMetadata_run SubmitInsertSchema_run,
      erule outcome_op, elim exE, (simp only: if_False)?, rule op_effect.intros; (assumption | simp)); fail)+

lemma executeIntent_run:
  "executeIntent E l intent w = (r, w') \<Longrightarrow> outcome l False (\<lambda>_. op_effect l) w r w'"
  unfolding executeIntent_def Let_def
  by (auto split: if_splits option.splits simp: outcome_fail intro: Submit_ops)

text \<open>Any number of operations on a ledger.\<close>

inductive evolves :: "string \<Rightarrow> db \<Rightarrow> db \<Rightarrow> bool" for l where
  evolves_refl: "evolves l d d"
| evolves_step: "evolves l d d1 \<Longrightarrow> op_effect l d1 x d' \<Longrightarrow> evolves l d d'"

lemma evolves_trans: "evolves l d1 d' \<Longrightarrow> evolves l d d1 \<Longrightarrow> evolves l d d'"
  by (induction rule: evolves.induct) (auto intro: evolves_step)

lemma outcome_evolves: "outcome l dry (\<lambda>_. op_effect l) w r w' \<Longrightarrow> evolves l (pg w) (pg w')"
  unfolding outcome_def by (metis evolves_refl evolves_step)

lemma evolves_sound: "evolves l d d' \<Longrightarrow> sound d \<Longrightarrow> sound d'"
  by (induction rule: evolves.induct) (auto intro: op_effect_sound)

lemma chain_evolves: "chain l intents d rs d' \<Longrightarrow> evolves l d d'"
proof (induction rule: chain.induct)
  case (chain_Cons intent d x d1 intents rs d')
  from chain_Cons.IH evolves_step [OF evolves_refl intent_effect_op [OF chain_Cons.hyps(1)]] show ?case by (rule evolves_trans)
qed (rule evolves_refl)

lemma submitEach_run: "submitEach E l intents w = (r, w') \<Longrightarrow>
    evolves l (pg w) (pg w') \<and> (\<exists>rs. r = Inr rs \<and> length rs = length intents)"
proof (induction intents arbitrary: w r w')
  case (Cons intent rest)
  obtain q v where q: "executeIntent E l intent w = (q, v)" by (cases "executeIntent E l intent w")
  obtain q' v' where q': "submitEach E l rest v = (q', v')" by (cases "submitEach E l rest v")
  have "evolves l (pg w) (pg v)" using outcome_evolves [OF executeIntent_run [OF q]] .
  moreover note Cons.IH [OF q']
  ultimately show ?case
    using Cons.prems q q' by (auto simp: attempt_def andThen_def intro: evolves_trans)
qed (simp add: evolves_refl)

lemma SubmitBatch_evolves: "SubmitBatch E l intents mode w = (r, w') \<Longrightarrow> evolves l (pg w) (pg w')"
proof -
  assume run: "SubmitBatch E l intents mode w = (r, w')"
  obtain q v where q: "checkLedgerNotSealed E l w = (q, v)" by (cases "checkLedgerNotSealed E l w")
  have v: "pg v = pg w" using checkLedger_run(1) [OF q] .
  obtain q1 v1 where q1: "submitAtomic E l intents v = (q1, v1)" by (cases "submitAtomic E l intents v")
  obtain q2 v2 where q2: "submitEach E l intents v = (q2, v2)" by (cases "submitEach E l intents v")
  have "evolves l (pg w) (pg v1)"
    using submitAtomic_run [OF q1] v by (auto intro: evolves_refl chain_evolves)
  moreover have "evolves l (pg w) (pg v2)" using submitEach_run [OF q2] v by simp
  ultimately show ?thesis
    using run q q1 q2 v
    by (auto simp: SubmitBatch_def andThen_def intro: evolves_refl split: sum.splits if_splits)
qed

end
