(* ===== verification/Planner_Approval.thy ===== *)
theory Planner_Approval
  imports Planner_Batch
begin

text \<open>
  Approvals, \<^verbatim>\<open>src/internal/planner/operations_approval.go\<close>: parking an intent, recording approvals
  and executing the intent once all of them are there, the audit event, and the recovery sweep.
  The decoding of a parked intent by \<open>encoding/json\<close> is the argument \<open>unmarshal\<close>.
\<close>

definition SubmitForApproval ::
  "env \<Rightarrow> string \<Rightarrow> bytes \<Rightarrow> string list \<Rightarrow> string \<Rightarrow> time \<Rightarrow> string prog" where
  "SubmitForApproval E ledgerID intentPayload requiredApprovers submittedBy expiresIn =
     andThen (checkLedgerNotSealed E ledgerID) (\<lambda>_.
     andThen (ulid_Make E) (\<lambda>intentID.
     andThen (time_Now E) (\<lambda>now.
     let expiresAt = (if expiresIn = 0 then now + 86400000000 else now + expiresIn) in
     andThen (InsertPendingApproval E Pool \<lparr>pa_LedgerID = ledgerID, pa_IntentID = intentID,
       pa_IntentPayload = intentPayload, pa_IntentHash = sha256 E intentPayload,
       pa_RequiredApprovers = requiredApprovers, pa_ReceivedApprovals = [], pa_ExpiresAt = expiresAt,
       pa_State = ''pending'', pa_SubmittedAt = now, pa_SubmittedBy = submittedBy\<rparr>) (\<lambda>_.
     ok intentID))))"

subsection \<open>Recording an approval\<close>

text \<open>What the transaction of \<open>Approve\<close> decided, before it commits.\<close>

datatype decision = Expire | Park | Run bytes

definition approved_by :: "ApprovalEntry list \<Rightarrow> string \<Rightarrow> bool" where
  "approved_by entries who = list_ex (\<lambda>a. ae_Principal a = who) entries"

definition recordApproval :: "env \<Rightarrow> string \<Rightarrow> string \<Rightarrow> string \<Rightarrow> string \<Rightarrow> decision prog" where
  "recordApproval E ledgerID intentID who signature =
     andThen (GetPendingApproval E Tx ledgerID intentID) (\<lambda>approval.
     if pa_State approval \<noteq> ''pending'' then
       fail (Errorf (''approval '' @ intentID @ '' is in state '' @ quoted (pa_State approval) @ '', expected pending''))
     else
       andThen (time_Now E) (\<lambda>now.
       if now > pa_ExpiresAt approval then
         andThen (mapErr (wrapped (''marking approval '' @ intentID @ '' as expired: ''))
           (UpdateApprovalState E Tx ledgerID intentID ''expired'')) (\<lambda>_. ok Expire)
       else if who = pa_SubmittedBy approval then
         fail (Errorf (''submitter '' @ quoted who @ '' cannot approve their own intent''))
       else if who \<notin> set (pa_RequiredApprovers approval) then
         fail (Errorf (''principal '' @ quoted who @ '' is not a required approver for intent '' @ intentID))
       else if approved_by (pa_ReceivedApprovals approval) who then
         fail (Errorf (''principal '' @ quoted who @ '' has already approved intent '' @ intentID))
       else
         andThen (AddApproval E Tx ledgerID intentID who signature) (\<lambda>_.
         andThen (GetPendingApproval E Tx ledgerID intentID) (\<lambda>approval'.
         if \<not> list_all (approved_by (pa_ReceivedApprovals approval')) (pa_RequiredApprovers approval') then ok Park
         else
           andThen (MarkApprovalExecuting E Tx ledgerID intentID) (\<lambda>_.
           ok (Run (pa_IntentPayload approval')))))))"

definition approvalExecutionKey :: "string \<Rightarrow> string" where
  "approvalExecutionKey intentID = ''approval:'' @ intentID"

definition maxAuditRetries :: nat where "maxAuditRetries = 3"

definition writeAuditOnce :: "env \<Rightarrow> string \<Rightarrow> bytes \<Rightarrow> string \<Rightarrow> time \<Rightarrow> unit prog" where
  "writeAuditOnce E ledgerID payload eventID now =
     andThen (mapErr (wrapped ''getting batch ID: '') (CurrentBatchID E ledgerID)) (\<lambda>batchID.
     andThen (mapErr (wrapped ''begin tx: '') (BeginTx E)) (\<lambda>_.
     deferRollback (
       andThen (mapErr (wrapped ''next seq: '') (NextLedgerSeq E ledgerID)) (\<lambda>seq.
       andThen (mapErr (wrapped ''append event: '') (AppendLogEvent E Tx
         (new_event eventID ledgerID seq EventTypeApprovalRecorded payload [] None batchID now now))) (\<lambda>_.
       mapErr (wrapped ''commit: '') (Commit E))))))"

definition recordApprovalAuditEvent :: "env \<Rightarrow> string \<Rightarrow> string \<Rightarrow> bytes \<Rightarrow> unit prog" where
  "recordApprovalAuditEvent E ledgerID intentID payload =
     andThen (time_Now E) (\<lambda>now.
     andThen (ulid_Make E) (\<lambda>eventID.
     attempt (withBackoffRetry E maxAuditRetries (writeAuditOnce E ledgerID payload eventID now)) (\<lambda>r.
     case r of
       Inl e \<Rightarrow> ok ()
     | Inr _ \<Rightarrow> publishEvent E ledgerID eventID EventTypeApprovalRecorded)))"

text \<open>The part of \<open>Approve\<close> after the state \<open>executing\<close> is committed.\<close>

definition executeApproved ::
  "(bytes \<Rightarrow> error + BatchIntent) \<Rightarrow> env \<Rightarrow> string \<Rightarrow> string \<Rightarrow> bytes \<Rightarrow> SubmitResult prog" where
  "executeApproved unmarshal E ledgerID intentID payload =
     (case unmarshal payload of
        Inl e \<Rightarrow>
          attempt (UpdateApprovalState E Pool ledgerID intentID ''rejected'') (\<lambda>_.
          fail (wrapped ''deserializing approved intent: '' e))
      | Inr intent \<Rightarrow>
          attempt (executeIntent E ledgerID (intent\<lparr>bi_IdempotencyKey := approvalExecutionKey intentID\<rparr>)) (\<lambda>r.
          case r of
            Inl e \<Rightarrow>
              attempt (UpdateApprovalState E Pool ledgerID intentID ''rejected'') (\<lambda>_.
              fail (wrapped ''executing approved intent: '' e))
          | Inr result \<Rightarrow>
              andThen (recordApprovalAuditEvent E ledgerID intentID payload) (\<lambda>_.
              attempt (UpdateApprovalStateIf E Pool ledgerID intentID ''executing'' ''executed'') (\<lambda>_.
              ok result))))"

definition Approve ::
  "(bytes \<Rightarrow> error + BatchIntent) \<Rightarrow> env \<Rightarrow> string \<Rightarrow> string \<Rightarrow> string \<Rightarrow> string \<Rightarrow> SubmitResult prog" where
  "Approve unmarshal E ledgerID intentID who signature =
     andThen (mapErr (wrapped ''beginning approve tx: '') (BeginTx E)) (\<lambda>_.
     deferRollback (
       andThen (recordApproval E ledgerID intentID who signature) (\<lambda>dec.
       case dec of
         Expire \<Rightarrow>
           andThen (mapErr (wrapped (''committing expired state for approval '' @ intentID @ '': '')) (Commit E)) (\<lambda>_.
           fail (Errorf (''approval '' @ intentID @ '' has expired'')))
       | Park \<Rightarrow> andThen (Commit E) (\<lambda>_. ok (submitted intentID))
       | Run payload \<Rightarrow>
           andThen (Commit E) (\<lambda>_. executeApproved unmarshal E ledgerID intentID payload))))"

subsection \<open>The recovery sweep\<close>

text \<open>Failures of single updates are logged.\<close>

definition expireApproval :: "env \<Rightarrow> PendingApprovalRecord \<Rightarrow> unit prog" where
  "expireApproval E a =
     attempt (UpdateApprovalState E Pool (pa_LedgerID a) (pa_IntentID a) ''expired'') (\<lambda>_. ok ())"

definition recoverApproval :: "env \<Rightarrow> PendingApprovalRecord \<Rightarrow> unit prog" where
  "recoverApproval E a =
     attempt (ListLogEventsByIdempotencyKey E Pool (pa_LedgerID a) (approvalExecutionKey (pa_IntentID a))) (\<lambda>r.
     case r of
       Inl e \<Rightarrow> ok ()
     | Inr events \<Rightarrow>
         let nextState = (if events \<noteq> [] then ''executed'' else ''expired'') in
         attempt (UpdateApprovalStateIf E Pool (pa_LedgerID a) (pa_IntentID a) ''executing'' nextState) (\<lambda>_. ok ()))"

definition ExpireStaleApprovals :: "env \<Rightarrow> time \<Rightarrow> unit prog" where
  "ExpireStaleApprovals E stuckThreshold =
     andThen (ListExpiredApprovals E Pool) (\<lambda>expired.
     andThen (forM (expireApproval E) expired) (\<lambda>_.
     andThen (ListStuckApprovals E Pool stuckThreshold) (\<lambda>stuck.
     forM (recoverApproval E) stuck)))"

subsection \<open>Effect of the approving transaction\<close>

definition update_approval :: "string \<Rightarrow> string \<Rightarrow> (approval_row \<Rightarrow> approval_row) \<Rightarrow> db \<Rightarrow> db" where
  "update_approval l i u d = d\<lparr>pending_approvals :=
     map (\<lambda>r. if is_approval l i r then u r else r) (pending_approvals d)\<rparr>"

definition add_entry :: "ApprovalEntry \<Rightarrow> approval_row \<Rightarrow> approval_row" where
  "add_entry e r = (if pr_state r = ''pending''
     then r\<lparr>pr_received_approvals := approvals_concat (pr_received_approvals r) e\<rparr> else r)"

lemma does_UpdateApprovalState [does_intro]:
  "does (UpdateApprovalState E Tx l i s) (\<lambda>d r d'. r = Inr () \<and>
     d' = update_approval l i (\<lambda>r. r\<lparr>pr_state := s\<rparr>) d)"
  unfolding UpdateApprovalState_def
  by (rule does_weaken, (rule does_intro does_stmt)+) (auto simp: update_approval_sql_def update_approval_def)

lemma does_MarkApprovalExecuting [does_intro]:
  "does (MarkApprovalExecuting E Tx l i) (\<lambda>d r d'. r = Inr () \<and>
     (\<exists>now. d' = update_approval l i (\<lambda>r. r\<lparr>pr_state := ''executing'', pr_executing_at := Some now\<rparr>) d))"
  unfolding MarkApprovalExecuting_def
  by (rule does_weaken, (rule does_intro does_stmt)+) (auto simp: update_approval_sql_def update_approval_def)

lemma does_add_entry:
  "does (stmt E Tx (update_approval_sql (\<lambda>r. is_approval l i r \<and> pr_state r = ''pending'')
       (\<lambda>now r. r\<lparr>pr_received_approvals := approvals_concat (pr_received_approvals r) e\<rparr>)))
     (\<lambda>d r d'. (\<exists>n. r = Inr n) \<and> d' = update_approval l i (add_entry e) d)"
  by (rule does_weaken [OF does_stmt]) (auto simp: update_approval_sql_def update_approval_def add_entry_def)

lemma does_AddApproval [does_intro]:
  "does (AddApproval E Tx l i who sg) (\<lambda>d r d'. \<exists>e. ae_Principal e = who \<and>
     d' = update_approval l i (add_entry e) d)"
  unfolding AddApproval_def Let_def
proof (rule does_weaken, (rule does_add_entry does_intro)+, goal_cases)
  case (1 d r d')
  then obtain t where "d' = update_approval l i (add_entry \<lparr>ae_Principal = who, ae_Signature = sg, ae_SignedAt = t\<rparr>) d"
    by (auto split: if_splits)
  then show ?case by (intro exI [of _ "\<lparr>ae_Principal = who, ae_Signature = sg, ae_SignedAt = t\<rparr>"]) simp
qed

lemma does_GetPendingApproval [does_intro]:
  "does (GetPendingApproval E Tx l i) (\<lambda>d r d'. d' = d \<and>
     (\<forall>a. r = Inr a \<longrightarrow> (\<exists>row. find_approval l i d = Some row \<and> a = approval_record row)))"
  unfolding GetPendingApproval_def
  by (rule does_weaken, (rule does_intro)+) (auto split: option.splits)

lemma keeps_recordApproval: "keeps tx_frame (recordApproval E l i who sg)"
  unfolding recordApproval_def by (intro tx_frame.keeps_rules frame_intro)

lemma find_map:
  "(\<And>r. P (u r) = P r) \<Longrightarrow> find P (map u xs) = map_option u (find P xs)"
  by (induction xs) simp_all

lemma find_update_approval:
  assumes "\<And>r. is_approval l i (u r) = is_approval l i r"
  shows "find_approval l i (update_approval l i u d) = map_option u (find_approval l i d)"
proof -
  have "find_approval l i (update_approval l i u d) =
      map_option (\<lambda>r. if is_approval l i r then u r else r) (find_approval l i d)"
    unfolding find_approval_def update_approval_def using assms by (simp add: find_map)
  moreover have "is_approval l i r" if "find_approval l i d = Some r" for r
    using that by (auto simp: find_approval_def find_Some_iff)
  ultimately show ?thesis by (cases "find_approval l i d") auto
qed

text \<open>The approvals of a row as the code counts them.\<close>

definition approvers :: "approval_row \<Rightarrow> string set" where
  "approvers r = ae_Principal ` set (entries_of (pr_received_approvals r))"

lemma approved_by_record: "approved_by (pa_ReceivedApprovals (approval_record r)) who \<longleftrightarrow> who \<in> approvers r"
  by (auto simp: approved_by_def approvers_def approval_record_def list_ex_iff)

inductive approve_effect :: "string \<Rightarrow> string \<Rightarrow> string \<Rightarrow> db \<Rightarrow> decision \<Rightarrow> db \<Rightarrow> bool" for l i who d where
  approve_expire: "find_approval l i d = Some row \<Longrightarrow> pr_state row = ''pending'' \<Longrightarrow>
    approve_effect l i who d Expire (update_approval l i (\<lambda>r. r\<lparr>pr_state := ''expired''\<rparr>) d)"
| approve_park: "find_approval l i d = Some row \<Longrightarrow> pr_state row = ''pending'' \<Longrightarrow>
    who \<noteq> pr_submitted_by row \<Longrightarrow> who \<in> set (pr_required_approvers row) \<Longrightarrow> who \<notin> approvers row \<Longrightarrow>
    ae_Principal e = who \<Longrightarrow> \<not> set (pr_required_approvers row) \<subseteq> approvers (add_entry e row) \<Longrightarrow>
    approve_effect l i who d Park (update_approval l i (add_entry e) d)"
| approve_run: "find_approval l i d = Some row \<Longrightarrow> pr_state row = ''pending'' \<Longrightarrow>
    who \<noteq> pr_submitted_by row \<Longrightarrow> who \<in> set (pr_required_approvers row) \<Longrightarrow> who \<notin> approvers row \<Longrightarrow>
    ae_Principal e = who \<Longrightarrow> set (pr_required_approvers row) \<subseteq> approvers (add_entry e row) \<Longrightarrow>
    approve_effect l i who d (Run (pr_intent_payload row)) (update_approval l i
      ((\<lambda>r. r\<lparr>pr_state := ''executing'', pr_executing_at := Some now\<rparr>) \<circ> add_entry e) d)"

lemma update_update_approval:
  assumes "\<And>r. is_approval l i (u r) = is_approval l i r"
  shows "update_approval l i v (update_approval l i u d) = update_approval l i (v \<circ> u) d"
  using assms by (simp add: update_approval_def)

lemma add_entry_simps [simp]:
  "pr_required_approvers (add_entry e r) = pr_required_approvers r"
  "pr_intent_payload (add_entry e r) = pr_intent_payload r" "pr_submitted_by (add_entry e r) = pr_submitted_by r"
  "pr_state (add_entry e r) = pr_state r" "is_approval l i (add_entry e r) = is_approval l i r"
  "pr_ledger_id (add_entry e r) = pr_ledger_id r" "pr_intent_id (add_entry e r) = pr_intent_id r"
  by (simp_all add: add_entry_def is_approval_def)

lemma approval_record_simps [simp]:
  "pa_State (approval_record r) = pr_state r" "pa_ExpiresAt (approval_record r) = pr_expires_at r"
  "pa_SubmittedBy (approval_record r) = pr_submitted_by r"
  "pa_RequiredApprovers (approval_record r) = pr_required_approvers r"
  "pa_IntentPayload (approval_record r) = pr_intent_payload r"
  by (simp_all add: approval_record_def)

lemma all_approved: "list_all (approved_by (pa_ReceivedApprovals (approval_record r))) as \<longleftrightarrow> set as \<subseteq> approvers r"
  by (auto simp: list_all_iff approved_by_record)

lemma does_recordApproval:
  "does (recordApproval E l i who sg) (\<lambda>d r d'. \<forall>dec. r = Inr dec \<longrightarrow> approve_effect l i who d dec d')"
  unfolding recordApproval_def
proof (rule does_weaken, (rule does_intro)+, intro allI impI, goal_cases)
  case (1 d r d' dec)
  then show ?case
    by (auto simp: approved_by_record all_approved find_update_approval update_update_approval split: if_splits
        del: subsetI)
       (rule approve_expire approve_park approve_run, assumption, assumption; auto; fail)+
qed

subsection \<open>Well-formed approvals\<close>

text \<open>
  Every recorded entry is that of a required approver other than the submitter, and an approval
  that is being executed, or was executed, has the entries of all required approvers. The
  principal of the zero entry, the empty string, is left out: see \<open>approvals_concat\<close>.
\<close>

definition signed :: "approval_row \<Rightarrow> string set" where
  "signed r = (case pr_received_approvals r of None \<Rightarrow> {} | Some es \<Rightarrow> ae_Principal ` {e. Some e \<in> set es})"

definition approval_ok :: "approval_row \<Rightarrow> bool" where
  "approval_ok r \<longleftrightarrow> signed r \<subseteq> set (pr_required_approvers r) - {pr_submitted_by r} \<and>
     (pr_state r \<in> {''executing'', ''executed''} \<longrightarrow> set (pr_required_approvers r) \<subseteq> insert [] (signed r))"

definition approvals_ok :: "db \<Rightarrow> bool" where
  "approvals_ok d \<longleftrightarrow> list_all approval_ok (pending_approvals d) \<and>
     distinct (map (\<lambda>r. (pr_ledger_id r, pr_intent_id r)) (pending_approvals d))"

lemma approvers_signed: "approvers r \<subseteq> insert [] (signed r)"
  by (auto simp: approvers_def signed_def entries_of_def zero_entry_def split: option.splits)

lemma signed_add_entry:
  "signed (add_entry e r) \<subseteq> insert (ae_Principal e) (signed r)"
  by (auto simp: signed_def add_entry_def approvals_concat_def split: option.splits)

lemma find_approval_unique:
  assumes "approvals_ok d" "find_approval l i d = Some row" "r \<in> set (pending_approvals d)" "is_approval l i r"
  shows "r = row"
proof -
  let ?key = "\<lambda>r. (pr_ledger_id r, pr_intent_id r)"
  have row: "row \<in> set (pending_approvals d)" "is_approval l i row"
    using assms(2) by (auto simp: find_approval_def find_Some_iff set_conv_nth)
  have "filter (\<lambda>x. ?key x = ?key row) (pending_approvals d) = [row]"
    using assms(1) row by (intro filter_distinct_key [where f = ?key]) (simp_all add: approvals_ok_def)
  moreover have "r \<in> set (filter (\<lambda>x. ?key x = ?key row) (pending_approvals d))"
    using assms(3,4) row(2) by (simp add: is_approval_def)
  ultimately show ?thesis by simp
qed

lemma update_approval_ok:
  assumes "approvals_ok d" "find_approval l i d = Some row" "approval_ok (u row)"
    and "\<And>r. pr_ledger_id (u r) = pr_ledger_id r \<and> pr_intent_id (u r) = pr_intent_id r"
  shows "approvals_ok (update_approval l i u d)"
proof -
  have "list_all approval_ok (pending_approvals (update_approval l i u d))"
    using assms(1,3) find_approval_unique [OF assms(1,2)]
    by (auto simp: update_approval_def approvals_ok_def list_all_iff)
  moreover have "map (\<lambda>r. (pr_ledger_id r, pr_intent_id r)) (pending_approvals (update_approval l i u d)) =
      map (\<lambda>r. (pr_ledger_id r, pr_intent_id r)) (pending_approvals d)"
    using assms(4) by (simp add: update_approval_def)
  ultimately show ?thesis using assms(1) unfolding approvals_ok_def by simp
qed

lemma approve_effect_ok:
  assumes "approve_effect l i who d dec d'" "approvals_ok d"
  shows "approvals_ok d'"
proof -
  have row_ok: "approval_ok row" if "find_approval l i d = Some row" for row
    using assms(2) that by (auto simp: approvals_ok_def list_all_iff find_approval_def find_Some_iff)
  have add_ok: "signed (add_entry e row) \<subseteq> set (pr_required_approvers row) - {pr_submitted_by row}"
    if "find_approval l i d = Some row" "who \<noteq> pr_submitted_by row" "who \<in> set (pr_required_approvers row)"
      "ae_Principal e = who" for row e
    using row_ok [OF that(1)] signed_add_entry [of e row] that by (auto simp: approval_ok_def)
  from assms(1) show ?thesis
  proof cases
    case (approve_expire row)
    have "approval_ok (row\<lparr>pr_state := ''expired''\<rparr>)"
      using row_ok [OF approve_expire(3)] by (simp add: approval_ok_def signed_def)
    then show ?thesis unfolding approve_expire(2)
      using update_approval_ok [OF assms(2) approve_expire(3)] by simp
  next
    case (approve_park row e)
    have "approval_ok (add_entry e row)"
      using add_ok [OF approve_park(3,5,6,8)] approve_park(4) by (simp add: approval_ok_def)
    then show ?thesis unfolding approve_park(2)
      using update_approval_ok [OF assms(2) approve_park(3)] by simp
  next
    case (approve_run row e now)
    have "set (pr_required_approvers row) \<subseteq> insert [] (signed (add_entry e row))"
      using approve_run(9) approvers_signed [of "add_entry e row"] by blast
    then have "approval_ok (((\<lambda>r. r\<lparr>pr_state := ''executing'', pr_executing_at := Some now\<rparr>) \<circ> add_entry e) row)"
      using add_ok [OF approve_run(3,5,6,8)] by (simp add: approval_ok_def signed_def)
    then show ?thesis unfolding approve_run(2)
      using update_approval_ok [OF assms(2) approve_run(3)] by simp
  qed
qed

subsection \<open>Outcomes\<close>

lemma stmt_Pool_run:
  "stmt E Pool f w = (r, w') \<Longrightarrow>
     (\<exists>e. r = Inl e) \<and> pg w' = pg w \<or> (\<exists>x now. r = Inr x \<and> f now (pg w) = Inr (x, pg w'))"
  by (auto simp: stmt_def Let_def abort_tx_def split: option.splits sum.splits prod.splits)

definition set_state :: "string \<Rightarrow> approval_row \<Rightarrow> approval_row" where
  "set_state s r = r\<lparr>pr_state := s\<rparr>"

definition set_state_if :: "string \<Rightarrow> string \<Rightarrow> approval_row \<Rightarrow> approval_row" where
  "set_state_if s t r = (if pr_state r = s then r\<lparr>pr_state := t\<rparr> else r)"

lemma UpdateApprovalState_run:
  assumes "UpdateApprovalState E Pool l i s w = (r, w')"
  shows "pg w' = pg w \<or> pg w' = update_approval l i (set_state s) (pg w)"
proof -
  let ?f = "update_approval_sql (is_approval l i) (\<lambda>now r. r\<lparr>pr_state := s\<rparr>)"
  obtain q v where q: "stmt E Pool ?f w = (q, v)" by (cases "stmt E Pool ?f w")
  from stmt_Pool_run [OF q] show ?thesis
    using assms q by (auto simp: UpdateApprovalState_def andThen_def update_approval_sql_def update_approval_def
        set_state_def cong: if_cong)
qed

lemma UpdateApprovalStateIf_run:
  assumes "UpdateApprovalStateIf E Pool l i s t w = (r, w')"
  shows "pg w' = pg w \<or> pg w' = update_approval l i (set_state_if s t) (pg w)"
proof -
  let ?f = "update_approval_sql (\<lambda>r. is_approval l i r \<and> pr_state r = s) (\<lambda>now r. r\<lparr>pr_state := t\<rparr>)"
  have f: "?f now d = Inr (length (filter (\<lambda>r. is_approval l i r \<and> pr_state r = s) (pending_approvals d)),
      update_approval l i (set_state_if s t) d)" for now d
    by (auto simp: update_approval_sql_def update_approval_def set_state_if_def)
  obtain q v where q: "stmt E Pool ?f w = (q, v)" by (cases "stmt E Pool ?f w")
  from stmt_Pool_run [OF q] show ?thesis
    using assms q by (auto simp: UpdateApprovalStateIf_def andThen_def f)
qed

lemma writeAuditOnce_run:
  assumes "writeAuditOnce E l payload i now w = (r, w')"
  shows "(\<exists>e. r = Inl e) \<and> pg w' = pg w \<or> r = Inr () \<and> logged l EventTypeApprovalRecorded (pg w) (pg w')"
proof -
  obtain q v where q: "CurrentBatchID E l w = (q, v)" by (cases "CurrentBatchID E l w")
  have v: "pg v = pg w" using keepsD [OF keeps_CurrentBatchID q] by (simp add: tx_frame_def)
  define body where "body b = andThen (mapErr (wrapped ''next seq: '') (NextLedgerSeq E l)) (\<lambda>seq.
       mapErr (wrapped ''append event: '') (AppendLogEvent E Tx
         (new_event i l seq EventTypeApprovalRecorded payload [] None b now now)))" for b
  have eff: "does (body b) (\<lambda>d r d'. \<forall>x. r = Inr x \<longrightarrow> logged l EventTypeApprovalRecorded d d')" for b
    unfolding body_def
    by (rule does_weaken, (rule does_intro)+)
       (auto simp: logged_def booked_def new_event_def zero_sum_def)
  have keep: "keeps tx_frame (body b)" for b
    unfolding body_def by (intro tx_frame.keeps_rules frame_intro)
  show ?thesis
  proof (cases q)
    case (Inl e)
    then show ?thesis using assms q v by (auto simp: writeAuditOnce_def andThen_def mapErr_def)
  next
    case (Inr b)
    have "andThen (mapErr (wrapped ''begin tx: '') (BeginTx E)) (\<lambda>_. deferRollback (
        andThen (body b) (\<lambda>_. mapErr (wrapped ''commit: '') (Commit E)))) v = (r, w')"
      using assms q Inr
      by (simp add: writeAuditOnce_def andThen_def [of "mapErr _ (CurrentBatchID E l)"] mapErr_def [of _ "CurrentBatchID E l"]
          body_def andThen_assoc)
    from tx_bracket [OF this keep eff] v show ?thesis by simp
  qed
qed

lemma backoffLoop_run:
  assumes fn: "\<And>v e v'. fn v = (Inl e, v') \<Longrightarrow> pg v' = pg v"
    and ok: "\<And>v x v'. fn v = (Inr x, v') \<Longrightarrow> Q (pg v) (pg v')"
  shows "backoffLoop E b n fn w = (r, w') \<Longrightarrow> (\<exists>e. r = Inl e) \<and> pg w' = pg w \<or> (\<exists>x. r = Inr x) \<and> Q (pg w) (pg w')"
proof (induction n arbitrary: b w)
  case 0
  then show ?case using fn ok
    by (cases "fn w") (auto simp: backoffLoop.simps [of _ _ 0] attempt_def split: sum.splits)
next
  case (Suc n)
  obtain q v where q: "fn w = (q, v)" by (cases "fn w")
  have s: "pg (snd (sleep E b v)) = pg v" by (simp add: sleep_def Let_def)
  show ?case
  proof (cases q)
    case (Inr x)
    then show ?thesis using Suc.prems q ok by (auto simp: backoffLoop.simps [of _ _ "Suc n"] attempt_def)
  next
    case (Inl e)
    then have v: "pg v = pg w" using fn q by simp
    show ?thesis
      using Suc.prems q Inl v s Suc.IH
      by (cases "sleep E b v")
         (fastforce simp: backoffLoop.simps [of _ _ "Suc n"] attempt_def andThen_def split: sum.splits if_splits)
  qed
qed

lemma recordApprovalAuditEvent_run:
  assumes "recordApprovalAuditEvent E l i payload w = (r, w')"
  shows "r = Inr () \<and> (pg w' = pg w \<or> logged l EventTypeApprovalRecorded (pg w) (pg w'))"
proof -
  let ?now = "clock E (n_clock w)" and ?id = "ulid E (n_ulid w)"
  let ?w = "w\<lparr>n_clock := Suc (n_clock w), n_ulid := Suc (n_ulid w)\<rparr>"
  let ?loop = "withBackoffRetry E maxAuditRetries (writeAuditOnce E l payload ?id ?now)"
  have audit: "pg v' = pg v" if "writeAuditOnce E l payload ?id ?now v = (Inl e, v')" for v e v'
    using writeAuditOnce_run [OF that] by simp
  have audit': "logged l EventTypeApprovalRecorded (pg v) (pg v')"
    if "writeAuditOnce E l payload ?id ?now v = (Inr x, v')" for v x v'
    using writeAuditOnce_run [OF that] by simp
  obtain q v where q: "?loop ?w = (q, v)" by (cases "?loop ?w")
  have v: "(\<exists>e. q = Inl e) \<and> pg v = pg w \<or> (\<exists>x. q = Inr x) \<and> logged l EventTypeApprovalRecorded (pg w) (pg v)"
    using backoffLoop_run [where Q = "logged l EventTypeApprovalRecorded", OF audit audit' q [unfolded withBackoffRetry_def]]
    by simp
  obtain p u where p: "publishEvent E l ?id EventTypeApprovalRecorded v = (p, u)"
    by (cases "publishEvent E l ?id EventTypeApprovalRecorded v")
  have "pg u = pg v" using keepsD [OF keeps_db_publishEvent p] by (simp add: db_frame_def)
  moreover have "p = Inr ()" using p by (auto simp: publishEvent_def attempt_def split: if_splits prod.splits)
  ultimately show ?thesis
    using assms q p v
    by (auto simp: recordApprovalAuditEvent_def andThen_def time_Now_def ulid_Make_def attempt_def)
qed

text \<open>What follows once the state \<open>executing\<close> is committed.\<close>

definition executed_from :: "string \<Rightarrow> string \<Rightarrow> db \<Rightarrow> db \<Rightarrow> bool" where
  "executed_from l i d d' \<longleftrightarrow>
     (\<exists>d1 d2. (d1 = d \<or> (\<exists>x. op_effect l d x d1)) \<and> (d2 = d1 \<or> logged l EventTypeApprovalRecorded d1 d2) \<and>
        (d' = d2 \<or> d' = update_approval l i (set_state ''rejected'') d2 \<or>
         d' = update_approval l i (set_state_if ''executing'' ''executed'') d2))"

lemma executeApproved_run:
  assumes "executeApproved um E l i payload w = (r, w')"
  shows "executed_from l i (pg w) (pg w')"
proof -
  obtain q v where q: "UpdateApprovalState E Pool l i ''rejected'' w = (q, v)"
    by (cases "UpdateApprovalState E Pool l i ''rejected'' w")
  show ?thesis
  proof (cases "um payload")
    case (Inl e)
    then have "w' = v" using assms q by (simp add: executeApproved_def attempt_def)
    then show ?thesis using UpdateApprovalState_run [OF q] unfolding executed_from_def by blast
  next
    case (Inr intent)
    let ?ex = "executeIntent E l (intent\<lparr>bi_IdempotencyKey := approvalExecutionKey i\<rparr>)"
    obtain c u where c: "?ex w = (c, u)" by (cases "?ex w")
    have step: "pg u = pg w \<or> (\<exists>x. op_effect l (pg w) x (pg u))"
      using executeIntent_run [OF c] by (auto simp: outcome_def)
    show ?thesis
    proof (cases c)
      case (Inl e)
      obtain q' v' where q': "UpdateApprovalState E Pool l i ''rejected'' u = (q', v')"
        by (cases "UpdateApprovalState E Pool l i ''rejected'' u")
      have "w' = v'" using assms Inr c Inl q' by (simp add: executeApproved_def attempt_def)
      then show ?thesis using UpdateApprovalState_run [OF q'] step unfolding executed_from_def by blast
    next
      case result: (Inr x)
      obtain a v1 where a: "recordApprovalAuditEvent E l i payload u = (a, v1)"
        by (cases "recordApprovalAuditEvent E l i payload u")
      obtain s v2 where s: "UpdateApprovalStateIf E Pool l i ''executing'' ''executed'' v1 = (s, v2)"
        by (cases "UpdateApprovalStateIf E Pool l i ''executing'' ''executed'' v1")
      note au = recordApprovalAuditEvent_run [OF a]
      have "w' = v2" using assms Inr c result a s au by (simp add: executeApproved_def attempt_def andThen_def)
      then show ?thesis using UpdateApprovalStateIf_run [OF s] step au unfolding executed_from_def by blast
    qed
  qed
qed

text \<open>
  \<open>Approve\<close> changes nothing, or what its transaction decided; an intent is executed only after a
  committed decision to run it.
\<close>

lemma Approve_run:
  assumes run: "Approve um E l i who sg w = (r, w')"
  shows "(\<exists>e. r = Inl e) \<and> pg w' = pg w \<or>
    (\<exists>dec d1. approve_effect l i who (pg w) dec d1 \<and>
       (case dec of
          Expire \<Rightarrow> (\<exists>e. r = Inl e) \<and> pg w' = d1
        | Park \<Rightarrow> r = Inr (submitted i) \<and> pg w' = d1
        | Run payload \<Rightarrow> executed_from l i d1 (pg w')))"
proof (cases "BeginTx E w")
  case (Pair b v)
  show ?thesis
  proof (cases b)
    case (Inl e)
    then show ?thesis using run Pair keepsD [OF keeps_pg_BeginTx Pair]
      by (auto simp: Approve_def andThen_def mapErr_def pg_frame_def)
  next
    case (Inr u)
    note v = BeginTx_ok [OF Pair [unfolded Inr]]
    define rest where "rest dec = (case dec of
         Expire \<Rightarrow>
           andThen (mapErr (wrapped (''committing expired state for approval '' @ i @ '': '')) (Commit E)) (\<lambda>_.
           fail (Errorf (''approval '' @ i @ '' has expired'')))
       | Park \<Rightarrow> andThen (Commit E) (\<lambda>_. ok (submitted i))
       | Run payload \<Rightarrow> andThen (Commit E) (\<lambda>_. executeApproved um E l i payload))" for dec
    have "Approve um E l i who sg = andThen (mapErr (wrapped ''beginning approve tx: '') (BeginTx E)) (\<lambda>_.
        deferRollback (andThen (recordApproval E l i who sg) rest))"
      unfolding Approve_def rest_def [abs_def] by (rule refl)
    then have "deferRollback (andThen (recordApproval E l i who sg) rest) v = (r, w')"
      using run Pair Inr by (simp add: andThen_def mapErr_def)
    then obtain v' where body: "andThen (recordApproval E l i who sg) rest v = (r, v')" and w': "pg w' = pg v'"
      using deferRollback_run Rollback_world(1) by metis
    obtain q v1 where m: "recordApproval E l i who sg v = (q, v1)" by (cases "recordApproval E l i who sg v")
    have fr: "pg v1 = pg w" using keepsD [OF keeps_recordApproval m] v by (simp add: tx_frame_def)
    obtain c v2 where c: "Commit E v1 = (c, v2)" by (cases "Commit E v1")
    show ?thesis
    proof (cases "\<exists>dec. q = Inr dec \<and> c = Inr ()")
      case True
      then obtain dec where dec: "q = Inr dec" "c = Inr ()" by blast
      have eff: "approve_effect l i who (pg w) dec (pg v2)"
        using does_open [OF does_recordApproval m, of "pg w"] v dec Commit_cases [OF c] by auto
      have "rest dec v1 = (r, v')" using body m dec by (simp add: andThen_def)
      then have "case dec of Expire \<Rightarrow> (\<exists>e. r = Inl e) \<and> pg v' = pg v2 | Park \<Rightarrow> r = Inr (submitted i) \<and> pg v' = pg v2
          | Run payload \<Rightarrow> executed_from l i (pg v2) (pg v')"
        using c dec(2) executeApproved_run
        by (cases dec) (auto simp: rest_def andThen_def mapErr_def)
      then show ?thesis unfolding w' using eff by blast
    next
      case False
      then have "(\<exists>e. r = Inl e) \<and> pg v' = pg w"
        using body m c fr Commit_cases [OF c]
        by (cases q; cases c) (auto simp: andThen_def mapErr_def rest_def split: decision.splits)
      then show ?thesis using w' by simp
    qed
  qed
qed

subsection \<open>Invariants\<close>

lemma op_effect_approvals: "op_effect l d x d' \<Longrightarrow> pending_approvals d' = pending_approvals d"
  by (induction rule: op_effect.induct)
     (auto simp: post_effect_def authorize_effect_def capture_effect_def void_effect_def close_effect_def
      revert_effect_def amend_effect_def convert_effect_def set_effect_def delete_effect_def side_effect_def
      booked_def Let_def)

lemma approvals_ok_same: "pending_approvals d' = pending_approvals d \<Longrightarrow> approvals_ok d \<Longrightarrow> approvals_ok d'"
  by (simp add: approvals_ok_def)

lemma update_approval_ok_all:
  assumes "approvals_ok d" "\<And>r. approval_ok r \<Longrightarrow> approval_ok (u r)"
    and "\<And>r. pr_ledger_id (u r) = pr_ledger_id r \<and> pr_intent_id (u r) = pr_intent_id r"
  shows "approvals_ok (update_approval l i u d)"
proof -
  have "list_all approval_ok (pending_approvals (update_approval l i u d))"
    using assms(1,2) by (auto simp: update_approval_def approvals_ok_def list_all_iff)
  moreover have "map (\<lambda>r. (pr_ledger_id r, pr_intent_id r)) (pending_approvals (update_approval l i u d)) =
      map (\<lambda>r. (pr_ledger_id r, pr_intent_id r)) (pending_approvals d)"
    using assms(3) by (simp add: update_approval_def)
  ultimately show ?thesis using assms(1) unfolding approvals_ok_def by simp
qed

lemma set_state_ok:
  "s \<notin> {''executing'', ''executed''} \<Longrightarrow> approval_ok r \<Longrightarrow> approval_ok (set_state s r)"
  "approval_ok r \<Longrightarrow> approval_ok (set_state_if ''executing'' t r)"
  by (auto simp: approval_ok_def set_state_def set_state_if_def signed_def)

lemma set_state_keys [simp]:
  "pr_ledger_id (set_state s r) = pr_ledger_id r" "pr_intent_id (set_state s r) = pr_intent_id r"
  "pr_ledger_id (set_state_if s t r) = pr_ledger_id r" "pr_intent_id (set_state_if s t r) = pr_intent_id r"
  by (simp_all add: set_state_def set_state_if_def)

lemma executed_from_ok: "executed_from l i d d' \<Longrightarrow> approvals_ok d \<Longrightarrow> approvals_ok d'"
proof -
  assume "executed_from l i d d'" and ok: "approvals_ok d"
  then obtain d1 d2 where d1: "d1 = d \<or> (\<exists>x. op_effect l d x d1)"
    and d2: "d2 = d1 \<or> logged l EventTypeApprovalRecorded d1 d2"
    and d': "d' = d2 \<or> d' = update_approval l i (set_state ''rejected'') d2 \<or>
      d' = update_approval l i (set_state_if ''executing'' ''executed'') d2"
    unfolding executed_from_def by blast
  have "approvals_ok d1" using d1 ok op_effect_approvals approvals_ok_same by blast
  then have "approvals_ok d2" using d2 approvals_ok_same [of d2 d1] by (auto simp: logged_def)
  then show ?thesis using d' by (auto intro!: update_approval_ok_all simp: set_state_ok)
qed

lemma Approve_ok: "Approve um E l i who sg w = (r, w') \<Longrightarrow> approvals_ok (pg w) \<Longrightarrow> approvals_ok (pg w')"
proof -
  assume run: "Approve um E l i who sg w = (r, w')" and ok: "approvals_ok (pg w)"
  from Approve_run [OF run] show ?thesis
  proof (elim disjE exE conjE)
    fix dec d1
    assume "approve_effect l i who (pg w) dec d1" and rest: "case dec of Expire \<Rightarrow> (\<exists>e. r = Inl e) \<and> pg w' = d1
        | Park \<Rightarrow> r = Inr (submitted i) \<and> pg w' = d1 | Run payload \<Rightarrow> executed_from l i d1 (pg w')"
    then have "approvals_ok d1" using approve_effect_ok ok by blast
    then show ?thesis using rest executed_from_ok by (cases dec) auto
  qed (simp add: ok)
qed

lemma insert_approval_row:
  assumes "insert_approval_sql a now d = Inr (x, d')" "pa_ReceivedApprovals a = []"
  shows "\<exists>row. d' = d\<lparr>pending_approvals := pending_approvals d @ [row]\<rparr> \<and>
    find_approval (pr_ledger_id row) (pr_intent_id row) d = None \<and>
    pr_received_approvals row = None \<and> pr_state row = pa_State a"
proof -
  let ?row = "\<lparr>pr_ledger_id = pa_LedgerID a, pr_intent_id = pa_IntentID a, pr_intent_payload = pa_IntentPayload a,
     pr_intent_hash = pa_IntentHash a, pr_required_approvers = pa_RequiredApprovers a, pr_received_approvals = None,
     pr_expires_at = pa_ExpiresAt a, pr_state = pa_State a, pr_submitted_at = now,
     pr_submitted_by = pa_SubmittedBy a, pr_executing_at = None\<rparr>"
  have "d' = d\<lparr>pending_approvals := pending_approvals d @ [?row]\<rparr>"
    "find_approval (pa_LedgerID a) (pa_IntentID a) d = None"
    using assms by (auto simp: insert_approval_sql_def find_approval_def find_None_iff list_ex_iff split: if_splits)
  then show ?thesis by (intro exI [of _ ?row]) simp
qed

lemma SubmitForApproval_run:
  assumes "SubmitForApproval E l payload req sub ex w = (r, w')"
  shows "pg w' = pg w \<or> (\<exists>row lr. open_ledger l (pg w) lr \<and>
    pg w' = (pg w)\<lparr>pending_approvals := pending_approvals (pg w) @ [row]\<rparr> \<and>
    find_approval (pr_ledger_id row) (pr_intent_id row) (pg w) = None \<and>
    pr_received_approvals row = None \<and> pr_state row = ''pending'')"
proof -
  obtain q v where q: "checkLedgerNotSealed E l w = (q, v)" by (cases "checkLedgerNotSealed E l w")
  note ck = checkLedger_run [OF q]
  show ?thesis
  proof (cases q)
    case (Inl e)
    then show ?thesis using assms q ck(1) by (auto simp: SubmitForApproval_def andThen_def)
  next
    case (Inr lr)
    let ?i = "ulid E (n_ulid v)" and ?now = "clock E (n_clock v)"
    let ?v = "v\<lparr>n_ulid := Suc (n_ulid v), n_clock := Suc (n_clock v)\<rparr>"
    let ?a = "\<lparr>pa_LedgerID = l, pa_IntentID = ?i, pa_IntentPayload = payload, pa_IntentHash = sha256 E payload,
       pa_RequiredApprovers = req, pa_ReceivedApprovals = [],
       pa_ExpiresAt = (if ex = 0 then ?now + 86400000000 else ?now + ex),
       pa_State = ''pending'', pa_SubmittedAt = ?now, pa_SubmittedBy = sub\<rparr>"
    obtain c u where c: "stmt E Pool (insert_approval_sql ?a) ?v = (c, u)"
      by (cases "stmt E Pool (insert_approval_sql ?a) ?v")
    have "pg w' = pg u"
      using assms q Inr c
      by (auto simp: SubmitForApproval_def andThen_def ulid_Make_def time_Now_def InsertPendingApproval_def Let_def
          split: sum.splits cong: if_cong)
    then show ?thesis
      using stmt_Pool_run [OF c] ck Inr by (fastforce dest: insert_approval_row)
  qed
qed

lemma SubmitForApproval_ok:
  assumes "SubmitForApproval E l payload req sub ex w = (r, w')" "approvals_ok (pg w)"
  shows "approvals_ok (pg w')"
proof -
  have "(pr_ledger_id row, pr_intent_id row) \<notin> (\<lambda>r. (pr_ledger_id r, pr_intent_id r)) ` set (pending_approvals d)"
    if "find_approval (pr_ledger_id row) (pr_intent_id row) d = None" for row :: approval_row and d
    using that by (auto simp: find_approval_def find_None_iff is_approval_def)
  then show ?thesis
    using SubmitForApproval_run [OF assms(1)] assms(2)
    by (auto simp: approvals_ok_def approval_ok_def signed_def)
qed

text \<open>The sweep touches the approvals only, and keeps them well formed.\<close>

definition approval_frame :: "world \<Rightarrow> world \<Rightarrow> bool" where
  "approval_frame w w' \<longleftrightarrow> (approvals_ok (pg w) \<longrightarrow> approvals_ok (pg w')) \<and>
     (\<exists>rows. pg w' = (pg w)\<lparr>pending_approvals := rows\<rparr>)"

interpretation approval_frame: frame approval_frame
proof
  show "approval_frame w w" for w
    unfolding approval_frame_def by (metis db.surjective db.update_convs(13))
  show "approval_frame w w''" if "approval_frame w w'" "approval_frame w' w''" for w w' w''
    using that by (auto simp: approval_frame_def)
qed

lemma approval_frame_same: "pg w' = pg w \<Longrightarrow> approval_frame w w'"
  unfolding approval_frame_def by (metis db.surjective db.update_convs(13))

lemma approval_frame_pg: "keeps pg_frame m \<Longrightarrow> keeps approval_frame m"
  by (simp add: keeps_def pg_frame_def approval_frame_same)

lemma approval_frame_update:
  "pg w' = update_approval l i u (pg w) \<Longrightarrow> (\<And>r. approval_ok r \<Longrightarrow> approval_ok (u r)) \<Longrightarrow>
     (\<And>r. pr_ledger_id (u r) = pr_ledger_id r \<and> pr_intent_id (u r) = pr_intent_id r) \<Longrightarrow> approval_frame w w'"
  using update_approval_ok_all [of "pg w" u l i]
  by (auto simp: approval_frame_def) (auto simp: update_approval_def)

lemma keeps_expire: "keeps approval_frame (UpdateApprovalState E Pool l i ''expired'')"
proof (rule keepsI)
  fix w
  obtain r w' where run: "UpdateApprovalState E Pool l i ''expired'' w = (r, w')"
    by (cases "UpdateApprovalState E Pool l i ''expired'' w")
  from UpdateApprovalState_run [OF run] show "approval_frame w (snd (UpdateApprovalState E Pool l i ''expired'' w))"
    unfolding run by (auto intro: approval_frame_same elim!: approval_frame_update simp: set_state_ok)
qed

lemma keeps_recover: "keeps approval_frame (UpdateApprovalStateIf E Pool l i ''executing'' t)"
proof (rule keepsI)
  fix w
  obtain r w' where run: "UpdateApprovalStateIf E Pool l i ''executing'' t w = (r, w')"
    by (cases "UpdateApprovalStateIf E Pool l i ''executing'' t w")
  from UpdateApprovalStateIf_run [OF run] show "approval_frame w (snd (UpdateApprovalStateIf E Pool l i ''executing'' t w))"
    unfolding run by (auto intro: approval_frame_same elim!: approval_frame_update simp: set_state_ok)
qed

lemma keeps_pg_query_Pool: "keeps pg_frame (query E Pool g)"
  by (rule keepsI) (simp add: pg_frame_def query_def stmt_def Let_def abort_tx_def split: option.split)

lemma keeps_ExpireStaleApprovals: "keeps approval_frame (ExpireStaleApprovals E th)"
  unfolding ExpireStaleApprovals_def ListExpiredApprovals_def ListStuckApprovals_def expireApproval_def
    recoverApproval_def ListLogEventsByIdempotencyKey_def
  by (intro approval_frame.keeps_rules keeps_expire keeps_recover approval_frame_pg [OF keeps_pg_query_Pool])

end
