(* ===== verification/Api_Types.thy ===== *)
theory Api_Types
  imports Planner_Approval
begin

text \<open>
  The messages of the API (\<^verbatim>\<open>src/proto/ledger/v1\<close>, as the generated Go structs of
  \<^verbatim>\<open>src/pkg/proto/ledger/v1\<close> have them) and the conversions of
  \<^verbatim>\<open>src/internal/api/grpc/converters.go\<close>. A pointer to a message or a map is an \<open>option\<close>, a oneof a
  datatype, a timestamp a point in time. Machine integers are integers with the wrap-around
  of the conversions written out.
\<close>

subsection \<open>Conversions between integer types\<close>

definition int16 :: "int \<Rightarrow> int" where "int16 x = (x + 2 ^ 15) mod 2 ^ 16 - 2 ^ 15"
definition int32 :: "int \<Rightarrow> int" where "int32 x = (x + 2 ^ 31) mod 2 ^ 32 - 2 ^ 31"
definition int64 :: "int \<Rightarrow> int" where "int64 x = (x + 2 ^ 63) mod 2 ^ 64 - 2 ^ 63"
definition uint64 :: "int \<Rightarrow> int" where "uint64 x = x mod 2 ^ 64"

lemma int16_id: "- (2 ^ 15) \<le> x \<Longrightarrow> x < 2 ^ 15 \<Longrightarrow> int16 x = x"
  by (simp add: int16_def)

lemma int64_id: "- (2 ^ 63) \<le> x \<Longrightarrow> x < 2 ^ 63 \<Longrightarrow> int64 x = x"
  by (simp add: int64_def)

lemma uint64_id: "0 \<le> x \<Longrightarrow> x < 2 ^ 64 \<Longrightarrow> uint64 x = x"
  by (simp add: uint64_def)

lemma uint64_int64: "0 \<le> x \<Longrightarrow> x < 2 ^ 64 \<Longrightarrow> uint64 (int64 x) = x"
  by (simp add: uint64_def int64_def mod_simps)

subsection \<open>Intents\<close>

datatype MetadataValue =
    StringValue string
  | IntValue int
  | BoolValue bool
  | DecimalValue string
  | TimestampValue time
  | NoValue

type_synonym pb_metadata = "(string \<times> MetadataValue option) list"

record Posting =
  pp_Source :: string
  pp_Destination :: string
  pp_Amount :: string
  pp_Asset :: string

record AuthorizeOperation =
  au_Source :: string
  au_DestinationHint :: string
  au_Amount :: string
  au_Asset :: string
  au_ExpiresAt :: "time option"

record CaptureOperation =
  ca_HoldId :: string
  ca_Amount :: string
  ca_Destination :: string

record ConvertOperation =
  co_Source :: string
  co_Destination :: string
  co_SourceAmount :: string
  co_SourceAsset :: string
  co_DestinationAmount :: string
  co_DestinationAsset :: string
  co_Rate :: string
  co_RateSource :: string
  co_SlippageAccount :: string
  co_SlippageAmount :: string

record RevertOperation =
  re_OriginalTransactionId :: string
  re_Force :: bool
  re_AtEffectiveDate :: bool
  re_Reason :: string

text \<open>The target type of a metadata operation and the mode of a batch are numbers: an enum field
  of a message can hold values the schema does not name.\<close>

definition TargetType_ACCOUNT :: int where "TargetType_ACCOUNT = 0"
definition BatchOperation_BEST_EFFORT :: int where "BatchOperation_BEST_EFFORT = 1"
definition BatchOperation_CHECKPOINTED :: int where "BatchOperation_CHECKPOINTED = 2"

datatype Intent = Intent
    (in_LedgerId: string)
    (in_ValidTime: "time option")
    (in_IdempotencyKey: string)
    (in_Reference: string)
    (in_Metadata: "pb_metadata option")
    (in_Operation: Operation)
    (in_DryRun: bool)
and Operation =
    Intent_Post "Posting list"
  | Intent_Authorize AuthorizeOperation
  | Intent_Capture CaptureOperation
  | Intent_Void string
  | Intent_Convert ConvertOperation
  | Intent_Batch int "Intent list"
  | Intent_Revert RevertOperation
  | Intent_Amend string pb_metadata
  | Intent_SetMetadata int string pb_metadata
  | Intent_DeleteMetadata int string string
  | Intent_InsertSchema bytes string
  | NoOperation

subsection \<open>Answers\<close>

record Ledger =
  le_Id :: string
  le_BucketId :: string
  le_State :: string
  le_Features :: "(string \<times> string) list option"
  le_Metadata :: "(string \<times> string) list option"
  le_CreatedAt :: time
  le_SealedAt :: "time option"
  le_IssuerAccounts :: "string list"

record Transaction =
  tn_LedgerId :: string
  tn_TransactionId :: string
  tn_EventId :: string
  tn_ValidTime :: time
  tn_SystemTime :: time
  tn_Reference :: string
  tn_Postings :: "Posting list"

record Account =
  at_LedgerId :: string
  at_Address :: string
  at_FirstUsage :: time
  at_UpdatedAt :: time

record LogEvent =
  ge_EventId :: string
  ge_LedgerId :: string
  ge_LedgerSeq :: int
  ge_SystemTime :: "time option"
  ge_ValidTime :: "time option"
  ge_Type :: int
  ge_Payload :: bytes
  ge_IdempotencyKey :: string
  ge_BatchId :: string
  ge_SchemaVersion :: int

record Hold =
  ho_LedgerId :: string
  ho_HoldId :: string
  ho_Source :: string
  ho_DestinationHint :: string
  ho_Asset :: string
  ho_AuthorizedAmount :: string
  ho_CapturedAmount :: string
  ho_Voided :: bool
  ho_Expired :: bool
  ho_ExpiresAt :: "time option"
  ho_ValidTime :: "time option"
  ho_SystemTime :: "time option"

record Conversion =
  cn_ConversionId :: string
  cn_Source :: string
  cn_Destination :: string
  cn_SourceAmount :: string
  cn_SourceAsset :: string
  cn_DestinationAmount :: string
  cn_DestinationAsset :: string
  cn_Rate :: string
  cn_RateSource :: string

text \<open>The text of the error of a batch element is kept as the error itself.\<close>

datatype SubmitResponse = SubmitResponse
    (sb_EventId: string)
    (sb_IdempotentHit: bool)
    (sb_Error: "error option")
    (sb_Output: Output)
and Output =
    Output_Transaction Transaction
  | Output_Hold Hold
  | Output_Capture CaptureOperation
  | Output_Conversion Conversion
  | Output_BatchResult "SubmitResponse list" int int
  | Output_Revert string string
  | Output_Amend string
  | NoOutput

subsection \<open>Converters\<close>

definition ledgerRecordToProto :: "LedgerRecord \<Rightarrow> Ledger" where
  "ledgerRecordToProto rec = \<lparr>le_Id = lr_ID rec, le_BucketId = lr_BucketID rec, le_State = lr_State rec,
     le_Features = lr_Features rec, le_Metadata = lr_Metadata rec, le_CreatedAt = lr_CreatedAt rec,
     le_SealedAt = lr_SealedAt rec, le_IssuerAccounts = lr_IssuerAccounts rec\<rparr>"

definition postingRecordToProto :: "PostingRecord \<Rightarrow> Posting" where
  "postingRecordToProto p = \<lparr>pp_Source = pr_Source p, pp_Destination = pr_Destination p,
     pp_Amount = pr_Amount p, pp_Asset = pr_Asset p\<rparr>"

definition txRecordToProto :: "TransactionRecord \<Rightarrow> Transaction" where
  "txRecordToProto rec = \<lparr>tn_LedgerId = tx_LedgerID rec, tn_TransactionId = tx_TransactionID rec,
     tn_EventId = tx_EventID rec, tn_ValidTime = tx_ValidTime rec, tn_SystemTime = tx_SystemTime rec,
     tn_Reference = tx_Reference rec, tn_Postings = map postingRecordToProto (tx_Postings rec)\<rparr>"

definition accountRecordToProto :: "AccountRecord \<Rightarrow> Account" where
  "accountRecordToProto rec = \<lparr>at_LedgerId = ac_LedgerID rec, at_Address = ac_Address rec,
     at_FirstUsage = ac_FirstUsage rec, at_UpdatedAt = ac_UpdatedAt rec\<rparr>"

definition logEventRecordToProto :: "LogEventRecord \<Rightarrow> LogEvent" where
  "logEventRecordToProto rec = \<lparr>ge_EventId = ev_EventID rec, ge_LedgerId = ev_LedgerID rec,
     ge_LedgerSeq = uint64 (ev_LedgerSeq rec), ge_SystemTime = Some (ev_SystemTime rec),
     ge_ValidTime = Some (ev_ValidTime rec), ge_Type = ev_Type rec, ge_Payload = ev_Payload rec,
     ge_IdempotencyKey = ev_IdempotencyKey rec, ge_BatchId = ev_BatchID rec,
     ge_SchemaVersion = uint64 (ev_SchemaVersion rec)\<rparr>"

definition metadataValueToAny :: "env \<Rightarrow> MetadataValue option \<Rightarrow> json" where
  "metadataValueToAny E v =
     (case v of
        Some (StringValue s) \<Rightarrow> JStr s
      | Some (IntValue i) \<Rightarrow> JInt i
      | Some (BoolValue b) \<Rightarrow> JBool b
      | Some (DecimalValue s) \<Rightarrow> JStr s
      | Some (TimestampValue t) \<Rightarrow> JTime (format_time E t) (time_String E t)
      | _ \<Rightarrow> JNull)"

primrec code_String :: "code \<Rightarrow> string" where
  "code_String InvalidArgument = ''InvalidArgument''"
| "code_String NotFound = ''NotFound''"
| "code_String AlreadyExists = ''AlreadyExists''"
| "code_String PermissionDenied = ''PermissionDenied''"
| "code_String ResourceExhausted = ''ResourceExhausted''"
| "code_String FailedPrecondition = ''FailedPrecondition''"
| "code_String Aborted = ''Aborted''"
| "code_String Unimplemented = ''Unimplemented''"
| "code_String Internal = ''Internal''"
| "code_String Unauthenticated = ''Unauthenticated''"

text \<open>\<open>err.Error()\<close>; the text of an error of the database is up to the driver.\<close>

fun error_text :: "env \<Rightarrow> error \<Rightarrow> string" where
  "error_text E ErrNotFound = ''not found''"
| "error_text E ErrAlreadyExists = ''already exists''"
| "error_text E ErrInsufficientFunds = ''insufficient funds''"
| "error_text E ErrInvalidIdempotencyInput = ''idempotency key exists with different input''"
| "error_text E ErrIdempotencyKeyConflict = ''concurrent idempotency key insert''"
| "error_text E ErrLedgerSealed = ''ledger is sealed''"
| "error_text E ErrTransactionReferenceConflict = ''transaction reference already exists''"
| "error_text E ErrAlreadyReverted = ''transaction already reverted''"
| "error_text E ErrDeadlock = ''deadlock detected''"
| "error_text E ErrPolicyDenied = ''policy denied''"
| "error_text E ErrHoldExpired = ''hold is expired''"
| "error_text E ErrHoldVoided = ''hold is voided''"
| "error_text E ErrApprovalExpired = ''approval has expired''"
| "error_text E ErrTxClosed = ''tx is closed''"
| "error_text E ErrTxCommitRollback = ''commit unexpectedly resulted in rollback''"
| "error_text E ErrContextDone = ''context canceled''"
| "error_text E ErrUnauthenticated = ''unauthenticated''"
| "error_text E EOF = ''EOF''"
| "error_text E (PgError c) = pg_text E c"
| "error_text E (Errorf s) = s"
| "error_text E (Status c e) = ''rpc error: code = '' @ code_String c @ '' desc = '' @ error_text E e"
| "error_text E (Wrap p e s) = p @ error_text E e @ s"

definition isNotFound :: "error \<Rightarrow> bool" where
  "isNotFound e = errors_is e ErrNotFound"

definition isAlreadyExists :: "error \<Rightarrow> bool" where
  "isAlreadyExists e = errors_is e ErrAlreadyExists"

definition mapPlannerError :: "error \<Rightarrow> error" where
  "mapPlannerError e =
     (if errors_is e ErrInsufficientFunds then Status FailedPrecondition e
      else if errors_is e ErrInvalidIdempotencyInput then
        Status FailedPrecondition (Errorf ''idempotency key exists with different input'')
      else if errors_is e ErrIdempotencyKeyConflict then
        Status Aborted (Errorf ''concurrent idempotency-key conflict; retry to observe the committed result'')
      else if errors_is e ErrLedgerSealed then Status FailedPrecondition (Errorf ''ledger is sealed'')
      else if errors_is e ErrTransactionReferenceConflict then
        Status AlreadyExists (Errorf ''transaction reference already exists'')
      else if errors_is e ErrAlreadyReverted then Status FailedPrecondition e
      else if errors_is e ErrHoldExpired then Status FailedPrecondition e
      else if errors_is e ErrHoldVoided then Status FailedPrecondition e
      else if errors_is e ErrPolicyDenied then Status PermissionDenied e
      else if errors_is e ErrApprovalExpired then Status FailedPrecondition e
      else if errors_is e ErrNotFound then Status NotFound e
      else Status Internal (Errorf ''internal error''))"

text \<open>Whatever the planner reports, the caller receives a status, and only the errors named above
  become visible: the text of every other one stays inside.\<close>

lemma mapPlannerError_status: "\<exists>c m. mapPlannerError e = Status c m"
  by (simp add: mapPlannerError_def)

lemma mapPlannerError_internal:
  "mapPlannerError e = Status Internal m \<Longrightarrow> m = Errorf ''internal error''"
  by (simp add: mapPlannerError_def split: if_splits)

end
