(* ===== verification/Api_Auth.thy ===== *)
theory Api_Auth
  imports Storage
begin

text \<open>
  Authentication of requests, \<^verbatim>\<open>src/internal/api/grpc/auth/auth.go\<close>: the identity of a caller, the
  bearer token in the request metadata, the scope claim of a verified token, and the server
  interceptors. Verification of a token by the JWT library is the argument \<open>parse\<close> of the
  authenticator: it receives the options the code passes and either refuses the text or
  returns the token's claims.
\<close>

record Identity =
  id_Principal :: string
  id_ledgers :: "string list"
  id_allLedgers :: bool

text \<open>The values the code looks up in a request context.\<close>

record Context =
  cx_principal :: "string option"
  cx_identity :: "Identity option"
  cx_metadata :: "(string \<times> string list) list option"
  cx_peer :: "string option"

definition authorizationMetadataKey :: string where "authorizationMetadataKey = ''authorization''"
definition bearerPrefix :: string where "bearerPrefix = ''Bearer ''"
definition allLedgersWildcard :: string where "allLedgersWildcard = ''*''"

definition CanAccessLedger :: "Identity \<Rightarrow> string \<Rightarrow> bool" where
  "CanAccessLedger i ledgerID \<longleftrightarrow> id_allLedgers i \<or> ledgerID \<in> set (id_ledgers i)"

definition AllLedgers :: "Identity \<Rightarrow> bool" where
  "AllLedgers i = id_allLedgers i"

definition PrincipalFromContext :: "Context \<Rightarrow> string option" where
  "PrincipalFromContext ctx = cx_principal ctx"

definition contextWithPrincipal :: "Context \<Rightarrow> string \<Rightarrow> Context" where
  "contextWithPrincipal ctx p = ctx\<lparr>cx_principal := Some p\<rparr>"

definition IdentityFromContext :: "Context \<Rightarrow> Identity option" where
  "IdentityFromContext ctx = cx_identity ctx"

definition contextWithIdentity :: "Context \<Rightarrow> Identity \<Rightarrow> Context" where
  "contextWithIdentity ctx i = ctx\<lparr>cx_identity := Some i\<rparr>"

definition NewIdentity :: "string \<Rightarrow> string list \<Rightarrow> bool \<Rightarrow> Identity" where
  "NewIdentity p ls allL = \<lparr>id_Principal = p, id_ledgers = ls, id_allLedgers = allL\<rparr>"

definition ContextWithIdentity :: "Context \<Rightarrow> Identity \<Rightarrow> Context" where
  "ContextWithIdentity ctx i = contextWithIdentity ctx i"

subsection \<open>Tokens\<close>

record token =
  tk_Subject :: string
  tk_claims :: "(string \<times> json) list"

record jwt_options =
  jo_validate :: bool
  jo_required :: "string list"
  jo_audience :: "string option"
  jo_issuer :: "string option"

text \<open>The authenticator's \<open>parse\<close> stands for \<open>jwt.Parse\<close> with the cached key set.\<close>

record jwtAuthenticator =
  ja_parse :: "jwt_options \<Rightarrow> string \<Rightarrow> error + token"
  ja_audience :: string
  ja_issuer :: string

text \<open>
  \<open>strings.EqualFold\<close> against the prefix: its letters have no case variants outside ASCII.
\<close>

definition to_lower :: "char \<Rightarrow> char" where
  "to_lower c = (if CHR ''A'' \<le> c \<and> c \<le> CHR ''Z'' then char_of (of_char c + 32 :: nat) else c)"

definition EqualFold :: "string \<Rightarrow> string \<Rightarrow> bool" where
  "EqualFold s t \<longleftrightarrow> map to_lower s = map to_lower t"

definition unauthenticated :: "string \<Rightarrow> error" where
  "unauthenticated s = suffixed ErrUnauthenticated ('': '' @ s)"

definition bearerToken :: "Context \<Rightarrow> error + string" where
  "bearerToken ctx =
     (case cx_metadata ctx of
        None \<Rightarrow> Inl (unauthenticated ''missing request metadata'')
      | Some md \<Rightarrow>
          (case map_of md authorizationMetadataKey of
             Some (header # _) \<Rightarrow>
               if length header \<le> length bearerPrefix \<or>
                  \<not> EqualFold (take (length bearerPrefix) header) bearerPrefix
               then Inl (unauthenticated ''authorization metadata must be a Bearer token'')
               else let tok = TrimSpace (drop (length bearerPrefix) header) in
                 if tok = [] then Inl (unauthenticated ''empty bearer token'') else Inr tok
           | _ \<Rightarrow> Inl (unauthenticated ''missing authorization metadata'')))"

text \<open>The loop over the elements of the claim: the ledgers named, or the wildcard.\<close>

fun claim_ledgers :: "json list \<Rightarrow> string list \<Rightarrow> string list \<times> bool" where
  "claim_ledgers [] ls = (ls, False)"
| "claim_ledgers (JStr s # es) ls =
     (if s = allLedgersWildcard then ([], True) else claim_ledgers es (ls @ [s]))"
| "claim_ledgers (_ # es) ls = claim_ledgers es ls"

definition parseLedgersClaim :: "token \<Rightarrow> string list \<times> bool" where
  "parseLedgersClaim t =
     (case map_of (tk_claims t) ''ledgers'' of
        Some (JArr raw) \<Rightarrow> claim_ledgers raw []
      | _ \<Rightarrow> ([], False))"

text \<open>The text of a refusal by the library is not kept: the interceptors drop it.\<close>

definition AuthenticateIdentity :: "jwtAuthenticator \<Rightarrow> Context \<Rightarrow> error + Identity" where
  "AuthenticateIdentity a ctx =
     (case bearerToken ctx of
        Inl e \<Rightarrow> Inl e
      | Inr raw \<Rightarrow>
          (case ja_parse a \<lparr>jo_validate = True, jo_required = [''exp''],
              jo_audience = (if ja_audience a = [] then None else Some (ja_audience a)), jo_issuer = (if ja_issuer a = [] then None else Some (ja_issuer a))\<rparr> raw of
             Inl e \<Rightarrow> Inl (unauthenticated ''token rejected'')
           | Inr t \<Rightarrow>
               if tk_Subject t = [] then Inl (unauthenticated ''token has empty subject claim'')
               else let (ls, allL) = parseLedgersClaim t in
                 Inr \<lparr>id_Principal = tk_Subject t, id_ledgers = ls, id_allLedgers = allL\<rparr>))"

definition Authenticate :: "jwtAuthenticator \<Rightarrow> Context \<Rightarrow> error + string" where
  "Authenticate a ctx =
     (case AuthenticateIdentity a ctx of Inl e \<Rightarrow> Inl e | Inr i \<Rightarrow> Inr (id_Principal i))"

subsection \<open>Interceptors\<close>

text \<open>
  An \<open>Authenticator\<close> as the interceptors see it: its method, and the method of
  \<open>IdentityAuthenticator\<close> when it has that too.
\<close>

record Authenticator =
  an_Authenticate :: "Context \<Rightarrow> error + string"
  an_AuthenticateIdentity :: "(Context \<Rightarrow> error + Identity) option"

definition jwt_authenticator :: "jwtAuthenticator \<Rightarrow> Authenticator" where
  "jwt_authenticator a =
     \<lparr>an_Authenticate = Authenticate a, an_AuthenticateIdentity = Some (AuthenticateIdentity a)\<rparr>"

definition methodIsExempt :: "string \<Rightarrow> bool" where
  "methodIsExempt fullMethod \<longleftrightarrow>
     HasPrefix fullMethod ''/grpc.health.v1.Health/'' \<or> HasPrefix fullMethod ''/grpc.reflection.''"

definition authenticateAndInject :: "Context \<Rightarrow> Authenticator \<Rightarrow> error + Context" where
  "authenticateAndInject ctx authn =
     (case an_AuthenticateIdentity authn of
        Some ia \<Rightarrow>
          (case ia ctx of
             Inl e \<Rightarrow> Inl e
           | Inr i \<Rightarrow> Inr (contextWithIdentity (contextWithPrincipal ctx (id_Principal i)) i))
      | None \<Rightarrow>
          (case an_Authenticate authn ctx of
             Inl e \<Rightarrow> Inl e
           | Inr p \<Rightarrow> Inr (contextWithPrincipal ctx p)))"

definition auth_required :: error where
  "auth_required = Status Unauthenticated (Errorf ''authentication required'')"

definition NewUnaryServerInterceptor ::
  "Authenticator option \<Rightarrow> string \<Rightarrow> (Context \<Rightarrow> ('s, 'a) io) \<Rightarrow> Context \<Rightarrow> ('s, 'a) io" where
  "NewUnaryServerInterceptor authn fullMethod handler ctx =
     (if methodIsExempt fullMethod then handler ctx
      else case authn of
        None \<Rightarrow> fail auth_required
      | Some a \<Rightarrow>
          (case authenticateAndInject ctx a of
             Inl e \<Rightarrow> fail auth_required
           | Inr authCtx \<Rightarrow> handler authCtx))"

text \<open>A stream's handler finds the context of the stream, replaced by the authenticated one.\<close>

definition NewStreamServerInterceptor ::
  "Authenticator option \<Rightarrow> string \<Rightarrow> (Context \<Rightarrow> ('s, 'a) io) \<Rightarrow> Context \<Rightarrow> ('s, 'a) io" where
  "NewStreamServerInterceptor authn fullMethod handler ctx =
     (if methodIsExempt fullMethod then handler ctx
      else case authn of
        None \<Rightarrow> fail auth_required
      | Some a \<Rightarrow>
          (case authenticateAndInject ctx a of
             Inl e \<Rightarrow> fail auth_required
           | Inr authCtx \<Rightarrow> handler authCtx))"

subsection \<open>What a token grants\<close>

text \<open>The ledgers a list of claim elements names, unless it has the wildcard.\<close>

lemma claim_ledgers_wildcard:
  "claim_ledgers es ls = (if JStr allLedgersWildcard \<in> set es then ([], True)
     else (ls @ [s. JStr s \<leftarrow> es], False))"
  by (induction es ls rule: claim_ledgers.induct) auto

text \<open>A token gives access to a ledger only if its claim is a list that names the ledger or the
  wildcard: an absent or malformed claim gives none.\<close>

lemma AuthenticateIdentity_access:
  assumes "AuthenticateIdentity a ctx = Inr i"
  shows "\<exists>raw opts t. bearerToken ctx = Inr raw \<and> ja_parse a opts raw = Inr t \<and> jo_validate opts \<and>
    ''exp'' \<in> set (jo_required opts) \<and> tk_Subject t \<noteq> [] \<and> id_Principal i = tk_Subject t \<and>
    (CanAccessLedger i l \<longleftrightarrow> (\<exists>es. map_of (tk_claims t) ''ledgers'' = Some (JArr es) \<and>
       (JStr l \<in> set es \<or> JStr allLedgersWildcard \<in> set es)))"
proof -
  define opts where "opts = \<lparr>jo_validate = True, jo_required = [''exp''],
       jo_audience = (if ja_audience a = [] then None else Some (ja_audience a)),
       jo_issuer = (if ja_issuer a = [] then None else Some (ja_issuer a))\<rparr>"
  from assms obtain raw and t :: token where raw: "bearerToken ctx = Inr raw" "tk_Subject t \<noteq> []"
    "ja_parse a opts raw = Inr t"
    and i: "i = (let (ls, allL) = parseLedgersClaim t in
      \<lparr>id_Principal = tk_Subject t, id_ledgers = ls, id_allLedgers = allL\<rparr>)"
    by (auto simp: AuthenticateIdentity_def opts_def split: sum.splits if_splits prod.splits)
  have "CanAccessLedger i l \<longleftrightarrow> (\<exists>es. map_of (tk_claims t) ''ledgers'' = Some (JArr es) \<and>
       (JStr l \<in> set es \<or> JStr allLedgersWildcard \<in> set es))"
    by (auto simp: i parseLedgersClaim_def claim_ledgers_wildcard CanAccessLedger_def
      split: option.split json.split)
  moreover have "id_Principal i = tk_Subject t" by (simp add: i split: prod.split)
  moreover have "jo_validate opts" "''exp'' \<in> set (jo_required opts)" by (simp_all add: opts_def)
  ultimately show ?thesis using raw by blast
qed

text \<open>The handler of a method that is not exempt runs only with the context of an authenticated
  caller; otherwise nothing happens and the caller learns no more than that.\<close>

lemma NewUnaryServerInterceptor_cases:
  assumes "\<not> methodIsExempt fullMethod"
  shows "NewUnaryServerInterceptor authn fullMethod handler ctx = fail auth_required \<or>
    (\<exists>a c. authn = Some a \<and> authenticateAndInject ctx a = Inr c \<and>
       NewUnaryServerInterceptor authn fullMethod handler ctx = handler c)"
  using assms by (auto simp: NewUnaryServerInterceptor_def split: option.split sum.split)

lemma jwt_context:
  "authenticateAndInject ctx (jwt_authenticator a) = Inr c \<Longrightarrow>
     \<exists>i. AuthenticateIdentity a ctx = Inr i \<and> IdentityFromContext c = Some i \<and>
       PrincipalFromContext c = Some (id_Principal i)"
  by (auto simp: authenticateAndInject_def jwt_authenticator_def IdentityFromContext_def
    PrincipalFromContext_def contextWithIdentity_def contextWithPrincipal_def split: sum.splits)

end
