(* ===== verification/Api_Service.thy ===== *)
theory Api_Service
  imports Api_Types Api_Auth
begin

text \<open>
  The unary calls of the API, \<^verbatim>\<open>src/internal/api/grpc/service.go\<close>: authorization by ledger, the
  universal write call with its dispatch to the planner, the reads, and the calls of the
  approval workflow. A handler receives the context of the request and its message. The
  streaming calls are in the theories of the import and of the subscriptions.
\<close>

definition invalid :: "string \<Rightarrow> error" where
  "invalid s = Status InvalidArgument (Errorf s)"

text \<open>\<open>status.Errorf(codes.Internal, "doing: %v", err)\<close>, and the common variant that reports a
  missing object by a fixed text.\<close>

definition internal :: "string \<Rightarrow> error \<Rightarrow> error" where
  "internal p e = Status Internal (Wrap p e [])"

definition missing_or :: "string \<Rightarrow> string \<Rightarrow> error \<Rightarrow> error" where
  "missing_or s p e = (if isNotFound e then Status NotFound (Errorf s) else internal p e)"

subsection \<open>Authorization\<close>

definition authorizeLedger :: "Context \<Rightarrow> string \<Rightarrow> error option" where
  "authorizeLedger ctx ledgerID =
     (case IdentityFromContext ctx of
        None \<Rightarrow> Some auth_required
      | Some i \<Rightarrow>
          if CanAccessLedger i ledgerID then None
          else Some (Status PermissionDenied (Errorf (''principal '' @ quoted (id_Principal i) @
            '' is not authorized for ledger '' @ quoted ledgerID))))"

definition requireImportExportAuthz :: "string list \<Rightarrow> string \<Rightarrow> error option" where
  "requireImportExportAuthz admins who =
     (if who \<in> set admins then None
      else Some (Status PermissionDenied (Errorf (''principal '' @ quoted who @
        '' is not authorized for import/export''))))"

definition extractPrincipal :: "Context \<Rightarrow> error + string" where
  "extractPrincipal ctx =
     (case PrincipalFromContext ctx of
        Some (c # p) \<Rightarrow> Inr (c # p)
      | _ \<Rightarrow> Inl auth_required)"

subsection \<open>Ledgers\<close>

record CreateLedgerRequest =
  clr_Id :: string
  clr_BucketId :: string
  clr_Metadata :: "(string \<times> string) list option"

definition CreateLedger_rpc :: "env \<Rightarrow> Context \<Rightarrow> CreateLedgerRequest \<Rightarrow> Ledger prog" where
  "CreateLedger_rpc E ctx req =
     andThen (ofErr (authorizeLedger ctx (clr_Id req))) (\<lambda>_.
     andThen (mapErr (\<lambda>e. if isAlreadyExists e
                then Status AlreadyExists (Errorf (''ledger '' @ quoted (clr_Id req) @ '' already exists''))
                else internal ''creating ledger: '' e)
       (CreateLedger E Pool \<lparr>clp_ID = clr_Id req, clp_BucketID = clr_BucketId req,
          clp_Metadata = Some (case clr_Metadata req of None \<Rightarrow> [] | Some m \<Rightarrow> m)\<rparr>)) (\<lambda>rec.
     ok (ledgerRecordToProto rec)))"

definition GetLedger_rpc :: "env \<Rightarrow> Context \<Rightarrow> string \<Rightarrow> Ledger prog" where
  "GetLedger_rpc E ctx ledgerID =
     andThen (ofErr (authorizeLedger ctx ledgerID)) (\<lambda>_.
     andThen (mapErr (missing_or (''ledger '' @ quoted ledgerID @ '' not found'') ''getting ledger: '')
       (GetLedger E Pool ledgerID)) (\<lambda>rec.
     ok (ledgerRecordToProto rec)))"

text \<open>Without an identity in the context all ledgers are shown.\<close>

definition ListLedgers_rpc :: "env \<Rightarrow> Context \<Rightarrow> ListParams \<Rightarrow> (Ledger list \<times> string) prog" where
  "ListLedgers_rpc E ctx req =
     andThen (mapErr (internal ''listing ledgers: '') (ListLedgers E Pool req)) (\<lambda>(recs, nextToken).
     ok (map ledgerRecordToProto (filter (\<lambda>rec.
           case IdentityFromContext ctx of None \<Rightarrow> True | Some i \<Rightarrow> CanAccessLedger i (lr_ID rec)) recs),
         nextToken))"

definition SealLedger_rpc :: "env \<Rightarrow> Context \<Rightarrow> string \<Rightarrow> Ledger prog" where
  "SealLedger_rpc E ctx ledgerID =
     andThen (ofErr (authorizeLedger ctx ledgerID)) (\<lambda>_.
     andThen (mapErr (missing_or (''ledger '' @ quoted ledgerID @ '' not found or already sealed'')
         ''sealing ledger: '') (SealLedger E Pool ledgerID)) (\<lambda>rec.
     ok (ledgerRecordToProto rec)))"

subsection \<open>Single operations\<close>

text \<open>\<open>new(big.Int).SetString(s, 10)\<close> with the error of its caller.\<close>

definition parse_amount :: "string \<Rightarrow> string \<Rightarrow> error + int" where
  "parse_amount what s =
     (case SetString s of None \<Rightarrow> Inl (invalid (what @ '' '' @ quoted s)) | Some a \<Rightarrow> Inr a)"

definition posting_input :: "Posting \<Rightarrow> int \<Rightarrow> PostingInput" where
  "posting_input p a = \<lparr>Source = pp_Source p, Destination = pp_Destination p, Amount = Some a, Asset = pp_Asset p\<rparr>"

fun posting_inputs :: "nat \<Rightarrow> Posting list \<Rightarrow> error + PostingInput list" where
  "posting_inputs i [] = Inr []"
| "posting_inputs i (p # ps) =
     (case parse_amount (''posting '' @ nat_String i @ '': invalid amount'') (pp_Amount p) of
        Inl e \<Rightarrow> Inl e
      | Inr a \<Rightarrow>
          (case posting_inputs (Suc i) ps of Inl e \<Rightarrow> Inl e | Inr qs \<Rightarrow> Inr (posting_input p a # qs)))"

definition metadata_input :: "env \<Rightarrow> pb_metadata \<Rightarrow> metadata" where
  "metadata_input E md = Some (map (\<lambda>(k, v). (k, metadataValueToAny E v)) md)"

definition planned :: "SubmitResult prog \<Rightarrow> (SubmitResult \<Rightarrow> Output) \<Rightarrow> SubmitResponse prog" where
  "planned m f =
     andThen (mapErr mapPlannerError m) (\<lambda>result.
     ok (SubmitResponse (EventID result) (IdempotentHit result) None (f result)))"

definition handlePost :: "env \<Rightarrow> Intent \<Rightarrow> Posting list \<Rightarrow> SubmitResponse prog" where
  "handlePost E intent ps =
     andThen (ofSum (posting_inputs 0 ps)) (\<lambda>postings.
     planned (SubmitPost E (in_LedgerId intent) postings (in_Reference intent)
         (case in_Metadata intent of None \<Rightarrow> None | Some md \<Rightarrow> metadata_input E md)
         (in_IdempotencyKey intent) (in_ValidTime intent) (in_DryRun intent))
       (\<lambda>result. case Transaction result of
          None \<Rightarrow> NoOutput
        | Some t \<Rightarrow> Output_Transaction (txRecordToProto t)))"

definition handleSetMetadata :: "env \<Rightarrow> Intent \<Rightarrow> int \<Rightarrow> string \<Rightarrow> pb_metadata \<Rightarrow> SubmitResponse prog" where
  "handleSetMetadata E intent targetType targetId md =
     planned (SubmitSetMetadata E (in_LedgerId intent) (int16 targetType) targetId (metadata_input E md)
       (in_IdempotencyKey intent)) (\<lambda>_. NoOutput)"

definition handleDeleteMetadata :: "env \<Rightarrow> Intent \<Rightarrow> int \<Rightarrow> string \<Rightarrow> string \<Rightarrow> SubmitResponse prog" where
  "handleDeleteMetadata E intent targetType targetId key =
     planned (SubmitDeleteMetadata E (in_LedgerId intent) (int16 targetType) targetId key
       (in_IdempotencyKey intent)) (\<lambda>_. NoOutput)"

definition handleInsertSchema :: "env \<Rightarrow> Intent \<Rightarrow> bytes \<Rightarrow> string \<Rightarrow> SubmitResponse prog" where
  "handleInsertSchema E intent schemaBytes version =
     planned (SubmitInsertSchema E (in_LedgerId intent) schemaBytes version (in_IdempotencyKey intent))
       (\<lambda>_. NoOutput)"

definition handleAuthorize :: "env \<Rightarrow> Intent \<Rightarrow> AuthorizeOperation \<Rightarrow> SubmitResponse prog" where
  "handleAuthorize E intent req =
     andThen (ofSum (parse_amount ''invalid amount'' (au_Amount req))) (\<lambda>amount.
     case au_ExpiresAt req of
       None \<Rightarrow> fail (invalid ''expires_at is required for authorize'')
     | Some expiresAt \<Rightarrow>
         planned (SubmitAuthorize E (in_LedgerId intent) (au_Source req) (au_DestinationHint req) (au_Asset req)
             (Some amount) expiresAt (in_IdempotencyKey intent))
           (\<lambda>result. Output_Hold \<lparr>ho_LedgerId = [], ho_HoldId = HoldID result, ho_Source = au_Source req,
              ho_DestinationHint = au_DestinationHint req, ho_Asset = au_Asset req,
              ho_AuthorizedAmount = au_Amount req, ho_CapturedAmount = ''0'', ho_Voided = False,
              ho_Expired = False, ho_ExpiresAt = Some expiresAt, ho_ValidTime = None, ho_SystemTime = None\<rparr>))"

definition handleCapture :: "env \<Rightarrow> Intent \<Rightarrow> CaptureOperation \<Rightarrow> SubmitResponse prog" where
  "handleCapture E intent req =
     andThen (ofSum (parse_amount ''invalid amount'' (ca_Amount req))) (\<lambda>amount.
     planned (SubmitCapture E (in_LedgerId intent) (ca_HoldId req) (Some amount) (ca_Destination req)
       (in_IdempotencyKey intent)) (\<lambda>_. Output_Capture req))"

definition handleVoid :: "env \<Rightarrow> Intent \<Rightarrow> string \<Rightarrow> SubmitResponse prog" where
  "handleVoid E intent holdId =
     planned (SubmitVoid E (in_LedgerId intent) holdId (in_IdempotencyKey intent)) (\<lambda>_. NoOutput)"

definition handleRevert :: "env \<Rightarrow> Intent \<Rightarrow> RevertOperation \<Rightarrow> SubmitResponse prog" where
  "handleRevert E intent req =
     planned (SubmitRevert E (in_LedgerId intent) (re_OriginalTransactionId req) (re_Force req)
         (re_AtEffectiveDate req) (re_Reason req) (in_IdempotencyKey intent))
       (\<lambda>result. Output_Revert (re_OriginalTransactionId req)
          (case Transaction result of None \<Rightarrow> [] | Some t \<Rightarrow> tx_TransactionID t))"

definition handleAmend :: "env \<Rightarrow> Intent \<Rightarrow> string \<Rightarrow> pb_metadata \<Rightarrow> SubmitResponse prog" where
  "handleAmend E intent originalId changes =
     planned (SubmitAmend E (in_LedgerId intent) originalId (metadata_input E changes) (in_IdempotencyKey intent))
       (\<lambda>_. Output_Amend originalId)"

definition convert_params :: "ConvertOperation \<Rightarrow> int \<Rightarrow> int \<Rightarrow> int option \<Rightarrow> ConvertParams" where
  "convert_params req src dst slip = \<lparr>cv_Source = co_Source req, cv_Destination = co_Destination req,
     cv_SourceAmount = Some src, cv_SourceAsset = co_SourceAsset req, cv_DestAmount = Some dst,
     cv_DestAsset = co_DestinationAsset req, cv_Rate = co_Rate req, cv_RateSource = co_RateSource req,
     cv_SlippageAccount = co_SlippageAccount req, cv_SlippageAmount = slip, cv_ValidTime = None\<rparr>"

text \<open>The amounts of a conversion; \<open>at\<close> names the place in the error texts.\<close>

definition convert_input :: "string \<Rightarrow> ConvertOperation \<Rightarrow> error + ConvertParams" where
  "convert_input at req =
     (case parse_amount (at @ ''invalid source_amount'') (co_SourceAmount req) of
        Inl e \<Rightarrow> Inl e
      | Inr src \<Rightarrow>
          (case parse_amount (at @ ''invalid destination_amount'') (co_DestinationAmount req) of
             Inl e \<Rightarrow> Inl e
           | Inr dst \<Rightarrow>
               if co_SlippageAmount req = [] then Inr (convert_params req src dst None)
               else (case parse_amount (at @ ''invalid slippage_amount'') (co_SlippageAmount req) of
                  Inl e \<Rightarrow> Inl e
                | Inr slip \<Rightarrow> Inr (convert_params req src dst (Some slip)))))"

text \<open>The answer to a conversion never reports an idempotent hit.\<close>

definition handleConvert :: "env \<Rightarrow> Intent \<Rightarrow> ConvertOperation \<Rightarrow> SubmitResponse prog" where
  "handleConvert E intent req =
     andThen (ofSum (convert_input [] req)) (\<lambda>params.
     andThen (mapErr mapPlannerError (SubmitConvert E (in_LedgerId intent) params (in_IdempotencyKey intent))) (\<lambda>result.
     ok (SubmitResponse (EventID result) False None
       (Output_Conversion \<lparr>cn_ConversionId = ConversionID result, cn_Source = co_Source req,
          cn_Destination = co_Destination req, cn_SourceAmount = co_SourceAmount req,
          cn_SourceAsset = co_SourceAsset req, cn_DestinationAmount = co_DestinationAmount req,
          cn_DestinationAsset = co_DestinationAsset req, cn_Rate = co_Rate req,
          cn_RateSource = co_RateSource req\<rparr>))))"

subsection \<open>Batches\<close>

text \<open>The zero values of a batch intent; the zero \<open>time.Time\<close> is the first of January of year 1.\<close>

definition zero_time :: time where "zero_time = - 62135596800000000"

definition zero_intent :: BatchIntent where
  "zero_intent = \<lparr>bi_Type = [], bi_Postings = [], bi_Reference = [],
     bi_Metadata = None, bi_IdempotencyKey = [], bi_Source = [], bi_DestinationHint = [], bi_Asset = [],
     bi_Amount = None, bi_ExpiresAt = zero_time, bi_HoldID = [], bi_Destination = [], bi_OriginalTxID = [],
     bi_Force = False, bi_AtEffectiveDate = False, bi_Reason = [], bi_ConvertParams = None,
     bi_TargetType = 0, bi_TargetID = [], bi_MetadataKey = []\<rparr>"

fun batch_postings :: "string \<Rightarrow> Posting list \<Rightarrow> error + PostingInput list" where
  "batch_postings at [] = Inr []"
| "batch_postings at (p # ps) =
     (case parse_amount (at @ '' posting: invalid amount'') (pp_Amount p) of
        Inl e \<Rightarrow> Inl e
      | Inr a \<Rightarrow>
          (case batch_postings at ps of Inl e \<Rightarrow> Inl e | Inr qs \<Rightarrow> Inr (posting_input p a # qs)))"

definition batch_intent :: "env \<Rightarrow> nat \<Rightarrow> Intent \<Rightarrow> error + BatchIntent" where
  "batch_intent E i nested =
     (let at = ''batch intent '' @ nat_String i;
          bi = zero_intent\<lparr>bi_IdempotencyKey := in_IdempotencyKey nested, bi_Reference := in_Reference nested\<rparr> in
      case in_Operation nested of
        Intent_Post ps \<Rightarrow>
          (case batch_postings at ps of
             Inl e \<Rightarrow> Inl e
           | Inr qs \<Rightarrow> Inr (bi\<lparr>bi_Type := ''post'', bi_Postings := qs\<rparr>))
      | Intent_Authorize req \<Rightarrow>
          (case parse_amount (at @ '': invalid amount'') (au_Amount req) of
             Inl e \<Rightarrow> Inl e
           | Inr a \<Rightarrow> Inr (bi\<lparr>bi_Type := ''authorize'', bi_Source := au_Source req,
               bi_DestinationHint := au_DestinationHint req, bi_Asset := au_Asset req, bi_Amount := Some a,
               bi_ExpiresAt := (case au_ExpiresAt req of None \<Rightarrow> zero_time | Some t \<Rightarrow> t)\<rparr>))
      | Intent_Capture req \<Rightarrow>
          (case parse_amount (at @ '': invalid amount'') (ca_Amount req) of
             Inl e \<Rightarrow> Inl e
           | Inr a \<Rightarrow> Inr (bi\<lparr>bi_Type := ''capture'', bi_HoldID := ca_HoldId req, bi_Amount := Some a,
               bi_Destination := ca_Destination req\<rparr>))
      | Intent_Void holdId \<Rightarrow> Inr (bi\<lparr>bi_Type := ''void'', bi_HoldID := holdId\<rparr>)
      | Intent_Revert req \<Rightarrow> Inr (bi\<lparr>bi_Type := ''revert'', bi_OriginalTxID := re_OriginalTransactionId req,
          bi_Force := re_Force req, bi_AtEffectiveDate := re_AtEffectiveDate req, bi_Reason := re_Reason req\<rparr>)
      | Intent_Amend originalId changes \<Rightarrow> Inr (bi\<lparr>bi_Type := ''amend'', bi_OriginalTxID := originalId,
          bi_Metadata := metadata_input E changes\<rparr>)
      | Intent_Convert req \<Rightarrow>
          (case convert_input (at @ '': '') req of
             Inl e \<Rightarrow> Inl e
           | Inr cp \<Rightarrow> Inr (bi\<lparr>bi_Type := ''convert'', bi_ConvertParams := Some cp\<rparr>))
      | Intent_SetMetadata tt ti md \<Rightarrow> Inr (bi\<lparr>bi_Type := ''set_metadata'', bi_TargetType := int16 tt,
          bi_TargetID := ti, bi_Metadata := metadata_input E md\<rparr>)
      | Intent_DeleteMetadata tt ti key \<Rightarrow> Inr (bi\<lparr>bi_Type := ''delete_metadata'', bi_TargetType := int16 tt,
          bi_TargetID := ti, bi_MetadataKey := key\<rparr>)
      | _ \<Rightarrow> Inl (invalid (at @ '': unsupported operation type'')))"

fun batch_intents :: "env \<Rightarrow> nat \<Rightarrow> Intent list \<Rightarrow> error + BatchIntent list" where
  "batch_intents E i [] = Inr []"
| "batch_intents E i (x # xs) =
     (case batch_intent E i x of
        Inl e \<Rightarrow> Inl e
      | Inr b \<Rightarrow> (case batch_intents E (Suc i) xs of Inl e \<Rightarrow> Inl e | Inr bs \<Rightarrow> Inr (b # bs)))"

definition batch_mode :: "int \<Rightarrow> string" where
  "batch_mode m =
     (if m = BatchOperation_BEST_EFFORT then ''BEST_EFFORT''
      else if m = BatchOperation_CHECKPOINTED then ''CHECKPOINTED''
      else ''ALL_OR_NOTHING'')"

definition handleBatch :: "env \<Rightarrow> Intent \<Rightarrow> int \<Rightarrow> Intent list \<Rightarrow> SubmitResponse prog" where
  "handleBatch E intent m nested =
     andThen (ofSum (batch_intents E 0 nested)) (\<lambda>intents.
     let mode = batch_mode m in
     andThen (mapErr mapPlannerError (SubmitBatch E (in_LedgerId intent) intents mode)) (\<lambda>(batchResult, err).
     if err \<noteq> None \<and> mode = ''ALL_OR_NOTHING'' then fail (mapPlannerError (the err))
     else ok (SubmitResponse [] False None (Output_BatchResult
       (map (\<lambda>r. SubmitResponse (ir_EventID r) False (if ir_Success r then None else ir_Error r) NoOutput)
          (br_Results batchResult))
       (int32 (int (br_Successes batchResult))) (int32 (int (br_Failures batchResult)))))))"

subsection \<open>The universal write call\<close>

definition classifyIntent :: "Intent \<Rightarrow> string \<times> string list" where
  "classifyIntent intent =
     (case in_Operation intent of
        Intent_Post ps \<Rightarrow> (''post'', concat (map (\<lambda>p. [pp_Source p, pp_Destination p]) ps))
      | Intent_Authorize req \<Rightarrow> (''authorize'', [au_Source req])
      | Intent_Capture _ \<Rightarrow> (''capture'', [])
      | Intent_Void _ \<Rightarrow> (''void'', [])
      | Intent_Revert _ \<Rightarrow> (''revert'', [])
      | Intent_Amend _ _ \<Rightarrow> (''amend'', [])
      | Intent_Convert req \<Rightarrow> (''convert'', [co_Source req, co_Destination req])
      | Intent_Batch _ _ \<Rightarrow> (''batch'', [])
      | Intent_SetMetadata tt ti _ \<Rightarrow> (''set_metadata'', if tt = TargetType_ACCOUNT then [ti] else [])
      | Intent_DeleteMetadata tt ti _ \<Rightarrow> (''delete_metadata'', if tt = TargetType_ACCOUNT then [ti] else [])
      | Intent_InsertSchema _ _ \<Rightarrow> (''insert_schema'', [])
      | NoOperation \<Rightarrow> (''unknown'', []))"

definition handle_operation :: "env \<Rightarrow> Intent \<Rightarrow> SubmitResponse prog" where
  "handle_operation E intent =
     (case in_Operation intent of
        Intent_Post ps \<Rightarrow> handlePost E intent ps
      | Intent_SetMetadata tt ti md \<Rightarrow> handleSetMetadata E intent tt ti md
      | Intent_DeleteMetadata tt ti key \<Rightarrow> handleDeleteMetadata E intent tt ti key
      | Intent_InsertSchema b v \<Rightarrow> handleInsertSchema E intent b v
      | Intent_Authorize req \<Rightarrow> handleAuthorize E intent req
      | Intent_Capture req \<Rightarrow> handleCapture E intent req
      | Intent_Void holdId \<Rightarrow> handleVoid E intent holdId
      | Intent_Revert req \<Rightarrow> handleRevert E intent req
      | Intent_Amend i md \<Rightarrow> handleAmend E intent i md
      | Intent_Batch m xs \<Rightarrow> handleBatch E intent m xs
      | Intent_Convert req \<Rightarrow> handleConvert E intent req
      | NoOperation \<Rightarrow> fail (Status Unimplemented (Errorf ''operation type not yet supported'')))"

text \<open>A failure to write the audit event of a denial is logged.\<close>

definition Submit :: "env \<Rightarrow> Context \<Rightarrow> Intent option \<Rightarrow> SubmitResponse prog" where
  "Submit E ctx req =
     (case req of
        None \<Rightarrow> fail (invalid ''intent is required'')
      | Some intent \<Rightarrow>
          if in_LedgerId intent = [] then fail (invalid ''ledger_id is required'')
          else
            andThen (ofSum (extractPrincipal ctx)) (\<lambda>who.
            let (opType, accountsTouched) = classifyIntent intent in
            andThen (ofErr (authorizeLedger ctx (in_LedgerId intent))) (\<lambda>_.
            attempt (EvaluatePolicy E (in_LedgerId intent) who opType accountsTouched) (\<lambda>r.
            case r of
              Inl e \<Rightarrow>
                attempt (if errors_is e ErrPolicyDenied
                    then WritePolicyDenialEvent E (in_LedgerId intent) who (error_text E e) else ok ()) (\<lambda>_.
                fail (mapPlannerError e))
            | Inr _ \<Rightarrow> handle_operation E intent))))"

subsection \<open>Reads\<close>

definition GetTransaction_rpc :: "env \<Rightarrow> Context \<Rightarrow> string \<Rightarrow> string \<Rightarrow> Transaction prog" where
  "GetTransaction_rpc E ctx ledgerID txID =
     andThen (ofErr (authorizeLedger ctx ledgerID)) (\<lambda>_.
     andThen (mapErr (missing_or ''transaction not found'' ''getting transaction: '')
       (GetTransaction E Pool ledgerID txID)) (\<lambda>rec.
     ok (txRecordToProto rec)))"

definition ListTransactions_rpc ::
  "env \<Rightarrow> Context \<Rightarrow> string \<Rightarrow> ListParams \<Rightarrow> (Transaction list \<times> string) prog" where
  "ListTransactions_rpc E ctx ledgerID params =
     andThen (ofErr (authorizeLedger ctx ledgerID)) (\<lambda>_.
     andThen (mapErr (internal ''listing transactions: '') (ListTransactions E Pool ledgerID params))
       (\<lambda>(recs, nextToken). ok (map txRecordToProto recs, nextToken)))"

definition GetAccount_rpc :: "env \<Rightarrow> Context \<Rightarrow> string \<Rightarrow> string \<Rightarrow> Account prog" where
  "GetAccount_rpc E ctx ledgerID address =
     andThen (ofErr (authorizeLedger ctx ledgerID)) (\<lambda>_.
     andThen (mapErr (missing_or ''account not found'' ''getting account: '')
       (GetAccount E Pool ledgerID address)) (\<lambda>rec.
     ok (accountRecordToProto rec)))"

definition ListAccounts_rpc ::
  "env \<Rightarrow> Context \<Rightarrow> string \<Rightarrow> ListParams \<Rightarrow> (Account list \<times> string) prog" where
  "ListAccounts_rpc E ctx ledgerID params =
     andThen (ofErr (authorizeLedger ctx ledgerID)) (\<lambda>_.
     andThen (mapErr (internal ''listing accounts: '') (ListAccounts E Pool ledgerID params))
       (\<lambda>(recs, nextToken). ok (map accountRecordToProto recs, nextToken)))"

record GetBalanceRequest =
  gbq_LedgerId :: string
  gbq_Account :: string
  gbq_Asset :: string
  gbq_AsOfValid :: "time option"
  gbq_AsOfSystem :: "time option"
  gbq_IncludeHolds :: bool

record GetBalanceResponse =
  gbr_PostedBalance :: string
  gbr_AvailableBalance :: string
  gbr_Asset :: string
  gbr_AsOfValid :: "time option"
  gbr_AsOfSystem :: "time option"

definition GetBalance_rpc :: "env \<Rightarrow> Context \<Rightarrow> GetBalanceRequest \<Rightarrow> GetBalanceResponse prog" where
  "GetBalance_rpc E ctx req =
     (if gbq_Asset req = [] then fail (invalid ''asset is required for GetBalance'')
      else
        andThen (ofErr (authorizeLedger ctx (gbq_LedgerId req))) (\<lambda>_.
        andThen (mapErr (internal ''getting balance: '') (GetBalance E Pool (gbq_LedgerId req) (gbq_Account req)
          (gbq_Asset req) (gbq_AsOfValid req) (gbq_AsOfSystem req))) (\<lambda>bal.
        let balance = br_Input bal - br_Output bal;
            resp = \<lparr>gbr_PostedBalance = int_String balance, gbr_AvailableBalance = [], gbr_Asset = gbq_Asset req,
              gbr_AsOfValid = gbq_AsOfValid req, gbr_AsOfSystem = gbq_AsOfSystem req\<rparr> in
        if \<not> gbq_IncludeHolds req then ok resp
        else
          andThen (mapErr (internal ''getting active holds total: '')
            (GetActiveHoldsTotal E Pool (gbq_LedgerId req) (gbq_Account req) (gbq_Asset req))) (\<lambda>holdsTotal.
          ok (resp\<lparr>gbr_AvailableBalance := int_String (balance - holdsTotal)\<rparr>)))))"

definition GetAggregatedBalances_rpc ::
  "env \<Rightarrow> Context \<Rightarrow> string \<Rightarrow> string \<Rightarrow> time option \<Rightarrow> time option \<Rightarrow> (string \<times> string) list prog" where
  "GetAggregatedBalances_rpc E ctx ledgerID addressPattern asOfValid asOfSystem =
     andThen (ofErr (authorizeLedger ctx ledgerID)) (\<lambda>_.
     andThen (mapErr (internal ''getting aggregated balances: '')
       (GetAggregatedBalances E Pool ledgerID addressPattern asOfValid asOfSystem)) (\<lambda>balances.
     ok (map (\<lambda>(s, b). (s, int_String b)) balances)))"

record Schema =
  sm_LedgerId :: string
  sm_Version :: string
  sm_Document :: bytes
  sm_InsertedAt :: time
  sm_EventId :: string

definition GetSchema_rpc :: "env \<Rightarrow> Context \<Rightarrow> string \<Rightarrow> string \<Rightarrow> Schema prog" where
  "GetSchema_rpc E ctx ledgerID version =
     andThen (ofErr (authorizeLedger ctx ledgerID)) (\<lambda>_.
     andThen (mapErr (missing_or (''schema '' @ quoted version @ '' not found'') ''getting schema: '')
       (GetSchema E Pool ledgerID version)) (\<lambda>rec.
     ok \<lparr>sm_LedgerId = sc_LedgerID rec, sm_Version = sc_Version rec,
         sm_Document = (case sc_Document rec of DocBytes b \<Rightarrow> b | DocJson j \<Rightarrow> json_marshal j),
         sm_InsertedAt = sc_InsertedAt rec, sm_EventId = sc_EventID rec\<rparr>))"

definition ListLogEvents_rpc ::
  "env \<Rightarrow> Context \<Rightarrow> string \<Rightarrow> ListParams \<Rightarrow> (LogEvent list \<times> string) prog" where
  "ListLogEvents_rpc E ctx ledgerID params =
     andThen (ofErr (authorizeLedger ctx ledgerID)) (\<lambda>_.
     andThen (mapErr (internal ''listing log events: '') (ListLogEvents E Pool ledgerID params))
       (\<lambda>(recs, nextToken). ok (map logEventRecordToProto recs, nextToken)))"

definition GetLogEvent_rpc :: "env \<Rightarrow> Context \<Rightarrow> string \<Rightarrow> string \<Rightarrow> LogEvent prog" where
  "GetLogEvent_rpc E ctx ledgerID eventID =
     andThen (ofErr (authorizeLedger ctx ledgerID)) (\<lambda>_.
     andThen (mapErr (missing_or ''log event not found'' ''getting log event: '')
       (GetLogEvent E Pool ledgerID eventID)) (\<lambda>rec.
     ok (logEventRecordToProto rec)))"

definition hex_EncodeToString :: "bytes \<Rightarrow> string" where
  "hex_EncodeToString b =
     concat (map (\<lambda>c. [hex_digit (of_char c div 16), hex_digit (of_char c mod 16)]) b)"

text \<open>The batch is looked up by its identifier alone: the ledger of the request is not read and
  the caller's access to it not checked.\<close>

definition VerifyBatch_rpc :: "env \<Rightarrow> Context \<Rightarrow> string \<Rightarrow> string \<Rightarrow> (bool \<times> string \<times> int) prog" where
  "VerifyBatch_rpc E ctx ledgerID batchID =
     andThen (mapErr (missing_or ''batch not found'' ''verifying batch: '') (VerifyBatch E batchID))
       (\<lambda>(valid, root, count). ok (valid, hex_EncodeToString root, int32 (int count)))"

definition holdRecordToProto :: "HoldRecord \<Rightarrow> Hold" where
  "holdRecordToProto rec = \<lparr>ho_LedgerId = hd_LedgerID rec, ho_HoldId = hd_HoldID rec, ho_Source = hd_Source rec,
     ho_DestinationHint = hd_DestinationHint rec, ho_Asset = hd_Asset rec,
     ho_AuthorizedAmount = int_String (hd_AuthorizedAmount rec),
     ho_CapturedAmount = int_String (hd_CapturedAmount rec), ho_Voided = hd_Voided rec,
     ho_Expired = hd_Expired rec, ho_ExpiresAt = Some (hd_ExpiresAt rec), ho_ValidTime = Some (hd_ValidTime rec),
     ho_SystemTime = Some (hd_SystemTime rec)\<rparr>"

definition GetHold_rpc :: "env \<Rightarrow> Context \<Rightarrow> string \<Rightarrow> string \<Rightarrow> Hold prog" where
  "GetHold_rpc E ctx ledgerID holdID =
     andThen (ofErr (authorizeLedger ctx ledgerID)) (\<lambda>_.
     andThen (mapErr (missing_or ''hold not found'' ''getting hold: '') (GetHold E Pool ledgerID holdID)) (\<lambda>rec.
     ok (holdRecordToProto rec)))"

definition ListHolds_rpc ::
  "env \<Rightarrow> Context \<Rightarrow> string \<Rightarrow> ListParams \<Rightarrow> string \<Rightarrow> (Hold list \<times> string) prog" where
  "ListHolds_rpc E ctx ledgerID params account =
     andThen (ofErr (authorizeLedger ctx ledgerID)) (\<lambda>_.
     andThen (mapErr (internal ''listing holds: '') (ListHolds E Pool ledgerID params account))
       (\<lambda>(recs, nextToken). ok (map holdRecordToProto recs, nextToken)))"

record Relationship =
  rp_ParentTxId :: string
  rp_ChildTxId :: string
  rp_Type :: int
  rp_EventId :: string
  rp_SystemTime :: time

definition GetRelationships_rpc ::
  "env \<Rightarrow> Context \<Rightarrow> string \<Rightarrow> string \<Rightarrow> int \<Rightarrow> Relationship list prog" where
  "GetRelationships_rpc E ctx ledgerID txID depth =
     andThen (ofErr (authorizeLedger ctx ledgerID)) (\<lambda>_.
     andThen (mapErr (internal ''getting relationships: '') (GetRelationships E Pool ledgerID txID depth)) (\<lambda>rels.
     ok (map (\<lambda>r. \<lparr>rp_ParentTxId = rl_ParentTxID r, rp_ChildTxId = rl_ChildTxID r,
       rp_Type = int16 (rl_RelationshipType r + 1), rp_EventId = rl_EventID r,
       rp_SystemTime = rl_SystemTime r\<rparr>) rels)))"

subsection \<open>Approvals\<close>

record SubmitForApprovalRequest =
  sfr_LedgerId :: string
  sfr_IntentPayload :: bytes
  sfr_RequiredApprovers :: "string list"
  sfr_SubmittedBy :: string
  sfr_ExpiresInSeconds :: int

text \<open>The duration is a number of nanoseconds in 64 bits; who submits is taken from the context,
  not from the message.\<close>

definition SubmitForApproval_rpc :: "env \<Rightarrow> Context \<Rightarrow> SubmitForApprovalRequest \<Rightarrow> string prog" where
  "SubmitForApproval_rpc E ctx req =
     (if sfr_LedgerId req = [] then fail (invalid ''ledger_id is required'')
      else if sfr_IntentPayload req = [] then fail (invalid ''intent_payload is required'')
      else if sfr_RequiredApprovers req = [] then fail (invalid ''at least one required_approver is needed'')
      else
        andThen (ofSum (extractPrincipal ctx)) (\<lambda>submittedBy.
        let expiresIn = int64 (sfr_ExpiresInSeconds req * 1000000000) div 1000 in
        andThen (ofErr (authorizeLedger ctx (sfr_LedgerId req))) (\<lambda>_.
        mapErr mapPlannerError (SubmitForApproval E (sfr_LedgerId req) (sfr_IntentPayload req)
          (sfr_RequiredApprovers req) submittedBy expiresIn))))"

record ApproveIntentResponse =
  air_FullyApproved :: bool
  air_EventId :: string
  air_Transaction :: "Transaction option"

definition ApproveIntent_rpc ::
  "(bytes \<Rightarrow> error + BatchIntent) \<Rightarrow> env \<Rightarrow> Context \<Rightarrow> string \<Rightarrow> string \<Rightarrow> string \<Rightarrow> ApproveIntentResponse prog" where
  "ApproveIntent_rpc unmarshal E ctx ledgerID intentID signature =
     (if ledgerID = [] then fail (invalid ''ledger_id is required'')
      else if intentID = [] then fail (invalid ''intent_id is required'')
      else
        andThen (ofSum (extractPrincipal ctx)) (\<lambda>who.
        andThen (ofErr (authorizeLedger ctx ledgerID)) (\<lambda>_.
        andThen (mapErr mapPlannerError (Approve unmarshal E ledgerID intentID who signature)) (\<lambda>result.
        if EventID result \<noteq> [] \<and> EventID result \<noteq> intentID then
          ok \<lparr>air_FullyApproved = True, air_EventId = EventID result,
              air_Transaction = map_option txRecordToProto (Transaction result)\<rparr>
        else ok \<lparr>air_FullyApproved = False, air_EventId = [], air_Transaction = None\<rparr>))))"

record PendingApproval =
  pn_LedgerId :: string
  pn_IntentId :: string
  pn_IntentHash :: bytes
  pn_RequiredApprovers :: "string list"
  pn_ReceivedApprovals :: "ApprovalEntry list"
  pn_ExpiresAt :: time
  pn_State :: string
  pn_SubmittedAt :: time
  pn_SubmittedBy :: string

definition pendingApprovalRecordToProto :: "PendingApprovalRecord \<Rightarrow> PendingApproval" where
  "pendingApprovalRecordToProto rec = \<lparr>pn_LedgerId = pa_LedgerID rec, pn_IntentId = pa_IntentID rec,
     pn_IntentHash = pa_IntentHash rec, pn_RequiredApprovers = pa_RequiredApprovers rec,
     pn_ReceivedApprovals = pa_ReceivedApprovals rec, pn_ExpiresAt = pa_ExpiresAt rec,
     pn_State = pa_State rec, pn_SubmittedAt = pa_SubmittedAt rec, pn_SubmittedBy = pa_SubmittedBy rec\<rparr>"

definition ListPendingApprovals_rpc ::
  "env \<Rightarrow> Context \<Rightarrow> string \<Rightarrow> ListParams \<Rightarrow> (PendingApproval list \<times> string) prog" where
  "ListPendingApprovals_rpc E ctx ledgerID params =
     (if ledgerID = [] then fail (invalid ''ledger_id is required'')
      else
        andThen (ofErr (authorizeLedger ctx ledgerID)) (\<lambda>_.
        andThen (mapErr (internal ''listing pending approvals: '') (ListPendingApprovals E Pool ledgerID params))
          (\<lambda>(recs, nextToken). ok (map pendingApprovalRecordToProto recs, nextToken))))"

end
