(* ===== verification/Api_Stream.thy ===== *)
theory Api_Stream
  imports Api_Service
begin

text \<open>
  Export and import of the log, the streaming calls \<open>Export\<close> and \<open>Import\<close> of
  \<^verbatim>\<open>src/internal/api/grpc/service.go\<close>. The messages a client streams in are a list and the error
  that ends it, \<open>EOF\<close> for a regular end; the messages streamed out are a list, and the argument
  \<open>sends\<close> decides which \<open>Send\<close> fails.
\<close>

subsection \<open>Export\<close>

fun send_all :: "(nat \<Rightarrow> error option) \<Rightarrow> LogEvent list \<Rightarrow> LogEvent list \<Rightarrow> LogEvent list \<times> error option" where
  "send_all sends sent [] = (sent, None)"
| "send_all sends sent (e # es) =
     (case sends (length sent) of
        Some err \<Rightarrow> (sent, Some err)
      | None \<Rightarrow> send_all sends (sent @ [e]) es)"

text \<open>The loop over the pages: what was sent and the error it ended with; no outcome when the
  fuel runs out.\<close>

fun export_pages ::
  "nat \<Rightarrow> env \<Rightarrow> (nat \<Rightarrow> error option) \<Rightarrow> string \<Rightarrow> string \<Rightarrow> LogEvent list \<Rightarrow> (LogEvent list \<times> error option) option prog" where
  "export_pages 0 E sends ledgerID pageToken sent = ok None"
| "export_pages (Suc n) E sends ledgerID pageToken sent =
     attempt (ListLogEvents E Pool ledgerID \<lparr>PageSize = 1000, PageToken = pageToken\<rparr>) (\<lambda>r.
     case r of
       Inl e \<Rightarrow> ok (Some (sent, Some (internal ''listing events for export: '' e)))
     | Inr (events, nextToken) \<Rightarrow>
         (case send_all sends sent (map logEventRecordToProto events) of
            (sent', Some e) \<Rightarrow> ok (Some (sent', Some e))
          | (sent', None) \<Rightarrow>
              if nextToken = [] then ok (Some (sent', None))
              else export_pages n E sends ledgerID nextToken sent'))"

definition Export ::
  "nat \<Rightarrow> env \<Rightarrow> string list \<Rightarrow> (nat \<Rightarrow> error option) \<Rightarrow> Context \<Rightarrow> string \<Rightarrow> (LogEvent list \<times> error option) option prog" where
  "Export n E admins sends ctx ledgerID =
     (case extractPrincipal ctx of
        Inl e \<Rightarrow> ok (Some ([], Some e))
      | Inr who \<Rightarrow>
          (case requireImportExportAuthz admins who of
             Some e \<Rightarrow> ok (Some ([], Some e))
           | None \<Rightarrow>
               attempt (EvaluatePolicy E ledgerID who ''export'' []) (\<lambda>r.
               case r of
                 Inl e \<Rightarrow> ok (Some ([], Some (mapPlannerError e)))
               | Inr _ \<Rightarrow> export_pages n E sends ledgerID [] [])))"

subsection \<open>Import\<close>

definition maxImportEventsPerCall :: int where "maxImportEventsPerCall = 100000"
definition maxImportClockSkew :: time where "maxImportClockSkew = 300000000"

definition validateImportEvent :: "env \<Rightarrow> LogEvent \<Rightarrow> error option" where
  "validateImportEvent E event =
     (if ge_LedgerId event = [] then Some (invalid ''event ledger_id is required'')
      else if ge_EventId event = [] then Some (invalid ''event event_id is required'')
      else if ge_Payload event = [] then
        Some (invalid (''event '' @ quoted (ge_EventId event) @ '' has an empty payload''))
      else if \<not> json_Valid E (ge_Payload event) then
        Some (invalid (''event '' @ quoted (ge_EventId event) @ '' payload is not valid JSON''))
      else if ge_Type event < 1 \<or> ge_Type event > EventTypeApprovalRecorded then
        Some (invalid (''event '' @ quoted (ge_EventId event) @ '' has unknown event type '' @ int_String (ge_Type event)))
      else if ge_SystemTime event = None \<or> ge_ValidTime event = None then
        Some (invalid (''event '' @ quoted (ge_EventId event) @ '' is missing system_time or valid_time''))
      else None)"

text \<open>The state of one call: the number of events imported so far, and per ledger the next
  sequence number and the batch assigned by the server.\<close>

record import_state =
  im_count :: int
  im_expectedSeq :: "(string \<times> int) list"
  im_batchIDs :: "(string \<times> string) list"

text \<open>The first event of a ledger: the ledger has to exist, to be open and to have no event yet.\<close>

definition admitLedger :: "env \<Rightarrow> string \<Rightarrow> string \<Rightarrow> import_state \<Rightarrow> import_state prog" where
  "admitLedger E who ledgerID st =
     (if map_of (im_expectedSeq st) ledgerID \<noteq> None then ok st
      else
        andThen (mapErr mapPlannerError (EvaluatePolicy E ledgerID who ''import'' [])) (\<lambda>_.
        andThen (mapErr (missing_or (''ledger '' @ quoted ledgerID @ '' not found'') ''checking ledger: '')
          (GetLedger E Pool ledgerID)) (\<lambda>ledger.
        if lr_State ledger = ''sealed'' then
          fail (Status FailedPrecondition (Errorf (''ledger '' @ quoted ledgerID @ '' is sealed; import rejected'')))
        else
          andThen (mapErr (internal ''checking ledger emptiness: '')
            (ListLogEvents E Pool ledgerID \<lparr>PageSize = 1, PageToken = []\<rparr>)) (\<lambda>(existing, _).
          if existing \<noteq> [] then
            fail (Status FailedPrecondition (Errorf (''ledger '' @ quoted ledgerID @
              '' already has events; import only restores into an empty ledger'')))
          else
            andThen (mapErr (internal ''allocating import batch: '') (CurrentBatchID E ledgerID)) (\<lambda>batchID.
            ok (st\<lparr>im_expectedSeq := obj_put ledgerID 1 (im_expectedSeq st),
                   im_batchIDs := obj_put ledgerID batchID (im_batchIDs st)\<rparr>))))))"

definition imported_record :: "import_state \<Rightarrow> LogEvent \<Rightarrow> LogEventRecord" where
  "imported_record st event = \<lparr>ev_EventID = ge_EventId event, ev_LedgerID = ge_LedgerId event,
     ev_LedgerSeq = int64 (ge_LedgerSeq event), ev_SystemTime = the (ge_SystemTime event),
     ev_ValidTime = the (ge_ValidTime event), ev_Type = int16 (ge_Type event), ev_Payload = ge_Payload event,
     ev_IdempotencyKey = ge_IdempotencyKey event, ev_IdempotencyHash = None,
     ev_BatchID = (case map_of (im_batchIDs st) (ge_LedgerId event) of None \<Rightarrow> [] | Some b \<Rightarrow> b),
     ev_SchemaVersion = int64 (ge_SchemaVersion event)\<rparr>"

definition importEvent :: "env \<Rightarrow> string \<Rightarrow> LogEvent \<Rightarrow> import_state \<Rightarrow> import_state prog" where
  "importEvent E who event st0 =
     (if im_count st0 \<ge> maxImportEventsPerCall then
        fail (Status ResourceExhausted (Errorf (''import exceeds per-call limit of '' @
          int_String maxImportEventsPerCall @ '' events; split into multiple calls'')))
      else
        andThen (ofErr (validateImportEvent E event)) (\<lambda>_.
        andThen (admitLedger E who (ge_LedgerId event) st0) (\<lambda>st.
        andThen (time_Now E) (\<lambda>now.
        if the (ge_SystemTime event) > now + maxImportClockSkew then
          fail (invalid (''event '' @ quoted (ge_EventId event) @ '' system_time is in the future''))
        else
          let want = (case map_of (im_expectedSeq st) (ge_LedgerId event) of None \<Rightarrow> 0 | Some n \<Rightarrow> n) in
          if uint64 want \<noteq> ge_LedgerSeq event then
            fail (invalid (''event '' @ quoted (ge_EventId event) @ '' has non-contiguous ledger_seq '' @
              int_String (ge_LedgerSeq event) @ '' (expected '' @ int_String want @ '')''))
          else
            andThen (mapErr (\<lambda>e. if errors_is e ErrIdempotencyKeyConflict
                then Status AlreadyExists (Errorf (''event '' @ quoted (ge_EventId event) @
                  '' already exists (idempotency conflict)''))
                else internal ''importing event: '' e)
              (AppendLogEvent E Pool (imported_record st event))) (\<lambda>_.
            ok (st\<lparr>im_expectedSeq := obj_put (ge_LedgerId event) (want + 1) (im_expectedSeq st),
                   im_count := im_count st + 1\<rparr>))))))"

fun import_loop :: "env \<Rightarrow> string \<Rightarrow> LogEvent list \<Rightarrow> error \<Rightarrow> import_state \<Rightarrow> int prog" where
  "import_loop E who [] final st =
     (if errors_is final EOF then ok (im_count st) else fail (internal ''receiving event: '' final))"
| "import_loop E who (event # rest) final st =
     andThen (importEvent E who event st) (\<lambda>st'. import_loop E who rest final st')"

definition fresh_import :: import_state where
  "fresh_import = \<lparr>im_count = 0, im_expectedSeq = [], im_batchIDs = []\<rparr>"

definition Import :: "env \<Rightarrow> string list \<Rightarrow> Context \<Rightarrow> LogEvent list \<Rightarrow> error \<Rightarrow> int prog" where
  "Import E admins ctx events final =
     andThen (ofSum (extractPrincipal ctx)) (\<lambda>who.
     andThen (ofErr (requireImportExportAuthz admins who)) (\<lambda>_.
     import_loop E who events final fresh_import))"

subsection \<open>What an import writes\<close>

lemma keeps_pg_EvaluatePolicy: "keeps pg_frame (EvaluatePolicy E l who ty accts)"
  unfolding EvaluatePolicy_def checkPolicy_def
  by (intro pg_frame.keeps_rules keeps_pg_of_tx [OF keeps_GetActivePolicy])

lemma keeps_pg_ListLogEvents: "keeps pg_frame (ListLogEvents E Pool l params)"
  unfolding ListLogEvents_def by (intro pg_frame.keeps_rules keeps_pg_query_Pool)

lemma keeps_pg_admitLedger: "keeps pg_frame (admitLedger E who l st)"
  unfolding admitLedger_def
  by (intro pg_frame.keeps_rules keeps_pg_EvaluatePolicy keeps_pg_ListLogEvents
      keeps_pg_of_tx [OF keeps_GetLedger] keeps_pg_of_tx [OF keeps_CurrentBatchID])

lemma keeps_pg_time_Now: "keeps pg_frame (time_Now E)"
  by (rule keeps_pg_of_tx [OF keeps_time_Now])

lemma ListLogEvents_run:
  assumes "ListLogEvents E Pool l params w = (Inr (es, t), w')"
  shows "pg w' = pg w" and "(es, t) = page_of ev_EventID (page_limit params)
    (list_events_rows l (PageToken params) (page_limit params + 1) (pg w))"
proof -
  from assms obtain rows where "query E Pool (\<lambda>now. list_events_rows l (PageToken params) (page_limit params + 1)) w = (Inr rows, w')"
    and p: "page_of ev_EventID (page_limit params) rows = (es, t)"
    by (auto simp: ListLogEvents_def Let_def io_ok)
  from query_Pool_ok [OF this(1)] p show "pg w' = pg w" "(es, t) = page_of ev_EventID (page_limit params)
    (list_events_rows l (PageToken params) (page_limit params + 1) (pg w))" by auto
qed

lemma GetLedger_run:
  assumes "GetLedger E Pool l w = (Inr lr, w')"
  shows "pg w' = pg w" and "\<exists>row. find_ledger l (pg w) = Some row \<and> lg_state row = lr_State lr"
proof -
  from assms obtain row where "query E Pool (\<lambda>now. find_ledger l) w = (Inr (Some row), w')"
    and r: "ledger_record row = Inr lr"
    by (auto simp: GetLedger_def io_ok split: option.splits)
  from query_Pool_ok [OF this(1)] show "pg w' = pg w" "\<exists>row. find_ledger l (pg w) = Some row \<and> lg_state row = lr_State lr"
    using ledger_record_simps(2) [OF r] by (simp_all, metis)
qed

lemma no_events_seqs: "list_events_rows l [] n d = [] \<Longrightarrow> 0 < n \<Longrightarrow> seqs l d = []"
  by (auto simp: list_events_rows_def seqs_def dest: arg_cong [of _ _ length])

lemma admitLedger_ok:
  assumes "admitLedger E who l st w = (Inr st', w')"
  shows "im_count st' = im_count st"
    and "map_of (im_expectedSeq st) l \<noteq> None \<and> st' = st \<or>
      map_of (im_expectedSeq st) l = None \<and> im_expectedSeq st' = obj_put l 1 (im_expectedSeq st) \<and>
      seqs l (pg w) = [] \<and> (\<exists>row. find_ledger l (pg w) = Some row \<and> lg_state row \<noteq> ''sealed'')"
proof -
  have *: "map_of (im_expectedSeq st) l \<noteq> None \<and> st' = st \<or> (\<exists>b. map_of (im_expectedSeq st) l = None \<and> seqs l (pg w) = [] \<and>
      (\<exists>row. find_ledger l (pg w) = Some row \<and> lg_state row \<noteq> ''sealed'') \<and>
      st' = st\<lparr>im_expectedSeq := obj_put l 1 (im_expectedSeq st), im_batchIDs := obj_put l b (im_batchIDs st)\<rparr>)"
  proof (cases "map_of (im_expectedSeq st) l")
    case None
    with assms obtain w1 w2 w3 lr t b where p: "EvaluatePolicy E l who ''import'' [] w = (Inr (), w1)"
      and g: "GetLedger E Pool l w1 = (Inr lr, w2)" and o1: "lr_State lr \<noteq> ''sealed''"
      and e: "ListLogEvents E Pool l \<lparr>PageSize = 1, PageToken = []\<rparr> w2 = (Inr ([], t), w3)"
      and st': "st' = st\<lparr>im_expectedSeq := obj_put l 1 (im_expectedSeq st), im_batchIDs := obj_put l b (im_batchIDs st)\<rparr>"
      by (auto simp: admitLedger_def io_ok split: if_splits prod.splits)
    have w1: "pg w1 = pg w" using keepsD [OF keeps_pg_EvaluatePolicy p] by (simp add: pg_frame_def)
    have "seqs l (pg w2) = []"
      using ListLogEvents_run(2) [OF e] no_events_seqs [of l 2 "pg w2"]
      by (auto simp: page_limit_def maxPageSize_def page_of_def split: if_splits)
    then show ?thesis using None w1 GetLedger_run [OF g] o1 st' by auto
  qed (use assms in \<open>simp add: admitLedger_def\<close>)
  then show "im_count st' = im_count st" by auto
  from * show "map_of (im_expectedSeq st) l \<noteq> None \<and> st' = st \<or>
      map_of (im_expectedSeq st) l = None \<and> im_expectedSeq st' = obj_put l 1 (im_expectedSeq st) \<and>
      seqs l (pg w) = [] \<and> (\<exists>row. find_ledger l (pg w) = Some row \<and> lg_state row \<noteq> ''sealed'')"
    by auto
qed

text \<open>What is known during a call: every ledger admitted holds exactly the events imported into
  it, numbered from one.\<close>

definition import_inv :: "import_state \<Rightarrow> db \<Rightarrow> bool" where
  "import_inv st d \<longleftrightarrow> 0 \<le> im_count st \<and> im_count st \<le> maxImportEventsPerCall \<and>
     (\<forall>l n. map_of (im_expectedSeq st) l = Some n \<longrightarrow> 1 \<le> n \<and> n \<le> im_count st + 1 \<and> seqs l d = [1..n - 1])"

lemma next_seq_upto: "seqs l d = [1..n - 1] \<Longrightarrow> 1 \<le> n \<Longrightarrow> next_seq l d = n"
proof -
  assume s: "seqs l d = [1..n - 1]" and "1 \<le> n"
  have "n - 1 = int (nat (n - 1))" using \<open>1 \<le> n\<close> by simp
  then show "next_seq l d = n"
    using s \<open>1 \<le> n\<close> fold_max_upto [of "nat (n - 1)"] by (cases "n = 1") (simp_all add: next_seq_def upto_rec1)
qed

lemma seqs_append:
  "seqs l (d\<lparr>log_events := log_events d @ [ev]\<rparr>) = seqs l d @ (if ev_LedgerID ev = l then [ev_LedgerSeq ev] else [])"
  by (simp add: seqs_def)

text \<open>The message of an event as it will be exported again, but for the batch, which the server
  assigns.\<close>

definition without_batch :: "LogEvent \<Rightarrow> LogEvent" where
  "without_batch e = e\<lparr>ge_BatchId := []\<rparr>"

lemma AppendLogEvent_run:
  assumes "AppendLogEvent E Pool ev w = (r, w')"
  shows "r = Inl e \<Longrightarrow> pg w' = pg w"
    and "r = Inr u \<Longrightarrow> pg w' = (pg w)\<lparr>log_events := log_events (pg w) @ [ev]\<rparr> \<and> \<not> list_ex (event_conflict ev) (log_events (pg w))"
  using assms by (auto simp: AppendLogEvent_def mapErr_def append_event_sql_def stmt_def abort_tx_def Let_def
    split: prod.splits sum.splits option.splits if_splits)

lemma importEvent_fails:
  assumes "importEvent E who event st w = (Inl e, w')"
  shows "pg w' = pg w"
proof -
  obtain q1 w1 where admit: "admitLedger E who (ge_LedgerId event) st w = (q1, w1)" by fastforce
  obtain q2 w2 where now: "time_Now E w1 = (q2, w2)" by fastforce
  have same: "pg w1 = pg w" "pg w2 = pg w"
    using keepsD [OF keeps_pg_admitLedger admit] keepsD [OF keeps_pg_time_Now now] by (simp_all add: pg_frame_def)
  show ?thesis
    using assms same admit now AppendLogEvent_run(1)
    by (auto simp: importEvent_def andThen_def mapErr_def Let_def ofErr_def split: if_splits option.splits sum.splits prod.splits)
qed

text \<open>An imported event takes the next number of its ledger, or nothing is written.\<close>

lemma importEvent_run:
  assumes run: "importEvent E who event st w = (r, w')" and inv: "import_inv st (pg w)"
    and u64: "0 \<le> ge_SchemaVersion event" "ge_SchemaVersion event < 2 ^ 64"
  shows "(\<exists>e. r = Inl e) \<and> pg w' = pg w \<or> (\<exists>st' ev. r = Inr st' \<and> import_inv st' (pg w') \<and>
    im_count st' = im_count st + 1 \<and> pg w' = (pg w)\<lparr>log_events := log_events (pg w) @ [ev]\<rparr> \<and>
    booked (ge_LedgerId event) ev [] (pg w) (pg w') \<and> without_batch (logEventRecordToProto ev) = without_batch event \<and>
    (map_of (im_expectedSeq st) (ge_LedgerId event) = None \<longrightarrow> seqs (ge_LedgerId event) (pg w) = []) \<and>
    (\<forall>l. l \<noteq> ge_LedgerId event \<longrightarrow> map_of (im_expectedSeq st') l = map_of (im_expectedSeq st) l))"
proof (cases r)
  case (Inl e)
  then show ?thesis using importEvent_fails run by blast
next
  case (Inr st')
  let ?l = "ge_LedgerId event"
  from run Inr obtain st1 w1 w2 w3 now where valid: "validateImportEvent E event = None"
    and count: "im_count st < maxImportEventsPerCall"
    and admit: "admitLedger E who ?l st w = (Inr st1, w1)" and now: "time_Now E w1 = (Inr now, w2)"
    and seq: "uint64 (case map_of (im_expectedSeq st1) ?l of None \<Rightarrow> 0 | Some n \<Rightarrow> n) = ge_LedgerSeq event"
    and app: "AppendLogEvent E Pool (imported_record st1 event) w2 = (Inr (), w3)"
    and st': "st' = st1\<lparr>im_expectedSeq := obj_put ?l ((case map_of (im_expectedSeq st1) ?l of None \<Rightarrow> 0 | Some n \<Rightarrow> n) + 1)
        (im_expectedSeq st1), im_count := im_count st1 + 1\<rparr>" and w': "w' = w3"
    by (auto simp: importEvent_def io_ok Let_def split: if_splits)
  have same: "pg w2 = pg w"
    using keepsD [OF keeps_pg_admitLedger admit] keepsD [OF keeps_pg_time_Now now] by (simp add: pg_frame_def)
  define want where "want = (case map_of (im_expectedSeq st1) ?l of None \<Rightarrow> 0 | Some n \<Rightarrow> n)"
  define ev where "ev = imported_record st1 event"
  have inv1: "import_inv st1 (pg w)"
    using inv admitLedger_ok [OF admit] by (auto simp: import_inv_def split: if_splits)
  have some: "map_of (im_expectedSeq st1) ?l = Some want"
    using admitLedger_ok(2) [OF admit] by (auto simp: want_def)
  with inv1 have want: "1 \<le> want" "want \<le> im_count st1 + 1" "seqs ?l (pg w) = [1..want - 1]"
    by (simp_all add: import_inv_def)
  then have w63: "want < 2 ^ 63" using inv1 by (simp add: import_inv_def maxImportEventsPerCall_def)
  have i64: "int64 want = want" using want(1) w63 by (intro int64_id) simp_all
  have u64': "uint64 want = want" using want(1) w63 by (intro uint64_id) simp_all
  have ws: "ge_LedgerSeq event = want" using seq u64' unfolding want_def by simp
  have ty: "int16 (ge_Type event) = ge_Type event"
    using valid by (intro int16_id) (auto simp: validateImportEvent_def EventTypeApprovalRecorded_def split: if_splits)
  from AppendLogEvent_run [OF app] have pg': "pg w' = (pg w)\<lparr>log_events := log_events (pg w) @ [ev]\<rparr>"
    and nc: "\<not> list_ex (event_conflict ev) (log_events (pg w))" by (simp_all add: same w' ev_def)
  have evl: "ev_LedgerID ev = ?l" "ev_LedgerSeq ev = want" by (simp_all add: ev_def imported_record_def ws i64)
  have "booked ?l ev [] (pg w) (pg w')"
    using nc evl next_seq_upto [OF want(3,1)] by (simp add: booked_def pg' zero_sum_def list_ex_iff list_all_iff)
  moreover have "import_inv st' (pg w')"
    using inv1 count want evl admitLedger_ok(1) [OF admit]
    by (auto simp: import_inv_def st' pg' seqs_append want_def [symmetric] upto_rec2 split: if_splits) fastforce
  moreover have "without_batch (logEventRecordToProto ev) = without_batch event"
    using valid ty u64
    by (auto simp: ws i64 u64' without_batch_def ev_def imported_record_def logEventRecordToProto_def uint64_int64
      validateImportEvent_def split: if_splits intro!: LogEvent.equality)
  ultimately show ?thesis
    using Inr pg' admitLedger_ok [OF admit] by (auto simp: st')
qed

text \<open>A whole call: whatever ends it, what it has written are the first events of the stream, each
  numbered next in its ledger; a regular end means that all of them are written.\<close>

lemma import_loop_run:
  assumes "import_loop E who evs final st w = (r, w')" "import_inv st (pg w)"
    and "\<forall>e\<in>set evs. 0 \<le> ge_SchemaVersion e \<and> ge_SchemaVersion e < 2 ^ 64"
  shows "\<exists>recs st'. import_inv st' (pg w') \<and> pg w' = (pg w)\<lparr>log_events := log_events (pg w) @ recs\<rparr> \<and>
    length recs \<le> length evs \<and>
    map (\<lambda>x. without_batch (logEventRecordToProto x)) recs = map without_batch (take (length recs) evs) \<and>
    (\<forall>ev\<in>set recs. map_of (im_expectedSeq st) (ev_LedgerID ev) = None \<longrightarrow> seqs (ev_LedgerID ev) (pg w) = []) \<and>
    (\<forall>n. r = Inr n \<longrightarrow> length recs = length evs \<and> n = im_count st + int (length evs))"
  using assms
proof (induction evs arbitrary: st w)
  case Nil
  then have "pg w' = pg w \<and> (\<forall>n. r = Inr n \<longrightarrow> n = im_count st)"
    by (auto split: if_splits)
  then show ?case using Nil.prems(2) by (intro exI [of _ "[]"] exI [of _ st]) simp
next
  case (Cons e evs)
  obtain q w1 where one: "importEvent E who e st w = (q, w1)" by fastforce
  have u64: "0 \<le> ge_SchemaVersion e" "ge_SchemaVersion e < 2 ^ 64" using Cons.prems(3) by simp_all
  from importEvent_run [OF one Cons.prems(2) u64] show ?case
  proof (elim disjE exE conjE)
    fix err assume "q = Inl err" "pg w1 = pg w"
    then show ?thesis using Cons.prems(1,2) one by (intro exI [of _ "[]"] exI [of _ st]) (auto simp: andThen_def)
  next
    fix st1 ev
    assume q: "q = Inr st1" and inv1: "import_inv st1 (pg w1)" and c1: "im_count st1 = im_count st + 1"
      and p1: "pg w1 = (pg w)\<lparr>log_events := log_events (pg w) @ [ev]\<rparr>" and b: "booked (ge_LedgerId e) ev [] (pg w) (pg w1)"
      and wb: "without_batch (logEventRecordToProto ev) = without_batch e"
      and fresh: "map_of (im_expectedSeq st) (ge_LedgerId e) = None \<longrightarrow> seqs (ge_LedgerId e) (pg w) = []"
      and other: "\<forall>l. l \<noteq> ge_LedgerId e \<longrightarrow> map_of (im_expectedSeq st1) l = map_of (im_expectedSeq st) l"
    have rest: "import_loop E who evs final st1 w1 = (r, w')" using Cons.prems(1) one q by (simp add: andThen_def)
    have "\<forall>e\<in>set evs. 0 \<le> ge_SchemaVersion e \<and> ge_SchemaVersion e < 2 ^ 64" using Cons.prems(3) by simp
    from Cons.IH [OF rest inv1 this] obtain recs st' where inv': "import_inv st' (pg w')"
      and p': "pg w' = (pg w1)\<lparr>log_events := log_events (pg w1) @ recs\<rparr>" and le: "length recs \<le> length evs"
      and m': "map (\<lambda>x. without_batch (logEventRecordToProto x)) recs = map without_batch (take (length recs) evs)"
      and f': "\<forall>ev\<in>set recs. map_of (im_expectedSeq st1) (ev_LedgerID ev) = None \<longrightarrow> seqs (ev_LedgerID ev) (pg w1) = []"
      and r': "\<forall>n. r = Inr n \<longrightarrow> length recs = length evs \<and> n = im_count st1 + int (length evs)" by blast
    have evl: "ev_LedgerID ev = ge_LedgerId e" using b by (simp add: booked_def)
    have "seqs (ev_LedgerID x) (pg w) = []" if "x \<in> set recs" "map_of (im_expectedSeq st) (ev_LedgerID x) = None" for x
      using that f' fresh other by (cases "ev_LedgerID x = ge_LedgerId e") (auto simp: p1 seqs_append)
    then have "\<forall>x\<in>set (ev # recs). map_of (im_expectedSeq st) (ev_LedgerID x) = None \<longrightarrow> seqs (ev_LedgerID x) (pg w) = []"
      using fresh evl by simp
    moreover have "pg w' = (pg w)\<lparr>log_events := log_events (pg w) @ ev # recs\<rparr>" by (simp add: p' p1)
    moreover have "\<forall>n. r = Inr n \<longrightarrow> length (ev # recs) = length (e # evs) \<and> n = im_count st + int (length (e # evs))"
      using r' c1 by fastforce
    ultimately show ?thesis using inv' le m' wb
      by (intro exI [of _ "ev # recs"] exI [of _ st'] conjI) simp_all
  qed
qed

lemma import_inv_fresh: "import_inv fresh_import d"
  by (simp add: import_inv_def fresh_import_def maxImportEventsPerCall_def)

lemma import_loop_logged:
  assumes "import_loop E who evs final st w = (r, w')" "import_inv st (pg w)"
    and "\<forall>e\<in>set evs. 0 \<le> ge_SchemaVersion e \<and> ge_SchemaVersion e < 2 ^ 64"
  shows "(\<lambda>d d'. \<exists>l ty. logged l ty d d')\<^sup>*\<^sup>* (pg w) (pg w')"
  using assms
proof (induction evs arbitrary: st w)
  case (Cons e evs)
  obtain q w1 where one: "importEvent E who e st w = (q, w1)" by fastforce
  have u64: "0 \<le> ge_SchemaVersion e" "ge_SchemaVersion e < 2 ^ 64" using Cons.prems(3) by simp_all
  from importEvent_run [OF one Cons.prems(2) u64] show ?case
  proof (elim disjE exE conjE)
    fix err assume "q = Inl err" "pg w1 = pg w"
    then show ?thesis using Cons.prems(1) one by (simp add: andThen_def)
  next
    fix st1 ev
    assume q: "q = Inr st1" and inv1: "import_inv st1 (pg w1)"
      and p1: "pg w1 = (pg w)\<lparr>log_events := log_events (pg w) @ [ev]\<rparr>" and b: "booked (ge_LedgerId e) ev [] (pg w) (pg w1)"
    have "\<exists>l ty. logged l ty (pg w) (pg w1)" using b p1 unfolding logged_def by blast
    moreover have "(\<lambda>d d'. \<exists>l ty. logged l ty d d')\<^sup>*\<^sup>* (pg w1) (pg w')"
      using Cons.IH [OF _ inv1] Cons.prems(1,3) one q by (simp add: andThen_def)
    ultimately show ?thesis by (rule converse_rtranclp_into_rtranclp)
  qed
qed (auto split: if_splits)

subsection \<open>What an export sends\<close>

lemma send_all_sent: "send_all sends sent es = (sent', None) \<Longrightarrow> sent' = sent @ es"
  by (induction es arbitrary: sent) (fastforce split: option.splits)+

lemma page_of_cases:
  assumes "page_of f n rows = (es, t)" "0 \<le> n"
  shows "length rows \<le> nat n \<and> es = rows \<and> t = [] \<or>
    nat n < length rows \<and> es = take (nat n) rows \<and> t = f (rows ! nat n)"
  using assms by (auto simp: page_of_def split: if_splits)

text \<open>The events of a ledger in the order of their numbers.\<close>

definition ledger_log :: "string \<Rightarrow> db \<Rightarrow> LogEventRecord list" where
  "ledger_log l d = sort_key ev_LedgerSeq (filter (\<lambda>r. ev_LedgerID r = l) (log_events d))"

definition after_token :: "string \<Rightarrow> LogEventRecord \<Rightarrow> bool" where
  "after_token t r \<longleftrightarrow> t = [] \<or> ev_EventID r > t"

lemma list_events_rows_log: "list_events_rows l t n d = take (nat n) (filter (after_token t) (ledger_log l d))"
proof -
  have "filter (\<lambda>r. ev_LedgerID r = l \<and> after_token t r) (log_events d) =
      filter (after_token t) (filter (\<lambda>r. ev_LedgerID r = l) (log_events d))"
    by (simp add: conj_commute)
  then show ?thesis by (simp add: list_events_rows_def ledger_log_def after_token_def filter_sort)
qed

abbreviation rows_after :: "string \<Rightarrow> string \<Rightarrow> db \<Rightarrow> LogEventRecord list" where
  "rows_after l t d \<equiv> filter (after_token t) (ledger_log l d)"

text \<open>One page of the log: the first rows after the token, and the id of the row after them as the next
  token.\<close>

lemma log_page:
  assumes "ListLogEvents E Pool l \<lparr>PageSize = int n, PageToken = t\<rparr> w = (Inr (es, t'), w')" "0 < n" "n \<le> 1000"
  shows "pg w' = pg w" and "es = take n (rows_after l t (pg w))"
    and "t' = (if length (rows_after l t (pg w)) \<le> n then [] else ev_EventID (rows_after l t (pg w) ! n))"
proof -
  note run = ListLogEvents_run [OF assms(1)]
  show "pg w' = pg w" by (rule run(1))
  have "nat (int n + 1) = Suc n" by simp
  then have "(es, t') = page_of ev_EventID (int n) (take (Suc n) (rows_after l t (pg w)))"
    using run(2) assms(2,3) by (simp add: page_limit_def maxPageSize_def list_events_rows_log)
  from page_of_cases [OF this [symmetric]]
  show "es = take n (rows_after l t (pg w))"
    "t' = (if length (rows_after l t (pg w)) \<le> n then [] else ev_EventID (rows_after l t (pg w) ! n))"
    by (auto simp: min_def split: if_splits)
qed

lemma log_page_succeeds:
  assumes "fault E (n_sql w) = None"
  shows "\<exists>es t' w'. ListLogEvents E Pool l params w = (Inr (es, t'), w')"
  using assms
  by (cases "page_of ev_EventID (page_limit params) (list_events_rows l (PageToken params) (page_limit params + 1) (pg w))")
     (simp add: ListLogEvents_def Let_def andThen_def mapErr_def query_def stmt_def)

lemmas export_page = log_page [where n = 1000, simplified]

lemma rows_after_mono:
  assumes "i < length (rows_after l t d)" "t' = ev_EventID (rows_after l t d ! i)" "t' \<noteq> []"
  shows "rows_after l t' d = filter (after_token t') (rows_after l t d)"
proof -
  have "rows_after l t d ! i \<in> set (rows_after l t d)" using assms(1) by (rule nth_mem)
  then have "t = [] \<or> t < t'" using assms(2) by (auto simp: after_token_def)
  then show ?thesis using assms(3) by (auto simp: after_token_def intro!: filter_cong)
qed

lemma rows_after_next:
  assumes "i < length (rows_after l t d)" "t' = ev_EventID (rows_after l t d ! i)" "t' \<noteq> []"
  shows "length (rows_after l t' d) < length (rows_after l t d)"
proof -
  have "\<not> after_token t' (rows_after l t d ! i)" using assms(2,3) by (simp add: after_token_def)
  then show ?thesis
    using nth_mem [OF assms(1)] length_filter_less rows_after_mono [OF assms] by metis
qed

text \<open>One round of the loop that ends without an error.\<close>

lemma export_pages_step:
  assumes "export_pages n E sends l t sent w = (Inr (Some (sent', None)), w')"
  obtains m t1 w1 where "n = Suc m" "pg w1 = pg w"
    "t1 = (if length (rows_after l t (pg w)) \<le> 1000 then [] else ev_EventID (rows_after l t (pg w) ! 1000))"
    "if t1 = [] then sent' = sent @ map logEventRecordToProto (take 1000 (rows_after l t (pg w)))
     else export_pages m E sends l t1 (sent @ map logEventRecordToProto (take 1000 (rows_after l t (pg w)))) w1 =
       (Inr (Some (sent', None)), w')"
proof -
  from assms obtain m where m: "n = Suc m" by (cases n) simp_all
  obtain q w1 where page: "ListLogEvents E Pool l \<lparr>PageSize = 1000, PageToken = t\<rparr> w = (q, w1)" by fastforce
  with assms m obtain es t1 where q: "q = Inr (es, t1)"
    by (auto simp: attempt_def split: sum.splits)
  note p = export_page [OF page [unfolded q]]
  from assms m page q obtain s1 where s1: "send_all sends sent (map logEventRecordToProto es) = (s1, None)"
    and cont: "if t1 = [] then sent' = s1 else export_pages m E sends l t1 s1 w1 = (Inr (Some (sent', None)), w')"
    by (auto simp: attempt_def split: prod.splits option.splits if_splits)
  then show thesis using that m p send_all_sent [OF s1] by metis
qed

lemma export_pages_rows:
  assumes "export_pages n E sends l t sent w = (Inr (Some (sent', None)), w')"
  shows "\<exists>es. sent' = sent @ map logEventRecordToProto es \<and> set es \<subseteq> set (rows_after l t (pg w))"
  using assms
proof (induction n arbitrary: t sent w)
  case (Suc n)
  let ?es = "take 1000 (rows_after l t (pg w))"
  have es: "set ?es \<subseteq> set (rows_after l t (pg w))" by (rule set_take_subset)
  obtain m t1 w1 where m: "Suc n = Suc m" and w1: "pg w1 = pg w"
    and t1: "t1 = (if length (rows_after l t (pg w)) \<le> 1000 then [] else ev_EventID (rows_after l t (pg w) ! 1000))"
    and cont: "if t1 = [] then sent' = sent @ map logEventRecordToProto ?es
      else export_pages m E sends l t1 (sent @ map logEventRecordToProto ?es) w1 = (Inr (Some (sent', None)), w')"
    by (rule export_pages_step [OF Suc.prems])
  show ?case
  proof (cases "t1 = []")
    case True
    then show ?thesis using cont es by auto
  next
    case False
    with cont have "export_pages n E sends l t1 (sent @ map logEventRecordToProto ?es) w1 = (Inr (Some (sent', None)), w')"
      using m by (simp only: if_False nat.inject)
    from Suc.IH [OF this, unfolded w1] obtain es1
      where "sent' = (sent @ map logEventRecordToProto ?es) @ map logEventRecordToProto es1"
      "set es1 \<subseteq> set (rows_after l t1 (pg w))" by blast
    moreover have "rows_after l t1 (pg w) = filter (after_token t1) (rows_after l t (pg w))"
      using False t1 by (intro rows_after_mono [of 1000]) (auto split: if_splits)
    ultimately show ?thesis using es by (intro exI [of _ "?es @ es1"]) auto
  qed
qed simp

lemma export_pages_ends:
  "length (rows_after l t (pg w)) < n \<Longrightarrow> \<exists>out w'. export_pages n E sends l t sent w = (Inr (Some out), w')"
proof (induction n arbitrary: t sent w)
  case (Suc n)
  obtain q w1 where page: "ListLogEvents E Pool l \<lparr>PageSize = 1000, PageToken = t\<rparr> w = (q, w1)" by fastforce
  show ?case
  proof (cases q)
    case (Inr p)
    obtain es t1 where q: "q = Inr (es, t1)" using Inr by (cases p) simp
    note p = export_page [OF page [unfolded q]]
    have "length (rows_after l t1 (pg w1)) < n" if "t1 \<noteq> []"
      using rows_after_next [where i = 1000 and l = l and t = t and d = "pg w" and t' = t1] that p Suc.prems by (auto split: if_splits)
    then show ?thesis using Suc.IH page q by (simp add: attempt_def split: prod.split option.split)
  qed (simp add: attempt_def page)
qed simp

end
