(* ===== verification/Checkpoint.thy ===== *)
theory Checkpoint
  imports Planner_Approval
begin

text \<open>
  The roll-up of volume rows by the worker, \<^verbatim>\<open>src/internal/projection/volumes/checkpoint.go\<close>: the
  query that finds the buckets with more than a hundred rows not covered by a checkpoint, and the
  checkpoints written for them. In which order the database returns the groups is up to it: the
  argument \<open>plan\<close>. The argument \<open>broken\<close> is the error that ends the stream of result rows early,
  and after how many rows: one of \<open>rows.Scan\<close> on the next row, or one that \<open>rows.Err\<close> reports.
\<close>

datatype row_failure = Scan_failed error | Iteration_failed error

type_synonym bucket_key = "string \<times> string \<times> string \<times> int"

definition delta_key :: "VolumeDeltaRecord \<Rightarrow> bucket_key" where
  "delta_key r = (vd_LedgerID r, vd_Account r, vd_Asset r, vd_Shard r)"

definition checkpoint_key :: "checkpoint_row \<Rightarrow> bucket_key" where
  "checkpoint_key c = (cp_ledger_id c, cp_account c, cp_asset c, cp_shard c)"

text \<open>The condition of the join.\<close>

definition covers :: "checkpoint_row \<Rightarrow> VolumeDeltaRecord \<Rightarrow> bool" where
  "covers c r \<longleftrightarrow> delta_key r = checkpoint_key c \<and> vd_ValidTime r \<le> cp_valid_time_upper c \<and>
     vd_SystemTime r \<le> cp_system_time_upper c"

definition uncheckpointed :: "bucket_key \<Rightarrow> db \<Rightarrow> VolumeDeltaRecord list" where
  "uncheckpointed k d =
     filter (\<lambda>r. delta_key r = k \<and> \<not> list_ex (\<lambda>c. covers c r) (volumes_checkpoint d)) (volumes_delta d)"

text \<open>One group of the query, as the checkpoint made of it.\<close>

definition rollup :: "bucket_key \<Rightarrow> VolumeDeltaRecord list \<Rightarrow> checkpoint_row" where
  "rollup k rs = (case k of (l, a, s, n) \<Rightarrow>
     \<lparr>cp_ledger_id = l, cp_account = a, cp_asset = s, cp_shard = n,
      cp_valid_time_upper = Max (vd_ValidTime ` set rs), cp_system_time_upper = Max (vd_SystemTime ` set rs),
      cp_total_input = sum_list (map vd_InputDelta rs), cp_total_output = sum_list (map vd_OutputDelta rs),
      cp_last_event_id = Max (vd_EventID ` set rs)\<rparr>)"

definition due :: "db \<Rightarrow> checkpoint_row list" where
  "due d =
     map (\<lambda>k. rollup k (uncheckpointed k d))
       (filter (\<lambda>k. 100 < length (uncheckpointed k d)) (remdups (map delta_key (volumes_delta d))))"

definition same_checkpoint :: "checkpoint_row \<Rightarrow> checkpoint_row \<Rightarrow> bool" where
  "same_checkpoint c c' \<longleftrightarrow> checkpoint_key c' = checkpoint_key c \<and>
     cp_valid_time_upper c' = cp_valid_time_upper c \<and> cp_system_time_upper c' = cp_system_time_upper c"

definition upsert_checkpoint_sql :: "checkpoint_row \<Rightarrow> unit sql" where
  "upsert_checkpoint_sql c now d =
     Inr ((), d\<lparr>volumes_checkpoint :=
       (if list_ex (same_checkpoint c) (volumes_checkpoint d)
        then map (\<lambda>c'. if same_checkpoint c c' then c'\<lparr>cp_total_input := cp_total_input c,
               cp_total_output := cp_total_output c, cp_last_event_id := cp_last_event_id c\<rparr> else c')
             (volumes_checkpoint d)
        else volumes_checkpoint d @ [c])\<rparr>)"

text \<open>The totals arrive as text and are parsed.\<close>

definition parse_total :: "string \<Rightarrow> checkpoint_row \<Rightarrow> int \<Rightarrow> error + int" where
  "parse_total what c n =
     (case SetString (int_String n) of
        None \<Rightarrow> Inl (Errorf (''parsing '' @ what @ '' '' @ quoted (int_String n) @ '' for '' @ cp_ledger_id c @ ''/'' @
          cp_account c @ ''/'' @ cp_asset c @ '': invalid integer''))
      | Some i \<Rightarrow> Inr i)"

text \<open>The loop over the result rows, with the numbers of checkpoints built and failed.\<close>

fun build_rows :: "env \<Rightarrow> checkpoint_row list \<Rightarrow> nat \<Rightarrow> nat \<Rightarrow> (nat \<times> nat) prog" where
  "build_rows E [] built failed = ok (built, failed)"
| "build_rows E (c # cs) built failed =
     andThen (ofSum (parse_total ''total_input'' c (cp_total_input c))) (\<lambda>totalInput.
     andThen (ofSum (parse_total ''total_output'' c (cp_total_output c))) (\<lambda>totalOutput.
     attempt (stmt E Pool (upsert_checkpoint_sql
         (c\<lparr>cp_total_input := totalInput, cp_total_output := totalOutput\<rparr>))) (\<lambda>r.
     case r of
       Inl _ \<Rightarrow> build_rows E cs built (Suc failed)
     | Inr _ \<Rightarrow> build_rows E cs (Suc built) failed)))"

definition BuildCheckpoints ::
  "env \<Rightarrow> (checkpoint_row list \<Rightarrow> checkpoint_row list) \<Rightarrow> (nat \<times> row_failure) option \<Rightarrow> unit prog" where
  "BuildCheckpoints E plan broken =
     andThen (mapErr (wrapped ''querying uncheckpointed volumes: '')
       (query E Pool (\<lambda>now d. take 1000 (plan (due d))))) (\<lambda>rows.
     andThen (build_rows E (case broken of None \<Rightarrow> rows | Some (n, _) \<Rightarrow> take n rows) 0 0) (\<lambda>(built, failed).
     case broken of
       Some (n, Scan_failed e) \<Rightarrow> fail (wrapped ''scanning row: '' e)
     | Some (n, Iteration_failed e) \<Rightarrow> fail (wrapped ''iterating uncheckpointed volumes: '' e)
     | None \<Rightarrow>
         if failed > 0 then fail (Errorf (''failed to write '' @ nat_String failed @ '' of '' @
           nat_String (built + failed) @ '' checkpoints''))
         else ok ()))"

subsection \<open>One checkpoint\<close>

lemma rollup_key [simp]: "checkpoint_key (rollup k rs) = k"
  by (simp add: rollup_def checkpoint_key_def split: prod.split)

lemma rollup_totals [simp]:
  "cp_total_input (rollup k rs) = sum_list (map vd_InputDelta rs)"
  "cp_total_output (rollup k rs) = sum_list (map vd_OutputDelta rs)"
  by (simp_all add: rollup_def split: prod.split)

lemma rollup_covers:
  assumes "r \<in> set rs" and "delta_key r = k"
  shows "covers (rollup k rs) r"
  using assms by (auto simp: covers_def rollup_def split: prod.split) (auto simp: checkpoint_key_def)

text \<open>What the checkpoints of a bucket add up to, and what is not covered yet.\<close>

definition checkpointed :: "(checkpoint_row \<Rightarrow> int) \<Rightarrow> bucket_key \<Rightarrow> db \<Rightarrow> int" where
  "checkpointed f k d = sum_where (\<lambda>c. checkpoint_key c = k) f (volumes_checkpoint d)"

definition pending_volume :: "(VolumeDeltaRecord \<Rightarrow> int) \<Rightarrow> bucket_key \<Rightarrow> db \<Rightarrow> int" where
  "pending_volume f k d = sum_list (map f (uncheckpointed k d))"

text \<open>The clause for a checkpoint that exists already is never needed: such a checkpoint would cover
  the rows the new one is made of.\<close>

lemma rollup_new:
  assumes "uncheckpointed k d \<noteq> []"
  shows "\<not> list_ex (same_checkpoint (rollup k (uncheckpointed k d))) (volumes_checkpoint d)"
proof
  assume "list_ex (same_checkpoint (rollup k (uncheckpointed k d))) (volumes_checkpoint d)"
  then obtain c where c: "c \<in> set (volumes_checkpoint d)" "same_checkpoint (rollup k (uncheckpointed k d)) c"
    by (auto simp: list_ex_iff)
  from assms obtain r where r: "r \<in> set (uncheckpointed k d)" by (cases "uncheckpointed k d") auto
  then have "covers (rollup k (uncheckpointed k d)) r" by (intro rollup_covers) (auto simp: uncheckpointed_def)
  then have "covers c r" using c(2) by (auto simp: covers_def same_checkpoint_def)
  then show False using r c(1) by (auto simp: uncheckpointed_def list_ex_iff)
qed

definition add_checkpoint :: "bucket_key \<Rightarrow> db \<Rightarrow> db" where
  "add_checkpoint k d = d\<lparr>volumes_checkpoint := volumes_checkpoint d @ [rollup k (uncheckpointed k d)]\<rparr>"

lemma uncheckpointed_add: "uncheckpointed k' (add_checkpoint k d) = (if k' = k then [] else uncheckpointed k' d)"
proof (cases "k' = k")
  case True
  have "list_ex (\<lambda>c. covers c r) (volumes_checkpoint d) \<or> covers (rollup k (uncheckpointed k d)) r"
    if "r \<in> set (volumes_delta d)" "delta_key r = k" for r
    using that rollup_covers [of r "uncheckpointed k d" k] by (auto simp: uncheckpointed_def)
  moreover have "uncheckpointed k (add_checkpoint k d) = filter (\<lambda>r. delta_key r = k \<and>
      \<not> list_ex (\<lambda>c. covers c r) (volumes_checkpoint d @ [rollup k (uncheckpointed k d)])) (volumes_delta d)"
    by (subst uncheckpointed_def) (simp add: add_checkpoint_def)
  ultimately show ?thesis using True by (auto simp: filter_empty_conv)
next
  case False
  then show ?thesis
    by (auto simp: uncheckpointed_def [of k'] add_checkpoint_def covers_def intro!: filter_cong)
qed

lemma totals_add:
  assumes "\<And>rs. f (rollup k rs) = sum_list (map g rs)"
  shows "checkpointed f k' (add_checkpoint k d) + pending_volume g k' (add_checkpoint k d) =
    checkpointed f k' d + pending_volume g k' d"
  using assms by (simp add: checkpointed_def pending_volume_def uncheckpointed_add) (simp add: add_checkpoint_def)

subsection \<open>A run\<close>

text \<open>The rows still to be written are the roll-ups of their buckets.\<close>

definition rollups :: "db \<Rightarrow> checkpoint_row list \<Rightarrow> bool" where
  "rollups d cs \<longleftrightarrow> distinct (map checkpoint_key cs) \<and>
     (\<forall>c\<in>set cs. uncheckpointed (checkpoint_key c) d \<noteq> [] \<and> c = rollup (checkpoint_key c) (uncheckpointed (checkpoint_key c) d))"

lemma rollups_due: "rollups d (due d)"
proof -
  have "map checkpoint_key (due d) =
      filter (\<lambda>k. 100 < length (uncheckpointed k d)) (remdups (map delta_key (volumes_delta d)))"
    by (simp add: due_def comp_def)
  then show ?thesis by (auto simp: rollups_def) (auto simp: due_def)
qed

lemma rollups_subset: "rollups d cs \<Longrightarrow> set cs' \<subseteq> set cs \<Longrightarrow> distinct cs' \<Longrightarrow> rollups d cs'"
  by (auto simp: rollups_def distinct_map inj_on_def)

inductive checkpoints :: "db \<Rightarrow> db \<Rightarrow> bool" where
  checkpoints_done: "checkpoints d d"
| checkpoints_add: "checkpoints (add_checkpoint k d) d' \<Longrightarrow> uncheckpointed k d \<noteq> [] \<Longrightarrow> checkpoints d d'"

lemma checkpoints_totals:
  assumes "checkpoints d d'" and "\<And>k rs. f (rollup k rs) = sum_list (map g rs)"
  shows "checkpointed f k d' + pending_volume g k d' = checkpointed f k d + pending_volume g k d"
  using assms(1) by induction (simp_all add: totals_add assms(2))

lemma checkpoints_only: "checkpoints d d' \<Longrightarrow> \<exists>cs. d' = d\<lparr>volumes_checkpoint := cs\<rparr>"
proof (induction rule: checkpoints.induct)
  case (checkpoints_done d)
  then show ?case by (intro exI [of _ "volumes_checkpoint d"]) simp
qed (auto simp: add_checkpoint_def)

lemma upsert_rollup:
  "uncheckpointed k d \<noteq> [] \<Longrightarrow> upsert_checkpoint_sql (rollup k (uncheckpointed k d)) now d = Inr ((), add_checkpoint k d)"
  using rollup_new [of k d] by (simp add: upsert_checkpoint_sql_def add_checkpoint_def)

lemma build_rows_Cons:
  "build_rows E (c # cs) built failed =
     attempt (stmt E Pool (upsert_checkpoint_sql c)) (\<lambda>r. case r of
       Inl _ \<Rightarrow> build_rows E cs built (Suc failed) | Inr _ \<Rightarrow> build_rows E cs (Suc built) failed)"
  by (rule ext) (simp add: parse_total_def andThen_def)

lemma rollups_Cons:
  assumes "rollups d (c # cs)"
  shows "uncheckpointed (checkpoint_key c) d \<noteq> []" "c = rollup (checkpoint_key c) (uncheckpointed (checkpoint_key c) d)"
    "rollups d cs" "rollups (add_checkpoint (checkpoint_key c) d) cs"
  using assms by (auto simp: rollups_def uncheckpointed_add)

lemma build_rows_run:
  assumes "build_rows E cs built failed w = (r, w')" "rollups (pg w) cs"
  shows "checkpoints (pg w) (pg w') \<and> (\<exists>b f. r = Inr (b, f) \<and>
    (f = failed \<longrightarrow> b = built + length cs \<and> (\<forall>k\<in>checkpoint_key ` set cs. uncheckpointed k (pg w') = [])) \<and> failed \<le> f \<and>
    (\<forall>k. k \<notin> checkpoint_key ` set cs \<longrightarrow> uncheckpointed k (pg w') = uncheckpointed k (pg w)))"
  using assms
proof (induction cs arbitrary: built failed w)
  case Nil
  then show ?case by (auto intro: checkpoints_done)
next
  case (Cons c cs)
  note c = rollups_Cons [OF Cons.prems(2)]
  let ?k = "checkpoint_key c"
  obtain q w1 where s: "stmt E Pool (upsert_checkpoint_sql c) w = (q, w1)" by fastforce
  from stmt_Pool_run [OF s] show ?case
  proof (elim disjE exE conjE)
    fix e assume q: "q = Inl e" "pg w1 = pg w"
    then have "build_rows E cs built (Suc failed) w1 = (r, w')"
      using Cons.prems(1) s by (simp add: build_rows_Cons attempt_def del: build_rows.simps)
    from Cons.IH [OF this] c(3) q show ?thesis by fastforce
  next
    fix u now assume q: "q = Inr u" "upsert_checkpoint_sql c now (pg w) = Inr (u, pg w1)"
    then have w1: "pg w1 = add_checkpoint ?k (pg w)" using upsert_rollup [OF c(1), of now] c(2) by simp
    have "build_rows E cs (Suc built) failed w1 = (r, w')"
      using Cons.prems(1) s q by (simp add: build_rows_Cons attempt_def del: build_rows.simps)
    from Cons.IH [OF this] c(4) w1 obtain b f where ih: "checkpoints (pg w1) (pg w')" "r = Inr (b, f)"
      "f = failed \<longrightarrow> b = Suc built + length cs \<and> (\<forall>k\<in>checkpoint_key ` set cs. uncheckpointed k (pg w') = [])" "failed \<le> f"
      "\<forall>k. k \<notin> checkpoint_key ` set cs \<longrightarrow> uncheckpointed k (pg w') = uncheckpointed k (pg w1)" by auto
    have "?k \<notin> checkpoint_key ` set cs" using Cons.prems(2) by (simp add: rollups_def)
    then have "uncheckpointed ?k (pg w') = uncheckpointed ?k (pg w1)" using ih(5) by blast
    then have "uncheckpointed ?k (pg w') = []" by (simp add: w1 uncheckpointed_add)
    moreover have "checkpoints (pg w) (pg w')" using checkpoints_add [OF _ c(1)] ih(1) w1 by simp
    ultimately show ?thesis using ih(2-5) by (auto simp: w1 uncheckpointed_add)
  qed
qed

lemma build_rows_ok:
  "(\<And>k. fault E k = None) \<Longrightarrow> \<exists>w'. build_rows E cs built failed w = (Inr (built + length cs, failed), w')"
proof (induction cs arbitrary: built w)
  case (Cons c cs)
  have "\<exists>w1. stmt E Pool (upsert_checkpoint_sql c) w = (Inr (), w1)"
    using Cons.prems by (simp add: stmt_def upsert_checkpoint_sql_def Let_def)
  then show ?case using Cons.IH [OF Cons.prems, of "Suc built"]
    by (auto simp: build_rows_Cons attempt_def simp del: build_rows.simps)
qed simp

lemma rollups_plan:
  assumes "set (plan (due d)) = set (due d)" "distinct (plan (due d))"
  shows "rollups d (case broken of None \<Rightarrow> take 1000 (plan (due d)) | Some (n, e) \<Rightarrow> take n (take 1000 (plan (due d))))"
proof (rule rollups_subset [OF rollups_due])
  let ?cs = "case broken of None \<Rightarrow> take 1000 (plan (due d)) | Some (n, e) \<Rightarrow> take n (take 1000 (plan (due d)))"
  obtain m where "?cs = take m (plan (due d))" by (cases broken) (auto split: prod.split)
  then show "set ?cs \<subseteq> set (due d)" "distinct ?cs" using assms set_take_subset [of m "plan (due d)"] by auto
qed

lemma query_ok:
  "fault E (n_sql w) = None \<Longrightarrow> query E Pool g w = (Inr (g (db_clock E (n_sql w)) (pg w)), w\<lparr>n_sql := Suc (n_sql w)\<rparr>)"
  by (cases w) (simp add: query_def stmt_def Let_def)

lemma BuildCheckpoints_run:
  assumes "BuildCheckpoints E plan broken w = (r, w')"
    and "set (plan (due (pg w))) = set (due (pg w))" "distinct (plan (due (pg w)))"
  shows "checkpoints (pg w) (pg w')"
proof -
  obtain q w1 where q: "query E Pool (\<lambda>now d. take 1000 (plan (due d))) w = (q, w1)" by fastforce
  show ?thesis
  proof (cases q)
    case (Inl e)
    then have "pg w' = pg w" using assms(1) q keepsD [OF keeps_pg_query_Pool q]
      by (auto simp: BuildCheckpoints_def andThen_def mapErr_def pg_frame_def)
    then show ?thesis by (simp add: checkpoints_done)
  next
    case (Inr rows)
    from query_Pool_ok [OF q [unfolded Inr]] have w1: "pg w1 = pg w" and rows: "rows = take 1000 (plan (due (pg w)))"
      by auto
    let ?cs = "case broken of None \<Rightarrow> rows | Some (n, e) \<Rightarrow> take n rows"
    obtain p w2 where b: "build_rows E ?cs 0 0 w1 = (p, w2)" by fastforce
    have "rollups (pg w1) ?cs" using rollups_plan [where plan = plan and broken = broken, OF assms(2,3)] unfolding w1 rows .
    from build_rows_run [OF b this] have ck: "checkpoints (pg w1) (pg w2)" and "\<exists>x y. p = Inr (x, y)" by auto
    moreover from this have "w' = w2" using assms(1) q Inr b
      by (auto simp: BuildCheckpoints_def andThen_def mapErr_def split: option.splits row_failure.splits if_splits)
    ultimately show ?thesis by (simp add: w1)
  qed
qed

end
