(* ===== verification/Ledger_System.thy ===== *)
theory Ledger_System
  imports Api_Stream Checkpoint
begin

text \<open>
  The ledger as a transition system: one step is one complete call of a planner operation, of
  the administration of ledgers and policies, of an import, or of a background sweep, with any environment
  (any identifiers, clock, failures of the database and of Redis). The invariants of the tables
  hold in every state reachable from an empty database.
\<close>

subsection \<open>Administration\<close>

text \<open>Steps on tables the accounting invariants do not look at.\<close>

definition admin_step :: "db \<Rightarrow> db \<Rightarrow> bool" where
  "admin_step d d' \<longleftrightarrow> log_events d' = log_events d \<and> volumes_delta d' = volumes_delta d \<and> holds d' = holds d \<and>
     transaction_relationships d' = transaction_relationships d"

lemma admin_sound: "admin_step d d' \<Longrightarrow> sound d \<Longrightarrow> sound d'"
proof -
  assume a: "admin_step d d'" and s: "sound d"
  have "seqs l d' = seqs l d" for l using a by (simp add: seqs_def admin_step_def)
  then show ?thesis
    using a s by (simp add: sound_def balanced_def conserved_def contiguous_def holds_ok_def sourced_def admin_step_def)
qed

definition admin_frame :: "world \<Rightarrow> world \<Rightarrow> bool" where
  "admin_frame w w' \<longleftrightarrow> admin_step (pg w) (pg w') \<and> pending_approvals (pg w') = pending_approvals (pg w)"

interpretation admin_frame: frame admin_frame
  by unfold_locales (simp_all add: admin_frame_def admin_step_def)

lemma keeps_admin_stmt:
  assumes "\<And>now d x d'. f now d = Inr (x, d') \<Longrightarrow>
    admin_step d d' \<and> pending_approvals d' = pending_approvals d"
  shows "keeps admin_frame (stmt E Pool f)"
proof (rule keepsI)
  fix w
  obtain r w' where run: "stmt E Pool f w = (r, w')" by (cases "stmt E Pool f w")
  from stmt_Pool_run [OF run] show "admin_frame w (snd (stmt E Pool f w))"
    unfolding run using assms by (auto simp: admin_frame_def admin_step_def)
qed

lemma keeps_CreateLedger: "keeps admin_frame (CreateLedger E Pool p)"
proof -
  have "keeps admin_frame (stmt E Pool (insert_bucket_sql b))" for b
    by (rule keeps_admin_stmt) (auto simp: insert_bucket_sql_def admin_step_def)
  moreover have "keeps admin_frame (stmt E Pool (insert_ledger_sql i b md))" for i b md
    by (rule keeps_admin_stmt) (auto simp: insert_ledger_sql_def admin_step_def Let_def split: if_splits)
  ultimately show ?thesis
    unfolding CreateLedger_def Let_def by (intro admin_frame.keeps_rules)
qed

lemma keeps_SealLedger: "keeps admin_frame (SealLedger E Pool i)"
proof -
  have "keeps admin_frame (stmt E Pool (seal_ledger_sql i))"
    by (rule keeps_admin_stmt) (auto simp: seal_ledger_sql_def admin_step_def Let_def split: option.splits)
  then show ?thesis
    unfolding SealLedger_def by (intro admin_frame.keeps_rules)
qed

lemma InsertPolicy_run:
  assumes "InsertPolicy E p w = (r, w')"
  shows "admin_step (pg w) (pg w') \<and> pending_approvals (pg w') = pending_approvals (pg w)"
proof -
  have keep: "keeps tx_frame (insertPolicy E Tx p)"
    unfolding insertPolicy_def by (intro tx_frame.keeps_rules frame_intro)
  have eff: "does (insertPolicy E Tx p) (\<lambda>d r d'. \<forall>x. r = Inr x \<longrightarrow>
      admin_step d d' \<and> pending_approvals d' = pending_approvals d)"
    unfolding insertPolicy_def
    by (rule does_weaken, (rule does_intro does_stmt)+)
       (auto simp: deactivate_policies_sql_def insert_policy_sql_def admin_step_def split: if_splits)
  have "andThen (mapErr (\<lambda>e. wrapped ''beginning policy tx: '' e) (BeginTx E)) (\<lambda>_. deferRollback (
      andThen (insertPolicy E Tx p) (\<lambda>_. mapErr (\<lambda>e. e) (Commit E)))) w = (r, w')"
    using assms by (simp add: InsertPolicy_def mapErr_id)
  from tx_bracket [OF this keep eff] show ?thesis by (auto simp: admin_step_def)
qed

subsection \<open>Expiry of holds\<close>

lemma expireInTx_None:
  assumes "expireInTx E hold now v = (Inr None, v1)" and "tx v = OpenTx d"
  shows "\<exists>x. find_hold (hd_LedgerID hold) (hd_HoldID hold) d = Some x \<and> \<not> active x"
  using assms
  by (auto simp: expireInTx_def GetHold_def hold_record_def query_def stmt_def andThen_def Let_def active_def
      ok_def fail_def ofSum_def split: prod.splits sum.splits option.splits if_splits)

text \<open>A single expiry commits the closing of its hold, or nothing; and when it reports success
  without committing, the hold was closed already.\<close>

lemma expireSingleHold_run:
  assumes "expireSingleHold E hold w = (r, w')"
  shows "pg w' = pg w \<and> (r = Inr () \<longrightarrow> (\<exists>x. find_hold (hd_LedgerID hold) (hd_HoldID hold) (pg w) = Some x \<and> \<not> active x))
    \<or> (\<exists>i. close_effect (hd_LedgerID hold) (hd_HoldID hold) EventTypeHoldExpired
        (\<lambda>h. h\<lparr>hd_Expired := True\<rparr>) [] None (pg w) i (pg w'))"
proof -
  let ?now = "clock E (n_clock w)" and ?w = "w\<lparr>n_clock := Suc (n_clock w)\<rparr>"
  define rest where "rest found = (case found of None \<Rightarrow> ok () | Some i \<Rightarrow>
      andThen (Commit E) (\<lambda>_. publishEvent E (hd_LedgerID hold) i EventTypeHoldExpired))" for found
  have eq: "andThen (BeginTx E) (\<lambda>_. deferRollback (andThen (expireInTx E hold ?now) rest)) ?w = (r, w')"
    using assms unfolding expireSingleHold_def rest_def [abs_def] by (simp add: andThen_def [of "time_Now E"] time_Now_def)
  obtain b v where b: "BeginTx E ?w = (b, v)" by (cases "BeginTx E ?w")
  show ?thesis
  proof (cases b)
    case (Inl e)
    then show ?thesis using eq b keepsD [OF keeps_pg_BeginTx b] by (auto simp: andThen_def pg_frame_def)
  next
    case (Inr u)
    note v = BeginTx_ok [OF b [unfolded Inr]]
    have "deferRollback (andThen (expireInTx E hold ?now) rest) v = (r, w')"
      using eq b Inr by (simp add: andThen_def)
    then obtain v' where body: "andThen (expireInTx E hold ?now) rest v = (r, v')" and w': "pg w' = pg v'"
      using deferRollback_run Rollback_world(1) by metis
    obtain q v1 where m: "expireInTx E hold ?now v = (q, v1)" by (cases "expireInTx E hold ?now v")
    have fr: "pg v1 = pg w" using keepsD [OF keeps_expireInTx m] v by (simp add: tx_frame_def)
    obtain c v2 where c: "Commit E v1 = (c, v2)" by (cases "Commit E v1")
    show ?thesis
    proof (cases "\<exists>i. q = Inr (Some i) \<and> c = Inr ()")
      case True
      then obtain i where i: "q = Inr (Some i)" "c = Inr ()" by blast
      obtain p u where p: "publishEvent E (hd_LedgerID hold) i EventTypeHoldExpired v2 = (p, u)"
        by (cases "publishEvent E (hd_LedgerID hold) i EventTypeHoldExpired v2")
      have "pg u = pg v2" using keepsD [OF keeps_db_publishEvent p] by (simp add: db_frame_def)
      moreover have "v' = u" using body m i c p by (simp add: andThen_def rest_def)
      moreover have "close_effect (hd_LedgerID hold) (hd_HoldID hold) EventTypeHoldExpired
        (\<lambda>h. h\<lparr>hd_Expired := True\<rparr>) [] None (pg w) i (pg v2)"
        using does_open [OF does_expireInTx m, of "pg w"] v i Commit_cases [OF c] by auto
      ultimately show ?thesis using w' by auto
    next
      case False
      then have "pg v' = pg w \<and> (r = Inr () \<longrightarrow> q = Inr None)"
        using body m c fr Commit_cases [OF c]
        by (cases q; cases c) (auto simp: andThen_def rest_def split: option.splits)
      then show ?thesis using w' expireInTx_None [of E hold ?now v v1 "pg w"] m v by auto
    qed
  qed
qed

definition expired_step :: "db \<Rightarrow> db \<Rightarrow> bool" where
  "expired_step d d' \<longleftrightarrow> (\<exists>l h i. close_effect l h EventTypeHoldExpired (\<lambda>h. h\<lparr>hd_Expired := True\<rparr>) [] None d i d')"

lemma expired_step_sound: "expired_step d d' \<Longrightarrow> sound d \<Longrightarrow> sound d'"
  unfolding expired_step_def
  by (elim exE, erule close_effect_sound) (simp_all add: hold_ok_def active_def)

definition expire_frame :: "world \<Rightarrow> world \<Rightarrow> bool" where
  "expire_frame w w' \<longleftrightarrow> expired_step\<^sup>*\<^sup>* (pg w) (pg w')"

interpretation expire_frame: frame expire_frame
  by unfold_locales (simp_all add: expire_frame_def)

lemma keeps_expireSingleHold: "keeps expire_frame (expireSingleHold E hold)"
proof (rule keepsI)
  fix w
  obtain r w' where run: "expireSingleHold E hold w = (r, w')" by (cases "expireSingleHold E hold w")
  from expireSingleHold_run [OF run] show "expire_frame w (snd (expireSingleHold E hold w))"
    unfolding run expire_frame_def expired_step_def by auto
qed

lemma keeps_expirePage: "keeps expire_frame (expirePage E hs)"
proof (induction hs)
  case Nil
  show ?case unfolding expirePage.simps by (rule expire_frame.keeps_ok)
next
  case (Cons h hs)
  then show ?case unfolding expirePage.simps
    by (intro expire_frame.keeps_rules keeps_expireSingleHold)
qed

lemma keeps_expire_pg: "keeps pg_frame m \<Longrightarrow> keeps expire_frame m"
  by (simp add: keeps_def pg_frame_def expire_frame_def)

lemma keeps_ListExpiredHolds_pg: "keeps pg_frame (ListExpiredHolds E Pool)"
  by (rule keeps_pg_of_tx [OF keeps_ListExpiredHolds])

lemma keeps_ExpireHolds: "keeps expire_frame (ExpireHolds n E)"
proof (induction n)
  case 0
  show ?case unfolding ExpireHolds.simps by (rule expire_frame.keeps_ok)
next
  case (Suc n)
  then show ?case unfolding ExpireHolds.simps
    by (intro expire_frame.keeps_rules keeps_expirePage keeps_expire_pg [OF keeps_ListExpiredHolds_pg])
qed

subsection \<open>Steps and reachable states\<close>

text \<open>The last step is anything that leaves the tables alone: reads, counters, the cache, batches
  opened and closed, an identifier or a clock reading consumed.\<close>

inductive api_step :: "world \<Rightarrow> world \<Rightarrow> bool" where
  api_post: "SubmitPost E l ps ref md k vt dry w = (r, w') \<Longrightarrow> api_step w w'"
| api_authorize: "SubmitAuthorize E l so hi as am ex k w = (r, w') \<Longrightarrow> api_step w w'"
| api_capture: "SubmitCapture E l i am ds k w = (r, w') \<Longrightarrow> api_step w w'"
| api_void: "SubmitVoid E l i k w = (r, w') \<Longrightarrow> api_step w w'"
| api_revert: "SubmitRevert E l t f a rs k w = (r, w') \<Longrightarrow> api_step w w'"
| api_amend: "SubmitAmend E l t md k w = (r, w') \<Longrightarrow> api_step w w'"
| api_convert: "SubmitConvert E l p k w = (r, w') \<Longrightarrow> api_step w w'"
| api_set: "SubmitSetMetadata E l tt ti md k w = (r, w') \<Longrightarrow> api_step w w'"
| api_delete: "SubmitDeleteMetadata E l tt ti mk k w = (r, w') \<Longrightarrow> api_step w w'"
| api_schema: "SubmitInsertSchema E l b v k w = (r, w') \<Longrightarrow> api_step w w'"
| api_batch: "SubmitBatch E l intents mode w = (q, w') \<Longrightarrow> api_step w w'"
| api_for_approval: "SubmitForApproval E l payload req sub ex w = (i, w') \<Longrightarrow> api_step w w'"
| api_approve: "Approve um E l i who sg w = (r, w') \<Longrightarrow> api_step w w'"
| api_denial: "WritePolicyDenialEvent E l who reason w = (u, w') \<Longrightarrow> api_step w w'"
| api_create_ledger: "CreateLedger E Pool p w = (lr, w') \<Longrightarrow> api_step w w'"
| api_seal_ledger: "SealLedger E Pool l w = (lr, w') \<Longrightarrow> api_step w w'"
| api_insert_policy: "InsertPolicy E p w = (u, w') \<Longrightarrow> api_step w w'"
| api_expire_holds: "ExpireHolds n E w = (ended, w') \<Longrightarrow> api_step w w'"
| api_expire_approvals: "ExpireStaleApprovals E th w = (u, w') \<Longrightarrow> api_step w w'"
| api_import: "Import E admins ctx evs final w = (n, w') \<Longrightarrow>
    \<forall>e\<in>set evs. 0 \<le> ge_SchemaVersion e \<and> ge_SchemaVersion e < 2 ^ 64 \<Longrightarrow> api_step w w'"
| api_checkpoints: "BuildCheckpoints E plan broken w = (u, w') \<Longrightarrow> set (plan (due (pg w))) = set (due (pg w)) \<Longrightarrow>
    distinct (plan (due (pg w))) \<Longrightarrow> api_step w w'"
| api_idle: "pg w' = pg w \<Longrightarrow> api_step w w'"

inductive reachable :: "world \<Rightarrow> bool" where
  reachable_init: "pg w = empty_db \<Longrightarrow> reachable w"
| reachable_step: "reachable w \<Longrightarrow> api_step w w' \<Longrightarrow> reachable w'"

text \<open>The elementary changes of the tables a step is made of.\<close>

inductive change :: "db \<Rightarrow> db \<Rightarrow> bool" where
  change_op: "op_effect l d x d' \<Longrightarrow> change d d'"
| change_log: "logged l ty d d' \<Longrightarrow> change d d'"
| change_expire: "expired_step d d' \<Longrightarrow> change d d'"
| change_admin: "admin_step d d' \<Longrightarrow> pending_approvals d' = pending_approvals d \<Longrightarrow> change d d'"
| change_approval: "(approvals_ok d \<longrightarrow> approvals_ok d') \<Longrightarrow> d' = d\<lparr>pending_approvals := rows\<rparr> \<Longrightarrow> change d d'"

lemma change_rows: "change\<^sup>*\<^sup>* d d'" if "\<exists>rows. d' = d\<lparr>pending_approvals := rows\<rparr>" "approvals_ok d \<longrightarrow> approvals_ok d'"
  using that change_approval by blast

lemma change_outcome: "outcome l dry (\<lambda>_. op_effect l) w r w' \<Longrightarrow> change\<^sup>*\<^sup>* (pg w) (pg w')"
  unfolding outcome_def by (auto intro: change_op)

lemma change_evolves: "evolves l d d' \<Longrightarrow> change\<^sup>*\<^sup>* d d'"
  by (induction rule: evolves.induct) (auto intro: change_op rtranclp.rtrancl_into_rtrancl)

lemma change_expired: "expired_step\<^sup>*\<^sup>* d d' \<Longrightarrow> change\<^sup>*\<^sup>* d d'"
  by (induction rule: rtranclp_induct) (auto intro: change_expire rtranclp.rtrancl_into_rtrancl)

lemma update_approval_only: "\<exists>rows. update_approval l i u d = d\<lparr>pending_approvals := rows\<rparr>"
  by (auto simp: update_approval_def)

lemma self_rows: "\<exists>rows. d = d\<lparr>pending_approvals := rows\<rparr>"
  by (rule exI [of _ "pending_approvals d"]) simp

lemma approve_effect_rows: "approve_effect l i who d dec d' \<Longrightarrow> \<exists>rows. d' = d\<lparr>pending_approvals := rows\<rparr>"
  by (induction rule: approve_effect.induct) (rule update_approval_only)+

lemma change_executed: "executed_from l i d d' \<Longrightarrow> change\<^sup>*\<^sup>* d d'"
proof -
  assume "executed_from l i d d'"
  then obtain d1 d2 where d1: "d1 = d \<or> (\<exists>x. op_effect l d x d1)"
    and d2: "d2 = d1 \<or> logged l EventTypeApprovalRecorded d1 d2"
    and d': "d' = d2 \<or> d' = update_approval l i (set_state ''rejected'') d2 \<or>
      d' = update_approval l i (set_state_if ''executing'' ''executed'') d2"
    unfolding executed_from_def by blast
  have "change\<^sup>*\<^sup>* d d1" using d1 change_op by blast
  moreover have "change\<^sup>*\<^sup>* d1 d2" using d2 change_log by blast
  moreover have "change\<^sup>*\<^sup>* d2 d'"
  proof (rule change_rows)
    show "\<exists>rows. d' = d2\<lparr>pending_approvals := rows\<rparr>"
      using d' by (elim disjE) (simp_all only: self_rows update_approval_only)
    show "approvals_ok d2 \<longrightarrow> approvals_ok d'"
      using d' by (auto intro!: update_approval_ok_all simp: set_state_ok)
  qed
  ultimately show ?thesis by (meson rtranclp_trans)
qed

lemma change_approve: "Approve um E l i who sg w = (r, w') \<Longrightarrow> change\<^sup>*\<^sup>* (pg w) (pg w')"
proof -
  assume run: "Approve um E l i who sg w = (r, w')"
  from Approve_run [OF run] show ?thesis
  proof (elim disjE exE conjE)
    fix dec d1
    assume eff: "approve_effect l i who (pg w) dec d1" and rest: "case dec of Expire \<Rightarrow> (\<exists>e. r = Inl e) \<and> pg w' = d1
        | Park \<Rightarrow> r = Inr (submitted i) \<and> pg w' = d1 | Run payload \<Rightarrow> executed_from l i d1 (pg w')"
    have "change\<^sup>*\<^sup>* (pg w) d1" using approve_effect_rows [OF eff] approve_effect_ok [OF eff] by (intro change_rows) blast+
    moreover have "change\<^sup>*\<^sup>* d1 (pg w')" using rest change_executed by (cases dec) auto
    ultimately show ?thesis by (rule rtranclp_trans)
  qed simp
qed

lemma change_for_approval:
  assumes run: "SubmitForApproval E l payload req sub ex w = (r, w')"
  shows "change\<^sup>*\<^sup>* (pg w) (pg w')"
proof (rule change_rows)
  show "\<exists>rows. pg w' = (pg w)\<lparr>pending_approvals := rows\<rparr>"
    using SubmitForApproval_run [OF run] self_rows [of "pg w"] by auto
  show "approvals_ok (pg w) \<longrightarrow> approvals_ok (pg w')" using SubmitForApproval_ok [OF run] by blast
qed

lemma change_denial: "WritePolicyDenialEvent E l who reason w = (u, w') \<Longrightarrow> change\<^sup>*\<^sup>* (pg w) (pg w')"
  unfolding WritePolicyDenialEvent_def using writePolicyDenialEvent_run change_log by fastforce

lemma change_import:
  assumes "Import E admins ctx evs final w = (n, w')"
    and "\<forall>e\<in>set evs. 0 \<le> ge_SchemaVersion e \<and> ge_SchemaVersion e < 2 ^ 64"
  shows "change\<^sup>*\<^sup>* (pg w) (pg w')"
proof -
  from assms(1) have "pg w' = pg w \<or> (\<exists>who. import_loop E who evs final fresh_import w = (n, w'))"
    by (auto simp: Import_def andThen_def ofErr_def split: sum.splits option.splits prod.splits)
  then have "(\<lambda>d d'. \<exists>l ty. logged l ty d d')\<^sup>*\<^sup>* (pg w) (pg w')"
    using import_loop_logged [OF _ import_inv_fresh assms(2)] by auto
  then show ?thesis
    by (induction rule: rtranclp_induct) (auto intro: change_log rtranclp.rtrancl_into_rtrancl)
qed

lemma change_checkpoints:
  assumes "BuildCheckpoints E plan broken w = (u, w')" "set (plan (due (pg w))) = set (due (pg w))" "distinct (plan (due (pg w)))"
  shows "change\<^sup>*\<^sup>* (pg w) (pg w')"
  using checkpoints_only [OF BuildCheckpoints_run [OF assms]]
  by (auto intro!: r_into_rtranclp change_admin simp: admin_step_def)

lemma change_admin_frame: "keeps admin_frame m \<Longrightarrow> m w = (r, w') \<Longrightarrow> change\<^sup>*\<^sup>* (pg w) (pg w')"
  using keepsD [of admin_frame m w r w'] by (auto simp: admin_frame_def intro: change_admin)

lemma change_approval_frame: "keeps approval_frame m \<Longrightarrow> m w = (r, w') \<Longrightarrow> change\<^sup>*\<^sup>* (pg w) (pg w')"
  using keepsD [of approval_frame m w r w'] by (auto simp: approval_frame_def intro: change_rows)

lemma api_step_change: "api_step w w' \<Longrightarrow> change\<^sup>*\<^sup>* (pg w) (pg w')"
proof (induction rule: api_step.induct)
  case (api_batch E l intents mode w q w')
  then show ?case by (rule change_evolves [OF SubmitBatch_evolves])
next
  case (api_insert_policy E p w u w')
  then show ?case using InsertPolicy_run change_admin by blast
next
  case (api_expire_holds n E w ended w')
  then show ?case using keepsD [OF keeps_ExpireHolds] change_expired unfolding expire_frame_def by blast
next
  case (api_import E admins ctx evs final w n w')
  then show ?case by (rule change_import)
next
  case (api_checkpoints E plan broken w u w')
  then show ?case by (rule change_checkpoints)
next
  case (api_idle w' w)
  then show ?case by simp
qed (erule Submit_ops [THEN change_outcome] change_approve change_for_approval change_denial
       change_admin_frame [OF keeps_CreateLedger] change_admin_frame [OF keeps_SealLedger]
       change_approval_frame [OF keeps_ExpireStaleApprovals])+

lemma reachable_induct_change:
  assumes "reachable w" "I empty_db" "\<And>d d'. change d d' \<Longrightarrow> I d \<Longrightarrow> I d'"
  shows "I (pg w)"
  using assms(1)
proof (induction rule: reachable.induct)
  case (reachable_step w w')
  have "change\<^sup>*\<^sup>* (pg w) (pg w')" using api_step_change reachable_step.hyps(2) .
  then show ?case using reachable_step.IH assms(3) by (induction rule: rtranclp_induct) auto
qed (simp add: assms(2))

subsection \<open>Invariants of reachable states\<close>

lemma change_sound: "change d d' \<Longrightarrow> sound d \<Longrightarrow> sound d'"
  by (induction rule: change.induct)
     (auto intro: op_effect_sound logged_sound expired_step_sound admin_sound simp: admin_step_def)

lemma change_approvals_ok: "change d d' \<Longrightarrow> approvals_ok d \<Longrightarrow> approvals_ok d'"
  by (induction rule: change.induct)
     (auto simp: logged_def expired_step_def close_effect_def booked_def
       intro: approvals_ok_same [rotated] dest: op_effect_approvals)

text \<open>At most one reversal is recorded for a transaction.\<close>

definition is_revert :: "RelationshipRecord \<Rightarrow> bool" where
  "is_revert r \<longleftrightarrow> rl_RelationshipType r = RelationshipTypeReverts"

definition reverted_once :: "db \<Rightarrow> bool" where
  "reverted_once d \<longleftrightarrow> distinct (map (\<lambda>r. (rl_LedgerID r, rl_ParentTxID r))
     (filter is_revert (transaction_relationships d)))"

definition rels_added :: "db \<Rightarrow> RelationshipRecord list \<Rightarrow> db \<Rightarrow> bool" where
  "rels_added d rels d' \<longleftrightarrow> transaction_relationships d' = transaction_relationships d @ rels \<and>
     (filter is_revert rels = [] \<or> (\<exists>l t r. rels = [r] \<and> reverts l t r \<and>
        \<not> list_ex (reverts l t) (transaction_relationships d)))"

lemma rels_added_once: "rels_added d rels d' \<Longrightarrow> reverted_once d \<Longrightarrow> reverted_once d'"
  unfolding rels_added_def reverted_once_def
  by (elim conjE disjE exE) (auto simp: reverts_def is_revert_def list_ex_iff)

lemma op_effect_rels: "op_effect l d x d' \<Longrightarrow> \<exists>rels. rels_added d rels d'"
proof (induction rule: op_effect.induct)
  case (op_revert t f k h d x d')
  then obtain rel where "reverts l t rel" "transaction_relationships d' = transaction_relationships d @ [rel]"
    "\<not> list_ex (reverts l t) (transaction_relationships d)" unfolding revert_effect_def by blast
  then show ?case unfolding rels_added_def by blast
next
  case (op_amend t md k h d x d')
  then obtain rel where "rl_RelationshipType rel = RelationshipTypeAmends"
    "transaction_relationships d' = transaction_relationships d @ [rel]"
    unfolding amend_effect_def side_effect_def by blast
  then have "rels_added d [rel] d'"
    by (simp add: rels_added_def is_revert_def RelationshipTypeAmends_def RelationshipTypeReverts_def)
  then show ?case by blast
qed (rule exI [of _ "[]"], auto simp: rels_added_def post_effect_def authorize_effect_def capture_effect_def
      void_effect_def close_effect_def convert_effect_def set_effect_def delete_effect_def side_effect_def Let_def)+

lemma change_once: "change d d' \<Longrightarrow> reverted_once d \<Longrightarrow> reverted_once d'"
proof (induction rule: change.induct)
  case (change_op l d x d')
  then show ?case using op_effect_rels rels_added_once by blast
qed (auto simp: reverted_once_def logged_def expired_step_def close_effect_def admin_step_def)

lemma empty_once: "reverted_once empty_db" "approvals_ok empty_db"
  by (simp_all add: reverted_once_def approvals_ok_def empty_db_def)

lemma sound_reachable: "reachable w \<Longrightarrow> sound (pg w)"
  by (erule reachable_induct_change [where I = sound]) (auto intro: empty_sound change_sound)

lemma approvals_reachable: "reachable w \<Longrightarrow> approvals_ok (pg w)"
  by (erule reachable_induct_change [where I = approvals_ok]) (auto intro: empty_once change_approvals_ok)

lemma once_reachable: "reachable w \<Longrightarrow> reverted_once (pg w)"
  by (erule reachable_induct_change [where I = reverted_once]) (auto intro: empty_once change_once)

end
