(* ===== verification/Sample.thy ===== *)
theory Sample
  imports Ledger_System
begin

text \<open>
  A concrete environment and a few reachable states, on which the properties of the development
  are exercised: identifiers are numbered, the clock ticks, neither the database nor Redis
  fails, and the hash is the identity.
\<close>

definition sample_env :: env where
  "sample_env = \<lparr>ulid = (\<lambda>n. ''id'' @ nat_String n), clock = (\<lambda>n. 1000 + int n), db_clock = (\<lambda>n. 2000 + int n),
     fault = (\<lambda>_. None), redis = (\<lambda>_. RedisOk), ctx_done = (\<lambda>_. False), jitter = (\<lambda>_. 0),
     sha256 = (\<lambda>b. b), format_time = int_String, ParseFloat = (\<lambda>_. None),
     json_Unmarshal = (\<lambda>_. None), json_Valid = (\<lambda>_. True), time_String = int_String,
     pg_text = (\<lambda>_. ''SQL error''),
     regexp_Compile = (\<lambda>_. None), has_subs = True\<rparr>"

definition blank_world :: world where
  "blank_world = \<lparr>pg = empty_db, tx = NoTx, log_batches = [], openBatch = [], pendingClose = [], spawned = [],
     cache = [], published = [], waits = [], counters = [], errCount = 0, n_ulid = 0, n_clock = 0, n_sql = 0, n_redis = 0\<rparr>"

text \<open>A ledger, a deposit, a hold on part of it, and an approval waiting for one approver.\<close>

definition ledger_world :: world where
  "ledger_world = snd (CreateLedger sample_env Pool
     \<lparr>clp_ID = ''main'', clp_BucketID = [], clp_Metadata = None\<rparr> blank_world)"

definition transfer :: "string \<Rightarrow> string \<Rightarrow> int \<Rightarrow> PostingInput" where
  "transfer a b n = \<lparr>Source = a, Destination = b, Amount = Some n, Asset = ''USD''\<rparr>"

definition deposit :: "world \<Rightarrow> (error + SubmitResult) \<times> world" where
  "deposit = SubmitPost sample_env ''main'' [transfer ''_world'' ''alice'' 100] [] None ''k1'' None False"

definition funded_world :: world where
  "funded_world = snd (deposit ledger_world)"

definition hold_world :: world where
  "hold_world = snd (SubmitAuthorize sample_env ''main'' ''alice'' ''shop'' ''USD'' (Some 60) 9000 [] funded_world)"

definition sample_intent :: BatchIntent where
  "sample_intent = \<lparr>bi_Type = ''post'', bi_Postings = [transfer ''alice'' ''bob'' 30], bi_Reference = [],
     bi_Metadata = None, bi_IdempotencyKey = [], bi_Source = [], bi_DestinationHint = [], bi_Asset = [],
     bi_Amount = None, bi_ExpiresAt = 0, bi_HoldID = [], bi_Destination = [], bi_OriginalTxID = [],
     bi_Force = False, bi_AtEffectiveDate = False, bi_Reason = [], bi_ConvertParams = None,
     bi_TargetType = 0, bi_TargetID = [], bi_MetadataKey = []\<rparr>"

definition approval_world :: world where
  "approval_world = snd (SubmitForApproval sample_env ''main'' ''intent'' [''boss''] ''clerk'' 0 funded_world)"

definition sample_convert :: ConvertParams where
  "sample_convert = \<lparr>cv_Source = ''alice'', cv_Destination = ''desk'', cv_SourceAmount = Some 40, cv_SourceAsset = ''USD'',
     cv_DestAmount = Some 35, cv_DestAsset = ''EUR'', cv_Rate = [], cv_RateSource = [],
     cv_SlippageAccount = [], cv_SlippageAmount = None, cv_ValidTime = None\<rparr>"

lemma reachable_ledger: "reachable ledger_world"
proof (rule reachable_step)
  show "reachable blank_world" by (rule reachable_init) (simp add: blank_world_def)
  show "api_step blank_world ledger_world"
    unfolding ledger_world_def by (rule api_create_ledger, rule surjective_pairing)
qed

lemma reachable_funded: "reachable funded_world"
proof (rule reachable_step [OF reachable_ledger])
  show "api_step ledger_world funded_world"
    unfolding funded_world_def deposit_def by (rule api_post, rule surjective_pairing)
qed

lemma reachable_hold: "reachable hold_world"
proof (rule reachable_step [OF reachable_funded])
  show "api_step funded_world hold_world"
    unfolding hold_world_def by (rule api_authorize, rule surjective_pairing)
qed

lemma reachable_approval: "reachable approval_world"
proof (rule reachable_step [OF reachable_funded])
  show "api_step funded_world approval_world"
    unfolding approval_world_def by (rule api_for_approval, rule surjective_pairing)
qed

lemmas sample_sound = sound_reachable [OF reachable_ledger] sound_reachable [OF reachable_funded]
  sound_reachable [OF reachable_hold]

text \<open>A submission that returned a result of its own, not a replayed one.\<close>

definition fresh :: "(error + SubmitResult) \<times> world \<Rightarrow> bool" where
  "fresh out = (case fst out of Inr x \<Rightarrow> \<not> IdempotentHit x | Inl _ \<Rightarrow> False)"

lemma freshE: "fresh out \<Longrightarrow> \<exists>x. out = (Inr x, snd out) \<and> \<not> IdempotentHit x"
  by (cases out) (auto simp: fresh_def split: sum.splits)

lemma fresh_deposit: "fresh (deposit ledger_world)"
  by code_simp

end
