(* ===== verification/Submission_Properties.thy ===== *)
theory Submission_Properties
  imports Sample
begin

text \<open>
  Properties of the write path all operations share: sealed ledgers, replays under an idempotency
  key, retries, and batches.
\<close>

section \<open>Sealed ledgers\<close>

lemma sealed_check:
  assumes "find_ledger l (pg w) = Some row" "lg_state row = ledgerStateSealed"
  shows "\<exists>e v. checkLedgerNotSealed E l w = (Inl e, v) \<and> pg v = pg w"
proof -
  obtain r v where r: "checkLedgerNotSealed E l w = (r, v)" by (cases "checkLedgerNotSealed E l w")
  note ck = checkLedger_run [OF r]
  show ?thesis
  proof (cases r)
    case (Inr lr)
    then show ?thesis using ck(2) assms by (simp add: open_ledger_def)
  qed (use r ck(1) in blast)
qed

lemma sealed_guard:
  assumes "find_ledger l (pg w) = Some row" "lg_state row = ledgerStateSealed"
  shows "\<exists>e v. andThen (checkLedgerNotSealed E l) m w = (Inl e, v) \<and> pg v = pg w"
  using sealed_check [OF assms, of E] by (auto simp: andThen_def)

lemma fail_unchanged: "\<exists>e' v. fail e w = (Inl e', v) \<and> pg v = pg w"
  by (simp add: fail_def)

lemma ofErr_guard:
  "\<exists>e v. m w = (Inl e, v) \<and> pg v = pg w \<Longrightarrow>
     \<exists>e v. andThen (ofErr err) (\<lambda>_. m) w = (Inl e, v) \<and> pg v = pg w"
  by (cases err) (auto simp: andThen_def ofErr_def ok_def fail_def)

lemma sealed_submit:
  assumes s: "find_ledger l (pg w) = Some row" "lg_state row = ledgerStateSealed"
  shows "\<exists>e v. executeIntent E l intent w = (Inl e, v) \<and> pg v = pg w"
  unfolding executeIntent_def SubmitPost_def SubmitAuthorize_def SubmitCapture_def SubmitVoid_def SubmitRevert_def
    SubmitAmend_def SubmitConvert_def SubmitSetMetadata_def SubmitDeleteMetadata_def Let_def
  by (auto intro!: sealed_guard [OF s] fail_unchanged ofErr_guard split: option.split)

text \<open>C11. A sealed ledger accepts nothing more: every operation on it, alone, in a batch of either
  mode, as a schema or as a submission for approval, reports an error and leaves the committed
  tables as they were, even when its idempotency key was used before.\<close>

theorem sealed_ledger_rejects:
  assumes "find_ledger l (pg w) = Some row" and "lg_state row = ledgerStateSealed"
  shows "(\<exists>e v. executeIntent E l intent w = (Inl e, v) \<and> pg v = pg w) \<and>
    (\<exists>e v. SubmitBatch E l intents mode w = (Inl e, v) \<and> pg v = pg w) \<and>
    (\<exists>e v. SubmitInsertSchema E l doc version key w = (Inl e, v) \<and> pg v = pg w) \<and>
    (\<exists>e v. SubmitForApproval E l payload required who expiresIn w = (Inl e, v) \<and> pg v = pg w)"
  unfolding SubmitBatch_def SubmitInsertSchema_def SubmitForApproval_def Let_def
  by (intro conjI sealed_submit [OF assms] sealed_guard [OF assms])

definition sealed_world :: world where
  "sealed_world = snd (SealLedger sample_env Pool ''main'' funded_world)"

theorem sealed_ledger_rejects_witness:
  "\<exists>row e v. find_ledger ''main'' (pg sealed_world) = Some row \<and> lg_state row = ledgerStateSealed \<and>
     executeIntent sample_env ''main'' sample_intent sealed_world = (Inl e, v) \<and> pg v = pg sealed_world"
proof -
  have "case find_ledger ''main'' (pg sealed_world) of Some row \<Rightarrow> lg_state row = ledgerStateSealed | None \<Rightarrow> False"
    by code_simp
  then obtain row where "find_ledger ''main'' (pg sealed_world) = Some row" "lg_state row = ledgerStateSealed"
    by (auto split: option.splits)
  then show ?thesis using sealed_ledger_rejects [of "''main''" sealed_world row sample_env sample_intent] by blast
qed

section \<open>Replays under an idempotency key\<close>

text \<open>The cache holds, under the Redis key of \<open>k\<close>, nothing or what the table says.\<close>

definition cache_agrees :: "string \<Rightarrow> string \<Rightarrow> IdempotencyKeyRecord \<Rightarrow> world \<Rightarrow> bool" where
  "cache_agrees l k ik w \<longleftrightarrow>
     map_of (cache w) (idempotencyKey l k) \<in> {None, Some (ik_EventID ik, ik_IdempotencyHash ik)}"

lemma GetIdempotencyKey_run:
  "fault E (n_sql w) = None \<Longrightarrow>
     GetIdempotencyKey E Pool l k w = (Inr (find_key l k (pg w)), w\<lparr>n_sql := Suc (n_sql w)\<rparr>)"
  by (simp add: GetIdempotencyKey_def query_Pool_run)

lemma SetIdempotencyKey_run: "\<exists>r v. SetIdempotencyKey E l k i h w = (r, v) \<and> pg v = pg w"
  by (simp add: SetIdempotencyKey_def Let_def split: redis_reply.split)

lemma checkIdempotency_run:
  assumes ok: "\<forall>j. fault E j = None" and key: "find_key l k (pg w) = Some ik" and c: "cache_agrees l k ik w"
  shows "\<exists>v. pg v = pg w \<and> checkIdempotency E l k h w =
    (if ik_IdempotencyHash ik = hash_bytes h then Inr (Some (idempotent_hit (ik_EventID ik)))
     else Inl ErrInvalidIdempotencyInput, v)"
proof -
  obtain g v where g: "GetCachedKey E l k w = (g, v)" by (cases "GetCachedKey E l k w")
  then have v: "pg v = pg w" using keepsD [OF keeps_GetCachedKey] by (simp add: db_frame_def)
  have ok': "fault E j = None" for j using ok by simp
  from g c consider "\<exists>e. g = Inl e" | "g = Inr None" | "g = Inr (Some (ik_EventID ik, ik_IdempotencyHash ik))"
    by (auto simp: GetCachedKey_def Let_def cache_agrees_def split: redis_reply.splits)
  then show ?thesis
  proof cases
    case 3
    then show ?thesis using g v
      by (auto simp: checkIdempotency_def attempt_def fail_def ok_def)
  qed (use g v key SetIdempotencyKey_run [of E l k "ik_EventID ik" "ik_IdempotencyHash ik" "v\<lparr>n_sql := Suc (n_sql v)\<rparr>"] in
      \<open>auto simp: checkIdempotency_def attempt_def andThen_def mapErr_def GetIdempotencyKey_run ok' fail_def ok_def\<close>)
qed

lemma submit_replay:
  assumes "\<forall>j. fault E j = None" "find_key l k (pg w) = Some ik" "cache_agrees l k ik w" "k \<noteq> []"
  shows "\<exists>v. pg v = pg w \<and> submitWithIdempotency E l k h ty dry m w =
    (if ik_IdempotencyHash ik = hash_bytes h then Inr (idempotent_hit (ik_EventID ik))
     else Inl ErrInvalidIdempotencyInput, v)"
  using checkIdempotency_run [OF assms(1-3), of h] assms(4)
  by (auto simp: submitWithIdempotency_def andThen_def ok_def fail_def)

lemma checkLedger_ok:
  assumes "\<forall>j. fault E j = None" "open_ledger l (pg w) lr"
  shows "checkLedgerNotSealed E l w = (Inr lr, w\<lparr>n_sql := Suc (n_sql w)\<rparr>)"
  using assms ledger_record_simps(2)
  by (fastforce simp: checkLedgerNotSealed_def GetLedger_def andThen_def mapErr_def query_Pool_run
      open_ledger_def ok_def ofSum_def)

lemma find_snoc: "find P xs = None \<Longrightarrow> find P (xs @ [y]) = (if P y then Some y else None)"
  by (induction xs) (auto split: if_splits)

text \<open>The row a keyed post leaves behind.\<close>

lemma SubmitPost_key:
  assumes run: "SubmitPost E l ps ref md k vt False w = (Inr x, w')" and x: "\<not> IdempotentHit x" and k: "k \<noteq> []"
  shows "\<exists>ik. find_key l k (pg w') = Some ik \<and> ik_EventID ik = EventID x \<and>
    ik_IdempotencyHash ik = computeIdempotencyHash E l ps ref md vt"
proof -
  have v: "validatePostings ps = None"
    using run by (cases "validatePostings ps") (auto simp: SubmitPost_def andThen_def ofErr_def fail_def)
  let ?h = "Some (computeIdempotencyHash E l ps ref md vt)"
  have "outcome l False (\<lambda>lr d x d'. \<exists>now. post_effect lr ps k ?h (case vt of None \<Rightarrow> now | Some t \<Rightarrow> t) now False d x d') w (Inr x) w'"
    using run v k by (intro post_at.guarded_run) (simp add: SubmitPost_def Let_def)
  then obtain lr now vt' where lr: "open_ledger l (pg w) lr" and e: "post_effect lr ps k ?h vt' now False (pg w) x (pg w')"
    using x by (auto simp: outcome_def)
  then have "key_rows l k (EventID x) ?h (pg w) (pg w')"
    using open_ledger_id [OF lr] by (auto simp: post_effect_def Let_def)
  then show ?thesis using k
    by (auto simp: key_rows_def find_key_def hash_bytes_def find_snoc)
qed

text \<open>C9. A post under an idempotency key happens once. When it has committed, then in every later
  state that still has its key row, in which the ledger is open, the database answers and Redis has nothing
  or the same entry under the key, a second post of well-formed postings under the key changes no table: if it has the
  same hash it is answered with the event of the first, otherwise it is refused with
  \<open>ErrInvalidIdempotencyInput\<close>.\<close>

theorem SubmitPost_once:
  assumes first: "SubmitPost E l ps ref md k vt False w = (Inr x, w')" "\<not> IdempotentHit x" "k \<noteq> []"
    and later: "find_key l k (pg u) = find_key l k (pg w')" "open_ledger l (pg u) lr"
      "\<forall>ik. find_key l k (pg u) = Some ik \<longrightarrow> cache_agrees l k ik u"
    and faultless: "\<forall>j. fault E j = None" and valid: "validatePostings ps' = None"
  shows "\<exists>u'. pg u' = pg u \<and> SubmitPost E l ps' ref' md' k vt' dry u =
    (if computeIdempotencyHash E l ps' ref' md' vt' = computeIdempotencyHash E l ps ref md vt
     then Inr (idempotent_hit (EventID x)) else Inl ErrInvalidIdempotencyInput, u')"
proof -
  obtain ik where ik: "find_key l k (pg u) = Some ik" "ik_EventID ik = EventID x"
      "ik_IdempotencyHash ik = computeIdempotencyHash E l ps ref md vt"
    using SubmitPost_key [OF first] later(1) by auto
  let ?u = "u\<lparr>n_sql := Suc (n_sql u), n_clock := Suc (n_clock u)\<rparr>"
  have "cache_agrees l k ik ?u" using later(3) ik(1) by (simp add: cache_agrees_def)
  from submit_replay [OF faultless _ this first(3),
      of "Some (computeIdempotencyHash E l ps' ref' md' vt')" EventTypeTransactionPosted dry] ik(1)
  obtain u' where "pg u' = pg u" "submitWithIdempotency E l k (Some (computeIdempotencyHash E l ps' ref' md' vt'))
      EventTypeTransactionPosted dry (doPostInTx E lr ps' ref' md' k (Some (computeIdempotencyHash E l ps' ref' md' vt'))
        (case vt' of None \<Rightarrow> clock E (n_clock u) | Some t \<Rightarrow> t) (clock E (n_clock u)) dry) ?u =
    (if ik_IdempotencyHash ik = computeIdempotencyHash E l ps' ref' md' vt' then Inr (idempotent_hit (ik_EventID ik))
     else Inl ErrInvalidIdempotencyInput, u')"
    by (auto simp: hash_bytes_def)
  then show ?thesis
    using valid first(3) checkLedger_ok [OF faultless later(2)] ik(2,3)
    by (auto simp: SubmitPost_def andThen_def ofErr_def Let_def time_Now_def ok_def cong: option.case_cong)
qed

lemma open_funded: "\<exists>lr. open_ledger ''main'' (pg funded_world) lr"
proof -
  have "case find_ledger ''main'' (pg funded_world) of
      Some row \<Rightarrow> lg_state row \<noteq> ledgerStateSealed \<and> (case ledger_record row of Inr lr \<Rightarrow> True | Inl _ \<Rightarrow> False)
    | None \<Rightarrow> False" by code_simp
  then show ?thesis by (auto simp: open_ledger_def split: option.splits sum.splits)
qed

text \<open>Depositing twice under one key, and then a different amount under it.\<close>

theorem SubmitPost_once_witness:
  "(\<exists>x u'. pg u' = pg funded_world \<and> fst (deposit ledger_world) = Inr x \<and>
     deposit funded_world = (Inr (idempotent_hit (EventID x)), u')) \<and>
   (\<exists>u'. pg u' = pg funded_world \<and> SubmitPost sample_env ''main'' [transfer ''_world'' ''alice'' 99] [] None ''k1'' None False
      funded_world = (Inl ErrInvalidIdempotencyInput, u'))"
proof -
  obtain x where x: "deposit ledger_world = (Inr x, funded_world)" "\<not> IdempotentHit x"
    using freshE [OF fresh_deposit] by (auto simp: funded_world_def)
  obtain lr where lr: "open_ledger ''main'' (pg funded_world) lr" using open_funded by blast
  have c: "\<forall>ik. find_key ''main'' ''k1'' (pg funded_world) = Some ik \<longrightarrow> cache_agrees ''main'' ''k1'' ik funded_world"
  proof -
    have "case find_key ''main'' ''k1'' (pg funded_world) of None \<Rightarrow> True | Some ik \<Rightarrow> cache_agrees ''main'' ''k1'' ik funded_world"
      by code_simp
    then show ?thesis by (auto split: option.splits)
  qed
  have "fault sample_env j = None" for j by (simp add: sample_env_def)
  then have f: "\<forall>j. fault sample_env j = None" by simp
  note once = SubmitPost_once [OF x(1) [unfolded deposit_def] x(2) _ refl lr c f]
  have valid: "validatePostings [transfer ''_world'' ''alice'' 100] = None"
      "validatePostings [transfer ''_world'' ''alice'' 99] = None" by code_simp+
  have "computeIdempotencyHash sample_env ''main'' [transfer ''_world'' ''alice'' 99] [] None None
      \<noteq> computeIdempotencyHash sample_env ''main'' [transfer ''_world'' ''alice'' 100] [] None None" by code_simp
  then show ?thesis
    using once [OF _ valid(1), of "[]" None None False] once [OF _ valid(2), of "[]" None None False] x(1)
    by (simp add: deposit_def)
qed

section \<open>Retries\<close>

lemma deadlockLoop_waits:
  assumes "deadlockLoop E b n fn w = (r, w')" and quiet: "\<And>v q v'. fn v = (q, v') \<Longrightarrow> waits v' = waits v"
    and "0 < b" "b \<le> 5000000"
  shows "\<exists>ds. waits w' = waits w @ ds \<and> length ds \<le> n \<and> (\<forall>t\<in>set ds. 0 < t \<and> t < 10000000) \<and>
    ((\<exists>v. fn v = (r, w') \<and> (length ds = n \<or> (\<forall>e. r = Inl e \<longrightarrow> \<not> errors_is e ErrDeadlock)))
     \<or> r = Inl ErrContextDone \<and> ds \<noteq> [] \<and> ctx_done E (length (waits w') - 1))"
  using assms(1,3,4)
proof (induction n arbitrary: b w)
  case 0
  obtain q v where q: "fn w = (q, v)" by (cases "fn w")
  then have "r = q \<and> w' = v" using 0
    by (cases q) (auto simp: deadlockLoop.simps [of _ _ 0] attempt_def ok_def fail_def split: if_splits)
  then show ?case using q quiet [OF q] by auto
next
  case (Suc n)
  obtain q v where q: "fn w = (q, v)" by (cases "fn w")
  note qv = quiet [OF q]
  show ?case
  proof (cases "\<exists>e. q = Inl e \<and> errors_is e ErrDeadlock")
    case False
    then have "r = q \<and> w' = v" using Suc.prems(1) q
      by (cases q) (auto simp: deadlockLoop.simps [of _ _ "Suc n"] attempt_def ok_def fail_def)
    then show ?thesis using False q qv by auto
  next
    case True
    then obtain e where e: "q = Inl e" "errors_is e ErrDeadlock" by blast
    let ?t = "b + jitter E (length (waits v)) mod b"
    have t: "0 < ?t \<and> ?t < 10000000"
      using Suc.prems(2,3) pos_mod_sign [of b] pos_mod_bound [of b] by (smt (verit))
    let ?v = "v\<lparr>waits := waits v @ [?t]\<rparr>"
    show ?thesis
    proof (cases "ctx_done E (length (waits v))")
      case True
      then have "r = Inl ErrContextDone \<and> w' = ?v" using Suc.prems(1) q e
        by (auto simp: deadlockLoop.simps [of _ _ "Suc n"] attempt_def andThen_def sleep_def Let_def fail_def)
      then show ?thesis using True t qv by auto
    next
      case False
      then have "deadlockLoop E (if b * 2 > 5000000 then 5000000 else b * 2) n fn ?v = (r, w')"
        using Suc.prems(1) q e
        by (simp add: deadlockLoop.simps [of _ _ "Suc n"] attempt_def andThen_def sleep_def Let_def)
      moreover have "0 < (if b * 2 > 5000000 then 5000000 else b * 2)"
          "(if b * 2 > 5000000 then 5000000 else b * 2) \<le> 5000000" using Suc.prems(2) by simp_all
      ultimately obtain ds where "waits w' = waits ?v @ ds" "length ds \<le> n"
          "\<forall>t\<in>set ds. 0 < t \<and> t < 10000000"
          "(\<exists>v. fn v = (r, w') \<and> (length ds = n \<or> (\<forall>e. r = Inl e \<longrightarrow> \<not> errors_is e ErrDeadlock)))
           \<or> r = Inl ErrContextDone \<and> ds \<noteq> [] \<and> ctx_done E (length (waits w') - 1)"
        using Suc.IH by blast
      then show ?thesis using t qv by (intro exI [of _ "?t # ds"]) auto
    qed
  qed
qed

text \<open>The deadlock retry ends: around a function that does not itself wait it waits at most
  \<open>maxRetries\<close> times, each time for more than nothing and less than ten seconds, and returns the
  outcome of an attempt, one that did not deadlock unless all retries were used up, or reports
  that the context was cancelled during the last wait.\<close>

theorem withDeadlockRetry_bounded:
  assumes "withDeadlockRetry E maxRetries fn w = (r, w')" and "\<forall>v. waits (snd (fn v)) = waits v"
  shows "\<exists>ds. waits w' = waits w @ ds \<and> length ds \<le> maxRetries \<and> (\<forall>t\<in>set ds. 0 < t \<and> t < 10000000) \<and>
    ((\<exists>v. fn v = (r, w') \<and> (length ds = maxRetries \<or> (\<forall>e. r = Inl e \<longrightarrow> \<not> errors_is e ErrDeadlock)))
     \<or> r = Inl ErrContextDone \<and> ds \<noteq> [] \<and> ctx_done E (length (waits w') - 1))"
  by (rule deadlockLoop_waits [OF assms(1) [unfolded withDeadlockRetry_def]]) (use assms(2) in \<open>metis snd_conv\<close>, simp_all)

text \<open>A function that deadlocks every time is tried six times.\<close>

theorem withDeadlockRetry_bounded_witness:
  "\<exists>ds. waits (snd (withDeadlockRetry sample_env maxDeadlockRetries (fail ErrDeadlock :: unit prog) blank_world))
      = waits blank_world @ ds \<and> length ds \<le> 5"
proof -
  let ?run = "withDeadlockRetry sample_env maxDeadlockRetries (fail ErrDeadlock :: unit prog) blank_world"
  have "\<forall>v. waits (snd ((fail ErrDeadlock :: unit prog) v)) = waits v" by (simp add: fail_def)
  from withDeadlockRetry_bounded [OF surjective_pairing [of ?run] this] show ?thesis
    unfolding maxDeadlockRetries_def by blast
qed

section \<open>Batches\<close>

lemma op_effect_event:
  "op_effect l d x d' \<Longrightarrow> \<exists>ev vs. booked l ev vs d d' \<and> ev_EventID ev = EventID x"
proof (induction rule: op_effect.induct)
  case (op_void i k h d x d')
  then show ?case by (auto simp: void_effect_def close_effect_def)
qed (force simp: post_effect_def authorize_effect_def capture_effect_def revert_effect_def amend_effect_def
      convert_effect_def set_effect_def delete_effect_def side_effect_def Let_def)+

lemma chain_events:
  "chain l intents d rs d' \<Longrightarrow> \<exists>evs. log_events d' = log_events d @ evs \<and> map ev_EventID evs = map ir_EventID rs \<and>
     list_all (\<lambda>ev. ev_LedgerID ev = l) evs"
proof (induction rule: chain.induct)
  case (chain_Cons intent d x d1 intents rs d')
  obtain ev vs where "booked l ev vs d d1" "ev_EventID ev = EventID x"
    using op_effect_event [OF intent_effect_op [OF chain_Cons(1)]] by blast
  moreover obtain evs where "log_events d' = log_events d1 @ evs" "map ev_EventID evs = map ir_EventID rs"
      "list_all (\<lambda>ev. ev_LedgerID ev = l) evs" using chain_Cons.IH by blast
  ultimately show ?case by (intro exI [of _ "ev # evs"]) (simp add: booked_def succeeded_def)
qed simp

text \<open>C10. A batch in mode \<open>ALL_OR_NOTHING\<close> is all or nothing: either it reports an error and the
  committed tables are as they were, or every intent succeeded and the tables are those that
  result from the effects of the intents one after the other. The effect of an intent is that of
  the operation its type names, with the arguments the intent carries, on the tables the intents
  before it left. There is one new event per intent, in their order and under the identifiers
  reported.\<close>

theorem SubmitBatch_all_or_nothing:
  assumes "SubmitBatch E l intents ''ALL_OR_NOTHING'' w = (r, w')"
  shows "pg w' = pg w \<and> ((\<exists>e. r = Inl e) \<or> (\<exists>res e. r = Inr (res, Some e) \<and> br_Failed res)) \<or>
    (\<exists>res evs. r = Inr (res, None) \<and> length (br_Results res) = length intents \<and> list_all ir_Success (br_Results res) \<and>
       chain l intents (pg w) (br_Results res) (pg w') \<and> log_events (pg w') = log_events (pg w) @ evs \<and>
       map ev_EventID evs = map ir_EventID (br_Results res) \<and> list_all (\<lambda>ev. ev_LedgerID ev = l) evs)"
proof (cases "checkLedgerNotSealed E l w")
  case (Pair q v)
  note v = checkLedger_run(1) [OF Pair]
  show ?thesis
  proof (cases q)
    case (Inl e)
    then show ?thesis using assms Pair v by (auto simp: SubmitBatch_def andThen_def)
  next
    case (Inr lr)
    then have "submitAtomic E l intents v = (r, w')" using assms Pair by (simp add: SubmitBatch_def andThen_def)
    from submitAtomic_run [OF this, unfolded v] show ?thesis
    proof (elim disjE exE conjE)
      fix res
      assume c: "chain l intents (pg w) (br_Results res) (pg w')" and "r = Inr (res, None)"
      then show ?thesis using chain_success [OF c] chain_length [OF c] chain_events [OF c] by blast
    qed blast+
  qed
qed

text \<open>Two transfers of which the second is not covered: neither happens. Two that are covered: both
  happen, one after the other.\<close>

definition sample_batch :: "int \<Rightarrow> BatchIntent list" where
  "sample_batch n = [sample_intent, sample_intent\<lparr>bi_Postings := [transfer ''alice'' ''carol'' n]\<rparr>]"

theorem SubmitBatch_all_or_nothing_witness:
  "pg (snd (SubmitBatch sample_env ''main'' (sample_batch 80) ''ALL_OR_NOTHING'' funded_world)) = pg funded_world \<and>
   (\<exists>rs. chain ''main'' (sample_batch 40) (pg funded_world) rs
     (pg (snd (SubmitBatch sample_env ''main'' (sample_batch 40) ''ALL_OR_NOTHING'' funded_world))))"
proof
  let ?run = "SubmitBatch sample_env ''main'' (sample_batch 80) ''ALL_OR_NOTHING'' funded_world"
  have "case fst ?run of Inr (res, None) \<Rightarrow> False | _ \<Rightarrow> True" by code_simp
  then show "pg (snd ?run) = pg funded_world"
    using SubmitBatch_all_or_nothing [of sample_env "''main''" "sample_batch 80" funded_world "fst ?run" "snd ?run"] by auto
next
  let ?run = "SubmitBatch sample_env ''main'' (sample_batch 40) ''ALL_OR_NOTHING'' funded_world"
  have "case fst ?run of Inr (res, None) \<Rightarrow> True | _ \<Rightarrow> False" by code_simp
  then show "\<exists>rs. chain ''main'' (sample_batch 40) (pg funded_world) rs (pg (snd ?run))"
    using SubmitBatch_all_or_nothing [of sample_env "''main''" "sample_batch 40" funded_world "fst ?run" "snd ?run"] by auto
qed

end
