(* ===== verification/Hold_Properties.thy ===== *)
theory Hold_Properties
  imports Sample
begin

text \<open>
  Properties of holds: what authorising, capturing and voiding do to the balances, that a closed
  hold stays closed, and that the expiry sweep ends.
\<close>

section \<open>Authorise, capture, void\<close>

lemma outcome_fresh:
  "outcome l False Q w (Inr x) w' \<Longrightarrow> \<not> IdempotentHit x \<Longrightarrow> \<exists>lr. open_ledger l (pg w) lr \<and> Q lr (pg w) x (pg w')"
  by (auto simp: outcome_def)

text \<open>C12. An authorisation that reports a result of its own was covered by what the source had
  available, unless the source is an issuer; it posts nothing, takes exactly the amount from what
  is available to the source in that asset and from no one else, and leaves one more hold: an
  active one, under the identifier reported, of the amount, with nothing captured.\<close>

theorem SubmitAuthorize_reserves:
  assumes "SubmitAuthorize E l source hint asset amount expires k w = (Inr x, w')" and "\<not> IdempotentHit x"
  shows "\<exists>amt hold row. amount = Some amt \<and> 0 < amt \<and> find_ledger l (pg w) = Some row \<and>
    (IsIssuer source (lg_issuer_accounts row) \<or> amt \<le> available l source asset (pg w)) \<and>
    holds (pg w') = holds (pg w) @ [hold] \<and> active hold \<and> hd_HoldID hold = HoldID x \<and> hd_Source hold = source \<and>
    hd_Asset hold = asset \<and> hd_AuthorizedAmount hold = amt \<and> hd_CapturedAmount hold = 0 \<and>
    (\<forall>l' a s. posted l' a s (pg w') = posted l' a s (pg w)) \<and>
    (\<forall>l' a s. available l' a s (pg w') =
       available l' a s (pg w) - (if l' = l \<and> a = source \<and> s = asset then amt else 0))"
proof -
  obtain lr h where lr: "open_ledger l (pg w) lr" and e: "authorize_effect lr source asset amount k h (pg w) x (pg w')"
    using outcome_fresh [OF SubmitAuthorize_run [OF assms(1)] assms(2)] by blast
  have id: "lr_ID lr = l" using open_ledger_id [OF lr] .
  obtain row where row: "find_ledger l (pg w) = Some row" "lr_IssuerAccounts lr = lg_issuer_accounts row"
    using lr ledger_record_simps(3) by (auto simp: open_ledger_def)
  have "posted l' a s (pg w') = posted l' a s (pg w)" for l' a s
    using e booked_posted [of _ _ "[]"] by (auto simp: authorize_effect_def)
  then show ?thesis
    using e authorize_effect_available [OF e] id row by (auto simp: authorize_effect_def)
qed

theorem SubmitAuthorize_reserves_witness:
  "available ''main'' ''alice'' ''USD'' (pg funded_world) = 100 \<and> available ''main'' ''alice'' ''USD'' (pg hold_world) = 40"
proof -
  let ?run = "SubmitAuthorize sample_env ''main'' ''alice'' ''shop'' ''USD'' (Some 60) 9000 [] funded_world"
  have "fresh ?run" by code_simp
  then obtain x where x: "?run = (Inr x, hold_world)" "\<not> IdempotentHit x"
    using freshE by (metis hold_world_def)
  have "available ''main'' ''alice'' ''USD'' (pg funded_world) = 100" by code_simp
  then show ?thesis using SubmitAuthorize_reserves [OF x] by auto
qed

text \<open>C13. A capture that reports a result of its own pays the destination named, or else the hold's
  hint, out of an active hold with at least the amount left on it: the balance of the source
  falls and that of the destination rises by the amount, what is available to the source stays
  as it was because the hold shrinks by as much, and no other balance changes.\<close>

theorem SubmitCapture_settles:
  assumes "SubmitCapture E l i amount destination k w = (Inr x, w')" and "\<not> IdempotentHit x" and "reachable w"
  shows "\<exists>amt hold dest. amount = Some amt \<and> 0 < amt \<and> find_hold l i (pg w) = Some hold \<and> active hold \<and>
    hd_CapturedAmount hold + amt \<le> hd_AuthorizedAmount hold \<and>
    dest = (if destination = [] then hd_DestinationHint hold else destination) \<and> dest \<noteq> [] \<and>
    (\<forall>l' a s. posted l' a s (pg w') = posted l' a s (pg w) +
       (if l' = l \<and> s = hd_Asset hold then (if a = dest then amt else 0) - (if a = hd_Source hold then amt else 0) else 0)) \<and>
    (\<forall>l' a s. available l' a s (pg w') = available l' a s (pg w) +
       (if l' = l \<and> a = dest \<and> s = hd_Asset hold then amt else 0))"
proof -
  obtain h where e: "capture_effect l i amount destination k h (pg w) x (pg w')"
    using outcome_fresh [OF SubmitCapture_run [OF assms(1)] assms(2)] by blast
  obtain hold dest where av: "find_hold l i (pg w) = Some hold" "dest = (if destination = [] then hd_DestinationHint hold else destination)"
      "\<forall>k a s. available k a s (pg w') = available k a s (pg w) + (if k = l \<and> a = dest \<and> s = hd_Asset hold then the amount else 0)"
    using capture_effect_available [OF e sound_reachable [OF assms(3)]] by blast
  obtain amt now and ev :: LogEventRecord where m: "amount = Some amt" "0 < amt" "active hold"
      "amt \<le> hd_AuthorizedAmount hold - hd_CapturedAmount hold" "dest \<noteq> []"
    and b: "booked l ev [vdelta l (hd_Source hold) (hd_Asset hold) (ev_EventID ev) now now 0 amt,
          vdelta l dest (hd_Asset hold) (ev_EventID ev) now now amt 0] (pg w) (pg w')"
    using e av(1,2) unfolding capture_effect_def by auto
  have "posted l' a s (pg w') = posted l' a s (pg w) +
       (if l' = l \<and> s = hd_Asset hold then (if a = dest then amt else 0) - (if a = hd_Source hold then amt else 0) else 0)"
    for l' a s using booked_posted [OF b, of l' a s] by auto
  then show ?thesis using av m by auto
qed

theorem SubmitCapture_settles_witness:
  "let run = SubmitCapture sample_env ''main'' ''id3'' (Some 25) [] [] hold_world in
     fresh run \<and> posted ''main'' ''shop'' ''USD'' (pg (snd run)) = 25 \<and>
     available ''main'' ''alice'' ''USD'' (pg (snd run)) = 40"
proof -
  let ?run = "SubmitCapture sample_env ''main'' ''id3'' (Some 25) [] [] hold_world"
  have f: "fresh ?run" by code_simp
  then obtain x where x: "?run = (Inr x, snd ?run)" "\<not> IdempotentHit x" using freshE by blast
  have "find_hold ''main'' ''id3'' (pg hold_world) \<noteq> None \<and>
      (\<lambda>h. hd_DestinationHint h = ''shop'' \<and> hd_Source h = ''alice'' \<and> hd_Asset h = ''USD'') (the (find_hold ''main'' ''id3'' (pg hold_world)))"
    "posted ''main'' ''shop'' ''USD'' (pg hold_world) = 0" "available ''main'' ''alice'' ''USD'' (pg hold_world) = 40"
    by code_simp+
  then show ?thesis using SubmitCapture_settles [OF x reachable_hold] f by (auto simp: Let_def)
qed

text \<open>C14. Voiding a hold posts nothing and gives what was left on it, and only that, back to the
  source; afterwards the hold is no longer active.\<close>

theorem SubmitVoid_releases:
  assumes "SubmitVoid E l i k w = (Inr x, w')" and "\<not> IdempotentHit x" and "reachable w"
  shows "\<exists>hold. find_hold l i (pg w) = Some hold \<and> active hold \<and>
    find_hold l i (pg w') = Some (hold\<lparr>hd_Voided := True\<rparr>) \<and>
    (\<forall>l' a s. posted l' a s (pg w') = posted l' a s (pg w)) \<and>
    (\<forall>l' a s. available l' a s (pg w') = available l' a s (pg w) +
       (if l' = l \<and> a = hd_Source hold \<and> s = hd_Asset hold then hd_AuthorizedAmount hold - hd_CapturedAmount hold else 0))"
proof -
  obtain h where e: "void_effect l i k h (pg w) x (pg w')"
    using outcome_fresh [OF SubmitVoid_run [OF assms(1)] assms(2)] by blast
  then have c: "close_effect l i EventTypeHoldVoided (\<lambda>h. h\<lparr>hd_Voided := True\<rparr>) k h (pg w) (EventID x) (pg w')"
    by (simp add: void_effect_def)
  obtain hold where hold: "find_hold l i (pg w) = Some hold" "active hold"
    and av: "\<forall>k a s. available k a s (pg w') = available k a s (pg w) + (if k = l \<and> a = hd_Source hold \<and> s = hd_Asset hold
       then hd_AuthorizedAmount hold - hd_CapturedAmount hold else 0)"
    using close_effect_available [OF c sound_reachable [OF assms(3)]] by (auto simp: active_def)
  obtain ev :: LogEventRecord where b: "booked l ev [] (pg w) (pg w')"
      and hs: "holds (pg w') = holds (update_hold l i (\<lambda>h. h\<lparr>hd_Voided := True\<rparr>) (pg w))"
    using c by (auto simp: close_effect_def)
  have "find_hold l i (pg w') = map_option (\<lambda>r. if is_hold l i r \<and> active r then r\<lparr>hd_Voided := True\<rparr> else r) (find_hold l i (pg w))"
    unfolding find_hold_def hs update_hold_def by (simp add: find_map is_hold_def)
  moreover have "is_hold l i hold" using hold(1) by (auto simp: find_hold_def find_Some_iff)
  ultimately have "find_hold l i (pg w') = Some (hold\<lparr>hd_Voided := True\<rparr>)" using hold by simp
  then show ?thesis using hold av booked_posted [OF b] by simp
qed

theorem SubmitVoid_releases_witness:
  "let run = SubmitVoid sample_env ''main'' ''id3'' [] hold_world in
     fresh run \<and> available ''main'' ''alice'' ''USD'' (pg (snd run)) = 100"
proof -
  let ?run = "SubmitVoid sample_env ''main'' ''id3'' [] hold_world"
  have f: "fresh ?run" by code_simp
  then obtain x where x: "?run = (Inr x, snd ?run)" "\<not> IdempotentHit x" using freshE by blast
  have "find_hold ''main'' ''id3'' (pg hold_world) \<noteq> None \<and>
      (\<lambda>h. hd_AuthorizedAmount h = 60 \<and> hd_CapturedAmount h = 0 \<and> hd_Source h = ''alice'' \<and> hd_Asset h = ''USD'')
        (the (find_hold ''main'' ''id3'' (pg hold_world)))"
    "available ''main'' ''alice'' ''USD'' (pg hold_world) = 40"
    by code_simp+
  then show ?thesis using SubmitVoid_releases [OF x reachable_hold] f by (auto simp: Let_def)
qed

text \<open>A hold that was voided or has expired is closed for good: capturing or voiding it changes
  no table, and reports an error unless the request is a replay.\<close>

theorem closed_hold_stays_closed:
  assumes "find_hold l i (pg w) = Some hold" and "\<not> active hold"
    and "out = SubmitCapture E l i amount destination k w \<or> out = SubmitVoid E l i k w"
  shows "pg (snd out) = pg w \<and> (case fst out of Inl e \<Rightarrow> True | Inr x \<Rightarrow> IdempotentHit x)"
  using assms SubmitCapture_run [of E l i amount destination k w "fst out" "snd out"]
    SubmitVoid_run [of E l i k w "fst out" "snd out"]
  by (auto simp: outcome_def capture_effect_def void_effect_def close_effect_def)

definition voided_world :: world where
  "voided_world = snd (SubmitVoid sample_env ''main'' ''id3'' [] hold_world)"

theorem closed_hold_stays_closed_witness:
  "pg (snd (SubmitCapture sample_env ''main'' ''id3'' (Some 1) [] [] voided_world)) = pg voided_world \<and>
   pg (snd (SubmitVoid sample_env ''main'' ''id3'' [] voided_world)) = pg voided_world"
proof -
  have "case find_hold ''main'' ''id3'' (pg voided_world) of Some hold \<Rightarrow> \<not> active hold | None \<Rightarrow> False" by code_simp
  then obtain hold where "find_hold ''main'' ''id3'' (pg voided_world) = Some hold" "\<not> active hold"
    by (auto split: option.splits)
  from closed_hold_stays_closed [OF this] show ?thesis by blast
qed

section \<open>The expiry sweep\<close>

definition actives :: "db \<Rightarrow> nat" where
  "actives d = length (filter active (holds d))"

lemma length_filter_update:
  assumes "\<And>r. \<not> active (u r)"
  shows "length (filter active (map (\<lambda>r. if P r then u r else r) hs)) \<le> length (filter active hs)"
    and "h \<in> set hs \<Longrightarrow> active h \<Longrightarrow> P h \<Longrightarrow>
      length (filter active (map (\<lambda>r. if P r then u r else r) hs)) < length (filter active hs)"
proof -
  show le: "length (filter active (map (\<lambda>r. if P r then u r else r) hs)) \<le> length (filter active hs)" for hs
    using assms by (induction hs) auto
  show "h \<in> set hs \<Longrightarrow> active h \<Longrightarrow> P h \<Longrightarrow>
      length (filter active (map (\<lambda>r. if P r then u r else r) hs)) < length (filter active hs)"
    by (induction hs) (use assms le in \<open>auto simp: less_Suc_eq_le\<close>)
qed

lemma close_actives:
  assumes "close_effect l i ty u k h d e d'" and u: "\<And>r. \<not> active (u r)"
  shows "actives d' < actives d"
proof -
  obtain hold where hold: "find_hold l i d = Some hold" "active hold" and hs: "holds d' = holds (update_hold l i u d)"
    using assms(1) by (auto simp: close_effect_def)
  then have "hold \<in> set (holds d)" "is_hold l i hold \<and> active hold"
    by (auto simp: find_hold_def find_Some_iff)
  then show ?thesis
    unfolding actives_def hs update_hold_def
    using length_filter_update(2) [OF u, of hold "holds d" "\<lambda>r. is_hold l i r \<and> active r"] hold(2) by simp
qed

lemma expired_actives: "expired_step d d' \<Longrightarrow> actives d' < actives d"
  unfolding expired_step_def by (elim exE, erule close_actives) (simp add: active_def)

lemma expired_steps:
  "expired_step\<^sup>*\<^sup>* d d' \<Longrightarrow> actives d' \<le> actives d \<and> (sound d \<longrightarrow> sound d')"
  by (induction rule: rtranclp_induct) (auto dest: expired_actives expired_step_sound)

lemma find_filter_single: "filter P xs = [h] \<Longrightarrow> find P xs = Some h"
  by (induction xs) (auto split: if_splits)

lemma find_hold_member:
  assumes "sound d" "h \<in> set (holds d)"
  shows "find_hold (hd_LedgerID h) (hd_HoldID h) d = Some h"
proof -
  have "distinct (map (\<lambda>h. (hd_LedgerID h, hd_HoldID h)) (holds d))"
    using sound_holds_ok [OF assms(1)] by (simp add: holds_ok_def)
  from filter_distinct_key [OF this assms(2)] have "filter (is_hold (hd_LedgerID h) (hd_HoldID h)) (holds d) = [h]"
    by (simp add: is_hold_def [abs_def])
  then show ?thesis by (simp add: find_hold_def find_filter_single)
qed

lemma mapSum_hold: "mapSum hold_record rows = Inr hs \<Longrightarrow> hs = rows"
  by (induction rows arbitrary: hs) (auto simp: hold_record_def split: sum.splits)

lemma listed_holds:
  assumes "ListExpiredHolds E Pool w = (Inr hs, v)" "pg v = pg w"
  shows "set hs \<subseteq> set (holds (pg v)) \<and> list_all active hs"
proof -
  obtain q u where q: "query E Pool expired_holds w = (q, u)" by (cases "query E Pool expired_holds w")
  then have "\<exists>t. hs = expired_holds t (pg w)"
    using assms(1) query_Pool_ok [OF q]
    by (auto simp: ListExpiredHolds_def andThen_def ofSum_def dest!: mapSum_hold split: sum.splits)
  then show ?thesis using assms(2) set_take_subset
    by (fastforce simp: expired_holds_def list_all_iff dest: in_set_takeD)
qed

lemma expirePage_ok: "\<exists>n. fst (expirePage E hs w) = Inr n"
proof (induction hs arbitrary: w)
  case (Cons h hs)
  obtain q v where "expireSingleHold E h w = (q, v)" by (cases "expireSingleHold E h w")
  moreover obtain n u where "expirePage E hs v = (Inr n, u)" using Cons.IH [of v] by (metis surjective_pairing)
  ultimately show ?case by (simp add: attempt_def andThen_def ok_def)
qed (simp add: ok_def)

lemma expirePage_progress:
  assumes "expirePage E hs w = (r, w')" and "set hs \<subseteq> set (holds (pg w))" "list_all active hs" "sound (pg w)"
  shows "\<exists>n. r = Inr n \<and> (0 < n \<longrightarrow> actives (pg w') < actives (pg w))"
  using assms
proof (induction hs arbitrary: w r w')
  case Nil
  then show ?case by (simp add: ok_def)
next
  case (Cons h hs)
  obtain q v where q: "expireSingleHold E h w = (q, v)" by (cases "expireSingleHold E h w")
  obtain p u where p: "expirePage E hs v = (p, u)" by (cases "expirePage E hs v")
  have rest: "actives (pg u) \<le> actives (pg v)"
    using keepsD [OF keeps_expirePage p] expired_steps by (simp add: expire_frame_def)
  have r: "(r, w') = (case p of Inl e \<Rightarrow> (Inl e, u) | Inr n \<Rightarrow> (Inr (case q of Inl e \<Rightarrow> n | Inr _ \<Rightarrow> Suc n), u))"
    using Cons.prems(1) q p by (auto simp: attempt_def andThen_def ok_def split: sum.splits)
  show ?case
  proof (cases "expired_step (pg w) (pg v)")
    case True
    obtain n where "p = Inr n" using expirePage_ok [of E hs v] p by auto
    then show ?thesis using r rest expired_actives [OF True] by auto
  next
    case False
    from expireSingleHold_run [OF q] False have v: "pg v = pg w" and
      "q = Inr () \<longrightarrow> (\<exists>x. find_hold (hd_LedgerID h) (hd_HoldID h) (pg w) = Some x \<and> \<not> active x)"
      by (auto simp: expired_step_def)
    then have "q \<noteq> Inr ()" using find_hold_member [OF Cons.prems(4), of h] Cons.prems(2,3) by auto
    then obtain e where "q = Inl e" by (cases q) auto
    then show ?thesis using Cons.IH [OF p] Cons.prems(2-4) v r by auto
  qed
qed

text \<open>C34. The expiry sweep ends: in every reachable state, whatever the database does, a number of
  rounds above the number of active holds is enough. (A page that comes back full is followed by
  another round only if some hold of it was closed.)\<close>

theorem ExpireHolds_terminates:
  "reachable w \<Longrightarrow> length (filter active (holds (pg w))) < n \<Longrightarrow> fst (ExpireHolds n E w) \<noteq> Inr None"
proof -
  have "fst (ExpireHolds n E w) \<noteq> Inr None" if "sound (pg w)" "actives (pg w) < n"
    using that
  proof (induction n arbitrary: w)
    case (Suc n)
    obtain q v where q: "ListExpiredHolds E Pool w = (q, v)" by (cases "ListExpiredHolds E Pool w")
    have v: "pg v = pg w" using keepsD [OF keeps_ListExpiredHolds_pg q] by (simp add: pg_frame_def)
    show ?case
    proof (cases q)
      case (Inr hs)
      then have hs: "set hs \<subseteq> set (holds (pg v)) \<and> list_all active hs" using q v listed_holds by metis
      obtain p u where p: "expirePage E hs v = (p, u)" by (cases "expirePage E hs v")
      from expirePage_progress [OF p] hs Suc.prems(1) v obtain m where
        m: "p = Inr m" "0 < m \<longrightarrow> actives (pg u) < actives (pg w)" by auto
      have "sound (pg u)" using keepsD [OF keeps_expirePage p] expired_steps Suc.prems(1) v by (simp add: expire_frame_def)
      then have "0 < m \<Longrightarrow> fst (ExpireHolds n E u) \<noteq> Inr None" using Suc.IH [of u] Suc.prems(2) m(2) by auto
      then show ?thesis using q Inr p m(1) by (auto simp: andThen_def ok_def)
    qed (use q in \<open>simp add: andThen_def\<close>)
  qed simp
  then show "reachable w \<Longrightarrow> length (filter active (holds (pg w))) < n \<Longrightarrow> fst (ExpireHolds n E w) \<noteq> Inr None"
    using sound_reachable by (simp add: actives_def)
qed

theorem ExpireHolds_terminates_witness:
  "length (filter active (holds (pg hold_world))) = 1 \<and> fst (ExpireHolds 2 sample_env hold_world) \<noteq> Inr None"
proof -
  have "length (filter active (holds (pg hold_world))) = 1" by code_simp
  then show ?thesis using ExpireHolds_terminates [OF reachable_hold, of 2] by simp
qed

end
