(* ===== verification/Reversal_Properties.thy ===== *)
theory Reversal_Properties
  imports Sample
begin

text \<open>
  Properties of reversals, of conversions, and of transactions that touch one account twice.
\<close>

section \<open>Reversals\<close>

lemma revert_fresh:
  assumes "SubmitRevert E l t force effective reason k w = (Inr y, w')" and "\<not> IdempotentHit y"
  shows "\<exists>h. revert_effect l t force k h (pg w) y (pg w')"
  using SubmitRevert_run [OF assms(1)] assms(2) by (auto simp: outcome_def)

lemma post_fresh:
  assumes "SubmitPost E l ps ref md k vt False w = (Inr x, w')" and "\<not> IdempotentHit x"
  shows "\<exists>lr h vt now. lr_ID lr = l \<and> open_ledger l (pg w) lr \<and> post_effect lr ps k h vt now False (pg w) x (pg w')"
  using SubmitPost_run [OF assms(1)] assms(2) open_ledger_id by (fastforce simp: outcome_def)

lemma post_effect_row:
  assumes "post_effect lr ps k h vt now False d x d'"
  shows "\<exists>t row. Transaction x = Some t \<and> find_transaction (lr_ID lr) (tx_TransactionID t) d' = Some row \<and>
    tr_postings row = map posting_record ps \<and> ps \<noteq> []"
proof -
  obtain t where t: "Transaction x = Some t" "tx_Postings t = map posting_record ps" "tx_LedgerID t = lr_ID lr"
      "find_transaction (lr_ID lr) (tx_TransactionID t) d = None" "transactions d' = transactions d @ [transaction_row_of t]"
    using assms by (auto simp: post_effect_def Let_def)
  have "find P (xs @ [y]) = (if P y then Some y else None)" if "find P xs = None" for P and xs :: "transaction_row list" and y
    using that by (induction xs) (auto split: if_splits)
  then have "find_transaction (lr_ID lr) (tx_TransactionID t) d' = Some (transaction_row_of t)"
    using t(3-5) by (simp add: find_transaction_def transaction_row_of_def)
  then show ?thesis
    using t assms by (auto simp: transaction_row_of_def post_effect_def validatePostings_None)
qed

text \<open>C15. Reverting a posted transaction undoes it: the revert changes the balance of every account in
  every asset by exactly the opposite of what the post did, in whatever state it comes, as long as
  the transaction still has the postings it was posted with. In particular a revert that follows
  at once restores all balances.\<close>

theorem SubmitRevert_undoes:
  assumes "SubmitPost E l ps ref md k vt False w = (Inr x, w')" and "\<not> IdempotentHit x" and "Transaction x = Some t"
    and "map_option tr_postings (find_transaction l (tx_TransactionID t) (pg u)) =
      map_option tr_postings (find_transaction l (tx_TransactionID t) (pg w'))"
    and "SubmitRevert E' l (tx_TransactionID t) force effective reason k' u = (Inr y, u')" and "\<not> IdempotentHit y"
  shows "posted l a s (pg u') - posted l a s (pg u) = posted l a s (pg w) - posted l a s (pg w')"
proof -
  obtain lr h vt' now where lr: "lr_ID lr = l" and e: "post_effect lr ps k h vt' now False (pg w) x (pg w')"
    using post_fresh [OF assms(1,2)] by blast
  obtain row where row: "find_transaction l (tx_TransactionID t) (pg u) = Some row" "tr_postings row = map posting_record ps" "ps \<noteq> []"
    using post_effect_row [OF e] assms(3,4) lr by auto
  have rev: "reversePostings (tr_postings row) (tx_TransactionID t) = Inr (map swap_posting ps)"
    using reversePostings_records row(2,3) by simp
  obtain h' where "revert_effect l (tx_TransactionID t) force k' h' (pg u) y (pg u')" using revert_fresh [OF assms(5,6)] by blast
  from revert_effect_available(1) [OF this row(1) rev, of a s] post_effect_posted(1) [OF e, of a s] lr
  show ?thesis by (simp add: flow_swap)
qed

definition reverted :: "(error + SubmitResult) \<times> world" where
  "reverted = SubmitRevert sample_env ''main'' ''id0'' False False ''mistake'' [] funded_world"

lemma fresh_reverted: "fresh reverted"
  by code_simp

theorem SubmitRevert_undoes_witness:
  "posted ''main'' ''alice'' ''USD'' (pg funded_world) = 100 \<and> posted ''main'' ''alice'' ''USD'' (pg (snd reverted)) = 0"
proof -
  obtain x where x: "deposit ledger_world = (Inr x, funded_world)" "\<not> IdempotentHit x"
    using freshE [OF fresh_deposit] by (auto simp: funded_world_def)
  have "case fst (deposit ledger_world) of Inr x \<Rightarrow> map_option tx_TransactionID (Transaction x) = Some ''id0'' | Inl _ \<Rightarrow> False"
    by code_simp
  then obtain t where t: "Transaction x = Some t" "tx_TransactionID t = ''id0''" using x(1) by auto
  obtain y where y: "reverted = (Inr y, snd reverted)" "\<not> IdempotentHit y" using freshE [OF fresh_reverted] by blast
  have "posted ''main'' ''alice'' ''USD'' (pg ledger_world) = 0" "posted ''main'' ''alice'' ''USD'' (pg funded_world) = 100"
    by code_simp+
  then show ?thesis
    using SubmitRevert_undoes [OF x(1) [unfolded deposit_def] x(2) t(1) refl, unfolded t(2), OF y(1) [unfolded reverted_def] y(2)]
    by (simp add: reverted_def)
qed

lemma reverted_once_filter:
  assumes "reverted_once d" "list_ex (reverts l t) (transaction_relationships d)"
  shows "length (filter (reverts l t) (transaction_relationships d)) = 1"
proof -
  let ?key = "\<lambda>r. (rl_LedgerID r, rl_ParentTxID r)" and ?rs = "filter is_revert (transaction_relationships d)"
  obtain r where r: "r \<in> set ?rs" "?key r = (l, t)"
    using assms(2) by (auto simp: list_ex_iff reverts_def is_revert_def)
  have "filter (\<lambda>x. ?key x = ?key r) ?rs = [r]"
    using assms(1) r(1) by (intro filter_distinct_key) (simp_all add: reverted_once_def)
  moreover have "(\<lambda>x. is_revert x \<and> ?key x = (l, t)) = reverts l t"
    by (auto simp: reverts_def is_revert_def)
  ultimately show ?thesis unfolding r(2) filter_filter by (metis One_nat_def length_Cons list.size(3))
qed

text \<open>C16. As long as requests run one after the other, a transaction is reverted at most once: in every reachable state at most one relationship of
  the reverting kind names it, and reverting it again changes nothing and reports an error unless
  the request is a replay.\<close>

theorem reverted_at_most_once:
  assumes "reachable w" and "list_ex (reverts l t) (transaction_relationships (pg w))"
    and "SubmitRevert E l t force effective reason k w = (r, w')"
  shows "length (filter (reverts l t) (transaction_relationships (pg w))) = 1 \<and> pg w' = pg w \<and>
    (case r of Inl e \<Rightarrow> True | Inr x \<Rightarrow> IdempotentHit x)"
proof -
  have "length (filter (reverts l t) (transaction_relationships (pg w))) = 1"
    using reverted_once_filter [OF once_reachable [OF assms(1)] assms(2)] .
  then show ?thesis
    using SubmitRevert_run [OF assms(3)] assms(2) by (auto simp: outcome_def revert_effect_def)
qed

lemma reachable_reverted: "reachable (snd reverted)"
  unfolding reverted_def
  by (rule reachable_step [OF reachable_funded], rule api_revert, rule surjective_pairing)

theorem reverted_at_most_once_witness:
  "let again = SubmitRevert sample_env ''main'' ''id0'' True False [] [] (snd reverted) in
     pg (snd again) = pg (snd reverted) \<and> (case fst again of Inl e \<Rightarrow> errors_is e ErrAlreadyReverted | Inr _ \<Rightarrow> False)"
proof -
  let ?again = "SubmitRevert sample_env ''main'' ''id0'' True False [] [] (snd reverted)"
  have "list_ex (reverts ''main'' ''id0'') (transaction_relationships (pg (snd reverted)))"
    "case fst ?again of Inl e \<Rightarrow> errors_is e ErrAlreadyReverted | Inr _ \<Rightarrow> False" by code_simp+
  then show ?thesis
    using reverted_at_most_once [OF reachable_reverted _ surjective_pairing [of ?again]] by (simp add: Let_def)
qed

text \<open>A revert that is not forced overdraws no one: if every posting recorded for the transaction
  has a non-negative amount and no account but the issuers was overdrawn before, none is
  afterwards, whatever the revert returns.\<close>

theorem SubmitRevert_solvent:
  assumes "SubmitRevert E l t False effective reason k w = (r, w')" and "find_ledger l (pg w) = Some lrow"
    and "solvent l (lg_issuer_accounts lrow) (pg w)"
    and "\<forall>row ps. find_transaction l t (pg w) = Some row \<longrightarrow> reversePostings (tr_postings row) t = Inr ps \<longrightarrow>
      (\<forall>p\<in>set ps. 0 \<le> amount_of p)"
  shows "solvent l (lg_issuer_accounts lrow) (pg w')"
proof (rule outcome_invariant [where I = "solvent l (lg_issuer_accounts lrow)", OF SubmitRevert_run [OF assms(1)] assms(3)])
  fix lr x
  assume "\<exists>h. revert_effect l t False k h (pg w) x (pg w')"
  then obtain h where e: "revert_effect l t False k h (pg w) x (pg w')" by blast
  obtain row ps where row: "find_transaction l t (pg w) = Some row" "reversePostings (tr_postings row) t = Inr ps"
    using e unfolding revert_effect_def by blast
  show "solvent l (lg_issuer_accounts lrow) (pg w')"
    by (rule revert_effect_solvent [OF e row _ assms(3,2)]) (use assms(4) row in auto)
qed

lemma solvent_funded: "find_ledger ''main'' (pg funded_world) = Some (hd (ledgers (pg funded_world)))"
    "solvent ''main'' (lg_issuer_accounts (hd (ledgers (pg funded_world)))) (pg funded_world)"
proof -
  show "find_ledger ''main'' (pg funded_world) = Some (hd (ledgers (pg funded_world)))" by code_simp
  have "map (\<lambda>v. (vd_LedgerID v, vd_Account v, vd_Asset v, vd_InputDelta v, vd_OutputDelta v)) (volumes_delta (pg funded_world)) =
      [(''main'', ''_world'', ''USD'', 0, 100), (''main'', ''alice'', ''USD'', 100, 0)]" "holds (pg funded_world) = []"
    "lg_issuer_accounts (hd (ledgers (pg funded_world))) = [''_world'']" by code_simp+
  then show "solvent ''main'' (lg_issuer_accounts (hd (ledgers (pg funded_world)))) (pg funded_world)"
    by (auto simp: solvent_def available_def posted_def total_input_def total_output_def held_def in_bucket_def
        map_eq_Cons_conv)
qed

theorem SubmitRevert_solvent_witness:
  "solvent ''main'' (lg_issuer_accounts (hd (ledgers (pg funded_world)))) (pg (snd reverted))"
proof -
  have "case find_transaction ''main'' ''id0'' (pg funded_world) of None \<Rightarrow> True
      | Some row \<Rightarrow> (case reversePostings (tr_postings row) ''id0'' of Inl _ \<Rightarrow> True
          | Inr ps \<Rightarrow> list_all (\<lambda>p. 0 \<le> amount_of p) ps)" by code_simp
  then have "\<forall>row ps. find_transaction ''main'' ''id0'' (pg funded_world) = Some row \<longrightarrow>
      reversePostings (tr_postings row) ''id0'' = Inr ps \<longrightarrow> (\<forall>p\<in>set ps. 0 \<le> amount_of p)"
    by (auto simp: list_all_iff)
  from SubmitRevert_solvent [OF surjective_pairing solvent_funded this, of sample_env False "''mistake''" "[]"]
  show ?thesis by (simp add: reverted_def)
qed

section \<open>Conversions\<close>

lemma convert_fresh:
  assumes "SubmitConvert E l p k w = (Inr x, w')" and "\<not> IdempotentHit x"
  shows "\<exists>lr h vt now. lr_ID lr = l \<and> open_ledger l (pg w) lr \<and> convert_effect lr p k h vt now (pg w) x (pg w')"
  using SubmitConvert_run [OF assms(1)] assms(2) open_ledger_id by (fastforce simp: outcome_def)

text \<open>C33. A conversion that reports a result of its own exchanges exactly its two amounts between two
  different accounts: the source pays the source amount and receives the destination amount, the
  destination the converse, each in its own asset, and no other balance changes. That nothing else
  commits is a defect of the code: a conversion whose source is its destination, and one with a
  slippage account and a positive slippage amount, is meant to commit but never does, since its legs
  put two volume rows into the same bucket of one event and the second is refused.\<close>

theorem SubmitConvert_exchanges:
  assumes "SubmitConvert E l p k w = (Inr x, w')" and "\<not> IdempotentHit x"
  shows "\<exists>m n. cv_SourceAmount p = Some m \<and> cv_DestAmount p = Some n \<and> 0 < m \<and> 0 < n \<and>
    cv_Source p \<noteq> cv_Destination p \<and> cv_SourceAsset p \<noteq> cv_DestAsset p \<and>
    (cv_SlippageAccount p = [] \<or> \<not> positive (cv_SlippageAmount p)) \<and>
    (\<forall>l' a s. available l' a s (pg w') = available l' a s (pg w) + (if l' \<noteq> l then 0
       else (if s = cv_SourceAsset p then (if a = cv_Destination p then m else if a = cv_Source p then - m else 0)
         else if s = cv_DestAsset p then (if a = cv_Source p then n else if a = cv_Destination p then - n else 0) else 0)))"
proof -
  obtain lr h vt now where lr: "lr_ID lr = l" and e: "convert_effect lr p k h vt now (pg w) x (pg w')"
    using convert_fresh [OF assms] by blast
  obtain m n where mn: "cv_SourceAmount p = Some m" "cv_DestAmount p = Some n" "0 < m" "0 < n"
      "cv_SourceAsset p \<noteq> cv_DestAsset p"
    using e by (auto simp: convert_effect_def Let_def positive_def split: option.splits)
  note ns = convert_effect_no_slippage [OF e]
  have sl: "cv_SlippageAccount p = [] \<or> \<not> positive (cv_SlippageAmount p)"
    using ns(1) by (cases "cv_SlippageAmount p") (auto simp: slippage_def positive_def split: if_splits)
  have "available l' a s (pg w') = available l' a s (pg w) + (if l' \<noteq> l then 0
       else (if s = cv_SourceAsset p then (if a = cv_Destination p then m else if a = cv_Source p then - m else 0)
         else if s = cv_DestAsset p then (if a = cv_Source p then n else if a = cv_Destination p then - n else 0) else 0))"
    for l' a s
    using convert_effect_available(1) [OF e, of a s] convert_effect_available(2) [OF e, of l' a s] lr ns mn
    by (cases "l' = l") (auto simp: inflow_def outflow_def convert_postings_def amount_of_def)
  then show ?thesis using mn ns(2) sl by blast
qed

text \<open>A conversion checks the source only. On a ledger where the trading desk has no euro at all,
  a client buys 35 of them from it: the conversion commits and the desk, which is not an issuer,
  is overdrawn by 35.\<close>

theorem SubmitConvert_overdraws_destination:
  "let run = SubmitConvert sample_env ''main'' sample_convert [] funded_world in
     fresh run \<and> \<not> IsIssuer ''desk'' [''_world''] \<and> lg_issuer_accounts (hd (ledgers (pg funded_world))) = [''_world''] \<and>
     available ''main'' ''desk'' ''EUR'' (pg funded_world) = 0 \<and> available ''main'' ''desk'' ''EUR'' (pg (snd run)) = - 35"
  by code_simp

theorem SubmitConvert_exchanges_witness:
  "let run = SubmitConvert sample_env ''main'' sample_convert [] funded_world in
     fresh run \<and> available ''main'' ''alice'' ''USD'' (pg (snd run)) = 60"
proof -
  let ?run = "SubmitConvert sample_env ''main'' sample_convert [] funded_world"
  have f: "fresh ?run" by code_simp
  then obtain x where x: "?run = (Inr x, snd ?run)" "\<not> IdempotentHit x" using freshE by blast
  have "available ''main'' ''alice'' ''USD'' (pg funded_world) = 100" by code_simp
  then show ?thesis using SubmitConvert_exchanges [OF x] f by (auto simp: sample_convert_def)
qed

section \<open>Transactions that touch a bucket twice\<close>

text \<open>C38. A defect: a post is never committed when two of its postings touch the same account with the same
  asset, on either side. The volume rows of one event are unique per account and asset, so the second
  row is refused and the submission reports an error (unless it is a replay) and changes nothing,
  although the planner nets such postings per account and asset before it checks the balances, and
  such a transaction is meant to commit.\<close>

theorem SubmitPost_repeated_bucket:
  assumes "SubmitPost E l ps ref md k vt False w = (r, w')" and "i < j" and "j < length ps"
    and "a \<in> {Source (ps ! i), Destination (ps ! i)}" and "a \<in> {Source (ps ! j), Destination (ps ! j)}"
    and "Asset (ps ! i) = Asset (ps ! j)"
  shows "pg w' = pg w \<and> (case r of Inl e \<Rightarrow> True | Inr x \<Rightarrow> IdempotentHit x)"
proof -
  have "\<not> post_effect lr ps k h vt now False (pg w) x (pg w')" for lr h vt now x
  proof
    assume "post_effect lr ps k h vt now False (pg w) x (pg w')"
    then obtain ev :: LogEventRecord where d: "distinct (map bucket (posting_deltas (lr_ID lr) (ev_EventID ev) vt now ps))"
      by (auto simp: post_effect_def Let_def)
    let ?deltas = "posting_deltas (lr_ID lr) (ev_EventID ev) vt now"
    have "?deltas ps = ?deltas (take j ps) @ ?deltas (drop j ps)"
      unfolding posting_deltas_def by (simp flip: concat_append map_append)
    then have "set (map bucket (?deltas (take j ps))) \<inter> set (map bucket (?deltas (drop j ps))) = {}"
      using d by simp
    moreover have row: "(lr_ID lr, a, Asset p, 0, ev_EventID ev) \<in> set (map bucket (?deltas qs))"
      if "p \<in> set qs" "a \<in> {Source p, Destination p}" for p qs
      using that by (induction qs) (auto simp: posting_deltas_def)
    have "ps ! i \<in> set (take j ps)" "ps ! j \<in> set (drop j ps)"
      using assms(2,3) by (auto simp: in_set_conv_nth Cons_nth_drop_Suc [symmetric])
    then have "(lr_ID lr, a, Asset (ps ! j), 0, ev_EventID ev) \<in>
        set (map bucket (?deltas (take j ps))) \<inter> set (map bucket (?deltas (drop j ps)))"
      using row assms(4-6) by (metis IntI)
    ultimately show False by blast
  qed
  then show ?thesis using SubmitPost_run [OF assms(1)] by (auto simp: outcome_def)
qed

text \<open>The first transaction of the conformance tests, which expect it to commit: a deposit of 100 from an issuer,
  of which the receiver passes on 30 and 10.\<close>

theorem SubmitPost_repeated_bucket_witness:
  "let run = SubmitPost sample_env ''main'' [transfer ''_world'' ''users:1'' 100, transfer ''users:1'' ''users:2'' 30,
     transfer ''users:1'' ''fees:platform'' 10] [] None [] None False funded_world
   in pg (snd run) = pg funded_world \<and> isl (fst run)"
proof -
  let ?run = "SubmitPost sample_env ''main'' [transfer ''_world'' ''users:1'' 100, transfer ''users:1'' ''users:2'' 30,
     transfer ''users:1'' ''fees:platform'' 10] [] None [] None False funded_world"
  have "isl (fst ?run)" by code_simp
  then show ?thesis
    using SubmitPost_repeated_bucket [OF surjective_pairing [of ?run], of 1 2 "''users:1''"] by (simp add: Let_def transfer_def)
qed

end
