(* ===== verification/Approval_Properties.thy ===== *)
theory Approval_Properties
  imports Sample
begin

text \<open>
  Properties of governance: the four-eyes principle of approvals, the state machine an approval
  goes through, its recovery, and the policy check.
\<close>

section \<open>Four eyes\<close>

text \<open>C18. In every reachable state an approval carries only entries of its required approvers, none of
  its submitter, and one that is being executed or was executed carries those of all of them whose name is not
  empty: an empty name among the required approvers is accepted at submission and counts as signed. So an
  intent whose submitter has a name and is one of the approvers required for it is never executed.\<close>

theorem four_eyes:
  assumes "reachable w" and "row \<in> set (pending_approvals (pg w))"
  shows "signed row \<subseteq> set (pr_required_approvers row) - {pr_submitted_by row} \<and>
    (pr_state row \<in> {''executing'', ''executed''} \<longrightarrow> set (pr_required_approvers row) - {[]} \<subseteq> signed row \<and>
       (pr_submitted_by row \<in> set (pr_required_approvers row) \<longrightarrow> pr_submitted_by row = []))"
proof -
  have "approval_ok row" using approvals_reachable [OF assms(1)] assms(2) by (auto simp: approvals_ok_def list_all_iff)
  then show ?thesis by (auto simp: approval_ok_def)
qed

definition sample_unmarshal :: "bytes \<Rightarrow> error + BatchIntent" where
  "sample_unmarshal payload = Inr sample_intent"

definition approved :: "(error + SubmitResult) \<times> world" where
  "approved = Approve sample_unmarshal sample_env ''main'' ''id3'' ''boss'' ''sig'' approval_world"

lemma reachable_approved: "reachable (snd approved)"
  unfolding approved_def
  by (rule reachable_step [OF reachable_approval], rule api_approve, rule surjective_pairing)

theorem four_eyes_witness:
  "\<exists>row\<in>set (pending_approvals (pg (snd approved))). pr_state row = ''executed'' \<and> pr_required_approvers row = [''boss''] \<and>
     pr_submitted_by row = ''clerk'' \<and> signed row = {''boss''}"
proof -
  have "map (\<lambda>r. (pr_state r, pr_required_approvers r, pr_submitted_by r)) (pending_approvals (pg (snd approved))) =
      [(''executed'', [''boss''], ''clerk'')]" by code_simp
  then obtain row where row: "row \<in> set (pending_approvals (pg (snd approved)))" "pr_state row = ''executed''"
      "pr_required_approvers row = [''boss'']" "pr_submitted_by row = ''clerk''" by (auto simp: map_eq_Cons_conv)
  then show ?thesis using four_eyes [OF reachable_approved row(1)] by auto
qed

section \<open>Approving\<close>

lemma find_approval_state:
  assumes "find_approval l i d = Some row"
  shows "find_approval l i (update_approval l i (set_state s) d) = Some (set_state s row)"
    and "find_approval l i (update_approval l i (set_state_if s t) d) = Some (set_state_if s t row)"
  using assms by (simp_all add: find_update_approval is_approval_def)

lemma executed_from_state:
  assumes "executed_from l i d d'" and "find_approval l i d = Some row" and "pr_state row = ''executing''"
  shows "\<exists>row'. find_approval l i d' = Some row' \<and> pr_state row' \<noteq> ''pending''"
proof -
  obtain d1 d2 where d1: "d1 = d \<or> (\<exists>x. op_effect l d x d1)" and d2: "d2 = d1 \<or> logged l EventTypeApprovalRecorded d1 d2"
    and d': "d' = d2 \<or> d' = update_approval l i (set_state ''rejected'') d2 \<or>
         d' = update_approval l i (set_state_if ''executing'' ''executed'') d2"
    using assms(1) by (auto simp: executed_from_def)
  have "pending_approvals d1 = pending_approvals d" using d1 op_effect_approvals by blast
  moreover have "pending_approvals d2 = pending_approvals d1" using d2 unfolding logged_def by auto
  ultimately have f: "find_approval l i d2 = Some row" using assms(2) by (simp add: find_approval_def)
  from d' show ?thesis using f find_approval_state [OF f] assms(3)
    by (elim disjE) (simp_all add: set_state_def set_state_if_def)
qed

text \<open>C19. An approval executes its intent at most once, and only when it is complete: if approving
  logged anything, then the approval was pending, the principal was one of its required approvers
  and not its submitter and had not approved before, all others required had, and afterwards the
  approval is no longer pending. Approving one that is not pending changes nothing and reports an
  error.\<close>

theorem Approve_executes_once:
  assumes "Approve unmarshal E l i who signature w = (r, w')"
  shows "(log_events (pg w') \<noteq> log_events (pg w) \<longrightarrow>
      (\<exists>row row'. find_approval l i (pg w) = Some row \<and> pr_state row = ''pending'' \<and> who \<noteq> pr_submitted_by row \<and>
         who \<in> set (pr_required_approvers row) \<and> who \<notin> approvers row \<and>
         set (pr_required_approvers row) \<subseteq> insert who (insert [] (approvers row)) \<and>
         find_approval l i (pg w') = Some row' \<and> pr_state row' \<noteq> ''pending'')) \<and>
    (map_option pr_state (find_approval l i (pg w)) \<noteq> Some ''pending'' \<longrightarrow> pg w' = pg w \<and> (\<exists>e. r = Inl e))"
  using Approve_run [OF assms]
proof (elim disjE exE conjE)
  fix dec d1
  assume e: "approve_effect l i who (pg w) dec d1" and
    c: "case dec of Expire \<Rightarrow> (\<exists>e. r = Inl e) \<and> pg w' = d1 | Park \<Rightarrow> r = Inr (submitted i) \<and> pg w' = d1
        | Run payload \<Rightarrow> executed_from l i d1 (pg w')"
  from e show ?thesis
  proof cases
    case (approve_run row ent now)
    let ?u = "(\<lambda>r. r\<lparr>pr_state := ''executing'', pr_executing_at := Some now\<rparr>) \<circ> add_entry ent"
    have "find_approval l i d1 = Some (?u row)"
      using approve_run(2,3) by (simp add: find_update_approval is_approval_def add_entry_def)
    then obtain row' where "find_approval l i (pg w') = Some row'" "pr_state row' \<noteq> ''pending''"
      using executed_from_state [of l i d1 "pg w'"] c approve_run(1) by auto
    moreover have "approvers (add_entry ent row) \<subseteq> insert who (insert [] (approvers row))"
      using approve_run(8)
      by (auto simp: approvers_def add_entry_def approvals_concat_def entries_of_def zero_entry_def split: option.splits)
    ultimately show ?thesis using approve_run by auto
  qed (use c in \<open>auto simp: update_approval_def\<close>)
qed auto

theorem Approve_executes_once_witness:
  "log_events (pg (snd approved)) \<noteq> log_events (pg approval_world) \<and>
   pg (snd (Approve sample_unmarshal sample_env ''main'' ''id3'' ''boss'' ''sig'' (snd approved))) = pg (snd approved)"
proof -
  have n: "length (log_events (pg (snd approved))) \<noteq> length (log_events (pg approval_world))" by code_simp
  then have "log_events (pg (snd approved)) \<noteq> log_events (pg approval_world)" by auto
  moreover from this obtain row' where "find_approval ''main'' ''id3'' (pg (snd approved)) = Some row'" "pr_state row' \<noteq> ''pending''"
    using Approve_executes_once [OF surjective_pairing, of sample_unmarshal sample_env "''main''" "''id3''" "''boss''" "''sig''" approval_world]
    unfolding approved_def by blast
  ultimately show ?thesis
    using Approve_executes_once [OF surjective_pairing, of sample_unmarshal sample_env "''main''" "''id3''" "''boss''" "''sig''" "snd approved"]
    by simp
qed

section \<open>The sweep over stale approvals\<close>

text \<open>An event was committed under the execution key of an approval.\<close>

definition execution_logged :: "db \<Rightarrow> approval_row \<Rightarrow> bool" where
  "execution_logged d r = list_ex (\<lambda>ev. ev_LedgerID ev = pr_ledger_id r \<and>
     ev_IdempotencyKey ev = approvalExecutionKey (pr_intent_id r)) (log_events d)"

definition resolves :: "db \<Rightarrow> approval_row \<Rightarrow> approval_row \<Rightarrow> bool" where
  "resolves d r r' \<longleftrightarrow> r' = r \<or> pr_state r = ''pending'' \<and> r' = set_state ''expired'' r \<or>
     pr_state r = ''executing'' \<and> r' = set_state (if execution_logged d r then ''executed'' else ''expired'') r"

definition swept :: "db \<Rightarrow> world \<Rightarrow> bool" where
  "swept d w \<longleftrightarrow> (\<exists>rows. pg w = d\<lparr>pending_approvals := rows\<rparr> \<and> list_all2 (resolves d) (pending_approvals d) rows)"

lemma swept_self: "pg w = d \<Longrightarrow> swept d w"
  unfolding swept_def by (intro exI [of _ "pending_approvals d"]) (auto simp: resolves_def list_all2_refl)

lemma swept_same: "swept d w \<Longrightarrow> pg w' = pg w \<Longrightarrow> swept d w'"
  by (simp add: swept_def)

lemma swept_update:
  assumes "swept d w" and "pg w' = update_approval l i u (pg w)"
    and "\<And>r r'. r \<in> set (pending_approvals d) \<Longrightarrow> is_approval l i r \<Longrightarrow> resolves d r r' \<Longrightarrow> resolves d r (u r')"
  shows "swept d w'"
proof -
  obtain rows where rows: "pg w = d\<lparr>pending_approvals := rows\<rparr>" "list_all2 (resolves d) (pending_approvals d) rows"
    using assms(1) by (auto simp: swept_def)
  have key: "resolves d r r' \<Longrightarrow> is_approval l i r' = is_approval l i r" for r r'
    by (auto simp: resolves_def is_approval_def set_state_def)
  have "list_all2 (resolves d) (pending_approvals d) (map (\<lambda>r. if is_approval l i r then u r else r) rows)"
    unfolding list_all2_map2
    by (rule list.rel_mono_strong [OF rows(2)]) (use assms(3) key in auto)
  then show ?thesis unfolding swept_def using assms(2) rows(1) by (auto simp: update_approval_def)
qed

lemma forM_swept:
  assumes "\<And>x w. x \<in> set xs \<Longrightarrow> swept d w \<Longrightarrow> swept d (snd (f x w))" and "swept d w"
  shows "swept d (snd (forM f xs w))"
  using assms
proof (induction xs arbitrary: w)
  case (Cons x xs)
  obtain r v where "f x w = (r, v)" by (cases "f x w")
  then show ?case using Cons.IH [of v] Cons.prems(1) [of x w] Cons.prems by (cases r) (auto simp: andThen_def)
qed (simp add: ok_def)

lemma expireApproval_swept:
  assumes "swept d w" "r \<in> set (pending_approvals d)" "pr_state r = ''pending''" "approvals_ok d"
  shows "swept d (snd (expireApproval E (approval_record r) w))"
proof -
  let ?l = "pr_ledger_id r" and ?i = "pr_intent_id r"
  have one: "x = r" if "x \<in> set (pending_approvals d)" "is_approval ?l ?i x" for x
    using that assms(2,4) by (auto simp: approvals_ok_def is_approval_def distinct_map inj_on_def)
  obtain q v where q: "UpdateApprovalState E Pool ?l ?i ''expired'' w = (q, v)"
    by (cases "UpdateApprovalState E Pool ?l ?i ''expired'' w")
  from UpdateApprovalState_run [OF q] have "swept d v"
  proof
    assume v: "pg v = update_approval ?l ?i (set_state ''expired'') (pg w)"
    show ?thesis
      by (rule swept_update [OF assms(1) v]) (use one assms(3) in \<open>auto simp: resolves_def set_state_def\<close>)
  qed (rule swept_same [OF assms(1)])
  then show ?thesis using q by (simp add: expireApproval_def attempt_def approval_record_def ok_def)
qed

lemma recoverApproval_swept:
  assumes "swept d w"
  shows "swept d (snd (recoverApproval E (approval_record r) w))"
proof -
  let ?l = "pr_ledger_id r" and ?i = "pr_intent_id r"
  let ?look = "ListLogEventsByIdempotencyKey E Pool ?l (approvalExecutionKey ?i)"
  obtain q v where q: "?look w = (q, v)" by (cases "?look w")
  have key: "approvalExecutionKey ?i \<noteq> []" by (simp add: approvalExecutionKey_def)
  let ?g = "\<lambda>(now :: time) d. sort_key ev_LedgerSeq (filter (\<lambda>r. ev_LedgerID r = ?l \<and>
      ev_IdempotencyKey r = approvalExecutionKey ?i) (log_events d))"
  obtain c u where c: "query E Pool ?g w = (c, u)" by (cases "query E Pool ?g w")
  have v: "v = u" and qc: "\<forall>evs. q = Inr evs \<longrightarrow> c = Inr evs"
    using q c key by (auto simp: ListLogEventsByIdempotencyKey_def mapErr_def split: sum.splits)
  have sv: "swept d v" using swept_same [OF assms] query_Pool_ok [OF c] v by simp
  show ?thesis
  proof (cases q)
    case (Inl e)
    then show ?thesis using q sv by (simp add: recoverApproval_def attempt_def approval_record_def ok_def)
  next
    case (Inr evs)
    then have "evs = ?g undefined (pg w)" using qc query_Pool_ok [OF c] by auto
    then have ex: "evs \<noteq> [] \<longleftrightarrow> execution_logged (pg w) r"
      by (auto simp: execution_logged_def list_ex_iff simp flip: set_empty)
    have log: "log_events (pg w) = log_events d" using assms by (auto simp: swept_def)
    let ?t = "if evs \<noteq> [] then ''executed'' else ''expired''"
    obtain a b where ab: "UpdateApprovalStateIf E Pool ?l ?i ''executing'' ?t v = (a, b)"
      by (cases "UpdateApprovalStateIf E Pool ?l ?i ''executing'' ?t v")
    from UpdateApprovalStateIf_run [OF ab] have "swept d b"
    proof
      assume b: "pg b = update_approval ?l ?i (set_state_if ''executing'' ?t) (pg v)"
      show ?thesis
        by (rule swept_update [OF sv b])
           (use ex log in \<open>auto simp: resolves_def set_state_def set_state_if_def is_approval_def execution_logged_def\<close>)
    qed (rule swept_same [OF sv])
    then show ?thesis using q Inr ab
      by (simp add: recoverApproval_def attempt_def approval_record_def ok_def Let_def)
  qed
qed

text \<open>C20. The sweep over stale approvals moves no money and executes nothing: whatever the database
  does, it changes the states of approvals only; a pending approval is left or expires, one that
  was being executed is left or resolved, as executed exactly if an event was committed under its
  execution key, and all others stay as they are.\<close>

theorem ExpireStaleApprovals_resolves:
  assumes "reachable w" and "ExpireStaleApprovals E threshold w = (r, w')"
  shows "\<exists>rows. pg w' = (pg w)\<lparr>pending_approvals := rows\<rparr> \<and> list_all2 (resolves (pg w)) (pending_approvals (pg w)) rows"
proof -
  let ?d = "pg w"
  obtain q v where q: "query E Pool (\<lambda>now d. take 1000 (filter
       (\<lambda>r. pr_state r = ''pending'' \<and> pr_expires_at r < now) (pending_approvals d))) w = (q, v)" (is "?q w = _")
    by (cases "?q w")
  note qv = query_Pool_ok [OF q]
  show ?thesis
  proof (cases q)
    case (Inl e)
    then show ?thesis using assms(2) q qv swept_self [of w' ?d]
      by (simp add: ExpireStaleApprovals_def ListExpiredApprovals_def andThen_def swept_def)
  next
    case (Inr rows)
    let ?loop = "forM (expireApproval E) (map approval_record rows)"
    have "r \<in> set (pending_approvals ?d) \<and> pr_state r = ''pending''" if "r \<in> set rows" for r
      using that qv Inr by (auto dest: in_set_takeD)
    then have "swept ?d (snd (?loop v))"
      using expireApproval_swept [OF _ _ _ approvals_reachable [OF assms(1)]] qv swept_self [of v ?d]
      by (intro forM_swept) auto
    moreover obtain p u where p: "?loop v = (p, u)" by (cases "?loop v")
    ultimately have su: "swept ?d u" by simp
    let ?s = "query E Pool (\<lambda>now d. take 1000 (filter
       (\<lambda>r. pr_state r = ''executing'' \<and> stuck_since r < now - threshold) (pending_approvals d)))"
    obtain c x where c: "?s u = (c, x)" by (cases "?s u")
    have sx: "swept ?d x" using swept_same [OF su] query_Pool_ok [OF c] by simp
    have "swept ?d (snd (forM (recoverApproval E) (map approval_record stuck) x))" for stuck
      using recoverApproval_swept by (intro forM_swept [OF _ sx]) auto
    then have "swept ?d w'"
      using assms(2) q Inr p c su sx
      by (cases p; cases c) (auto simp: ExpireStaleApprovals_def ListExpiredApprovals_def ListStuckApprovals_def
          andThen_def ok_def, metis snd_conv)
    then show ?thesis by (simp add: swept_def)
  qed
qed

text \<open>A sweep at once after the approval was parked leaves it alone.\<close>

theorem ExpireStaleApprovals_resolves_witness:
  "\<exists>rows. pg (snd (ExpireStaleApprovals sample_env 5 approval_world)) = (pg approval_world)\<lparr>pending_approvals := rows\<rparr> \<and>
     list_all2 (resolves (pg approval_world)) (pending_approvals (pg approval_world)) rows"
  by (rule ExpireStaleApprovals_resolves [OF reachable_approval surjective_pairing])

section \<open>The policy check\<close>

text \<open>When the database answers, the policy check passes exactly if the ledger has no active policy
  or has one that is well formed and no line of which denies the request; a policy that does not
  parse blocks every request. The check itself changes nothing.\<close>

theorem EvaluatePolicy_iff:
  assumes "fault E (n_sql w) = None"
  shows "(fst (EvaluatePolicy E l who operation accts w) = Inr () \<longleftrightarrow>
      (\<forall>p. active_policy l (pg w) = Some p \<longrightarrow> ValidatePolicy (po_CedarPolicy p) = None \<and>
         \<not> Denied (Evaluate (po_CedarPolicy p) who operation accts))) \<and>
    pg (snd (EvaluatePolicy E l who operation accts w)) = pg w"
  using EvaluatePolicy_run [OF assms, of l who operation accts] by (simp add: permits_def split: option.splits)

definition policy_world :: world where
  "policy_world = snd (InsertPolicy sample_env \<lparr>po_LedgerID = ''main'', po_Version = ''1'',
     po_CedarPolicy = ''deny bob post alice'', po_InsertedAt = 0, po_EventID = ''e'', po_Active = True\<rparr> funded_world)"

theorem EvaluatePolicy_iff_witness:
  "fst (EvaluatePolicy sample_env ''main'' ''bob'' ''post'' [''alice''] policy_world) \<noteq> Inr () \<and>
   fst (EvaluatePolicy sample_env ''main'' ''bob'' ''post'' [''carol''] policy_world) = Inr ()"
proof -
  have "case active_policy ''main'' (pg policy_world) of None \<Rightarrow> False
      | Some p \<Rightarrow> ValidatePolicy (po_CedarPolicy p) = None \<and> Denied (Evaluate (po_CedarPolicy p) ''bob'' ''post'' [''alice'']) \<and>
          \<not> Denied (Evaluate (po_CedarPolicy p) ''bob'' ''post'' [''carol''])" by code_simp
  moreover have f: "fault sample_env (n_sql policy_world) = None" by (simp add: sample_env_def)
  ultimately show ?thesis
    using EvaluatePolicy_iff [OF f, of "''main''" "''bob''" "''post''"] by (auto split: option.splits)
qed

end
