(* ===== verification/Log_Properties.thy ===== *)
theory Log_Properties
  imports Sample
begin

text \<open>
  Properties of the log and its Merkle batches, and of the hashes by which replays are told from
  new requests.
\<close>

section \<open>Batches of the log\<close>

lemma faultless: "\<forall>k. fault sample_env k = None"
  by (simp add: sample_env_def)

text \<open>C36. A batch that is closed verifies: when the database answers, closing a batch that has
  events succeeds, and every later verification that finds the same events and the same batch
  row reports a valid batch, with the stored root and the number of events.\<close>

theorem closed_batch_verifies:
  assumes ok: "\<forall>k. fault E k = None" and row: "find (\<lambda>b. bt_BatchID b = i) (log_batches w) = Some b"
    and ev: "batch_events i (pg w) \<noteq> []"
  shows "\<exists>root w'. closeBatch E l i w = (Inr (), w') \<and>
    (\<forall>v. log_batches v = log_batches w' \<longrightarrow> batch_events i (pg v) = batch_events i (pg w) \<longrightarrow>
       fst (VerifyBatch E i v) = Inr (True, root, length (batch_events i (pg w))))"
proof -
  have ok': "\<And>k. fault E k = None" using ok by simp
  obtain root where root: "ComputeRoot (sha256 E) (leaves_of E (batch_events i (pg w))) = Some root"
    using ComputeRoot_leaves [OF ev] by blast
  obtain b' w' where cl: "closeBatch E l i w = (Inr (), w')"
    and b': "find (\<lambda>b. bt_BatchID b = i) (log_batches w') = Some b'" "bt_MerkleRoot b' = Some root"
    using closeBatch_row [OF ok' ev row, of l] unfolding root by blast
  have "fst (VerifyBatch E i v) = Inr (True, root, length (batch_events i (pg w)))"
    if v: "log_batches v = log_batches w'" "batch_events i (pg v) = batch_events i (pg w)" for v
    using VerifyBatch_run [OF ok' b' [folded v(1)]] v(2) Verify_root [OF _ root] ev
    by (simp add: leaves_of_def)
  then show ?thesis using cl by blast
qed

text \<open>The batch of the deposit, closed and then verified.\<close>

theorem closed_batch_verifies_witness:
  "\<exists>root w'. closeBatch sample_env ''main'' ''id2'' funded_world = (Inr (), w') \<and>
     fst (VerifyBatch sample_env ''id2'' w') = Inr (True, root, 1)"
proof -
  have ev: "length (batch_events ''id2'' (pg funded_world)) = 1"
    "find (\<lambda>b. bt_BatchID b = ''id2'') (log_batches funded_world) \<noteq> None" by code_simp+
  then obtain b where b: "find (\<lambda>b. bt_BatchID b = ''id2'') (log_batches funded_world) = Some b" by auto
  have "batch_events ''id2'' (pg funded_world) \<noteq> []" using ev(1) by auto
  from closed_batch_verifies [OF faultless b this, of "''main''"] obtain root w' where
    w': "closeBatch sample_env ''main'' ''id2'' funded_world = (Inr (), w')" and
    v: "\<forall>v. log_batches v = log_batches w' \<longrightarrow> batch_events ''id2'' (pg v) = batch_events ''id2'' (pg funded_world) \<longrightarrow>
       fst (VerifyBatch sample_env ''id2'' v) = Inr (True, root, length (batch_events ''id2'' (pg funded_world)))" by blast
  have "pg (snd (closeBatch sample_env ''main'' ''id2'' funded_world)) = pg funded_world" by code_simp
  then show ?thesis using w' v ev(1) by auto
qed

lemma distinct_event_leaves: "distinct (map ev_EventID es) \<Longrightarrow> distinct (map (event_leaf E) es)"
proof -
  assume "distinct (map ev_EventID es)"
  then have "distinct (map (fst \<circ> event_leaf E) es)" by (simp add: event_leaf_def comp_def)
  then show ?thesis by (metis distinct_map map_map)
qed

lemma batch_events_later:
  assumes "log_events d' = log_events d @ evs" "\<exists>e \<in> set evs. ev_BatchID e = i"
  shows "length (batch_events i d) < length (batch_events i d')"
    and "set (batch_events i d) \<subseteq> set (batch_events i d')"
    and "distinct (map ev_EventID (batch_events i d')) \<Longrightarrow> distinct (map ev_EventID (batch_events i d))"
  using assms by (auto simp: batch_events_def filter_empty_conv distinct_map inj_on_Un)

text \<open>C39. An event that commits into a batch after the batch was closed makes the batch fail
  verification, although nothing was tampered with: the root was taken over the events visible when
  the batch was closed. For any closed batch that has events, and for any later log with at least one
  more event in the batch, the check answers \<open>false\<close>, when the database answers, the batch row is
  as the close left it, event identifiers are different, no field is longer than its length prefix can
  say, the hash has a fixed output length and no collision among what is hashed. This is a defect: a
  request that obtained its batch before the sweep and commits after it leaves such an event.\<close>

theorem late_event_fails_verification:
  assumes ok: "\<forall>k. fault E k = None" and row: "find (\<lambda>b. bt_BatchID b = i) (log_batches w) = Some b"
    and ev: "batch_events i (pg w) \<noteq> []"
    and cl: "closeBatch E l i w = (Inr (), w')" and v: "log_batches v = log_batches w'"
    and late: "log_events (pg v) = log_events (pg w) @ evs" "\<exists>e \<in> set evs. ev_BatchID e = i"
    and ids: "distinct (map ev_EventID (batch_events i (pg v)))"
    and len: "\<forall>b. length (sha256 E b) = n"
    and bnd: "\<forall>e \<in> set (batch_events i (pg v)). leaf_bounded (event_leaf E e)"
    and inj: "inj_on (sha256 E) (set (root_inputs (sha256 E) (map (event_leaf E) (batch_events i (pg w)))) \<union>
      set (root_inputs (sha256 E) (map (event_leaf E) (batch_events i (pg v)))))"
  shows "\<exists>root. fst (VerifyBatch E i v) = Inr (False, root, length (batch_events i (pg v)))"
proof -
  have ok': "\<And>k. fault E k = None" using ok by simp
  let ?es = "map (event_leaf E) (batch_events i (pg w))" and ?es' = "map (event_leaf E) (batch_events i (pg v))"
  let ?root = "hd (climb (sha256 E) (map (leaf_hash (sha256 E)) ?es))"
  have leaves: "leaves_of E (batch_events i (pg u)) = map (leaf_hash (sha256 E)) (map (event_leaf E) (batch_events i (pg u)))"
    for u by (simp add: leaves_of_def)
  obtain b' where b': "find (\<lambda>b. bt_BatchID b = i) (log_batches v) = Some b'" "bt_MerkleRoot b' = Some ?root"
    using closeBatch_row [OF ok' ev row, of l] cl v ev by (auto simp: leaves ComputeRoot_climb)
  note later = batch_events_later [OF late]
  then have "length ?es < length ?es'" by simp
  then have "?es' \<noteq> ?es" "?es' \<noteq> []" by (metis less_irrefl, auto)
  moreover have "distinct ?es" "distinct ?es'" using ids later(3) by (auto intro: distinct_event_leaves)
  moreover have "\<forall>e \<in> set ?es \<union> set ?es'. leaf_bounded e" using bnd later(2) by auto
  ultimately have "hd (climb (sha256 E) (map (leaf_hash (sha256 E)) ?es')) \<noteq> ?root"
    using root_inject [OF len _ _ _ _ _ inj] ev by auto
  then have "\<not> Verify (sha256 E) (leaves_of E (batch_events i (pg v))) (Some ?root)"
    using \<open>?es' \<noteq> []\<close> by (simp add: leaves Verify_iff)
  then show ?thesis using VerifyBatch_run [OF ok' b'] by simp
qed

text \<open>The batch of the deposit is closed while the manager still hands it out; then a transfer
  commits into it.\<close>

definition late_env :: env where
  "late_env = sample_env\<lparr>sha256 := sample_sha\<rparr>"

definition closed_early :: world where
  "closed_early = snd (closeBatch late_env ''main'' ''id2'' funded_world)"

definition late_world :: world where
  "late_world = snd (executeIntent late_env ''main'' sample_intent closed_early)"

definition small_leaf :: "leaf \<Rightarrow> bool" where
  "small_leaf e = (case e of (a, b, c, d) \<Rightarrow> length a < 1000 \<and> length b < 1000 \<and> length c < 1000 \<and> length d < 1000)"

lemma small_leaf_bounded: "small_leaf e \<Longrightarrow> leaf_bounded e"
  by (auto simp: small_leaf_def leaf_bounded_def)

lemma late_sample:
  "let w = funded_world; c = closeBatch late_env ''main'' ''id2'' w;
       v = snd (executeIntent late_env ''main'' sample_intent (snd c));
       es = batch_events ''id2'' (pg w); es' = batch_events ''id2'' (pg v); late = drop 1 (log_events (pg v)) in
     find (\<lambda>b. bt_BatchID b = ''id2'') (log_batches w) \<noteq> None \<and> es \<noteq> [] \<and> fst c = Inr () \<and>
     log_batches v = log_batches (snd c) \<and> log_events (pg v) = log_events (pg w) @ late \<and>
     list_ex (\<lambda>e. ev_BatchID e = ''id2'') late \<and> distinct (map ev_EventID es') \<and> length es' = 2 \<and>
     list_all (\<lambda>e. small_leaf (event_leaf late_env e)) es' \<and>
     distinct (map (sha256 late_env) (remdups (root_inputs (sha256 late_env) (map (event_leaf late_env) es) @
       root_inputs (sha256 late_env) (map (event_leaf late_env) es'))))"
  by code_simp

theorem late_event_fails_verification_witness:
  "\<exists>root. fst (VerifyBatch late_env ''id2'' late_world) = Inr (False, root, 2)"
proof -
  note sample = late_sample [unfolded Let_def, folded closed_early_def, folded late_world_def]
  from sample obtain b where b: "find (\<lambda>b. bt_BatchID b = ''id2'') (log_batches funded_world) = Some b" by auto
  from sample have cl: "closeBatch late_env ''main'' ''id2'' funded_world = (Inr (), closed_early)"
    by (simp add: closed_early_def prod_eq_iff)
  have bnd: "\<forall>e \<in> set (batch_events ''id2'' (pg late_world)). leaf_bounded (event_leaf late_env e)"
    using sample by (simp add: list_all_iff small_leaf_bounded)
  have len: "\<forall>b. length (sha256 late_env b) = 64" by (simp add: late_env_def length_sample_sha)
  have inj: "inj_on (sha256 late_env)
      (set (root_inputs (sha256 late_env) (map (event_leaf late_env) (batch_events ''id2'' (pg funded_world)))) \<union>
       set (root_inputs (sha256 late_env) (map (event_leaf late_env) (batch_events ''id2'' (pg late_world)))))"
    unfolding set_append [symmetric] by (rule inj_on_set_if_distinct) (use sample in blast)
  have ok: "\<forall>k. fault late_env k = None" by (simp add: late_env_def sample_env_def)
  have ev: "batch_events ''id2'' (pg funded_world) \<noteq> []" and row: "log_batches late_world = log_batches closed_early"
    and late: "log_events (pg late_world) = log_events (pg funded_world) @ drop 1 (log_events (pg late_world))"
      "\<exists>e \<in> set (drop 1 (log_events (pg late_world))). ev_BatchID e = ''id2''"
    and ids: "distinct (map ev_EventID (batch_events ''id2'' (pg late_world)))"
    using sample unfolding list_ex_iff by blast+
  from late_event_fails_verification [OF ok b ev cl row late ids len bnd inj] sample show ?thesis by simp
qed

text \<open>Asking for the current batch keeps the bound on the number of events per batch,
  also when the creation of a new batch fails; and when it succeeds, the identifier returned
  is that of the ledger's open batch afterwards.\<close>

theorem CurrentBatchID_bounded:
  assumes "open_bounded w" and "CurrentBatchID E l w = (r, w')"
  shows "open_bounded w' \<and> (\<forall>i. r = Inr i \<longrightarrow> (\<exists>st. map_of (openBatch w') l = Some st \<and> ob_batchID st = i))"
proof -
  have roll: "open_bounded v' \<and> (\<forall>i. q = Inr i \<longrightarrow> (\<exists>st. map_of (openBatch v') l = Some st \<and> ob_batchID st = i))"
    if "openBatch v = openBatch w" "roll_batch E l old v = (q, v')" for v old q v'
    using that assms(1)
    by (auto simp: roll_batch_def CreateBatch_def ulid_Make_def time_Now_def batch_stmt_def andThen_def
        mapErr_def whenM_def put_open_def Let_def open_bounded_def DefaultMaxEvents_def
        split: option.splits sum.splits prod.splits if_splits)
  have pos: "map_of (openBatch w) l = Some st \<Longrightarrow> 0 \<le> ob_eventCount st" for st
    using assms(1) unfolding open_bounded_def by fastforce
  show ?thesis
    using assms(2) pos roll [of w] roll [of "w\<lparr>n_clock := Suc (n_clock w)\<rparr>"] assms(1)
    by (auto simp: CurrentBatchID_def andThen_def time_Now_def put_open_def open_bounded_def
        split: option.splits if_splits)
qed

theorem CurrentBatchID_bounded_witness:
  "open_bounded (snd (CurrentBatchID sample_env ''main'' blank_world)) \<and>
   fst (CurrentBatchID sample_env ''main'' blank_world) = Inr ''id0''"
proof -
  have "open_bounded blank_world" by (simp add: open_bounded_def blank_world_def)
  moreover have "fst (CurrentBatchID sample_env ''main'' blank_world) = Inr ''id0''" by code_simp
  ultimately show ?thesis using CurrentBatchID_bounded [OF _ surjective_pairing] by blast
qed

section \<open>Request hashes\<close>

definition short :: "bytes list \<Rightarrow> bool" where
  "short fs \<longleftrightarrow> (\<forall>f\<in>set fs. length f < 2 ^ 32)"

lemma posting_fields_inject:
  assumes "concat (map (\<lambda>p. [Source p, Destination p, int_String (amount_of p), Asset p]) ps) =
      concat (map (\<lambda>p. [Source p, Destination p, int_String (amount_of p), Asset p]) qs)"
    and "validatePostings ps = None" "validatePostings qs = None"
  shows "ps = qs"
proof -
  have "ps = qs" if "list_all valid_posting ps" "list_all valid_posting qs" "concat (map (\<lambda>p. [Source p, Destination p, int_String (amount_of p), Asset p]) ps) =
      concat (map (\<lambda>p. [Source p, Destination p, int_String (amount_of p), Asset p]) qs)" for ps qs :: "PostingInput list"
    using that
  proof (induction ps arbitrary: qs)
    case (Cons p ps)
    then obtain q qs' where "qs = q # qs'" by (cases qs) auto
    with Cons show ?case by (auto simp: int_String_inject valid_posting_def amount_of_def intro!: PostingInput.equality)
  qed (cases qs; auto)
  then show ?thesis using assms by (simp add: validatePostings_None)
qed

text \<open>Two posts without metadata and without valid time, on the same or on different ledgers, have
  the same hash only if they are the same request, as far as the hash function has no collision
  on their encodings and no field is longer than a 32-bit length can say.\<close>

theorem computeIdempotencyHash_injective:
  assumes "computeIdempotencyHash E l ps ref None None = computeIdempotencyHash E l' ps' ref' None None"
    and "inj_on (sha256 E) {concat (map field (hash_fields E l ps ref None None)),
      concat (map field (hash_fields E l' ps' ref' None None))}"
    and "short (hash_fields E l ps ref None None)" and "short (hash_fields E l' ps' ref' None None)"
    and "validatePostings ps = None" and "validatePostings ps' = None"
  shows "l = l' \<and> ref = ref' \<and> ps = ps'"
proof -
  have "concat (map field (hash_fields E l ps ref None None)) = concat (map field (hash_fields E l' ps' ref' None None))"
    using assms(1,2) by (auto simp: computeIdempotencyHash_def fold_writeHashField dest: inj_onD)
  then have "hash_fields E l ps ref None None = hash_fields E l' ps' ref' None None"
    using assms(3,4) by (intro concat_fields_inject) (simp_all add: short_def)
  then show ?thesis using posting_fields_inject [OF _ assms(5,6)] by (simp add: hash_fields_def)
qed

theorem computeIdempotencyHash_injective_witness:
  "computeIdempotencyHash sample_env ''main'' [transfer ''a'' ''b'' 1] [] None None \<noteq>
   computeIdempotencyHash sample_env ''main'' [transfer ''a'' ''b'' 2] [] None None"
proof
  let ?h = "\<lambda>n. hash_fields sample_env ''main'' [transfer ''a'' ''b'' n] [] None None"
  assume eq: "computeIdempotencyHash sample_env ''main'' [transfer ''a'' ''b'' 1] [] None None =
   computeIdempotencyHash sample_env ''main'' [transfer ''a'' ''b'' 2] [] None None"
  have "inj_on (sha256 sample_env) S" for S by (simp add: sample_env_def inj_on_def)
  moreover have "list_all (\<lambda>f. length f < 100) (?h 1)" "list_all (\<lambda>f. length f < 100) (?h 2)" by code_simp+
  then have "short (?h 1)" "short (?h 2)" by (auto simp: short_def list_all_iff)
  moreover have "validatePostings [transfer ''a'' ''b'' 1] = None" "validatePostings [transfer ''a'' ''b'' 2] = None" by code_simp+
  ultimately have "[transfer ''a'' ''b'' 1] = [transfer ''a'' ''b'' 2]"
    using computeIdempotencyHash_injective [OF eq] by blast
  then show False by (simp add: transfer_def)
qed

text \<open>Metadata and postings are not told apart by the hash: whatever the hash function, two
  transfers without metadata have the hash of the first transfer alone with the second one
  spelled as metadata. Under one idempotency key the second request is then answered as a replay
  of the first, although it was never carried out.\<close>

theorem computeIdempotencyHash_ambiguous:
  "computeIdempotencyHash E l [p, \<lparr>Source = ''5'', Destination = ''x'', Amount = Some 7, Asset = ''USD''\<rparr>] ref None vt =
   computeIdempotencyHash E l [p] ref (Some [(''5'', JStr ''x''), (''7'', JStr ''USD'')]) vt"
proof -
  have "sort_key fst [(''5'', JStr ''x''), (''7'', JStr ''USD'')] = [(''5'', JStr ''x''), (''7'', JStr ''USD'')]"
    "int_String 7 = ''7''" by code_simp+
  then show ?thesis by (simp add: computeIdempotencyHash_def hash_fields_def amount_of_def)
qed

end
