(* ===== verification/Rate_Limit.thy ===== *)
theory Rate_Limit
  imports Api_Auth Redis_Cache
begin

text \<open>
  Rate limiting of requests, \<^verbatim>\<open>src/internal/api/grpc/ratelimit/ratelimit.go\<close>: a fixed window of one
  second per principal and class of method, counted in Redis. The counters are the field
  \<open>counters\<close> of the world; Redis may fail a command or have dropped a key, as the environment
  decides.
\<close>

record Limiter =
  readRPS :: int
  writeRPS :: int

definition writeMethods :: "string list" where
  "writeMethods = [''Submit'', ''SubmitForApproval'', ''ApproveIntent'', ''Import'', ''CreateLedger'', ''SealLedger'']"

definition limitFor :: "Limiter \<Rightarrow> string \<Rightarrow> int \<times> string" where
  "limitFor l fullMethod =
     (let name = (case cut_last CHR ''/'' fullMethod of None \<Rightarrow> fullMethod | Some (_, n) \<Rightarrow> n) in
      if name \<in> set writeMethods then (writeRPS l, ''w'') else (readRPS l, ''r''))"

text \<open>\<open>net.SplitHostPort\<close>: the host, when the address is well formed.\<close>

definition SplitHostPort :: "string \<Rightarrow> string option" where
  "SplitHostPort s =
     (case cut_last CHR '':'' s of
        None \<Rightarrow> None
      | Some (before, port) \<Rightarrow>
          if hd s = CHR ''['' then
            (case cut_at CHR '']'' s of
               None \<Rightarrow> None
             | Some (a, b) \<Rightarrow>
                 if b = CHR '':'' # port \<and> CHR ''['' \<notin> set (tl s) \<and> CHR '']'' \<notin> set b then Some (tl a) else None)
          else if CHR '':'' \<in> set before \<or> CHR ''['' \<in> set s \<or> CHR '']'' \<in> set s then None
          else Some before)"

definition principalKey :: "Context \<Rightarrow> string" where
  "principalKey ctx =
     (case PrincipalFromContext ctx of
        Some (c # p) \<Rightarrow> ''p:'' @ c # p
      | _ \<Rightarrow>
          (case cx_peer ctx of
             Some addr \<Rightarrow> ''ip:'' @ (case SplitHostPort addr of None \<Rightarrow> addr | Some h \<Rightarrow> h)
           | None \<Rightarrow> ''anon''))"

subsection \<open>The counter\<close>

definition Incr :: "env \<Rightarrow> string \<Rightarrow> int prog" where
  "Incr E key w =
     (let w1 = w\<lparr>n_redis := Suc (n_redis w)\<rparr>;
          put = (\<lambda>n. (Inr n, w1\<lparr>counters := obj_put key n (counters w)\<rparr>)) in
      case redis E (n_redis w) of
        RedisErr \<Rightarrow> (Inl redis_error, w1)
      | RedisExpired \<Rightarrow> put 1
      | RedisOk \<Rightarrow> put ((case map_of (counters w) key of None \<Rightarrow> 0 | Some n \<Rightarrow> n) + 1))"

text \<open>When a key is dropped is up to Redis.\<close>

definition Expire_key :: "env \<Rightarrow> string \<Rightarrow> unit prog" where
  "Expire_key E key w =
     (let w1 = w\<lparr>n_redis := Suc (n_redis w)\<rparr> in
      case redis E (n_redis w) of RedisErr \<Rightarrow> (Inl redis_error, w1) | _ \<Rightarrow> (Inr (), w1))"

definition window_key :: "string \<Rightarrow> string \<Rightarrow> int \<Rightarrow> string" where
  "window_key cls who window = ''rl:'' @ cls @ '':'' @ who @ '':'' @ int_String window"

text \<open>The verdict, and the error of the counter when it failed.\<close>

definition allow_request :: "env \<Rightarrow> Limiter \<Rightarrow> Context \<Rightarrow> string \<Rightarrow> (bool \<times> error option) prog" where
  "allow_request E l ctx fullMethod =
     (let (limit, cls) = limitFor l fullMethod in
      if limit \<le> 0 then ok (True, None)
      else
        andThen (time_Now E) (\<lambda>now.
        let key = window_key cls (principalKey ctx) (now div 1000000) in
        attempt (Incr E key) (\<lambda>r.
        case r of
          Inl e \<Rightarrow> ok (True, Some e)
        | Inr n \<Rightarrow>
            attempt (if n = 1 then Expire_key E key else ok ()) (\<lambda>_.
            ok (n \<le> limit, None)))))"

definition check :: "env \<Rightarrow> Limiter \<Rightarrow> Context \<Rightarrow> string \<Rightarrow> unit prog" where
  "check E l ctx fullMethod =
     andThen (allow_request E l ctx fullMethod) (\<lambda>(allowed, err).
     case err of
       Some e \<Rightarrow> putS (\<lambda>w. w\<lparr>errCount := Suc (errCount w)\<rparr>)
     | None \<Rightarrow>
         if \<not> allowed then fail (Status ResourceExhausted (Errorf ''rate limit exceeded; retry later''))
         else ok ())"

definition UnaryServerInterceptor ::
  "env \<Rightarrow> Limiter \<Rightarrow> string \<Rightarrow> (Context \<Rightarrow> 'a prog) \<Rightarrow> Context \<Rightarrow> 'a prog" where
  "UnaryServerInterceptor E l fullMethod handler ctx =
     andThen (check E l ctx fullMethod) (\<lambda>_. handler ctx)"

definition StreamServerInterceptor ::
  "env \<Rightarrow> Limiter \<Rightarrow> string \<Rightarrow> (Context \<Rightarrow> 'a prog) \<Rightarrow> Context \<Rightarrow> 'a prog" where
  "StreamServerInterceptor E l fullMethod handler ctx =
     andThen (check E l ctx fullMethod) (\<lambda>_. handler ctx)"

subsection \<open>How many requests pass\<close>

text \<open>A sequence of requests and which of them pass the limiter.\<close>

fun passes :: "env \<Rightarrow> Limiter \<Rightarrow> (Context \<times> string) list \<Rightarrow> world \<Rightarrow> bool list" where
  "passes E l [] w = []"
| "passes E l ((ctx, m) # reqs) w =
     (let (r, w') = check E l ctx m w in (case r of Inr _ \<Rightarrow> True | Inl _ \<Rightarrow> False) # passes E l reqs w')"

definition count_of :: "string \<Rightarrow> world \<Rightarrow> int" where
  "count_of key w = (case map_of (counters w) key of None \<Rightarrow> 0 | Some n \<Rightarrow> n)"

text \<open>The requests of one class and one caller.\<close>

definition same_quota :: "Limiter \<Rightarrow> string \<Rightarrow> string \<Rightarrow> Context \<times> string \<Rightarrow> bool" where
  "same_quota l cls who req \<longleftrightarrow> snd (limitFor l (snd req)) = cls \<and> principalKey (fst req) = who"

lemma window_key_inject:
  assumes "cls \<in> {''r'', ''w''}" "cls' \<in> {''r'', ''w''}"
  shows "window_key cls who win = window_key cls' who' win \<longleftrightarrow> cls = cls' \<and> who = who'"
  using assms by (auto simp: window_key_def)

lemma limitFor_class: "snd (limitFor l m) \<in> {''r'', ''w''}"
  by (simp add: limitFor_def Let_def)

lemma limitFor_limit: "fst (limitFor l m) = (if snd (limitFor l m) = ''w'' then writeRPS l else readRPS l)"
  by (simp add: limitFor_def Let_def)

text \<open>One request in a window, when Redis answers: it passes exactly if its quota is not used up,
  and it uses up one of it.\<close>

lemma check_run:
  assumes "\<And>k. redis E k = RedisOk" and "\<And>k. clock E k div 1000000 = win"
    and lim: "limitFor l m = (limit, cls)" and run: "check E l ctx m w = (r, w')"
  shows "(\<exists>u. r = Inr u) \<longleftrightarrow> limit \<le> 0 \<or> count_of (window_key cls (principalKey ctx) win) w < limit"
    and "count_of key w' = count_of key w +
      (if 0 < limit \<and> key = window_key cls (principalKey ctx) win then 1 else 0)"
  using run assms(1,2)
  by (auto simp: check_def allow_request_def lim andThen_def attempt_def time_Now_def Incr_def Expire_key_def
    Let_def count_of_def split: if_splits option.splits)

lemma passes_quota:
  assumes R: "\<And>k. redis E k = RedisOk" and T: "\<And>k. clock E k div 1000000 = win"
    and L: "limit = (if cls = ''w'' then writeRPS l else readRPS l)" "0 < limit" and C: "cls \<in> {''r'', ''w''}"
  shows "int (length (filter (\<lambda>(req, b). same_quota l cls who req \<and> b) (zip reqs (passes E l reqs w)))) =
    min (int (length (filter (same_quota l cls who) reqs))) (max 0 (limit - count_of (window_key cls who win) w))"
proof (induction reqs arbitrary: w)
  case (Cons req reqs)
  obtain ctx m where req: "req = (ctx, m)" by (cases req)
  obtain r w' where run: "check E l ctx m w = (r, w')" by (cases "check E l ctx m w")
  obtain lim c where lc: "limitFor l m = (lim, c)" by (cases "limitFor l m")
  have c: "c \<in> {''r'', ''w''}" using limitFor_class [of l m] lc by simp
  note one = check_run [OF R T lc run]
  show ?case
  proof (cases "same_quota l cls who req")
    case True
    then have q: "c = cls" "principalKey ctx = who" using lc by (simp_all add: same_quota_def req)
    then have lim: "lim = limit" using limitFor_limit [of l m] lc L(1) by simp
    have n: "count_of (window_key cls who win) w' = count_of (window_key cls who win) w + 1"
      using one(2) q lim L(2) by simp
    have p: "(\<exists>u. r = Inr u) \<longleftrightarrow> count_of (window_key cls who win) w < limit" using one(1) q lim L(2) by simp
    show ?thesis
      using Cons.IH [of w'] True p by (cases r) (simp_all add: req run n)
  next
    case False
    then have "window_key cls who win \<noteq> window_key c (principalKey ctx) win"
      using window_key_inject [OF C c] lc by (auto simp: same_quota_def req)
    then have n: "count_of (window_key cls who win) w' = count_of (window_key cls who win) w" using one(2) by simp
    show ?thesis using Cons.IH [of w'] False by (simp add: req run n)
  qed
qed simp

text \<open>A request whose counter cannot be read is let through and counted as a failure.\<close>

lemma check_fails_open:
  assumes "redis E (n_redis w) = RedisErr"
  shows "\<exists>u w'. check E l ctx m w = (Inr u, w') \<and> errCount w' \<le> Suc (errCount w)"
  using assms by (auto simp: check_def allow_request_def andThen_def attempt_def time_Now_def Incr_def Let_def
    split: prod.split)

end
