(* ===== verification/Api_Server.thy ===== *)
theory Api_Server
  imports Ledger_System Rate_Limit
begin

text \<open>
  The server as a whole: the methods of the service, which the generated descriptor
  \<open>LedgerService_ServiceDesc\<close> of \<^verbatim>\<open>src/pkg/proto/ledger/v1/api_grpc.pb.go\<close> binds to the handlers, behind
  the chain of interceptors that \<open>newGRPCServer\<close> of \<^verbatim>\<open>src/cmd/server/main.go\<close> installs:
  authentication first, then the rate limit when it is enabled, then the logging of the call.
\<close>

datatype request =
    CreateLedger_request CreateLedgerRequest
  | GetLedger_request string
  | ListLedgers_request ListParams
  | SealLedger_request string
  | Submit_request "Intent option"
  | GetTransaction_request string string
  | ListTransactions_request string ListParams
  | GetAccount_request string string
  | ListAccounts_request string ListParams
  | GetBalance_request GetBalanceRequest
  | GetAggregatedBalances_request string string "time option" "time option"
  | GetHold_request string string
  | ListHolds_request string ListParams string
  | GetRelationships_request string string int
  | ListLogEvents_request string ListParams
  | GetLogEvent_request string string
  | VerifyBatch_request string string
  | InsertSchema_request string bytes string
  | GetSchema_request string string
  | SubmitForApproval_request SubmitForApprovalRequest
  | ApproveIntent_request string string string
  | ListPendingApprovals_request string ListParams

datatype reply =
    Ledger_reply Ledger
  | Ledgers_reply "Ledger list" string
  | Submit_reply SubmitResponse
  | Transaction_reply Transaction
  | Transactions_reply "Transaction list" string
  | Account_reply Account
  | Accounts_reply "Account list" string
  | Balance_reply GetBalanceResponse
  | Balances_reply "(string \<times> string) list"
  | Hold_reply Hold
  | Holds_reply "Hold list" string
  | Relationships_reply "Relationship list"
  | Events_reply "LogEvent list" string
  | Event_reply LogEvent
  | Verify_reply bool string int
  | Schema_reply Schema
  | ForApproval_reply string
  | Approve_reply ApproveIntentResponse
  | Approvals_reply "PendingApproval list" string

definition returning :: "('a \<Rightarrow> reply) \<Rightarrow> 'a prog \<Rightarrow> reply prog" where
  "returning f m = andThen m (\<lambda>x. ok (f x))"

text \<open>The argument \<open>unmarshal\<close> decodes parked intents, as for the planner.\<close>

fun dispatch :: "(bytes \<Rightarrow> error + BatchIntent) \<Rightarrow> env \<Rightarrow> Context \<Rightarrow> request \<Rightarrow> reply prog" where
  "dispatch um E ctx (CreateLedger_request req) = returning Ledger_reply (CreateLedger_rpc E ctx req)"
| "dispatch um E ctx (GetLedger_request l) = returning Ledger_reply (GetLedger_rpc E ctx l)"
| "dispatch um E ctx (ListLedgers_request p) =
     returning (\<lambda>(ls, t). Ledgers_reply ls t) (ListLedgers_rpc E ctx p)"
| "dispatch um E ctx (SealLedger_request l) = returning Ledger_reply (SealLedger_rpc E ctx l)"
| "dispatch um E ctx (Submit_request intent) = returning Submit_reply (Submit E ctx intent)"
| "dispatch um E ctx (GetTransaction_request l i) = returning Transaction_reply (GetTransaction_rpc E ctx l i)"
| "dispatch um E ctx (ListTransactions_request l p) =
     returning (\<lambda>(xs, t). Transactions_reply xs t) (ListTransactions_rpc E ctx l p)"
| "dispatch um E ctx (GetAccount_request l a) = returning Account_reply (GetAccount_rpc E ctx l a)"
| "dispatch um E ctx (ListAccounts_request l p) =
     returning (\<lambda>(xs, t). Accounts_reply xs t) (ListAccounts_rpc E ctx l p)"
| "dispatch um E ctx (GetBalance_request req) = returning Balance_reply (GetBalance_rpc E ctx req)"
| "dispatch um E ctx (GetAggregatedBalances_request l a vt st) =
     returning Balances_reply (GetAggregatedBalances_rpc E ctx l a vt st)"
| "dispatch um E ctx (GetHold_request l i) = returning Hold_reply (GetHold_rpc E ctx l i)"
| "dispatch um E ctx (ListHolds_request l p a) =
     returning (\<lambda>(xs, t). Holds_reply xs t) (ListHolds_rpc E ctx l p a)"
| "dispatch um E ctx (GetRelationships_request l i n) = returning Relationships_reply (GetRelationships_rpc E ctx l i n)"
| "dispatch um E ctx (ListLogEvents_request l p) =
     returning (\<lambda>(xs, t). Events_reply xs t) (ListLogEvents_rpc E ctx l p)"
| "dispatch um E ctx (GetLogEvent_request l i) = returning Event_reply (GetLogEvent_rpc E ctx l i)"
| "dispatch um E ctx (VerifyBatch_request l b) =
     returning (\<lambda>(v, r, n). Verify_reply v r n) (VerifyBatch_rpc E ctx l b)"
| "dispatch um E ctx (InsertSchema_request l b v) =
     fail (Status Unimplemented (Errorf ''method InsertSchema not implemented''))"
| "dispatch um E ctx (GetSchema_request l v) = returning Schema_reply (GetSchema_rpc E ctx l v)"
| "dispatch um E ctx (SubmitForApproval_request req) = returning ForApproval_reply (SubmitForApproval_rpc E ctx req)"
| "dispatch um E ctx (ApproveIntent_request l i s) = returning Approve_reply (ApproveIntent_rpc um E ctx l i s)"
| "dispatch um E ctx (ListPendingApprovals_request l p) =
     returning (\<lambda>(xs, t). Approvals_reply xs t) (ListPendingApprovals_rpc E ctx l p)"

primrec MethodName :: "request \<Rightarrow> string" where
  "MethodName (CreateLedger_request _) = ''CreateLedger''"
| "MethodName (GetLedger_request _) = ''GetLedger''"
| "MethodName (ListLedgers_request _) = ''ListLedgers''"
| "MethodName (SealLedger_request _) = ''SealLedger''"
| "MethodName (Submit_request _) = ''Submit''"
| "MethodName (GetTransaction_request _ _) = ''GetTransaction''"
| "MethodName (ListTransactions_request _ _) = ''ListTransactions''"
| "MethodName (GetAccount_request _ _) = ''GetAccount''"
| "MethodName (ListAccounts_request _ _) = ''ListAccounts''"
| "MethodName (GetBalance_request _) = ''GetBalance''"
| "MethodName (GetAggregatedBalances_request _ _ _ _) = ''GetAggregatedBalances''"
| "MethodName (GetHold_request _ _) = ''GetHold''"
| "MethodName (ListHolds_request _ _ _) = ''ListHolds''"
| "MethodName (GetRelationships_request _ _ _) = ''GetRelationships''"
| "MethodName (ListLogEvents_request _ _) = ''ListLogEvents''"
| "MethodName (GetLogEvent_request _ _) = ''GetLogEvent''"
| "MethodName (VerifyBatch_request _ _) = ''VerifyBatch''"
| "MethodName (InsertSchema_request _ _ _) = ''InsertSchema''"
| "MethodName (GetSchema_request _ _) = ''GetSchema''"
| "MethodName (SubmitForApproval_request _) = ''SubmitForApproval''"
| "MethodName (ApproveIntent_request _ _ _) = ''ApproveIntent''"
| "MethodName (ListPendingApprovals_request _ _) = ''ListPendingApprovals''"

definition FullMethod :: "request \<Rightarrow> string" where
  "FullMethod req = ''/ledger.v1.LedgerService/'' @ MethodName req"

text \<open>A unary call through the chain of interceptors.\<close>

definition serve ::
  "(bytes \<Rightarrow> error + BatchIntent) \<Rightarrow> env \<Rightarrow> Authenticator option \<Rightarrow> Limiter option \<Rightarrow> Context \<Rightarrow> request \<Rightarrow> reply prog" where
  "serve um E authn rl ctx req =
     NewUnaryServerInterceptor authn (FullMethod req)
       (\<lambda>c. case rl of
          None \<Rightarrow> dispatch um E c req
        | Some l \<Rightarrow> UnaryServerInterceptor E l (FullMethod req) (\<lambda>c'. dispatch um E c' req) c) ctx"

subsection \<open>Requests that name a ledger\<close>

primrec request_ledger :: "request \<Rightarrow> string option" where
  "request_ledger (CreateLedger_request req) = Some (clr_Id req)"
| "request_ledger (GetLedger_request l) = Some l"
| "request_ledger (ListLedgers_request _) = None"
| "request_ledger (SealLedger_request l) = Some l"
| "request_ledger (Submit_request intent) = map_option in_LedgerId intent"
| "request_ledger (GetTransaction_request l _) = Some l"
| "request_ledger (ListTransactions_request l _) = Some l"
| "request_ledger (GetAccount_request l _) = Some l"
| "request_ledger (ListAccounts_request l _) = Some l"
| "request_ledger (GetBalance_request req) = Some (gbq_LedgerId req)"
| "request_ledger (GetAggregatedBalances_request l _ _ _) = Some l"
| "request_ledger (GetHold_request l _) = Some l"
| "request_ledger (ListHolds_request l _ _) = Some l"
| "request_ledger (GetRelationships_request l _ _) = Some l"
| "request_ledger (ListLogEvents_request l _) = Some l"
| "request_ledger (GetLogEvent_request l _) = Some l"
| "request_ledger (VerifyBatch_request l _) = Some l"
| "request_ledger (InsertSchema_request l _ _) = Some l"
| "request_ledger (GetSchema_request l _) = Some l"
| "request_ledger (SubmitForApproval_request req) = Some (sfr_LedgerId req)"
| "request_ledger (ApproveIntent_request l _ _) = Some l"
| "request_ledger (ListPendingApprovals_request l _) = Some l"

lemmas rpc_defs = CreateLedger_rpc_def GetLedger_rpc_def SealLedger_rpc_def GetTransaction_rpc_def
  ListTransactions_rpc_def GetAccount_rpc_def ListAccounts_rpc_def GetBalance_rpc_def GetAggregatedBalances_rpc_def
  GetHold_rpc_def ListHolds_rpc_def GetRelationships_rpc_def ListLogEvents_rpc_def GetLogEvent_rpc_def
  GetSchema_rpc_def SubmitForApproval_rpc_def ApproveIntent_rpc_def ListPendingApprovals_rpc_def

lemma ofSum_cases: "ofSum (Inl e) = fail e" "ofSum (Inr x) = ok x" "andThen (Pair (Inl e)) f = fail e"
  by (rule ext, simp add: andThen_def)+

text \<open>A handler that does not let the caller at the ledger fails before it looks at anything. The handler of
  \<open>VerifyBatch\<close> is the exception: it never asks.\<close>

lemma dispatch_denied:
  assumes "request_ledger req = Some l" "MethodName req \<noteq> ''VerifyBatch''" "authorizeLedger ctx l = Some e"
  shows "\<exists>e'. dispatch um E ctx req = fail e'"
  using assms
  by (cases req; cases "extractPrincipal ctx")
     (auto simp: returning_def rpc_defs Submit_def ofSum_cases Let_def split: option.splits prod.splits)

lemma FullMethod_not_exempt: "\<not> methodIsExempt (FullMethod req)"
  by (simp add: methodIsExempt_def FullMethod_def HasPrefix_def)

text \<open>The verdict of the limiter does not depend on the tables, and it does not touch them.\<close>

lemma check_no_tables:
  "check E l ctx m (w\<lparr>pg := d\<rparr>) = (fst (check E l ctx m w), (snd (check E l ctx m w))\<lparr>pg := d\<rparr>)"
  by (auto simp: check_def allow_request_def andThen_def attempt_def time_Now_def Incr_def Expire_key_def Let_def
    split: prod.split redis_reply.split)

lemma keeps_db_check: "keeps db_frame (check E l ctx m)"
  by (rule keepsI) (auto simp: db_frame_def check_def allow_request_def andThen_def attempt_def time_Now_def
    Incr_def Expire_key_def Let_def split: prod.split redis_reply.split)

subsection \<open>Calls are made of steps\<close>

abbreviation steps :: "world \<Rightarrow> world \<Rightarrow> bool" where
  "steps \<equiv> api_step\<^sup>*\<^sup>*"

interpretation steps: frame steps
  by unfold_locales auto

lemma keeps_steps: "(\<And>w r w'. m w = (r, w') \<Longrightarrow> api_step w w') \<Longrightarrow> keeps steps m"
  by (rule keepsI) (metis r_into_rtranclp surjective_pairing)

lemma keeps_steps_pg: "keeps pg_frame m \<Longrightarrow> keeps steps m"
  by (auto simp: keeps_def pg_frame_def intro: api_idle)

lemma keeps_steps_tx: "keeps tx_frame m \<Longrightarrow> keeps steps m"
  by (rule keeps_steps_pg [OF keeps_pg_of_tx])

lemma keeps_steps_write:
  "keeps steps (SubmitPost E l ps ref md k vt dry)"
  "keeps steps (SubmitAuthorize E l so hi as am ex k)"
  "keeps steps (SubmitCapture E l i am ds k)"
  "keeps steps (SubmitVoid E l i k)"
  "keeps steps (SubmitRevert E l t f a rs k)"
  "keeps steps (SubmitAmend E l t md k)"
  "keeps steps (SubmitConvert E l p k)"
  "keeps steps (SubmitSetMetadata E l tt ti md k)"
  "keeps steps (SubmitDeleteMetadata E l tt ti mk k)"
  "keeps steps (SubmitInsertSchema E l b v k)"
  "keeps steps (SubmitBatch E l intents mode)"
  "keeps steps (SubmitForApproval E l payload req sub ex)"
  "keeps steps (Approve um E l i who sg)"
  "keeps steps (WritePolicyDenialEvent E l who reason)"
  "keeps steps (CreateLedger E Pool cl)"
  "keeps steps (SealLedger E Pool l)"
  by (rule keeps_steps, erule api_step.intros)+

lemmas keeps_steps_read =
  keeps_steps_pg [OF keeps_pg_query_Pool] keeps_steps_pg [OF keeps_pg_EvaluatePolicy]
  keeps_steps_pg [OF keeps_pg_ListLogEvents] keeps_steps_tx [OF keeps_GetLedger] keeps_steps_tx [OF keeps_GetTransaction]
  keeps_steps_tx [OF keeps_GetAccount] keeps_steps_tx [OF keeps_GetHold] keeps_steps_tx [OF keeps_GetBalance]
  keeps_steps_tx [OF keeps_GetActiveHoldsTotal] keeps_steps_tx [OF keeps_GetSchema] keeps_steps_tx [OF keeps_GetRelationships]
  keeps_steps_tx [OF keeps_batch_stmt]

lemma keeps_planned: "keeps steps m \<Longrightarrow> keeps steps (planned m f)"
  unfolding planned_def by (intro steps.keeps_rules)

lemma keeps_handle_operation: "keeps steps (handle_operation E intent)"
  unfolding handle_operation_def handlePost_def handleSetMetadata_def handleDeleteMetadata_def handleInsertSchema_def
    handleAuthorize_def handleCapture_def handleVoid_def handleRevert_def handleAmend_def handleConvert_def handleBatch_def
  by (cases "in_Operation intent") (simp_all only: Operation.case, (intro steps.keeps_rules keeps_planned keeps_steps_write)+)

lemma keeps_Submit: "keeps steps (Submit E ctx req)"
  unfolding Submit_def
  by (intro steps.keeps_rules keeps_handle_operation keeps_steps_write keeps_steps_read)

lemma keeps_dispatch: "keeps steps (dispatch um E ctx req)"
  by (cases req; simp only: dispatch.simps returning_def rpc_defs ListLedgers_rpc_def VerifyBatch_rpc_def VerifyBatch_def
       GetBatch_def ListBatchEvents_def ListTransactions_def ListAccounts_def ListHolds_def ListPendingApprovals_def ListLedgers_def
       GetLogEvent_def GetAggregatedBalances_def)
     (intro steps.keeps_rules keeps_Submit keeps_steps_write keeps_steps_read)+

lemma keeps_serve: "keeps steps (serve um E authn rl ctx req)"
  unfolding serve_def NewUnaryServerInterceptor_def UnaryServerInterceptor_def
  by (intro steps.keeps_rules keeps_dispatch keeps_steps_pg [OF keeps_pg_of_db [OF keeps_db_check]])

lemma reachable_steps: "steps w w' \<Longrightarrow> reachable w \<Longrightarrow> reachable w'"
  by (induction rule: rtranclp_induct) (auto intro: reachable_step)

end
