(* ===== verification/Subscriptions.thy ===== *)
theory Subscriptions
  imports Api_Stream
begin

text \<open>
  Subscriptions to the events of a ledger, \<^verbatim>\<open>src/internal/subscriptions/manager.go\<close>, and the call
  \<open>Subscribe\<close> of the service. A subscription is the buffered channel between the manager and the
  stream of the client, with the identifiers replayed from the log that may still arrive as
  notifications. The replay runs before anybody receives from the channel; the goroutine that
  follows the notifications runs beside the receiver, and their steps interleave in any order.
\<close>

definition subscriptionBufferSize :: nat where "subscriptionBufferSize = 100"
definition maxReplayEvents :: nat where "maxReplayEvents = 100000"

fun shouldInclude :: "int \<Rightarrow> int list \<Rightarrow> bool" where
  "shouldInclude eventType [] = True"
| "shouldInclude eventType (t # ts) = (eventType \<in> set (t # ts))"

record subscription =
  sb_ch :: "LogEventRecord list"
  sb_replayedIDs :: "string list option"
  sb_highWaterMark :: string
  sb_dropped :: "64 word"

definition new_subscription :: "bool \<Rightarrow> subscription" where
  "new_subscription replay = \<lparr>sb_ch = [], sb_replayedIDs = (if replay then Some [] else None),
     sb_highWaterMark = [], sb_dropped = 0\<rparr>"

subsection \<open>Replay\<close>

text \<open>A send on a full channel waits for a receiver, which there is none, until the request is
  cancelled. The argument \<open>cancelled\<close> tells for each send whether the cancellation is chosen.\<close>

datatype started = Started subscription | Refused error | Waiting

definition replay_limit :: "string \<Rightarrow> error" where
  "replay_limit fromEventID = Errorf (''replay window exceeds '' @ nat_String maxReplayEvents @ '' events from '' @
     quoted fromEventID @ ''; use the Export RPC for full history instead of Subscribe'')"

text \<open>The events of one page, with the number of events replayed before.\<close>

fun replay_events ::
  "(nat \<Rightarrow> bool) \<Rightarrow> int list \<Rightarrow> string \<Rightarrow> LogEventRecord list \<Rightarrow> nat \<Rightarrow> subscription \<Rightarrow> started" where
  "replay_events cancelled eventTypes from [] n s = Started s"
| "replay_events cancelled eventTypes from (e # es) n s =
     (if Suc n > maxReplayEvents then Refused (replay_limit from)
      else
        let s' = s\<lparr>sb_replayedIDs := Some (ev_EventID e # (case sb_replayedIDs s of None \<Rightarrow> [] | Some ids \<Rightarrow> ids)),
                   sb_highWaterMark := (if ev_EventID e > sb_highWaterMark s then ev_EventID e else sb_highWaterMark s)\<rparr> in
        if \<not> shouldInclude (ev_Type e) eventTypes then replay_events cancelled eventTypes from es (Suc n) s'
        else if cancelled (length (sb_ch s)) then Refused ErrContextDone
        else if length (sb_ch s) \<ge> subscriptionBufferSize then Waiting
        else replay_events cancelled eventTypes from es (Suc n) (s'\<lparr>sb_ch := sb_ch s @ [e]\<rparr>))"

text \<open>The loop over the pages; no outcome when the fuel runs out.\<close>

fun replay_pages ::
  "nat \<Rightarrow> env \<Rightarrow> (nat \<Rightarrow> bool) \<Rightarrow> string \<Rightarrow> int list \<Rightarrow> string \<Rightarrow> string \<Rightarrow> nat \<Rightarrow> subscription \<Rightarrow> started option prog" where
  "replay_pages 0 E cancelled ledgerID eventTypes from pageToken n s = ok None"
| "replay_pages (Suc fuel) E cancelled ledgerID eventTypes from pageToken n s =
     attempt (ListLogEvents E Pool ledgerID \<lparr>PageSize = 100, PageToken = pageToken\<rparr>) (\<lambda>r.
     case r of
       Inl e \<Rightarrow> ok (Some (Refused e))
     | Inr (events, nextToken) \<Rightarrow>
         (case replay_events cancelled eventTypes from events n s of
            Started s' \<Rightarrow>
              if nextToken = [] then ok (Some (Started s'))
              else replay_pages fuel E cancelled ledgerID eventTypes from nextToken (n + length events) s'
          | out \<Rightarrow> ok (Some out)))"

definition Subscribe ::
  "nat \<Rightarrow> env \<Rightarrow> (nat \<Rightarrow> bool) \<Rightarrow> string \<Rightarrow> int list \<Rightarrow> string \<Rightarrow> started option prog" where
  "Subscribe fuel E cancelled ledgerID eventTypes fromEventID =
     (if fromEventID = [] then ok (Some (Started (new_subscription False)))
      else replay_pages fuel E cancelled ledgerID eventTypes fromEventID fromEventID 0 (new_subscription True))"

subsection \<open>Live events\<close>

definition handleNotification :: "env \<Rightarrow> int list \<Rightarrow> notification \<Rightarrow> subscription \<Rightarrow> subscription prog" where
  "handleNotification E eventTypes n s =
     (if \<not> shouldInclude (nt_Type n) eventTypes then ok s
      else
        attempt (GetLogEvent E Pool (nt_LedgerID n) (nt_EventID n)) (\<lambda>r.
        case r of
          Inl _ \<Rightarrow> ok s
        | Inr event \<Rightarrow>
            if length (sb_ch s) < subscriptionBufferSize then ok (s\<lparr>sb_ch := sb_ch s @ [event]\<rparr>)
            else ok (s\<lparr>sb_dropped := sb_dropped s + 1\<rparr>)))"

text \<open>One message of the channel of the ledger; none when its payload is not a notification.\<close>

definition live_message :: "env \<Rightarrow> int list \<Rightarrow> notification option \<Rightarrow> subscription \<Rightarrow> subscription prog" where
  "live_message E eventTypes msg s =
     (case msg of
        None \<Rightarrow> ok s
      | Some n \<Rightarrow>
          (case sb_replayedIDs s of
             None \<Rightarrow> handleNotification E eventTypes n s
           | Some ids \<Rightarrow>
               if nt_EventID n \<in> set ids then ok (s\<lparr>sb_replayedIDs := Some (removeAll (nt_EventID n) ids)\<rparr>)
               else handleNotification E eventTypes n
                 (if nt_EventID n > sb_highWaterMark s then s\<lparr>sb_replayedIDs := None\<rparr> else s)))"

text \<open>The receiver takes an event from the channel and sends it to the client.\<close>

datatype sub_step = Message "notification option" | Receive

fun run_steps ::
  "env \<Rightarrow> int list \<Rightarrow> sub_step list \<Rightarrow> subscription \<Rightarrow> LogEventRecord list \<Rightarrow> (subscription \<times> LogEventRecord list) prog" where
  "run_steps E eventTypes [] s sent = ok (s, sent)"
| "run_steps E eventTypes (Message m # steps) s sent =
     andThen (live_message E eventTypes m s) (\<lambda>s'. run_steps E eventTypes steps s' sent)"
| "run_steps E eventTypes (Receive # steps) s sent =
     (case sb_ch s of
        [] \<Rightarrow> run_steps E eventTypes steps s sent
      | e # es \<Rightarrow> run_steps E eventTypes steps (s\<lparr>sb_ch := es\<rparr>) (sent @ [e]))"

subsection \<open>The call\<close>

record SubscribeRequest =
  sr_LedgerId :: string
  sr_Types :: "int list"
  sr_FromEventId :: string
  sr_IncludeHistorical :: bool

record SubscriptionEvent =
  se_Event :: LogEvent
  se_IsReplay :: bool

definition subscription_event :: "SubscribeRequest \<Rightarrow> LogEventRecord \<Rightarrow> SubscriptionEvent" where
  "subscription_event req e = \<lparr>se_Event = logEventRecordToProto e,
     se_IsReplay = (sr_FromEventId req \<noteq> [] \<and> sr_IncludeHistorical req)\<rparr>"

text \<open>The messages streamed to the client when the goroutine and the receiver make these steps, or the
  error the call ends with; nothing when the call waits.\<close>

definition Subscribe_rpc ::
  "nat \<Rightarrow> env \<Rightarrow> (nat \<Rightarrow> bool) \<Rightarrow> Context \<Rightarrow> SubscribeRequest \<Rightarrow> sub_step list \<Rightarrow> SubscriptionEvent list option prog" where
  "Subscribe_rpc fuel E cancelled ctx req steps =
     (let eventTypes = map int16 (sr_Types req) in
      andThen (ofErr (authorizeLedger ctx (sr_LedgerId req))) (\<lambda>_.
      andThen (Subscribe fuel E cancelled (sr_LedgerId req) eventTypes (sr_FromEventId req)) (\<lambda>out.
      case out of
        Some (Started s) \<Rightarrow>
          andThen (run_steps E eventTypes steps s []) (\<lambda>(_, sent).
          ok (Some (map (subscription_event req) sent)))
      | Some (Refused e) \<Rightarrow> fail (internal ''subscribing: '' e)
      | _ \<Rightarrow> ok None)))"

subsection \<open>The buffer\<close>

definition within_buffer :: "subscription \<Rightarrow> bool" where
  "within_buffer s \<longleftrightarrow> length (sb_ch s) \<le> subscriptionBufferSize"

lemma replay_events_buffer:
  "replay_events c ts from es n s = Started s' \<Longrightarrow> within_buffer s \<Longrightarrow> within_buffer s'"
  by (induction c ts "from" es n s rule: replay_events.induct)
     (auto simp: within_buffer_def Let_def split: if_splits)

lemma replay_pages_buffer:
  "replay_pages fuel E c l ts from t n s w = (Inr (Some (Started s')), w') \<Longrightarrow> within_buffer s \<Longrightarrow> within_buffer s'"
proof (induction fuel arbitrary: t n s w)
  case (Suc fuel)
  from Suc.prems show ?case
    by (auto simp: attempt_def split: prod.splits sum.splits started.splits if_splits
      dest: replay_events_buffer Suc.IH)
qed simp

lemma Subscribe_buffer: "Subscribe fuel E c l ts from w = (Inr (Some (Started s)), w') \<Longrightarrow> within_buffer s"
  unfolding Subscribe_def
  by (auto split: if_splits dest!: replay_pages_buffer simp: within_buffer_def new_subscription_def)

text \<open>The outcomes of a live message.\<close>

lemma GetLogEvent_run:
  assumes "GetLogEvent E Pool l i w = (r, w')"
  shows "pg w' = pg w" and "r = Inr e \<Longrightarrow> ev_EventID e = i"
  using assms
  by (auto simp: GetLogEvent_def query_def stmt_def andThen_def mapErr_def Let_def abort_tx_def
    find_Some_iff split: option.splits sum.splits prod.splits)

lemma handleNotification_run:
  assumes "handleNotification E ts n s w = (r, w')"
  shows "pg w' = pg w" and "\<exists>s'. r = Inr s' \<and> sb_replayedIDs s' = sb_replayedIDs s \<and> sb_highWaterMark s' = sb_highWaterMark s \<and>
    (sb_ch s' = sb_ch s \<or> (length (sb_ch s) < subscriptionBufferSize \<and> (\<exists>e. sb_ch s' = sb_ch s @ [e] \<and> ev_EventID e = nt_EventID n)))"
proof -
  obtain q w1 where g: "GetLogEvent E Pool (nt_LedgerID n) (nt_EventID n) w = (q, w1)" by fastforce
  note run = GetLogEvent_run [OF g]
  show "pg w' = pg w" using assms g run(1)
    by (auto simp: handleNotification_def attempt_def split: if_splits sum.splits)
  show "\<exists>s'. r = Inr s' \<and> sb_replayedIDs s' = sb_replayedIDs s \<and> sb_highWaterMark s' = sb_highWaterMark s \<and>
    (sb_ch s' = sb_ch s \<or> (length (sb_ch s) < subscriptionBufferSize \<and> (\<exists>e. sb_ch s' = sb_ch s @ [e] \<and> ev_EventID e = nt_EventID n)))"
    using assms g run(2) by (auto simp: handleNotification_def attempt_def split: if_splits sum.splits)
qed

text \<open>A message appends at most one event, the one it names; and it does so only if that event was not
  replayed, or the identifiers of the replay were dropped.\<close>

lemma live_message_run:
  assumes "live_message E ts (Some n) s w = (r, w')"
  shows "pg w' = pg w" and "\<exists>s'. r = Inr s' \<and> sb_highWaterMark s' = sb_highWaterMark s \<and>
    (case sb_replayedIDs s of
       Some ids \<Rightarrow> if nt_EventID n \<in> set ids then sb_ch s' = sb_ch s \<and> sb_replayedIDs s' = Some (removeAll (nt_EventID n) ids)
         else sb_replayedIDs s' = (if nt_EventID n > sb_highWaterMark s then None else Some ids)
     | None \<Rightarrow> sb_replayedIDs s' = None) \<and>
    (sb_ch s' = sb_ch s \<or> (length (sb_ch s) < subscriptionBufferSize \<and>
      (\<forall>ids. sb_replayedIDs s = Some ids \<longrightarrow> nt_EventID n \<notin> set ids) \<and>
      (\<exists>e. sb_ch s' = sb_ch s @ [e] \<and> ev_EventID e = nt_EventID n)))"
  using assms
  by (auto simp: live_message_def split: option.splits if_splits dest: handleNotification_run)

lemma live_message_None: "live_message E ts None s = ok s"
  by (simp add: live_message_def)

lemma run_steps_buffer:
  "run_steps E ts steps s sent w = (Inr (s', sent'), w') \<Longrightarrow> within_buffer s \<Longrightarrow> within_buffer s'"
proof (induction steps arbitrary: s sent w)
  case (Cons step steps)
  show ?case
  proof (cases step)
    case Receive
    then show ?thesis using Cons by (auto simp: within_buffer_def split: list.splits)
  next
    case (Message m)
    show ?thesis
    proof (cases m)
      case None
      then show ?thesis using Cons Message by (auto simp: live_message_None andThen_def)
    next
      case (Some n)
      obtain q w1 where q: "live_message E ts (Some n) s w = (q, w1)" by fastforce
      from live_message_run(2) [OF q] obtain s1 where "q = Inr s1" "within_buffer s1"
        using Cons.prems(2) by (auto simp: within_buffer_def)
      then show ?thesis using Cons q Message Some by (auto simp: andThen_def)
    qed
  qed
qed simp

subsection \<open>No event twice\<close>

abbreviation delivered :: "subscription \<Rightarrow> LogEventRecord list \<Rightarrow> string list" where
  "delivered s sent \<equiv> map ev_EventID (sent @ sb_ch s)"

primrec notified :: "sub_step list \<Rightarrow> string list" where
  "notified [] = []"
| "notified (x # xs) = (case x of Message (Some n) \<Rightarrow> [nt_EventID n] | _ \<Rightarrow> []) @ notified xs"

text \<open>What holds between the steps, with the identifiers \<open>ids\<close> still to be notified: an event
  delivered already and still to be notified is known as replayed.\<close>

definition dedup_inv :: "subscription \<Rightarrow> LogEventRecord list \<Rightarrow> string list \<Rightarrow> bool" where
  "dedup_inv s sent ids \<longleftrightarrow> distinct (delivered s sent) \<and>
     (case sb_replayedIDs s of
        None \<Rightarrow> set (delivered s sent) \<inter> set ids = {}
      | Some rs \<Rightarrow> (\<forall>x\<in>set rs. x \<le> sb_highWaterMark s) \<and> set (delivered s sent) \<inter> set ids \<subseteq> set rs)"

lemma dedup_message:
  assumes inv: "dedup_inv s sent (nt_EventID n # ids)" and sorted: "sorted_wrt (<) (nt_EventID n # ids)"
    and run: "live_message E ts (Some n) s w = (Inr s', w')"
  shows "dedup_inv s' sent ids"
proof -
  let ?x = "nt_EventID n"
  have x: "?x \<notin> set ids" using sorted by auto
  from live_message_run(2) [OF run] have hw: "sb_highWaterMark s' = sb_highWaterMark s"
    and rs: "case sb_replayedIDs s of
       Some rs \<Rightarrow> if ?x \<in> set rs then sb_ch s' = sb_ch s \<and> sb_replayedIDs s' = Some (removeAll ?x rs)
         else sb_replayedIDs s' = (if ?x > sb_highWaterMark s then None else Some rs)
     | None \<Rightarrow> sb_replayedIDs s' = None"
    and ch: "sb_ch s' = sb_ch s \<or> ((\<forall>rs. sb_replayedIDs s = Some rs \<longrightarrow> ?x \<notin> set rs) \<and>
      (\<exists>e. sb_ch s' = sb_ch s @ [e] \<and> ev_EventID e = ?x))" by auto
  have new: "?x \<notin> set (delivered s sent)" if "\<forall>rs. sb_replayedIDs s = Some rs \<longrightarrow> ?x \<notin> set rs"
    using that inv by (auto simp: dedup_inv_def split: option.splits)
  have D: "delivered s' sent = delivered s sent \<or> ?x \<notin> set (delivered s sent) \<and> delivered s' sent = delivered s sent @ [?x]"
    using ch new by auto
  have "distinct (delivered s sent)" using inv by (simp only: dedup_inv_def)
  then have dist: "distinct (delivered s' sent)" using D by (elim disjE conjE) (simp_all only: distinct_append, simp)
  have grow: "set (delivered s' sent) \<inter> set ids = set (delivered s sent) \<inter> set ids"
    using D x by (elim disjE conjE) (simp_all only: set_append, simp)
  show ?thesis
  proof (cases "sb_replayedIDs s")
    case None
    then show ?thesis using inv rs dist grow by (auto simp: dedup_inv_def)
  next
    case (Some R)
    have "set (delivered s sent) \<inter> set ids = {}" if "?x > sb_highWaterMark s"
    proof -
      have "set (delivered s sent) \<inter> set ids \<subseteq> set R" and "\<forall>y\<in>set R. y \<le> sb_highWaterMark s"
        using inv Some by (auto simp: dedup_inv_def)
      moreover have "\<forall>y\<in>set ids. ?x < y" using sorted by simp
      ultimately show ?thesis using that by (meson Int_iff all_not_in_conv not_le order_less_trans subsetD)
    qed
    then show ?thesis using inv rs dist grow hw x Some
      by (cases "?x \<in> set R") (auto simp: dedup_inv_def)
  qed
qed

lemma run_steps_dedup:
  "run_steps E ts steps s sent w = (Inr (s', sent'), w') \<Longrightarrow> dedup_inv s sent (notified steps) \<Longrightarrow>
   sorted_wrt (<) (notified steps) \<Longrightarrow> distinct (delivered s' sent')"
proof (induction steps arbitrary: s sent w)
  case Nil
  then show ?case by (auto simp: dedup_inv_def)
next
  case step: (Cons step steps)
  show ?case
  proof (cases step)
    case Receive
    show ?thesis
    proof (cases "sb_ch s")
      case Nil
      then show ?thesis using step Receive by simp
    next
      case (Cons e es)
      have "dedup_inv (s\<lparr>sb_ch := es\<rparr>) (sent @ [e]) ids = dedup_inv s sent ids" for ids
        by (cases "sb_replayedIDs s") (auto simp: dedup_inv_def Cons)
      then show ?thesis using step.IH step.prems Receive Cons by simp
    qed
  next
    case (Message m)
    show ?thesis
    proof (cases m)
      case None
      then show ?thesis using step Message by (auto simp: live_message_None andThen_def)
    next
      case (Some n)
      obtain q w1 where q: "live_message E ts (Some n) s w = (q, w1)" by fastforce
      from live_message_run(2) [OF q] obtain s1 where s1: "q = Inr s1" by auto
      have "dedup_inv s1 sent (notified steps)"
        using dedup_message q s1 step.prems(2,3) Message Some by simp
      then show ?thesis using step.IH [of s1 sent w1] step.prems q s1 Message Some
        by (simp add: andThen_def)
    qed
  qed
qed

subsection \<open>What the replay leaves\<close>

text \<open>The identifiers of a ledger's events grow with their numbers.\<close>

definition ids_sorted :: "string \<Rightarrow> db \<Rightarrow> bool" where
  "ids_sorted l d \<longleftrightarrow> sorted_wrt (\<lambda>x y. ev_EventID x < ev_EventID y) (ledger_log l d)"

definition replay_inv :: "subscription \<Rightarrow> bool" where
  "replay_inv s \<longleftrightarrow> sorted_wrt (\<lambda>x y. ev_EventID x < ev_EventID y) (sb_ch s) \<and>
     (\<exists>rs. sb_replayedIDs s = Some rs \<and> (\<forall>x\<in>set rs. x \<le> sb_highWaterMark s) \<and> ev_EventID ` set (sb_ch s) \<subseteq> set rs)"

abbreviation all_before :: "LogEventRecord list \<Rightarrow> LogEventRecord list \<Rightarrow> bool" where
  "all_before xs ys \<equiv> \<forall>x\<in>set xs. \<forall>y\<in>set ys. ev_EventID x < ev_EventID y"

lemma replay_events_inv:
  assumes "replay_events c ts from es n s = Started s'" "replay_inv s" "all_before (sb_ch s) es"
    and "sorted_wrt (\<lambda>x y. ev_EventID x < ev_EventID y) es"
  shows "replay_inv s' \<and> set (sb_ch s') \<subseteq> set (sb_ch s) \<union> set es"
  using assms
proof (induction c ts "from" es n s rule: replay_events.induct)
  case (2 c ts "from" e es n s)
  define s1 where "s1 = s\<lparr>sb_replayedIDs := Some (ev_EventID e # (case sb_replayedIDs s of None \<Rightarrow> [] | Some ids \<Rightarrow> ids)),
      sb_highWaterMark := (if ev_EventID e > sb_highWaterMark s then ev_EventID e else sb_highWaterMark s)\<rparr>"
  have n: "\<not> maxReplayEvents < Suc n" using "2.prems"(1) by (auto split: if_splits)
  have inv1: "replay_inv s1" using "2.prems"(2) by (auto simp: replay_inv_def s1_def) (meson less_imp_le order_trans)+
  show ?case
  proof (cases "shouldInclude (ev_Type e) ts")
    case False
    then have "replay_events c ts from es (Suc n) s1 = Started s'" using "2.prems"(1) n by (simp add: s1_def Let_def)
    moreover have "sb_ch s1 = sb_ch s" by (simp add: s1_def)
    ultimately show ?thesis using "2.IH"(1) [OF n s1_def False _ inv1] "2.prems"(3,4) by auto
  next
    case True
    let ?s = "s1\<lparr>sb_ch := sb_ch s @ [e]\<rparr>"
    have run: "\<not> c (length (sb_ch s))" "\<not> subscriptionBufferSize \<le> length (sb_ch s)" "replay_events c ts from es (Suc n) ?s = Started s'"
      using "2.prems"(1) n True by (auto simp: s1_def Let_def split: if_splits)
    have "replay_inv ?s" using inv1 "2.prems"(3) by (auto simp: replay_inv_def s1_def sorted_wrt_append)
    moreover have "all_before (sb_ch ?s) es" using "2.prems"(3,4) by auto
    ultimately show ?thesis using "2.IH"(2) [OF n s1_def] True run "2.prems"(4) by auto
  qed
qed auto

lemma rows_after_sorted: "ids_sorted l d \<Longrightarrow> sorted_wrt (\<lambda>x y. ev_EventID x < ev_EventID y) (rows_after l t d)"
  by (simp add: ids_sorted_def sorted_wrt_filter)

lemma take_before_nth:
  assumes "sorted_wrt R xs" "n < length xs" "x \<in> set (take n xs)"
  shows "R x (xs ! n)"
  using assms by (auto simp: in_set_conv_nth intro: sorted_wrt_nth_less)

lemma replay_pages_inv:
  assumes "replay_pages fuel E c l ts from t n s w = (Inr (Some (Started s')), w')"
    and "replay_inv s" "ids_sorted l (pg w)" "all_before (sb_ch s) (rows_after l t (pg w))"
  shows "replay_inv s'"
  using assms
proof (induction fuel arbitrary: t n s w)
  case (Suc fuel)
  let ?rows = "rows_after l t (pg w)"
  obtain q w1 where page: "ListLogEvents E Pool l \<lparr>PageSize = 100, PageToken = t\<rparr> w = (q, w1)" by fastforce
  with Suc.prems(1) obtain es t1 where q: "q = Inr (es, t1)" by (auto simp: attempt_def split: sum.splits)
  note p = log_page [where n = 100, simplified, OF page [unfolded q]]
  note sorted = rows_after_sorted [OF Suc.prems(3), of t]
  from Suc.prems(1) page q obtain s1 where s1: "replay_events c ts from es n s = Started s1"
    and cont: "if t1 = [] then s' = s1 else replay_pages fuel E c l ts from t1 (n + length es) s1 w1 = (Inr (Some (Started s')), w')"
    by (auto simp: attempt_def split: started.splits if_splits)
  have "all_before (sb_ch s) es" using Suc.prems(4) p(2) by (auto dest: in_set_takeD)
  from replay_events_inv [OF s1 Suc.prems(2) this] sorted
  have inv1: "replay_inv s1" and sub: "set (sb_ch s1) \<subseteq> set (sb_ch s) \<union> set es" by (auto simp: p(2) sorted_wrt_take)
  show ?case
  proof (cases "t1 = []")
    case False
    then have len: "100 < length ?rows" and t1: "t1 = ev_EventID (?rows ! 100)" using p(3) by (auto split: if_splits)
    have next_rows: "rows_after l t1 (pg w) = filter (after_token t1) ?rows" by (rule rows_after_mono [OF len t1 False])
    have "ev_EventID x < t1" if "x \<in> set (sb_ch s1)" for x
      using that sub take_before_nth [OF sorted len] nth_mem [OF len] Suc.prems(4) by (auto simp: p(2) t1)
    then have "all_before (sb_ch s1) (rows_after l t1 (pg w1))"
      using False by (auto simp: p(1) after_token_def dest: order_less_trans)
    then show ?thesis using Suc.IH [of t1 "n + length es" s1 w1] cont False inv1 Suc.prems(3) by (simp add: p(1))
  qed (use cont inv1 in simp)
qed simp

lemma sorted_ids_distinct: "sorted_wrt (\<lambda>x y. ev_EventID x < ev_EventID y) xs \<Longrightarrow> distinct (map ev_EventID xs)"
  by (induction xs) auto

lemma Subscribe_dedup_inv:
  assumes "Subscribe fuel E c l ts from w = (Inr (Some (Started s)), w')" "ids_sorted l (pg w)"
  shows "dedup_inv s [] ids"
proof (cases "from = []")
  case True
  then show ?thesis using assms(1) by (auto simp: Subscribe_def dedup_inv_def new_subscription_def)
next
  case False
  have "replay_inv (new_subscription True)" by (simp add: replay_inv_def new_subscription_def)
  then have "replay_inv s"
    using replay_pages_inv [of fuel E c l ts "from" "from" 0 "new_subscription True" w s w'] assms False
    by (simp add: Subscribe_def new_subscription_def)
  then show ?thesis
    by (auto simp: replay_inv_def dedup_inv_def sorted_ids_distinct) blast
qed

lemma replay_events_fill:
  "(\<And>k. \<not> c k) \<Longrightarrow> length (sb_ch s) + length es \<le> subscriptionBufferSize \<Longrightarrow> n + length es \<le> maxReplayEvents \<Longrightarrow>
   \<exists>s'. replay_events c [] fromID es n s = Started s' \<and> sb_ch s' = sb_ch s @ es"
proof (induction es arbitrary: n s)
  case (Cons e es)
  let ?s = "s\<lparr>sb_replayedIDs := Some (ev_EventID e # (case sb_replayedIDs s of None \<Rightarrow> [] | Some ids \<Rightarrow> ids)),
      sb_highWaterMark := (if ev_EventID e > sb_highWaterMark s then ev_EventID e else sb_highWaterMark s),
      sb_ch := sb_ch s @ [e]\<rparr>"
  have "\<exists>s'. replay_events c [] fromID es (Suc n) ?s = Started s' \<and> sb_ch s' = sb_ch ?s @ es"
    using Cons.prems by (intro Cons.IH) simp_all
  moreover have "\<not> c (length (sb_ch s))" by (rule Cons.prems(1))
  ultimately show ?case using Cons.prems(2,3) by (simp add: Let_def split del: if_split)
qed simp

end
