(* ===== verification/Api_Properties.thy ===== *)
theory Api_Properties
  imports Api_Server Subscriptions Sample
begin

text \<open>
  Properties of the API as a whole: isolation of tenants, the rate limit, that calls of the server
  stay inside the transition system of the ledger, and export and import of a ledger's log.
\<close>

section \<open>Callers\<close>

text \<open>An authenticator that takes the token itself for the subject, and gives \<open>alice\<close> access to
  the ledger \<open>main\<close>, everybody else to another one.\<close>

definition sample_authn :: jwtAuthenticator where
  "sample_authn = \<lparr>ja_parse = (\<lambda>opts raw. Inr \<lparr>tk_Subject = raw, tk_claims = [(''ledgers'', JArr [JStr (if raw = ''alice'' then ''main'' else ''other'')])]\<rparr>),
     ja_audience = [], ja_issuer = []\<rparr>"

definition sample_context :: "string \<Rightarrow> Context" where
  "sample_context who = \<lparr>cx_principal = None, cx_identity = None,
     cx_metadata = Some [(''authorization'', [''Bearer '' @ who])], cx_peer = None\<rparr>"

text \<open>A call for a ledger the caller has no access to, or without a valid token.\<close>

lemma serve_denied:
  assumes "request_ledger req = Some l" and "MethodName req \<noteq> ''VerifyBatch''"
    and "\<And>i. AuthenticateIdentity a ctx = Inr i \<Longrightarrow> \<not> CanAccessLedger i l"
  shows "\<exists>e. \<forall>d. \<exists>w'. serve um E (Some (jwt_authenticator a)) rl ctx req (w\<lparr>pg := d\<rparr>) = (Inl e, w') \<and> pg w' = d"
proof (cases "authenticateAndInject ctx (jwt_authenticator a)")
  case (Inl e)
  then show ?thesis
    by (intro exI [of _ auth_required]) (simp add: serve_def NewUnaryServerInterceptor_def FullMethod_not_exempt)
next
  case (Inr c)
  from jwt_context [OF Inr] obtain i where "AuthenticateIdentity a ctx = Inr i" "IdentityFromContext c = Some i" by blast
  then have "\<exists>e. authorizeLedger c l = Some e" using assms(3) by (simp add: authorizeLedger_def)
  then obtain e where e: "dispatch um E c req = fail e" using dispatch_denied [OF assms(1,2)] by blast
  have serve: "serve um E (Some (jwt_authenticator a)) rl ctx req =
      (case rl of None \<Rightarrow> fail e | Some lim \<Rightarrow> andThen (check E lim c (FullMethod req)) (\<lambda>_. fail e))"
    by (simp add: serve_def NewUnaryServerInterceptor_def FullMethod_not_exempt Inr e UnaryServerInterceptor_def
      split: option.split)
  show ?thesis
  proof (cases rl)
    case None
    then show ?thesis using serve by simp
  next
    case (Some lim)
    define q where "q = fst (check E lim c (FullMethod req) w)"
    have "\<exists>w'. serve um E (Some (jwt_authenticator a)) rl ctx req (w\<lparr>pg := d\<rparr>) =
        (Inl (case q of Inl e' \<Rightarrow> e' | Inr _ \<Rightarrow> e), w') \<and> pg w' = d" for d
      by (cases q) (simp_all add: serve [unfolded Some] Some andThen_def check_no_tables q_def [symmetric])
    then show ?thesis by blast
  qed
qed

text \<open>C21. Tenants are isolated in the unary methods, but for one: a request that names a ledger, sent to
  the server by a caller whose token gives no access to that ledger, or with no valid token at all, is
  answered with an error that is the same whatever the tables hold, and leaves the tables exactly as they
  are. The exception is \<open>VerifyBatch\<close>, whose handler checks no ledger; the streaming methods
  \<open>Export\<close> and \<open>Import\<close> are guarded by the list of administrators instead and are not covered.\<close>

theorem tenant_isolation:
  assumes "request_ledger req = Some l" and "MethodName req \<noteq> ''VerifyBatch''"
    and "\<And>i. AuthenticateIdentity a ctx = Inr i \<Longrightarrow> \<not> CanAccessLedger i l"
  shows "\<exists>e. \<forall>d. \<exists>w'. serve um E (Some (jwt_authenticator a)) rl ctx req (w\<lparr>pg := d\<rparr>) = (Inl e, w') \<and> pg w' = d"
  by (rule serve_denied [OF assms])

theorem tenant_isolation_witness:
  "\<exists>w'. serve (\<lambda>_. Inl EOF) sample_env (Some (jwt_authenticator sample_authn)) None (sample_context ''mallory'')
     (GetAccount_request ''main'' ''alice'') funded_world = (Inl (Status PermissionDenied (Errorf
       (''principal '' @ quoted ''mallory'' @ '' is not authorized for ledger '' @ quoted ''main''))), w') \<and>
     pg w' = pg funded_world"
proof -
  have deny: "\<not> CanAccessLedger i ''main''"
    if "AuthenticateIdentity sample_authn (sample_context ''mallory'') = Inr i" for i
  proof -
    have "case AuthenticateIdentity sample_authn (sample_context ''mallory'') of
        Inr i \<Rightarrow> \<not> CanAccessLedger i ''main'' | Inl _ \<Rightarrow> False" by code_simp
    then show ?thesis by (simp add: that)
  qed
  let ?run = "serve (\<lambda>_. Inl EOF) sample_env (Some (jwt_authenticator sample_authn)) None (sample_context ''mallory'')
     (GetAccount_request ''main'' ''alice'')"
  have "case fst (?run funded_world) of Inr _ \<Rightarrow> False | Inl e \<Rightarrow> e = Status PermissionDenied (Errorf
       (''principal '' @ quoted ''mallory'' @ '' is not authorized for ledger '' @ quoted ''main''))"
    by code_simp
  moreover have "\<exists>e. \<forall>d. \<exists>w'. ?run (funded_world\<lparr>pg := d\<rparr>) = (Inl e, w') \<and> pg w' = d"
    by (rule tenant_isolation [where l = "''main''"]) (simp_all add: deny)
  then obtain e w' where "?run (funded_world\<lparr>pg := pg funded_world\<rparr>) = (Inl e, w')" "pg w' = pg funded_world" by blast
  ultimately show ?thesis by simp
qed

section \<open>Calls and the transition system\<close>

text \<open>C23. Whatever callers send to the server, with or without authentication and rate limit, and
  however the database and Redis behave: a call takes a reachable state to a reachable one, so that the
  events stay balanced, the sequence numbers gapless and the holds well formed.\<close>

theorem serve_reachable:
  assumes "reachable w" and "serve um E authn rl ctx req w = (r, w')"
  shows "reachable w' \<and> balanced (pg w') \<and> conserved (pg w') \<and> contiguous (pg w') \<and> holds_ok (pg w')"
proof -
  have "steps w w'" using keepsD [OF keeps_serve assms(2)] .
  then have "reachable w'" using assms(1) by (rule reachable_steps)
  then show ?thesis using sound_reachable by (simp add: sound_def)
qed

text \<open>A payment of 30 out of the 100 deposited.\<close>

definition sample_submit :: request where
  "sample_submit = Submit_request (Some (Intent ''main'' None ''k9'' [] None
     (Intent_Post [\<lparr>pp_Source = ''alice'', pp_Destination = ''bob'', pp_Amount = ''30'', pp_Asset = ''USD''\<rparr>]) False))"

definition serve_sample :: "request \<Rightarrow> world \<Rightarrow> (error + reply) \<times> world" where
  "serve_sample = serve (\<lambda>_. Inl EOF) sample_env (Some (jwt_authenticator sample_authn))
     (Some \<lparr>readRPS = 1, writeRPS = 1\<rparr>) (sample_context ''alice'')"

theorem serve_reachable_witness:
  "reachable (snd (serve_sample sample_submit funded_world)) \<and>
   balanced (pg (snd (serve_sample sample_submit funded_world))) \<and>
   posted ''main'' ''bob'' ''USD'' (pg (snd (serve_sample sample_submit funded_world))) = 30"
proof -
  have "posted ''main'' ''bob'' ''USD'' (pg (snd (serve_sample sample_submit funded_world))) = 30"
    by code_simp
  then show ?thesis
    using serve_reachable [OF reachable_funded surjective_pairing] unfolding serve_sample_def by blast
qed

section \<open>Rate limit\<close>

text \<open>C29. As long as Redis answers, of the requests that arrive within one window the limiter lets
  through exactly the first ones of each caller and class of method up to the limit of the class:
  neither do other callers or the other class use up the quota, nor can more pass.\<close>

theorem limiter_quota:
  assumes "\<And>k. redis E k = RedisOk" and "\<And>k. clock E k div 1000000 = win"
    and "limit = (if cls = ''w'' then writeRPS l else readRPS l)" and "0 < limit" and "cls \<in> {''r'', ''w''}"
    and "counters w = []"
  shows "int (length (filter (\<lambda>(req, b). same_quota l cls who req \<and> b) (zip reqs (passes E l reqs w)))) =
    min (int (length (filter (same_quota l cls who) reqs))) limit"
  using passes_quota [OF assms(1-5), of who reqs w] assms(4,6) by (simp add: count_of_def)

definition sample_requests :: "(Context \<times> string) list" where
  "sample_requests = [(sample_context ''alice'', FullMethod sample_submit), (sample_context ''alice'', FullMethod sample_submit),
     (sample_context ''alice'', FullMethod (GetLedger_request ''main'')), (sample_context ''alice'', FullMethod sample_submit)]"

theorem limiter_quota_witness:
  "length (filter (\<lambda>(req, b). same_quota \<lparr>readRPS = 1, writeRPS = 2\<rparr> ''w'' ''anon'' req \<and> b)
     (zip sample_requests (passes (sample_env\<lparr>clock := (\<lambda>_. 1000)\<rparr>) \<lparr>readRPS = 1, writeRPS = 2\<rparr> sample_requests blank_world))) = 2"
proof -
  let ?l = "\<lparr>readRPS = 1, writeRPS = 2\<rparr>" and ?E = "sample_env\<lparr>clock := (\<lambda>_. 1000)\<rparr>"
  have "length (filter (same_quota ?l ''w'' ''anon'') sample_requests) = 3" by code_simp
  moreover have "int (length (filter (\<lambda>(req, b). same_quota ?l ''w'' ''anon'' req \<and> b)
      (zip sample_requests (passes ?E ?l sample_requests blank_world)))) =
    min (int (length (filter (same_quota ?l ''w'' ''anon'') sample_requests))) 2"
    by (rule limiter_quota [where win = 0]) (simp_all add: sample_env_def blank_world_def)
  ultimately show ?thesis by simp
qed

section \<open>Export and import\<close>

lemma Export_run:
  assumes "Export n E admins sends ctx l w = (Inr (Some (sent, None)), w')"
  obtains w1 where "pg w1 = pg w" "export_pages n E sends l [] [] w1 = (Inr (Some (sent, None)), w')"
proof -
  from assms obtain who where who: "extractPrincipal ctx = Inr who" by (auto simp: Export_def split: sum.splits)
  with assms have adm: "requireImportExportAuthz admins who = None" by (auto simp: Export_def split: option.splits)
  obtain q w1 where p: "EvaluatePolicy E l who ''export'' [] w = (q, w1)" by fastforce
  have "pg w1 = pg w" using keepsD [OF keeps_pg_EvaluatePolicy p] by (simp add: pg_frame_def)
  moreover have "export_pages n E sends l [] [] w1 = (Inr (Some (sent, None)), w')"
    using assms p by (auto simp: Export_def who adm attempt_def split: sum.splits)
  ultimately show thesis by (rule that)
qed

lemma rows_after_start: "rows_after l [] d = ledger_log l d"
  by (simp add: after_token_def)

lemma Export_short:
  assumes "Export n E admins sends ctx l w = (Inr (Some (sent, None)), w')" and "length (ledger_log l (pg w)) \<le> 1000"
  shows "sent = map logEventRecordToProto (ledger_log l (pg w))"
proof -
  from Export_run [OF assms(1)] obtain w1 where pg: "pg w1 = pg w"
    and run: "export_pages n E sends l [] [] w1 = (Inr (Some (sent, None)), w')" by blast
  from export_pages_step [OF run] show ?thesis
    using assms(2) by (auto simp: rows_after_start pg)
qed

lemma Import_run:
  assumes "Import E admins ctx evs final w = (Inr n, w')"
    and "\<forall>e\<in>set evs. 0 \<le> ge_SchemaVersion e \<and> ge_SchemaVersion e < 2 ^ 64"
  obtains recs where "pg w' = (pg w)\<lparr>log_events := log_events (pg w) @ recs\<rparr>" "n = int (length evs)"
    "map (\<lambda>x. without_batch (logEventRecordToProto x)) recs = map without_batch evs"
    "\<forall>ev\<in>set recs. seqs (ev_LedgerID ev) (pg w) = []"
proof -
  from assms(1) obtain who where "import_loop E who evs final fresh_import w = (Inr n, w')"
    by (auto simp: Import_def io_ok)
  from import_loop_run [OF this import_inv_fresh assms(2)] show thesis
    using that by (auto simp: fresh_import_def)
qed

text \<open>C24. What was exported from a ledger of at most a thousand events, and imported without an error
  into another system, is there again: the log of the ledger is the same, event for event, with numbers,
  times, payloads and idempotency keys, but for the batch, which the target assigns; the logs of the other ledgers of the
  target are as they were.\<close>

theorem Export_Import:
  assumes "Export n E admins sends ctx l w = (Inr (Some (sent, None)), w1)"
    and "ledger_log l (pg w) \<noteq> []" and "length (ledger_log l (pg w)) \<le> 1000"
    and "reachable v" and "Import E' admins' ctx' sent EOF v = (Inr count, v')"
  shows "map (\<lambda>x. without_batch (logEventRecordToProto x)) (ledger_log l (pg v')) =
      map (\<lambda>x. without_batch (logEventRecordToProto x)) (ledger_log l (pg w))
    \<and> count = int (length (ledger_log l (pg w)))
    \<and> (\<forall>l'. l' \<noteq> l \<longrightarrow> ledger_log l' (pg v') = ledger_log l' (pg v))"
proof -
  note sent = Export_short [OF assms(1,3)]
  have u64: "\<forall>e\<in>set sent. 0 \<le> ge_SchemaVersion e \<and> ge_SchemaVersion e < 2 ^ 64"
    by (auto simp: sent logEventRecordToProto_def uint64_def)
  from Import_run [OF assms(5) u64] obtain recs
    where v': "pg v' = (pg v)\<lparr>log_events := log_events (pg v) @ recs\<rparr>" and n: "count = int (length sent)"
      and same: "map (\<lambda>x. without_batch (logEventRecordToProto x)) recs = map without_batch sent"
      and free: "\<forall>ev\<in>set recs. seqs (ev_LedgerID ev) (pg v) = []" by blast
  have "map ge_LedgerId (map (\<lambda>x. without_batch (logEventRecordToProto x)) recs) = map ge_LedgerId (map without_batch sent)"
    using same by simp
  then have "map ev_LedgerID recs = map ev_LedgerID (ledger_log l (pg w))"
    by (simp add: sent without_batch_def logEventRecordToProto_def comp_def)
  then have "set (map ev_LedgerID recs) = set (map ev_LedgerID (ledger_log l (pg w)))" by (rule arg_cong)
  then have l: "\<forall>ev\<in>set recs. ev_LedgerID ev = l" by (auto simp: ledger_log_def)
  have "recs \<noteq> []" using same sent assms(2) by auto
  then have "seqs l (pg v) = []" using free l by (metis last_in_set)
  then have old: "filter (\<lambda>r. ev_LedgerID r = l) (log_events (pg v)) = []" by (simp add: seqs_def)
  have "reachable v'" using assms(4) api_import [OF assms(5) u64] by (rule reachable_step)
  then have "contiguous (pg v')" using sound_reachable by (simp add: sound_def)
  moreover have "filter (\<lambda>r. ev_LedgerID r = l) recs = recs" using l by (simp add: filter_id_conv)
  then have "seqs l (pg v') = map ev_LedgerSeq recs" using old by (simp add: seqs_def v')
  ultimately have "sorted (map ev_LedgerSeq recs)" by (metis contiguous_def sorted_upto)
  then have "ledger_log l (pg v') = recs"
    using old l by (simp add: ledger_log_def v' filter_id_conv sorted_sort_id sort_key_id_if_sorted)
  moreover have "ledger_log l' (pg v') = ledger_log l' (pg v)" if "l' \<noteq> l" for l'
  proof -
    have "filter (\<lambda>r. ev_LedgerID r = l') recs = []" using l that by (auto simp: filter_empty_conv)
    then show ?thesis by (simp add: ledger_log_def v')
  qed
  ultimately show ?thesis using same n by (simp add: sent)
qed

definition alice_context :: Context where
  "alice_context = \<lparr>cx_principal = Some ''alice'', cx_identity = None, cx_metadata = None, cx_peer = None\<rparr>"

definition sample_export :: "(error + (LogEvent list \<times> error option) option) \<times> world" where
  "sample_export = Export 2 sample_env [''alice''] (\<lambda>_. None) alice_context ''main'' hold_world"

definition sample_stream :: "LogEvent list" where
  "sample_stream = (case fst sample_export of Inr (Some (sent, None)) \<Rightarrow> sent | _ \<Rightarrow> [])"

definition sample_import :: "(error + int) \<times> world" where
  "sample_import = Import sample_env [''alice''] alice_context sample_stream EOF ledger_world"

theorem Export_Import_witness:
  "fst sample_import = Inr 2 \<and>
   map (\<lambda>x. without_batch (logEventRecordToProto x)) (ledger_log ''main'' (pg (snd sample_import))) =
   map (\<lambda>x. without_batch (logEventRecordToProto x)) (ledger_log ''main'' (pg hold_world))"
proof -
  have len: "length (ledger_log ''main'' (pg hold_world)) = 2" by code_simp
  have "case fst sample_export of Inr (Some (sent, None)) \<Rightarrow> True | _ \<Rightarrow> False" by code_simp
  then have out: "sample_export = (Inr (Some (sample_stream, None)), snd sample_export)"
    by (intro prod_eqI) (auto simp: sample_stream_def split: sum.splits option.splits prod.splits)
  have two: "fst sample_import = Inr 2" by code_simp
  then have inp: "sample_import = (Inr 2, snd sample_import)" by (metis prod.collapse)
  have "map (\<lambda>x. without_batch (logEventRecordToProto x)) (ledger_log ''main'' (pg (snd sample_import))) =
      map (\<lambda>x. without_batch (logEventRecordToProto x)) (ledger_log ''main'' (pg hold_world))"
    using Export_Import [OF out [unfolded sample_export_def] _ _ reachable_ledger inp [unfolded sample_import_def]] len
    unfolding sample_import_def [symmetric] by fastforce
  with two show ?thesis ..
qed

lemma distinct_take_nth: "distinct xs \<Longrightarrow> n < length xs \<Longrightarrow> xs ! n \<notin> set (take n xs)"
  by (metis distinct_take id_take_nth_drop not_distinct_conv_prefix)

text \<open>An export of more than a thousand events does not send the event that follows the first
  thousand, although it ends without an error: the page token is the id of that event, and the next page starts after
  it.\<close>

theorem Export_skips:
  assumes "Export n E admins sends ctx l w = (Inr (Some (sent, None)), w')"
    and "1000 < length (ledger_log l (pg w))" and "distinct (map ev_EventID (ledger_log l (pg w)))"
    and "ev_EventID (ledger_log l (pg w) ! 1000) \<noteq> []"
  shows "logEventRecordToProto (ledger_log l (pg w) ! 1000) \<notin> set sent"
proof -
  let ?rows = "ledger_log l (pg w)" and ?e = "ledger_log l (pg w) ! 1000"
  let ?t = "ev_EventID ?e"
  from Export_run [OF assms(1)] obtain w1 where pg1: "pg w1 = pg w"
    and run: "export_pages n E sends l [] [] w1 = (Inr (Some (sent, None)), w')" by blast
  obtain m t1 w2 where pg2: "pg w2 = pg w1"
    and t1: "t1 = (if length (rows_after l [] (pg w1)) \<le> 1000 then [] else ev_EventID (rows_after l [] (pg w1) ! 1000))"
    and cont: "if t1 = [] then sent = [] @ map logEventRecordToProto (take 1000 (rows_after l [] (pg w1)))
     else export_pages m E sends l t1 ([] @ map logEventRecordToProto (take 1000 (rows_after l [] (pg w1)))) w2 =
       (Inr (Some (sent, None)), w')"
    by (rule export_pages_step [OF run])
  have t: "t1 = ?t" using t1 assms(2) by (simp add: rows_after_start pg1)
  with cont assms(4) have "export_pages m E sends l ?t (map logEventRecordToProto (take 1000 ?rows)) w2 = (Inr (Some (sent, None)), w')"
    by (simp add: rows_after_start pg1)
  from export_pages_rows [OF this] obtain es where sent: "sent = map logEventRecordToProto (take 1000 ?rows @ es)"
    and es: "set es \<subseteq> set (rows_after l ?t (pg w))" by (auto simp: pg1 pg2)
  show ?thesis
  proof
    assume "logEventRecordToProto ?e \<in> set sent"
    then obtain x where x: "x \<in> set (take 1000 ?rows @ es)" "logEventRecordToProto x = logEventRecordToProto ?e"
      unfolding sent set_map by (metis imageE)
    then have "ge_EventId (logEventRecordToProto x) = ge_EventId (logEventRecordToProto ?e)" by simp
    then have id: "ev_EventID x = ?t" by (simp add: logEventRecordToProto_def)
    have "x \<notin> set es" using es id assms(4) by (auto simp: after_token_def)
    then have "?t \<in> set (take 1000 (map ev_EventID ?rows))" using x(1) id by (simp add: take_map) (metis image_eqI)
    moreover have "map ev_EventID ?rows ! 1000 = ?t" using assms(2) by simp
    ultimately show False using distinct_take_nth [OF assms(3), of 1000] assms(2) by simp
  qed
qed

text \<open>A ledger with 1001 events, and an environment in which nothing fails.\<close>

definition long_log :: "LogEventRecord list" where
  "long_log = map (\<lambda>i. \<lparr>ev_EventID = replicate (Suc i) CHR ''a'', ev_LedgerID = ''main'', ev_LedgerSeq = int i + 1,
     ev_SystemTime = 1, ev_ValidTime = 1, ev_Type = 1, ev_Payload = ''{}'', ev_IdempotencyKey = [],
     ev_IdempotencyHash = None, ev_BatchID = ''b'', ev_SchemaVersion = 1\<rparr>) [0..<1001]"

definition long_world :: world where
  "long_world = blank_world\<lparr>pg := empty_db\<lparr>log_events := long_log\<rparr>\<rparr>"

lemma send_all_ok: "(\<And>k. sends k = None) \<Longrightarrow> send_all sends sent es = (sent @ es, None)"
  by (induction es arbitrary: sent) simp_all

lemma export_pages_succeeds:
  assumes "\<And>k. fault E k = None" and "\<And>k. sends k = None"
  shows "length (rows_after l t (pg w)) < n \<Longrightarrow> \<exists>out w'. export_pages n E sends l t sent w = (Inr (Some (out, None)), w')"
proof (induction n arbitrary: t sent w)
  case (Suc n)
  obtain es t1 w1 where page: "ListLogEvents E Pool l \<lparr>PageSize = 1000, PageToken = t\<rparr> w = (Inr (es, t1), w1)"
    using log_page_succeeds assms(1) by blast
  note p = export_page [OF page]
  have "length (rows_after l t1 (pg w1)) < n" if "t1 \<noteq> []"
    using rows_after_next [where i = 1000 and l = l and t = t and d = "pg w" and t' = t1] that p Suc.prems
    by (auto split: if_splits)
  then show ?case using Suc.IH page by (simp add: attempt_def send_all_ok assms(2))
qed simp

lemma long_log_ids: "map ev_EventID long_log = map (\<lambda>i. replicate (Suc i) CHR ''a'') [0..<1001]"
  by (simp add: long_log_def comp_def del: upt_Suc replicate_Suc upt_rec_numeral)

lemma ledger_log_long: "ledger_log ''main'' (pg long_world) = long_log"
proof -
  have "map ev_LedgerSeq long_log = map (\<lambda>i. int i + 1) [0..<1001]"
    by (simp add: long_log_def comp_def del: upt_Suc upt_rec_numeral)
  moreover have "sorted (map (\<lambda>i. int i + 1) [0..<n])" for n by (simp add: sorted_iff_nth_mono)
  moreover have "filter (\<lambda>r. ev_LedgerID r = ''main'') long_log = long_log"
    by (auto simp: filter_id_conv long_log_def simp del: upt_rec_numeral)
  ultimately show ?thesis by (simp add: ledger_log_def long_world_def sort_key_id_if_sorted)
qed

lemma long_log_nth: "ev_EventID (long_log ! i) = replicate (Suc i) CHR ''a''" if "i < 1001"
  using that by (simp add: long_log_def del: upt_rec_numeral replicate_Suc)

theorem Export_skips_witness:
  "\<exists>sent w'. Export 1002 sample_env [''alice''] (\<lambda>_. None) alice_context ''main'' long_world = (Inr (Some (sent, None)), w') \<and>
     length (ledger_log ''main'' (pg long_world)) = 1001 \<and>
     logEventRecordToProto (ledger_log ''main'' (pg long_world) ! 1000) \<notin> set sent"
proof -
  have nofault: "fault sample_env k = None" for k by (simp add: sample_env_def)
  have len: "length long_log = 1001" by (simp add: long_log_def del: upt_rec_numeral)
  have "active_policy ''main'' (pg long_world) = None" by (simp add: active_policy_def long_world_def empty_db_def)
  then have pol: "EvaluatePolicy sample_env ''main'' ''alice'' ''export'' [] long_world =
      (Inr (), long_world\<lparr>n_sql := Suc (n_sql long_world)\<rparr>)"
    by (simp add: EvaluatePolicy_def checkPolicy_def GetActivePolicy_def query_ok nofault andThen_def)
  let ?w = "long_world\<lparr>n_sql := Suc (n_sql long_world)\<rparr>"
  have "length (rows_after ''main'' [] (pg ?w)) < 1002" by (simp only: rows_after_start) (simp add: ledger_log_long len)
  from export_pages_succeeds [OF nofault _ this, of "\<lambda>_. None"]
  obtain sent w' where run: "export_pages 1002 sample_env (\<lambda>_. None) ''main'' [] [] ?w = (Inr (Some (sent, None)), w')" by blast
  have "extractPrincipal alice_context = Inr ''alice''" "requireImportExportAuthz [''alice''] ''alice'' = None" by code_simp+
  then have out: "Export 1002 sample_env [''alice''] (\<lambda>_. None) alice_context ''main'' long_world = (Inr (Some (sent, None)), w')"
    using run by (simp add: Export_def attempt_def pol)
  have "distinct (map ev_EventID long_log)"
    unfolding long_log_ids by (simp add: distinct_map inj_on_def del: replicate_Suc upt_rec_numeral)
  then have "logEventRecordToProto (ledger_log ''main'' (pg long_world) ! 1000) \<notin> set sent"
    using Export_skips [OF out] by (simp add: ledger_log_long len long_log_nth)
  with out show ?thesis by (simp add: ledger_log_long len)
qed

section \<open>Subscriptions\<close>

text \<open>C25. A subscription delivers no event twice, in whatever way notifications and reads interleave,
  provided the identifiers of the events grow with their numbers and the notifications arrive in the order of
  the identifiers: what was replayed from the log is not delivered again when it is notified. Its channel
  never holds more than the buffer.\<close>

theorem Subscribe_no_duplicates:
  assumes "Subscribe fuel E c l ts fromID w = (Inr (Some (Started s)), w1)" and "ids_sorted l (pg w)"
    and "run_steps E' ts xs s [] w2 = (Inr (s', sent), w3)" and "sorted_wrt (<) (notified xs)"
  shows "distinct (map ev_EventID (sent @ sb_ch s')) \<and> length (sb_ch s') \<le> subscriptionBufferSize"
  using run_steps_dedup [OF assms(3) Subscribe_dedup_inv [OF assms(1,2)] assms(4)]
    run_steps_buffer [OF assms(3) Subscribe_buffer [OF assms(1)]] by (simp add: within_buffer_def)

text \<open>A log of two events, and of three; a client that has seen the first one.\<close>

definition small_log :: "string list \<Rightarrow> world" where
  "small_log ids = blank_world\<lparr>pg := empty_db\<lparr>log_events := map (\<lambda>(i, x). \<lparr>ev_EventID = x, ev_LedgerID = ''main'',
     ev_LedgerSeq = int i + 1, ev_SystemTime = 1, ev_ValidTime = 1, ev_Type = 1, ev_Payload = ''{}'', ev_IdempotencyKey = [],
     ev_IdempotencyHash = None, ev_BatchID = ''b'', ev_SchemaVersion = 1\<rparr>) (enumerate 0 ids)\<rparr>\<rparr>"

definition small_subscription :: subscription where
  "small_subscription = (case fst (Subscribe 3 sample_env (\<lambda>_. False) ''main'' [] ''a'' (small_log [''a'', ''b''])) of
     Inr (Some (Started s)) \<Rightarrow> s | _ \<Rightarrow> new_subscription False)"

definition arrive :: "string \<Rightarrow> sub_step" where
  "arrive i = Message (Some \<lparr>nt_LedgerID = ''main'', nt_EventID = i, nt_Type = 1\<rparr>)"

definition small_run :: "sub_step list \<Rightarrow> (error + subscription \<times> LogEventRecord list) \<times> world" where
  "small_run xs = run_steps sample_env [] xs small_subscription [] (small_log [''a'', ''b'', ''c''])"

definition small_ids :: "sub_step list \<Rightarrow> string list" where
  "small_ids xs = (case fst (small_run xs) of Inr (s, sent) \<Rightarrow> map ev_EventID (sent @ sb_ch s) | Inl _ \<Rightarrow> [])"

theorem Subscribe_no_duplicates_witness:
  "small_ids [arrive ''b'', Receive, arrive ''c''] = [''b'', ''c''] \<and> distinct (small_ids [arrive ''b'', Receive, arrive ''c''])"
proof -
  let ?steps = "[arrive ''b'', Receive, arrive ''c'']"
  have "case fst (Subscribe 3 sample_env (\<lambda>_. False) ''main'' [] ''a'' (small_log [''a'', ''b''])) of
      Inr (Some (Started s)) \<Rightarrow> True | _ \<Rightarrow> False" by code_simp
  then have start: "Subscribe 3 sample_env (\<lambda>_. False) ''main'' [] ''a'' (small_log [''a'', ''b'']) =
      (Inr (Some (Started small_subscription)), snd (Subscribe 3 sample_env (\<lambda>_. False) ''main'' [] ''a'' (small_log [''a'', ''b''])))"
    by (intro prod_eqI) (auto simp: small_subscription_def split: sum.splits option.splits started.splits)
  have ids: "small_ids ?steps = [''b'', ''c'']" by code_simp
  then obtain s sent where "fst (small_run ?steps) = Inr (s, sent)" and out: "map ev_EventID (sent @ sb_ch s) = [''b'', ''c'']"
    by (auto simp: small_ids_def split: sum.splits)
  then have run: "small_run ?steps = (Inr (s, sent), snd (small_run ?steps))" by (metis prod.collapse)
  have sorted: "ids_sorted ''main'' (pg (small_log [''a'', ''b'']))" "sorted_wrt (<) (notified ?steps)" by code_simp+
  have "distinct (map ev_EventID (sent @ sb_ch s))"
    using Subscribe_no_duplicates [OF start sorted(1) run [unfolded small_run_def] sorted(2)] by blast
  then show ?thesis using ids unfolding out by simp
qed

text \<open>When notifications arrive out of order, as they do when transactions commit in another order than
  their events were numbered, a client receives an event twice: the notification of a newer event drops the
  identifiers of the replay, and the late notification of a replayed event passes.\<close>

theorem Subscribe_duplicates_out_of_order:
  "small_ids [arrive ''c'', arrive ''b''] = [''b'', ''c'', ''b'']"
  by code_simp

text \<open>C40. A defect: a subscription to all types of events that has at least 102 events to replay never starts.
  The channel of a hundred is full before anybody receives from it, and the call waits until the client gives
  up, while the database answers and the identifiers follow the order of the log. With exactly 101 events the
  page token leaves out the last one, and the subscription starts.\<close>

theorem Subscribe_stalls:
  assumes "\<And>k. fault E k = None" and "\<And>k. \<not> cancelled k" and "fromID \<noteq> []" and "ids_sorted l (pg w)"
    and "102 \<le> length (rows_after l fromID (pg w))" and "2 \<le> fuel"
  shows "\<exists>w'. Subscribe fuel E cancelled l [] fromID w = (Inr (Some Waiting), w')"
proof -
  let ?rows = "rows_after l fromID (pg w)" and ?s0 = "new_subscription True"
  obtain f where fuel: "fuel = Suc (Suc f)" using assms(6) by (metis Suc_le_D numeral_2_eq_2 Suc_le_mono)
  note sorted = rows_after_sorted [OF assms(4), of fromID]
  have len: "100 < length ?rows" and len': "101 < length ?rows" using assms(5) by simp_all
  obtain es t1 w1 where page: "ListLogEvents E Pool l \<lparr>PageSize = 100, PageToken = fromID\<rparr> w = (Inr (es, t1), w1)"
    using log_page_succeeds assms(1) by blast
  note p = log_page [where n = 100, simplified, OF page]
  have t1: "t1 = ev_EventID (?rows ! 100)" using p(3) len by simp
  have es: "length es = 100" using p(2) len by simp
  obtain s1 where s1: "replay_events cancelled [] fromID es 0 ?s0 = Started s1" "sb_ch s1 = es"
    using replay_events_fill [where c = cancelled and s = ?s0 and es = es and n = 0 and fromID = fromID, OF assms(2)] es
    by (auto simp: new_subscription_def subscriptionBufferSize_def maxReplayEvents_def)
  have lt: "t1 < ev_EventID (?rows ! 101)" using sorted_wrt_nth_less [OF sorted _ len', of 100] t1 by simp
  then have "t1 \<noteq> []"
    using nth_mem [OF len] assms(3) by (auto simp: t1 after_token_def)
  have next_rows: "rows_after l t1 (pg w) = filter (after_token t1) ?rows" by (rule rows_after_mono [OF len t1 \<open>t1 \<noteq> []\<close>])
  have "?rows ! 101 \<in> set (rows_after l t1 (pg w))"
    unfolding next_rows using nth_mem [OF len'] lt by (auto simp: after_token_def)
  moreover obtain es2 t2 w2 where page2: "ListLogEvents E Pool l \<lparr>PageSize = 100, PageToken = t1\<rparr> w1 = (Inr (es2, t2), w2)"
    using log_page_succeeds assms(1) by blast
  ultimately obtain e es' where "es2 = e # es'"
    using log_page(2) [where n = 100, simplified, OF page2] by (cases "rows_after l t1 (pg w)") (auto simp: p(1))
  then have "replay_events cancelled [] fromID es2 100 s1 = Waiting"
    using s1(2) es assms(2) by (simp add: subscriptionBufferSize_def maxReplayEvents_def)
  then show ?thesis
    using assms(3) page page2 s1 es \<open>t1 \<noteq> []\<close> by (simp add: Subscribe_def fuel attempt_def)
qed

lemma ids_sorted_long: "ids_sorted ''main'' (pg long_world)"
proof -
  have prefix: "replicate i c < replicate j c" if "i < j" for i j :: nat and c :: char
    using that
  proof (induction i arbitrary: j)
    case 0
    then show ?case by (cases j) simp_all
  next
    case (Suc i)
    then show ?case by (cases j) simp_all
  qed
  have "sorted_wrt (\<lambda>x y. ev_EventID x < ev_EventID y) long_log"
    unfolding sorted_wrt_iff_nth_less using long_log_nth prefix by (auto simp: long_log_def simp del: upt_rec_numeral replicate_Suc)
  then show ?thesis by (simp add: ids_sorted_def ledger_log_long)
qed

theorem Subscribe_stalls_witness:
  "\<exists>w'. Subscribe 2 sample_env (\<lambda>_. False) ''main'' [] ''a'' long_world = (Inr (Some Waiting), w')"
proof (rule Subscribe_stalls [OF _ _ _ ids_sorted_long])
  have "filter (after_token ''a'') (drop 1 long_log) = drop 1 long_log"
  proof (rule filter_True, rule ballI)
    fix x assume "x \<in> set (drop 1 long_log)"
    then obtain i where "x = long_log ! Suc i" "Suc i < 1001"
      by (auto simp: in_set_conv_nth long_log_def simp del: upt_rec_numeral)
    then show "after_token ''a'' x" by (simp add: after_token_def long_log_nth)
  qed
  moreover have "length (drop 1 long_log) = 1000" by (simp add: long_log_def del: upt_rec_numeral)
  moreover have "length (filter (after_token ''a'') (drop 1 long_log)) \<le> length (filter (after_token ''a'') (take 1 long_log @ drop 1 long_log))"
    by (simp only: filter_append length_append le_add2)
  ultimately show "102 \<le> length (rows_after ''main'' ''a'' (pg long_world))"
    by (simp only: ledger_log_long append_take_drop_id)
qed (simp_all add: sample_env_def)

end
