(* ===== verification/Worker.thy ===== *)
theory Worker
  imports Api_Server Sample
begin

text \<open>
  The worker, \<^verbatim>\<open>src/cmd/worker/main.go\<close>: four jobs, each on a ticker of its own that skips ticks
  after failures, and the properties of the jobs.
\<close>

section \<open>Jobs\<close>

definition maxConsecutiveFailures :: nat where "maxConsecutiveFailures = 5"

text \<open>One tick of a ticker: whether the job ran at it. The arguments are the number of consecutive
  failures and the number of ticks still to be skipped.\<close>

definition tick :: "unit prog \<Rightarrow> nat \<Rightarrow> nat \<Rightarrow> world \<Rightarrow> bool \<times> nat \<times> nat \<times> world" where
  "tick job failures skip w =
     (if skip > 0 then (False, failures, skip - 1, w)
      else
        (case job w of
           (Inl e, w') \<Rightarrow> (True, Suc failures, min (Suc failures) maxConsecutiveFailures - 1, w')
         | (Inr _, w') \<Rightarrow> (True, 0, 0, w')))"

fun runTickerWithBackoff :: "unit prog \<Rightarrow> nat \<Rightarrow> nat \<Rightarrow> nat \<Rightarrow> world \<Rightarrow> bool list \<times> world" where
  "runTickerWithBackoff job 0 failures skip w = ([], w)"
| "runTickerWithBackoff job (Suc ticks) failures skip w =
     (case tick job failures skip w of
        (b, failures', skip', w1) \<Rightarrow>
          (case runTickerWithBackoff job ticks failures' skip' w1 of (rest, w') \<Rightarrow> (b # rest, w')))"

text \<open>The jobs. The sweep of holds has fuel for one round more than there are holds.\<close>

datatype worker_job = BatchClose | CheckpointBuild | HoldExpiry | ApprovalExpiry time

definition run_job ::
  "env \<Rightarrow> (checkpoint_row list \<Rightarrow> checkpoint_row list) \<Rightarrow> (nat \<times> row_failure) option \<Rightarrow> worker_job \<Rightarrow> unit prog" where
  "run_job E plan broken job =
     (case job of
        BatchClose \<Rightarrow> attempt (CloseExpiredBatches E) (\<lambda>_. ok ())
      | CheckpointBuild \<Rightarrow> BuildCheckpoints E plan broken
      | HoldExpiry \<Rightarrow>
          andThen (getS (\<lambda>w. Suc (length (holds (pg w))))) (\<lambda>fuel.
          andThen (ExpireHolds fuel E) (\<lambda>_. ok ()))
      | ApprovalExpiry threshold \<Rightarrow> ExpireStaleApprovals E threshold)"

subsection \<open>The ticker\<close>

lemma ticker_length: "length (fst (runTickerWithBackoff job ticks failures skip w)) = ticks"
  by (induction ticks arbitrary: failures skip w) (simp_all add: split_beta)

lemma ticker_first_run:
  "skip < ticks \<Longrightarrow> fst (runTickerWithBackoff job ticks failures skip w) ! skip"
proof (induction ticks arbitrary: skip w)
  case (Suc ticks)
  then show ?case by (cases skip) (auto simp: tick_def split_beta split: sum.split)
qed simp

lemma tick_skip: "tick job failures skip w = (b, failures', skip', w') \<Longrightarrow> skip < maxConsecutiveFailures \<Longrightarrow>
  skip' < maxConsecutiveFailures"
  by (auto simp: tick_def maxConsecutiveFailures_def split: if_splits prod.splits sum.splits)

lemma ticker_window:
  assumes "skip < maxConsecutiveFailures" "i + maxConsecutiveFailures \<le> ticks"
  shows "True \<in> set (take maxConsecutiveFailures (drop i (fst (runTickerWithBackoff job ticks failures skip w))))"
  using assms
proof (induction ticks arbitrary: i failures skip w)
  case (Suc ticks)
  let ?ran = "fst (runTickerWithBackoff job (Suc ticks) failures skip w)"
  show ?case
  proof (cases i)
    case 0
    have "take maxConsecutiveFailures ?ran ! skip"
      using ticker_first_run [of skip "Suc ticks" job failures w] Suc.prems 0 by (simp del: runTickerWithBackoff.simps)
    moreover have "skip < length (take maxConsecutiveFailures ?ran)"
      using Suc.prems 0 ticker_length [of job "Suc ticks" failures skip w] by (simp del: runTickerWithBackoff.simps)
    ultimately have "True \<in> set (take maxConsecutiveFailures ?ran)" using nth_mem by metis
    then show ?thesis using 0 by (simp del: runTickerWithBackoff.simps)
  next
    case (Suc j)
    obtain b f' s' w' where t: "tick job failures skip w = (b, f', s', w')" by (metis prod_cases4)
    have "drop i ?ran = drop j (fst (runTickerWithBackoff job ticks f' s' w'))" by (simp add: Suc t split_beta)
    then show ?thesis using Suc.IH [of s' j f' w'] tick_skip [OF t] Suc.prems Suc by simp
  qed
qed (simp add: maxConsecutiveFailures_def)

text \<open>C28. However often a job of the worker fails, it is tried again: among any five consecutive ticks
  of its ticker there is one at which it runs.\<close>

theorem worker_job_retried:
  assumes "i + 5 \<le> ticks"
  shows "True \<in> set (take 5 (drop i (fst (runTickerWithBackoff (run_job E plan broken job) ticks 0 0 w))))"
  using ticker_window [of 0 i ticks] assms by (simp add: maxConsecutiveFailures_def)

text \<open>A database that is down.\<close>

definition failing_ticks :: "bool list" where
  "failing_ticks = fst (runTickerWithBackoff (run_job (sample_env\<lparr>fault := (\<lambda>_. Some (OtherState ''08006''))\<rparr>) id None HoldExpiry) 12 0 0 hold_world)"

theorem worker_job_retried_witness:
  "failing_ticks = [True, True, False, True, False, False, True, False, False, False, True, False] \<and>
   True \<in> set (take 5 (drop 7 failing_ticks))"
proof -
  have "failing_ticks = [True, True, False, True, False, False, True, False, False, False, True, False]" by code_simp
  then show ?thesis unfolding failing_ticks_def using worker_job_retried [of 7 12] by simp
qed

subsection \<open>Jobs and the transition system\<close>

lemma keeps_pg_closeBatch: "keeps pg_frame (closeBatch E l b)"
  unfolding closeBatch_def ListBatchEvents_def CloseBatch_def
  by (intro pg_frame.keeps_rules keeps_pg_query_Pool keeps_pg_of_tx [OF keeps_batch_stmt])

lemma keeps_pg_sleep: "keeps pg_frame (sleep E t)"
  by (rule keepsI) (simp add: pg_frame_def sleep_def Let_def)

lemma keeps_pg_closeBatchLoop: "keeps pg_frame (closeBatchLoop E l b t n)"
proof (induction n arbitrary: t)
  case 0
  then show ?case by (subst closeBatchLoop.simps) (simp only: nat.case, intro pg_frame.keeps_rules keeps_pg_closeBatch)
next
  case (Suc n)
  then show ?case
    by (subst closeBatchLoop.simps) (simp only: nat.case, intro pg_frame.keeps_rules keeps_pg_closeBatch keeps_pg_sleep)
qed

lemma keeps_pg_closeBatchWithRetry: "keeps pg_frame (closeBatchWithRetry E l b)"
proof -
  have "keeps pg_frame (markPendingClose b)" "keeps pg_frame (unmarkPendingClose b)"
    by (rule keepsI, simp add: pg_frame_def markPendingClose_def unmarkPendingClose_def)+
  then show ?thesis
    unfolding closeBatchWithRetry_def by (intro pg_frame.keeps_rules keeps_pg_closeBatchLoop)
qed

lemma keeps_pg_CloseExpiredBatches: "keeps pg_frame (CloseExpiredBatches E)"
proof -
  have "keeps pg_frame (putS (\<lambda>w. w\<lparr>openBatch := f w\<rparr>))" for f
    by (rule keepsI) (simp add: pg_frame_def)
  then show ?thesis
    unfolding CloseExpiredBatches_def ListOpenBatches_def split_beta
    by (intro pg_frame.keeps_rules keeps_pg_time_Now keeps_pg_closeBatchWithRetry keeps_pg_of_tx [OF keeps_batch_stmt])
qed

text \<open>The groups of a query come in some order, each once.\<close>

definition permutes_due :: "(checkpoint_row list \<Rightarrow> checkpoint_row list) \<Rightarrow> bool" where
  "permutes_due plan \<longleftrightarrow> (\<forall>d. set (plan (due d)) = set (due d) \<and> distinct (plan (due d)))"

lemma run_job_steps:
  assumes "run_job E plan broken job w = (r, w')" and "permutes_due plan"
  shows "steps w w'"
proof (cases job)
  case BatchClose
  have "keeps steps (run_job E plan broken BatchClose)"
    unfolding run_job_def worker_job.case by (intro steps.keeps_rules keeps_steps_pg [OF keeps_pg_CloseExpiredBatches])
  then show ?thesis using assms(1) BatchClose by (auto dest: keepsD)
next
  case CheckpointBuild
  then show ?thesis
    using assms api_checkpoints [of E plan broken w r w'] by (auto simp: run_job_def permutes_due_def)
next
  case HoldExpiry
  have "keeps steps (ExpireHolds n E)" for n by (rule keeps_steps) (rule api_expire_holds)
  then have "keeps steps (run_job E plan broken HoldExpiry)"
    unfolding run_job_def worker_job.case by (intro steps.keeps_rules)
  then show ?thesis using assms(1) HoldExpiry by (auto dest: keepsD)
next
  case (ApprovalExpiry th)
  then show ?thesis using assms(1) api_expire_approvals by (auto simp: run_job_def)
qed

text \<open>The jobs of the worker, at any ticks and whatever fails, take a reachable state to a reachable
  one: the worker breaks no invariant the calls of the server keep.\<close>

theorem worker_reachable:
  assumes "reachable w" and "permutes_due plan"
  shows "reachable (snd (runTickerWithBackoff (run_job E plan broken job) ticks failures skip w))"
  using assms(1)
proof (induction ticks arbitrary: failures skip w)
  case (Suc ticks)
  obtain b f' s' w' where t: "tick (run_job E plan broken job) failures skip w = (b, f', s', w')" by (metis prod_cases4)
  then have "w' = w \<or> (\<exists>r. run_job E plan broken job w = (r, w'))"
    by (auto simp: tick_def split: if_splits prod.splits sum.splits)
  then have "reachable w'" using reachable_steps run_job_steps assms(2) Suc.prems by blast
  then show ?case using Suc.IH by (simp add: t split_beta)
qed simp

theorem worker_reachable_witness:
  "reachable (snd (runTickerWithBackoff (run_job sample_env id None HoldExpiry) 3 0 0 hold_world))"
proof -
  have "permutes_due id" using rollups_due by (auto simp: permutes_due_def rollups_def distinct_map)
  then show ?thesis by (rule worker_reachable [OF reachable_hold])
qed

section \<open>Checkpoints\<close>

text \<open>C26. A run of the checkpoint builder, whatever fails in it, loses no volume and counts none twice:
  for every bucket, what its checkpoints add up to and what is not covered by a checkpoint yet make the
  same sum before and after, for inputs and for outputs, and nothing but the table of checkpoints changes.\<close>

theorem BuildCheckpoints_accounts:
  assumes "BuildCheckpoints E plan broken w = (r, w')"
    and "set (plan (due (pg w))) = set (due (pg w))" "distinct (plan (due (pg w)))"
  shows "checkpointed cp_total_input k (pg w') + pending_volume vd_InputDelta k (pg w') =
      checkpointed cp_total_input k (pg w) + pending_volume vd_InputDelta k (pg w)
    \<and> checkpointed cp_total_output k (pg w') + pending_volume vd_OutputDelta k (pg w') =
      checkpointed cp_total_output k (pg w) + pending_volume vd_OutputDelta k (pg w)
    \<and> (\<exists>cs. pg w' = (pg w)\<lparr>volumes_checkpoint := cs\<rparr>)"
proof -
  note ck = BuildCheckpoints_run [OF assms]
  show ?thesis by (intro conjI checkpoints_totals [OF ck] checkpoints_only [OF ck]) simp_all
qed

text \<open>C27. When the database does not fail and no more than a thousand buckets are due, a run succeeds and
  leaves no bucket with more than a hundred rows that no checkpoint covers.\<close>

theorem BuildCheckpoints_catches_up:
  assumes "\<And>k. fault E k = None" and "length (due (pg w)) \<le> 1000"
    and "set (plan (due (pg w))) = set (due (pg w))" "distinct (plan (due (pg w)))"
  shows "\<exists>w'. BuildCheckpoints E plan None w = (Inr (), w') \<and> (\<forall>k. length (uncheckpointed k (pg w')) \<le> 100)"
proof -
  let ?w = "w\<lparr>n_sql := Suc (n_sql w)\<rparr>" and ?cs = "take 1000 (plan (due (pg w)))"
  have "distinct (due (pg w))" using rollups_due [of "pg w"] by (simp add: rollups_def distinct_map)
  then have "length (plan (due (pg w))) = length (due (pg w))" using assms(3,4) by (metis distinct_card)
  then have all: "?cs = plan (due (pg w))" using assms(2) by simp
  obtain w' where b: "build_rows E ?cs 0 0 ?w = (Inr (0 + length ?cs, 0), w')" using build_rows_ok [OF assms(1)] by blast
  then have run: "BuildCheckpoints E plan None w = (Inr (), w')"
    using query_ok [where g = "\<lambda>now d. take 1000 (plan (due d))", OF assms(1)]
    by (simp add: BuildCheckpoints_def andThen_def mapErr_def)
  have "rollups (pg ?w) ?cs" using rollups_plan [where plan = plan and broken = None, OF assms(3,4)] by simp
  from build_rows_run [OF b this] have clear: "\<forall>k\<in>checkpoint_key ` set ?cs. uncheckpointed k (pg w') = []"
    and rest: "\<forall>k. k \<notin> checkpoint_key ` set ?cs \<longrightarrow> uncheckpointed k (pg w') = uncheckpointed k (pg w)" by simp_all
  have "length (uncheckpointed k (pg w')) \<le> 100" for k
  proof (cases "k \<in> checkpoint_key ` set (due (pg w))")
    case True
    then show ?thesis using clear all assms(3) by auto
  next
    case False
    have "k \<in> delta_key ` set (volumes_delta (pg w))" if "uncheckpointed k (pg w) \<noteq> []"
      using that by (auto simp: uncheckpointed_def filter_empty_conv)
    then have "\<not> 100 < length (uncheckpointed k (pg w))" using False by (force simp: due_def)
    moreover have "k \<notin> checkpoint_key ` set ?cs" using False all assms(3) by simp
    ultimately show ?thesis using rest by (metis not_le)
  qed
  then show ?thesis using run by blast
qed

text \<open>A hundred and one deposits into one account.\<close>

definition busy_db :: db where
  "busy_db = empty_db\<lparr>volumes_delta := map (\<lambda>i. \<lparr>vd_LedgerID = ''main'', vd_Account = ''alice'', vd_Asset = ''USD'',
     vd_Shard = 0, vd_EventID = ''e'' @ nat_String i, vd_ValidTime = int i, vd_SystemTime = int i,
     vd_InputDelta = 2, vd_OutputDelta = 0\<rparr>) [0..<101]\<rparr>"

definition busy_world :: world where
  "busy_world = blank_world\<lparr>pg := busy_db\<rparr>"

theorem BuildCheckpoints_catches_up_witness:
  "length (uncheckpointed (''main'', ''alice'', ''USD'', 0) (pg busy_world)) = 101 \<and>
   (\<exists>w'. BuildCheckpoints sample_env rev None busy_world = (Inr (), w') \<and> (\<forall>k. length (uncheckpointed k (pg w')) \<le> 100))"
proof -
  have n: "length (uncheckpointed (''main'', ''alice'', ''USD'', 0) (pg busy_world)) = 101" by code_simp
  have "length (due (pg busy_world)) \<le> 1000" by code_simp
  moreover have "fault sample_env k = None" for k by (simp add: sample_env_def)
  moreover have "distinct (rev (due (pg busy_world)))"
    using rollups_due [of "pg busy_world"] by (simp add: rollups_def distinct_map)
  ultimately show ?thesis using n BuildCheckpoints_catches_up [of sample_env busy_world rev] by simp
qed

theorem BuildCheckpoints_accounts_witness:
  "checkpointed cp_total_input (''main'', ''alice'', ''USD'', 0) (pg (snd (BuildCheckpoints sample_env rev None busy_world))) = 202"
proof -
  let ?k = "(''main'', ''alice'', ''USD'', 0)" and ?w = "snd (BuildCheckpoints sample_env rev None busy_world)"
  have "distinct (rev (due (pg busy_world)))"
    using rollups_due [of "pg busy_world"] by (simp add: rollups_def distinct_map)
  then have "checkpointed cp_total_input ?k (pg ?w) + pending_volume vd_InputDelta ?k (pg ?w) =
      checkpointed cp_total_input ?k (pg busy_world) + pending_volume vd_InputDelta ?k (pg busy_world)"
    using BuildCheckpoints_accounts [where k = ?k, OF surjective_pairing [of "BuildCheckpoints sample_env rev None busy_world"]] by simp
  moreover have "pending_volume vd_InputDelta ?k (pg ?w) = 0" by code_simp
  moreover have "checkpointed cp_total_input ?k (pg busy_world) = 0" by code_simp
  moreover have "pending_volume vd_InputDelta ?k (pg busy_world) = 202" by code_simp
  ultimately show ?thesis by simp
qed

end
