(* ===== verification/Bigamount.thy ===== *)
theory Bigamount
  imports Go_Std
begin

text \<open>
  Amounts, \<^verbatim>\<open>src/pkg/bigamount/amount.go\<close>: a wrapper of an optional (nil-able)
  arbitrary-precision integer in which nil counts as zero.
\<close>

datatype Amount = Amount (amount_value: "int option")

definition Zero_amount :: int where
  "Zero_amount = 0"

definition New :: "64 word \<Rightarrow> Amount" where
  "New v = Amount (Some (sint v))"

definition FromBigInt :: "int option \<Rightarrow> Amount" where
  "FromBigInt v = (case v of None \<Rightarrow> Amount (Some 0) | Some i \<Rightarrow> Amount (Some i))"

definition FromString :: "string \<Rightarrow> error + Amount" where
  "FromString s =
     (case SetString s of
        None \<Rightarrow> Inl (Errorf (''invalid amount string '' @ quoted s))
      | Some v \<Rightarrow> Inr (Amount (Some v)))"

text \<open>\<open>MustFromString\<close> panics where \<open>FromString\<close> returns an error: \<open>None\<close> is the panic.\<close>

definition MustFromString :: "string \<Rightarrow> Amount option" where
  "MustFromString s = (case FromString s of Inl e \<Rightarrow> None | Inr a \<Rightarrow> Some a)"

definition BigInt :: "Amount \<Rightarrow> int" where
  "BigInt a = (case amount_value a of None \<Rightarrow> 0 | Some v \<Rightarrow> v)"

definition String_amount :: "Amount \<Rightarrow> string" where
  "String_amount a = (case amount_value a of None \<Rightarrow> ''0'' | Some v \<Rightarrow> int_String v)"

definition IsZero :: "Amount \<Rightarrow> bool" where
  "IsZero a = (case amount_value a of None \<Rightarrow> True | Some v \<Rightarrow> v = 0)"

definition IsNegative :: "Amount \<Rightarrow> bool" where
  "IsNegative a = (case amount_value a of None \<Rightarrow> False | Some v \<Rightarrow> v < 0)"

definition IsPositive :: "Amount \<Rightarrow> bool" where
  "IsPositive a = (case amount_value a of None \<Rightarrow> False | Some v \<Rightarrow> 0 < v)"

definition Cmp :: "Amount \<Rightarrow> Amount \<Rightarrow> int" where
  "Cmp a b = sgn (BigInt a - BigInt b)"

definition Add :: "Amount \<Rightarrow> Amount \<Rightarrow> Amount" where
  "Add a b = Amount (Some (BigInt a + BigInt b))"

definition Sub :: "Amount \<Rightarrow> Amount \<Rightarrow> Amount" where
  "Sub a b = Amount (Some (BigInt a - BigInt b))"

definition Neg :: "Amount \<Rightarrow> Amount" where
  "Neg a = Amount (Some (- BigInt a))"

definition Copy :: "Amount \<Rightarrow> Amount" where
  "Copy a = FromBigInt (Some (BigInt a))"

lemma BigInt_simps [simp]:
  "BigInt (Add a b) = BigInt a + BigInt b" "BigInt (Sub a b) = BigInt a - BigInt b"
  "BigInt (Neg a) = - BigInt a" "BigInt (Copy a) = BigInt a"
  by (simp_all add: BigInt_def Add_def Sub_def Neg_def Copy_def FromBigInt_def)

lemma sign_predicates:
  "IsZero a \<longleftrightarrow> BigInt a = 0" "IsNegative a \<longleftrightarrow> BigInt a < 0" "IsPositive a \<longleftrightarrow> 0 < BigInt a"
  by (auto simp: IsZero_def IsNegative_def IsPositive_def BigInt_def split: option.splits)

lemma String_zero: "int_String 0 = ''0''"
  by (code_simp)

lemma String_amount_BigInt: "String_amount a = int_String (BigInt a)"
  by (simp add: String_amount_def BigInt_def String_zero split: option.split)

text \<open>Printing an amount and parsing the text back gives an amount of the same value,
  for every amount, nil and negative ones included.\<close>

theorem FromString_String:
  "FromString (String_amount a) = Inr (Amount (Some (BigInt a)))"
  by (simp add: FromString_def String_amount_BigInt)

text \<open>The sign tests, the comparison and the arithmetic of amounts are those of the
  integers they denote, nil counting as zero: exactly one of the three sign tests holds,
  and subtraction undoes addition.\<close>

theorem amount_arithmetic:
  "Cmp a b = (if BigInt a < BigInt b then - 1 else if BigInt a = BigInt b then 0 else 1)
   \<and> (IsZero (Sub a b) \<longleftrightarrow> Cmp a b = 0) \<and> (IsNegative (Sub a b) \<longleftrightarrow> Cmp a b = - 1)
   \<and> (IsPositive (Sub a b) \<longleftrightarrow> Cmp a b = 1)
   \<and> BigInt (Sub (Add a b) b) = BigInt a \<and> BigInt (Add a (Neg a)) = 0"
  by (simp add: Cmp_def sign_predicates sgn_if)

end
