(* ===== verification/Progress.thy ===== *)
theory Progress
  imports Planner_Post Sample
begin

text \<open>
  Posts succeed. The other theories say what an operation has done if it returns; here, with a weakest
  precondition for "returns a value and no error", it is shown that a post that should succeed does.
\<close>

section \<open>Running to a result\<close>

definition wp :: "'a prog \<Rightarrow> ('a \<Rightarrow> world \<Rightarrow> bool) \<Rightarrow> world \<Rightarrow> bool" where
  "wp m Q w \<longleftrightarrow> (case m w of (Inr x, w') \<Rightarrow> Q x w' | (Inl _, _) \<Rightarrow> False)"

named_theorems wp_rules \<open>weakest preconditions\<close>

lemma wp_mono: "wp m Q w \<Longrightarrow> (\<And>x w'. Q x w' \<Longrightarrow> R x w') \<Longrightarrow> wp m R w"
  by (auto simp: wp_def split: prod.splits sum.splits)

lemma wp_result: "wp m Q w \<Longrightarrow> \<exists>x w'. m w = (Inr x, w') \<and> Q x w'"
  by (auto simp: wp_def split: prod.splits sum.splits)

lemma wp_monad [wp_rules]:
  "wp (ok x) Q w \<longleftrightarrow> Q x w"
  "wp (andThen m f) R w \<longleftrightarrow> wp m (\<lambda>x. wp (f x) R) w"
  "wp (mapErr g m) Q w \<longleftrightarrow> wp m Q w"
  "wp (ofErr None) S w \<longleftrightarrow> S () w"
  "wp (ofSum (Inr x)) Q w \<longleftrightarrow> Q x w"
  "wp (getS h) Q w \<longleftrightarrow> Q (h w) w"
  "wp (putS k) S w \<longleftrightarrow> S () (k w)"
  "wp (whenM b n) S w \<longleftrightarrow> (if b then wp n S w else S () w)"
  by (auto simp: wp_def andThen_def mapErr_def ofErr_def ofSum_def getS_def putS_def whenM_def split: prod.splits sum.splits)

lemma wp_attempt: "m w = (r, v) \<Longrightarrow> wp (attempt m k) Q w \<longleftrightarrow> wp (k r) Q v"
  by (simp add: wp_def attempt_def)

text \<open>What fails is tried and forgotten.\<close>

lemma wp_attempt_ignored: "(\<And>r w'. m w = (r, w') \<Longrightarrow> Q x w') \<Longrightarrow> wp (attempt m (\<lambda>_. ok x)) Q w"
  by (cases "m w") (simp add: wp_def attempt_def)

text \<open>A database on which no statement fails for a reason of its own.\<close>

definition calm :: "env \<Rightarrow> bool" where
  "calm E \<longleftrightarrow> (\<forall>n. fault E n = None)"

lemma wp_statements [wp_rules]:
  "wp (ulid_Make E) Qs w \<longleftrightarrow> Qs (ulid E (n_ulid w)) (w\<lparr>n_ulid := Suc (n_ulid w)\<rparr>)"
  "wp (time_Now E) Qt w \<longleftrightarrow> Qt (clock E (n_clock w)) (w\<lparr>n_clock := Suc (n_clock w)\<rparr>)"
  by (simp_all add: wp_def ulid_Make_def time_Now_def)

lemma wp_stmt_Tx:
  assumes "calm E" "tx w = OpenTx d"
  shows "wp (stmt E Tx f) Q w \<longleftrightarrow> (case f (db_clock E (n_sql w)) d of
    Inl _ \<Rightarrow> False | Inr (x, d') \<Rightarrow> Q x (w\<lparr>n_sql := Suc (n_sql w), tx := OpenTx d'\<rparr>))"
  using assms by (auto simp: wp_def calm_def stmt_def Let_def split: sum.splits prod.splits)

lemma wp_query_Tx:
  assumes "calm E" "tx w = OpenTx d"
  shows "wp (query E Tx g) Q w \<longleftrightarrow> Q (g (db_clock E (n_sql w)) d) (w\<lparr>n_sql := Suc (n_sql w), tx := OpenTx d\<rparr>)"
  by (simp add: query_def wp_stmt_Tx [OF assms])

lemma wp_query_Pool:
  "calm E \<Longrightarrow> wp (query E Pool g) Q w \<longleftrightarrow> Q (g (db_clock E (n_sql w)) (pg w)) (w\<lparr>n_sql := Suc (n_sql w), pg := pg w\<rparr>)"
  by (simp add: wp_def calm_def query_def stmt_def Let_def)

text \<open>A loop that keeps an invariant of the part that is done.\<close>

lemma wp_forM:
  assumes "I [] w" and step: "\<And>xs y ys w. zs = xs @ y # ys \<Longrightarrow> I xs w \<Longrightarrow> wp (f y) (\<lambda>_. I (xs @ [y])) w"
    and "\<And>w'. I zs w' \<Longrightarrow> Q () w'"
  shows "wp (forM f zs) Q w"
proof -
  have "I xs w \<Longrightarrow> zs = xs @ ys \<Longrightarrow> wp (forM f ys) Q w" for xs ys w
  proof (induction ys arbitrary: xs w)
    case Nil
    then show ?case using assms(3) unfolding forM.simps wp_rules by simp
  next
    case (Cons y ys)
    show ?case unfolding forM.simps wp_rules
      by (rule wp_mono [OF step [OF Cons.prems(2,1)]]) (use Cons.IH [of "xs @ [y]"] Cons.prems(2) in simp)
  qed
  then show ?thesis using assms(1) by simp
qed

section \<open>The steps of a post\<close>

subsection \<open>Balances\<close>

text \<open>Reading leaves everything but the count of statements.\<close>

abbreviation viewing :: "world \<Rightarrow> db \<Rightarrow> world \<Rightarrow> bool" where
  "viewing w d w' \<equiv> tx w' = OpenTx d \<and> pg w' = pg w \<and> n_ulid w' = n_ulid w \<and> openBatch w' = openBatch w \<and>
     log_batches w' = log_batches w"

lemma wp_availableBalance:
  assumes "calm E" "tx w = OpenTx d" and Q: "\<And>w'. viewing w d w' \<Longrightarrow> Q (available l a s d) w'"
  shows "wp (availableBalance E l a s) Q w"
proof -
  have "total_input l a s d - total_output l a s d = posted l a s d" by (simp add: posted_def)
  then show ?thesis
    using assms by (simp add: availableBalance_def GetBalance_def GetActiveHoldsTotal_def wp_rules wp_query_Tx [OF assms(1)]
      Let_def as_of_def total_input_def total_output_def sum_where_def available_def)
qed

lemma wp_checkSourceBalance:
  assumes "calm E" "tx w = OpenTx d" "covered lr ins d (key, out)" and Q: "\<And>w'. viewing w d w' \<Longrightarrow> Q () w'"
  shows "wp (checkSourceBalance E lr ins key out) Q w"
proof (cases "IsIssuer (fst key) (lr_IssuerAccounts lr)")
  case True
  then show ?thesis using assms(2) Q by (simp add: checkSourceBalance_def wp_def)
next
  case False
  then have enough: "\<not> (case map_of ins key of None \<Rightarrow> available (lr_ID lr) (fst key) (snd key) d
      | Some netIn \<Rightarrow> available (lr_ID lr) (fst key) (snd key) d + netIn) < out"
    using assms(3) by (auto simp: covered_def split: option.splits)
  show ?thesis
    unfolding checkSourceBalance_def if_not_P [OF False] wp_monad(2)
    by (rule wp_availableBalance [OF assms(1,2)]) (simp add: if_not_P [OF enough] wp_def Q)
qed

lemma wp_checkSourceBalances:
  assumes "calm E" "tx w = OpenTx d" "list_all (covered lr ins d) os" and Q: "\<And>w'. viewing w d w' \<Longrightarrow> Q () w'"
  shows "wp (checkSourceBalances E lr os ins) Q w"
  unfolding checkSourceBalances_def
proof (rule wp_forM [where I = "\<lambda>_ w'. viewing w d w'"])
  show "wp (case e of (key, output) \<Rightarrow> checkSourceBalance E lr ins key output) (\<lambda>_ w'. viewing w d w') v"
    if "os = xs @ e # ys" "viewing w d v" for xs ys v and e :: "acctAsset \<times> int"
  proof (cases e)
    case (Pair key out)
    then have "covered lr ins d (key, out)" using assms(3) that(1) by simp
    then show ?thesis using that(2) Pair by (auto intro: wp_checkSourceBalance [OF assms(1)])
  qed
qed (use assms in auto)

subsection \<open>The event\<close>

text \<open>Identifiers still to come are not in use.\<close>

definition unused :: "string \<Rightarrow> db \<Rightarrow> bool" where
  "unused i d \<longleftrightarrow> (\<forall>e \<in> set (log_events d). ev_EventID e \<noteq> i) \<and> (\<forall>v \<in> set (volumes_delta d). vd_EventID v \<noteq> i) \<and>
     (\<forall>t \<in> set (transactions d). tr_transaction_id t \<noteq> i) \<and> (\<forall>m \<in> set (metadata_history d). mr_target_id m \<noteq> i)"

definition fresh_ids :: "env \<Rightarrow> world \<Rightarrow> bool" where
  "fresh_ids E w \<longleftrightarrow> (\<forall>n \<ge> n_ulid w. unused (ulid E n) (pg w) \<and> ulid E n \<notin> bt_BatchID ` set (log_batches w))"

text \<open>The batch the manager holds open for a ledger is in the table.\<close>

definition batch_stored :: "string \<Rightarrow> world \<Rightarrow> bool" where
  "batch_stored l w \<longleftrightarrow> (\<forall>st. map_of (openBatch w) l = Some st \<longrightarrow> ob_batchID st \<in> bt_BatchID ` set (log_batches w))"

lemma wp_CreateBatch:
  assumes "calm E" "bt_BatchID b \<notin> bt_BatchID ` set (log_batches w)"
    and "bt_PrevBatchID b = [] \<or> bt_PrevBatchID b \<in> bt_BatchID ` set (log_batches w)"
    and "\<And>w'. tx w' = tx w \<Longrightarrow> pg w' = pg w \<Longrightarrow> Q () w'"
  shows "wp (CreateBatch E b) Q w"
  unfolding CreateBatch_def wp_rules using assms by (auto simp: wp_def batch_stmt_def create_batch_sql_def calm_def Let_def)

lemma wp_CurrentBatchID:
  assumes "calm E" "batch_stored l w" "ulid E (n_ulid w) \<notin> bt_BatchID ` set (log_batches w)"
    and Q: "\<And>x w'. tx w' = tx w \<Longrightarrow> pg w' = pg w \<Longrightarrow> Q x w'"
  shows "wp (CurrentBatchID E l) Q w"
proof -
  have roll: "wp (roll_batch E l old) Q v" if "old = [] \<or> old \<in> bt_BatchID ` set (log_batches w)" "n_ulid v = n_ulid w"
      "log_batches v = log_batches w" "tx v = tx w" "pg v = pg w" for old v
    unfolding roll_batch_def wp_rules using that assms(3) Q
    by (intro wp_CreateBatch [OF assms(1)]) (simp_all add: wp_rules put_open_def)
  show ?thesis
    using assms(2) roll Q
    by (auto simp: CurrentBatchID_def wp_rules batch_stored_def put_open_def split: option.split)
qed

lemma next_seq_above: "e \<in> set (log_events d) \<Longrightarrow> ev_LedgerID e = l \<Longrightarrow> ev_LedgerSeq e < next_seq l d"
proof -
  assume "e \<in> set (log_events d)" "ev_LedgerID e = l"
  then have "ev_LedgerSeq e \<in> set (seqs l d)" by (auto simp: seqs_def)
  moreover have "x \<le> fold max ns n" if "x \<in> set (n # ns)" for x n and ns :: "int list"
    unfolding Max.set_eq_fold [symmetric] using that by (intro Max_ge) simp_all
  ultimately show ?thesis by (cases "seqs l d") (auto simp: next_seq_def zless_add1_eq order_le_less)
qed

text \<open>A key that no event of the ledger carries.\<close>

definition new_key :: "string \<Rightarrow> string \<Rightarrow> db \<Rightarrow> bool" where
  "new_key l k d \<longleftrightarrow> k = [] \<or> find_key l k d = None \<and> (\<forall>e \<in> set (log_events d). ev_LedgerID e = l \<longrightarrow> ev_IdempotencyKey e \<noteq> k)"

lemma wp_appendEvent:
  assumes "calm E" "tx w = OpenTx d" "fresh_ids E w" "unused (ulid E (n_ulid w)) d" "batch_stored l w" "new_key l k d"
    and Q: "\<And>ev w'. tx w' = OpenTx (d\<lparr>log_events := log_events d @ [ev]\<rparr>) \<Longrightarrow> Q (ulid E (n_ulid w), next_seq l d) w'"
  shows "wp (appendEvent E l ty payload k h vt now) Q w"
proof -
  have "wp (CurrentBatchID E l) R (w\<lparr>n_ulid := Suc (n_ulid w)\<rparr>)" if "\<And>x w'. tx w' = OpenTx d \<Longrightarrow> R x w'" for R
    using assms(2,3,5) that by (intro wp_CurrentBatchID [OF assms(1)]) (simp_all add: fresh_ids_def batch_stored_def)
  moreover have "\<not> list_ex (event_conflict (new_event (ulid E (n_ulid w)) l (next_seq l d) ty payload k h b vt now)) (log_events d)" for b
    using assms(4,6) next_seq_above
    by (fastforce simp: list_ex_iff event_conflict_def new_event_def unused_def new_key_def)
  ultimately show ?thesis
    using Q by (simp add: appendEvent_def wp_rules NextLedgerSeq_def AppendLogEvent_def wp_query_Tx [OF assms(1)]
      wp_stmt_Tx [OF assms(1)] append_event_sql_def)
qed

subsection \<open>Rows\<close>

text \<open>The rows a post writes for an account and an asset; two for the same clash.\<close>

definition ends :: "PostingInput \<Rightarrow> (string \<times> string) list" where
  "ends p = [(Source p, Asset p), (Destination p, Asset p)]"

definition written_for :: "string \<Rightarrow> PostingInput list \<Rightarrow> VolumeDeltaRecord list \<Rightarrow> bool" where
  "written_for i ps vs \<longleftrightarrow> (\<forall>v \<in> set vs. vd_EventID v = i \<longrightarrow> (vd_Account v, vd_Asset v) \<in> set (concat (map ends ps)))"

lemma wp_insertPosting:
  assumes "calm E" "tx w = OpenTx (d\<lparr>volumes_delta := vs\<rparr>)" "written_for i qs vs"
    and "distinct (concat (map ends (qs @ [p])))"
  shows "wp (insertPosting E l i vt now p) (\<lambda>_ w'. \<exists>us. tx w' = OpenTx (d\<lparr>volumes_delta := us\<rparr>) \<and> written_for i (qs @ [p]) us) w"
proof -
  let ?a = "vdelta l (Source p) (Asset p) i vt now 0 (amount_of p)" and ?b = "vdelta l (Destination p) (Asset p) i vt now (amount_of p) 0"
  have "Source p \<noteq> Destination p" "set (ends p) \<inter> set (concat (map ends qs)) = {}"
    using assms(4) by (auto simp: ends_def)
  then have ab: "\<not> list_ex (same_bucket ?a) vs" "\<not> list_ex (same_bucket ?b) (vs @ [?a])"
    using assms(3) by (fastforce simp: list_ex_iff same_bucket_def written_for_def ends_def)+
  have "written_for i (qs @ [p]) vs" "written_for i (qs @ [p]) (vs @ [?a, ?b])"
    using assms(3) by (auto simp: written_for_def ends_def)
  then show ?thesis
    using ab assms(2) by (auto simp: insertPosting_def wp_rules InsertVolumeDelta_def wp_stmt_Tx [OF assms(1)] insert_volume_sql_def)
qed

lemma wp_insertPostings:
  assumes "calm E" "tx w = OpenTx d" "\<forall>v \<in> set (volumes_delta d). vd_EventID v \<noteq> i" "distinct (concat (map ends ps))"
    and Q: "\<And>vs w'. tx w' = OpenTx (d\<lparr>volumes_delta := vs\<rparr>) \<Longrightarrow> Q () w'"
  shows "wp (insertPostings E l i vt now ps) Q w"
  unfolding insertPostings_def
proof (rule wp_forM [where I = "\<lambda>qs w. \<exists>vs. tx w = OpenTx (d\<lparr>volumes_delta := vs\<rparr>) \<and> written_for i qs vs"])
  show "\<exists>vs. tx w = OpenTx (d\<lparr>volumes_delta := vs\<rparr>) \<and> written_for i [] vs"
    using assms(2,3) by (intro exI [of _ "volumes_delta d"]) (auto simp: written_for_def)
  show "wp (insertPosting E l i vt now p) (\<lambda>_ w. \<exists>vs. tx w = OpenTx (d\<lparr>volumes_delta := vs\<rparr>) \<and> written_for i (qs @ [p]) vs) v"
    if "ps = qs @ p # rest" "\<exists>vs. tx v = OpenTx (d\<lparr>volumes_delta := vs\<rparr>) \<and> written_for i qs vs" for qs p rest v
  proof -
    have "distinct (concat (map ends (qs @ [p])))" using assms(4) that(1) by auto
    then show ?thesis using that(2) wp_insertPosting [OF assms(1)] by blast
  qed
qed (use Q in blast)

lemma wp_upsertTouched:
  assumes "calm E" "tx w = OpenTx d" and Q: "\<And>as w'. tx w' = OpenTx (d\<lparr>accounts := as\<rparr>) \<Longrightarrow> Q () w'"
  shows "wp (upsertTouched E l now addrs) Q w"
  unfolding upsertTouched_def
proof (rule wp_forM [where I = "\<lambda>_ w. \<exists>as. tx w = OpenTx (d\<lparr>accounts := as\<rparr>)"])
  show "\<exists>as. tx w = OpenTx (d\<lparr>accounts := as\<rparr>)" using assms(2) by (intro exI [of _ "accounts d"]) simp
  show "wp (mapErr (wrapped (''upserting account '' @ a @ '': '')) (UpsertAccount E Tx (touch l a now)))
      (\<lambda>_ w. \<exists>as. tx w = OpenTx (d\<lparr>accounts := as\<rparr>)) v"
    if "\<exists>as. tx v = OpenTx (d\<lparr>accounts := as\<rparr>)" for a v
    using that by (auto simp: wp_rules UpsertAccount_def wp_stmt_Tx [OF assms(1)] upsert_account_sql_def Let_def)
qed (use Q in blast)

lemma wp_recordIfKeyed:
  assumes "calm E" "tx w = OpenTx d" "k = [] \<or> find_key l k d = None" and Q: "\<And>d' w'. tx w' = OpenTx d' \<Longrightarrow> Q () w'"
  shows "wp (recordIfKeyed E l k i h) Q w"
proof -
  have "wp (InsertIdempotencyKey E Tx r) (\<lambda>_ w'. \<exists>d'. tx w' = OpenTx d') w"
    if "find_key (ik_LedgerID r) (ik_IdempotencyKey r) d = None" for r
    using that by (simp add: InsertIdempotencyKey_def wp_rules wp_stmt_Tx [OF assms(1,2)] insert_key_sql_def)
  from wp_result [OF this, of "\<lparr>ik_LedgerID = l, ik_IdempotencyKey = k, ik_IdempotencyHash = hash_bytes h, ik_EventID = i, ik_CreatedAt = 0\<rparr>"]
  have "k \<noteq> [] \<Longrightarrow> wp (recordIdempotency E l k i h) Q w"
    using assms(3) Q by (auto simp: recordIdempotency_def wp_def attempt_def)
  then show ?thesis using assms(2) Q by (simp add: recordIfKeyed_def wp_rules)
qed

section \<open>A post that should succeed does\<close>

text \<open>The requirements of a post, apart from the balances.\<close>

definition postable :: "env \<Rightarrow> LedgerRecord \<Rightarrow> PostingInput list \<Rightarrow> string \<Rightarrow> string \<Rightarrow> world \<Rightarrow> bool" where
  "postable E lr ps ref k w \<longleftrightarrow>
     validatePostings ps = None \<and> distinct (concat (map ends ps)) \<and>
     feature lr featureSchemaEnforcement \<notin> {SchemaStrict, SchemaBestEffort} \<and>
     fresh_ids E w \<and> batch_stored (lr_ID lr) w \<and> new_key (lr_ID lr) k (pg w) \<and>
     (ref \<noteq> [] \<longrightarrow> (\<forall>t \<in> set (transactions (pg w)). tr_ledger_id t = lr_ID lr \<longrightarrow> tr_reference t \<noteq> Some ref))"

lemma wp_InsertTransaction:
  assumes "calm E" "tx w = OpenTx d" "\<forall>t \<in> set (transactions d). tr_transaction_id t \<noteq> tx_TransactionID r"
    and "tx_Reference r \<noteq> [] \<longrightarrow> (\<forall>t \<in> set (transactions d). tr_ledger_id t = tx_LedgerID r \<longrightarrow> tr_reference t \<noteq> Some (tx_Reference r))"
    and Q: "\<And>ts w'. tx w' = OpenTx (d\<lparr>transactions := ts\<rparr>) \<Longrightarrow> Q () w'"
  shows "wp (InsertTransaction E Tx r) Q w"
proof -
  have "\<not> list_ex (\<lambda>t. tr_ledger_id t = tx_LedgerID r \<and> (tr_transaction_id t = tx_TransactionID r \<or>
      nullIfEmpty (tx_Reference r) \<noteq> None \<and> tr_reference t = nullIfEmpty (tx_Reference r))) (transactions d)"
    using assms(3,4) by (auto simp: list_ex_iff nullIfEmpty_def split: if_splits)
  then show ?thesis
    using Q by (simp add: InsertTransaction_def wp_rules wp_stmt_Tx [OF assms(1,2)] insert_transaction_sql_def Let_def)
qed

lemma wp_InsertMetadataHistory:
  assumes "calm E" "tx w = OpenTx d" "\<forall>m \<in> set (metadata_history d). mr_target_id m \<noteq> mh_TargetID r"
    and Q: "\<And>ms w'. tx w' = OpenTx (d\<lparr>metadata_history := ms\<rparr>) \<Longrightarrow> Q () w'"
  shows "wp (InsertMetadataHistory E Tx r) Q w"
proof -
  have "\<not> list_ex (\<lambda>m. mr_ledger_id m = mh_LedgerID r \<and> mr_target_type m = mh_TargetType r \<and>
      mr_target_id m = mh_TargetID r \<and> mr_revision m = mh_Revision r) (metadata_history d)"
    using assms(3) by (auto simp: list_ex_iff)
  then show ?thesis
    using Q by (simp add: InsertMetadataHistory_def wp_rules wp_stmt_Tx [OF assms(1,2)] insert_history_sql_def)
qed

text \<open>The rows after the event, in the view \<open>d\<close>.\<close>

lemma wp_post_rows:
  assumes "calm E" "tx w = OpenTx d"
    and "\<forall>t \<in> set (transactions d). tr_transaction_id t \<noteq> tx_TransactionID r"
    and "tx_Reference r \<noteq> [] \<longrightarrow> (\<forall>t \<in> set (transactions d). tr_ledger_id t = tx_LedgerID r \<longrightarrow> tr_reference t \<noteq> Some (tx_Reference r))"
    and "\<forall>m \<in> set (metadata_history d). mr_target_id m \<noteq> mh_TargetID mr"
    and "\<forall>v \<in> set (volumes_delta d). vd_EventID v \<noteq> i" "distinct (concat (map ends ps))" "k = [] \<or> find_key l k d = None"
    and Q: "\<And>d' w'. tx w' = OpenTx d' \<Longrightarrow> Q x w'"
  shows "wp (andThen (mapErr g (InsertTransaction E Tx r)) (\<lambda>_.
       andThen (whenM b (mapErr g' (InsertMetadataHistory E Tx mr))) (\<lambda>_.
       andThen (insertPostings E l i vt now ps) (\<lambda>_.
       andThen (upsertTouched E l now as) (\<lambda>_.
       andThen (recordIfKeyed E l k i h) (\<lambda>_. ok x)))))) Q w"
proof -
  have rest: "wp (insertPostings E l i vt now ps) (\<lambda>_. wp (upsertTouched E l now as) (\<lambda>_. wp (recordIfKeyed E l k i h) (\<lambda>_. Q x))) v"
    if "tx v = OpenTx e" "volumes_delta e = volumes_delta d" "idempotency_keys e = idempotency_keys d" for v :: world and e
  proof (rule wp_insertPostings [OF assms(1) that(1) _ assms(7)])
    fix vs and v1 :: world assume v1: "tx v1 = OpenTx (e\<lparr>volumes_delta := vs\<rparr>)"
    show "wp (upsertTouched E l now as) (\<lambda>_. wp (recordIfKeyed E l k i h) (\<lambda>_. Q x)) v1"
    proof (rule wp_upsertTouched [OF assms(1) v1])
      fix bs and v2 :: world assume "tx v2 = OpenTx (e\<lparr>volumes_delta := vs, accounts := bs\<rparr>)"
      then show "wp (recordIfKeyed E l k i h) (\<lambda>_. Q x) v2"
        by (rule wp_recordIfKeyed [OF assms(1)]) (use that(3) assms(8) Q in \<open>auto simp: find_key_def\<close>)
    qed
  qed (use that(2) assms(6) in simp)
  show ?thesis
    unfolding wp_rules
  proof (rule wp_InsertTransaction [OF assms(1,2,3,4)])
    fix ts and v :: world assume v: "tx v = OpenTx (d\<lparr>transactions := ts\<rparr>)"
    have "wp (InsertMetadataHistory E Tx mr) (\<lambda>_. wp (insertPostings E l i vt now ps)
        (\<lambda>_. wp (upsertTouched E l now as) (\<lambda>_. wp (recordIfKeyed E l k i h) (\<lambda>_. Q x)))) v"
      by (rule wp_InsertMetadataHistory [OF assms(1) v]) (use assms(5) in simp, auto intro: rest)
    then show "if b then wp (InsertMetadataHistory E Tx mr) (\<lambda>_. wp (insertPostings E l i vt now ps)
        (\<lambda>_. wp (upsertTouched E l now as) (\<lambda>_. wp (recordIfKeyed E l k i h) (\<lambda>_. Q x)))) v
      else wp (insertPostings E l i vt now ps) (\<lambda>_. wp (upsertTouched E l now as) (\<lambda>_. wp (recordIfKeyed E l k i h) (\<lambda>_. Q x))) v"
      using rest [OF v] by simp
  qed
qed

lemma wp_doPostInTx:
  assumes "calm E" "tx w = OpenTx (pg w)" "postable E lr ps ref k w" "list_all (covered lr (netInputs ps) (pg w)) (netOutputs ps)"
  shows "wp (doPostInTx E lr ps ref md k h vt now False) (\<lambda>x w'. (\<exists>d. tx w' = OpenTx d) \<and> \<not> IdempotentHit x) w"
proof -
  note p = assms(3) [unfolded postable_def]
  have ids: "unused (ulid E (n_ulid w)) (pg w)" "unused (ulid E (Suc (n_ulid w))) (pg w)"
    using p by (simp_all add: fresh_ids_def)
  have checks: "wp (ofErr (validatePostings ps)) (\<lambda>_. wp (enforceSchema E lr ps)
      (\<lambda>_. wp (checkSourceBalances E lr (netOutputs ps) (netInputs ps)) R)) w"
    if "\<And>w'. viewing w (pg w) w' \<Longrightarrow> R () w'" for R
    using p wp_checkSourceBalances [OF assms(1,2,4), of R] that by (simp add: enforceSchema_def Let_def wp_rules)
  have rows: "\<forall>t \<in> set (transactions (pg w)). tr_transaction_id t \<noteq> ulid E (n_ulid w)"
    "\<forall>m \<in> set (metadata_history (pg w)). mr_target_id m \<noteq> ulid E (n_ulid w)"
    "\<forall>v \<in> set (volumes_delta (pg w)). vd_EventID v \<noteq> ulid E (Suc (n_ulid w))"
    using ids by (simp_all add: unused_def)
  show ?thesis
    unfolding doPostInTx_def Let_def if_False wp_monad(2) wp_statements
    apply (rule checks)
    apply (rule wp_appendEvent [OF assms(1), of _ "pg w"])
    subgoal by simp
    subgoal using p by (simp add: fresh_ids_def)
    subgoal using ids by simp
    subgoal using p by (simp add: batch_stored_def)
    subgoal using p by simp
    subgoal premises that
      unfolding prod.case by (rule wp_post_rows [OF assms(1) that(2)]) (use that(1) rows p in \<open>auto simp: submitted_def new_key_def find_key_def\<close>)
    done
qed

lemma wp_submitOnce:
  assumes "calm E" "\<And>v. tx v = OpenTx (pg w) \<Longrightarrow> viewing w (pg w) v \<Longrightarrow> wp work (\<lambda>x w'. (\<exists>d. tx w' = OpenTx d) \<and> P x) v"
  shows "wp (submitOnce E l k h ty False work) (\<lambda>x _. P x) w"
proof -
  have deferred: "wp (deferRollback m) (\<lambda>x _. P x) v \<longleftrightarrow> wp m (\<lambda>x _. P x) v" for m v
    by (auto simp: wp_def deferRollback_def attempt_def ofSum_def split: prod.splits sum.splits)
  have after: "wp (Commit E) (\<lambda>_. wp (whenM (k \<noteq> []) (postCommitIdempotency E l k (EventID x) h))
      (\<lambda>_. wp (publishEvent E l (EventID x) ty) (\<lambda>_. wp (ok x) (\<lambda>x _. P x)))) v" if "tx v = OpenTx d" "P x" for v d x
  proof -
    have "wp (publishEvent E l (EventID x) ty) (\<lambda>_ _. P x) u" for u
      using that(2) by (simp add: publishEvent_def wp_rules wp_attempt_ignored)
    moreover have "wp (postCommitIdempotency E l k (EventID x) h) (\<lambda>_. Q) u" if "\<And>u. Q u" for Q u
      using that by (simp add: postCommitIdempotency_def wp_attempt_ignored)
    ultimately show ?thesis
      using that assms(1) unfolding wp_rules by (simp add: wp_def [of "Commit E"] Commit_def calm_def Let_def)
  qed
  show ?thesis
    unfolding submitOnce_def wp_monad(2,3) if_False deferred
    using assms by (auto simp: wp_def [of "BeginTx E"] BeginTx_def calm_def Let_def intro!: wp_mono [OF assms(2)] after)
qed

text \<open>States that differ in nothing a post depends on.\<close>

abbreviation alike :: "world \<Rightarrow> world \<Rightarrow> bool" where
  "alike w v \<equiv> pg v = pg w \<and> n_ulid v = n_ulid w \<and> openBatch v = openBatch w \<and> log_batches v = log_batches w"

lemma postable_alike: "alike w v \<Longrightarrow> postable E lr ps ref k v \<longleftrightarrow> postable E lr ps ref k w"
  by (simp add: postable_def fresh_ids_def batch_stored_def)

lemma wp_checkIdempotency:
  assumes "calm E" "find_key l k (pg w) = None" "map_of (cache w) (idempotencyKey l k) = None" and Q: "\<And>v. alike w v \<Longrightarrow> Q None v"
  shows "wp (checkIdempotency E l k h) Q w"
proof -
  have "wp (GetIdempotencyKey E Pool l k) (\<lambda>row. wp (case row of None \<Rightarrow> ok None | Some r \<Rightarrow> f r) Q) v" if "alike w v" for v f
    using that assms(2) Q by (simp add: GetIdempotencyKey_def wp_query_Pool [OF assms(1)]) (simp add: wp_def)
  moreover obtain r v where c: "GetCachedKey E l k w = (r, v)" "alike w v" "r = Inr None \<or> (\<exists>e. r = Inl e)"
    using assms(3) by (cases "redis E (n_redis w)") (auto simp: GetCachedKey_def Let_def)
  ultimately show ?thesis
    using c(3) unfolding checkIdempotency_def wp_attempt [of "GetCachedKey E l k", OF c(1)] by (auto simp: wp_monad(2,3) c(2))
qed

lemma wp_withDeadlockRetry: "wp fn Q w \<Longrightarrow> wp (withDeadlockRetry E n fn) Q w"
  by (auto simp: wp_def withDeadlockRetry_def deadlockLoop.simps attempt_def split: prod.splits sum.splits)

lemma wp_submitWithIdempotency:
  assumes "calm E" "new_key l k (pg w)" "k \<noteq> [] \<longrightarrow> map_of (cache w) (idempotencyKey l k) = None"
    and work: "\<And>v. tx v = OpenTx (pg v) \<Longrightarrow> alike w v \<Longrightarrow> wp work (\<lambda>x w'. (\<exists>d. tx w' = OpenTx d) \<and> P x) v"
  shows "wp (submitWithIdempotency E l k h ty False work) (\<lambda>x _. P x) w"
proof -
  have "wp (withDeadlockRetry E maxDeadlockRetries (submitOnce E l k h ty False work)) (\<lambda>x _. P x) v" if "alike w v" for v
    using that by (intro wp_withDeadlockRetry wp_submitOnce [OF assms(1)] work) auto
  then have once: "wp (attempt (withDeadlockRetry E maxDeadlockRetries (submitOnce E l k h ty False work))
      (\<lambda>r. case r of Inr x \<Rightarrow> ok x | Inl e \<Rightarrow> f e)) (\<lambda>x _. P x) v" if "alike w v" for v f
    using that by (force simp: wp_def attempt_def split: prod.splits sum.splits)
  show ?thesis
  proof (cases "k = []")
    case True
    then show ?thesis using once by (simp add: submitWithIdempotency_def wp_monad(1,2))
  next
    case False
    then show ?thesis
      using assms(2,3) once by (auto simp: submitWithIdempotency_def wp_monad(2) new_key_def intro!: wp_checkIdempotency [OF assms(1)])
  qed
qed

lemma wp_checkLedgerNotSealed:
  assumes "calm E" "open_ledger l (pg w) lr" and Q: "\<And>v. alike w v \<Longrightarrow> cache v = cache w \<Longrightarrow> Q lr v"
  shows "wp (checkLedgerNotSealed E l) Q w"
proof -
  obtain row where "find_ledger l (pg w) = Some row" "ledger_record row = Inr lr" "lr_State lr \<noteq> ledgerStateSealed"
    using assms(2) by (auto simp: open_ledger_def ledger_record_simps)
  then show ?thesis
    using Q unfolding checkLedgerNotSealed_def GetLedger_def wp_monad(2,3) wp_query_Pool [OF assms(1)]
    by (simp add: wp_monad(5)) (simp add: wp_def)
qed

lemma SubmitPost_returns:
  assumes "calm E" "open_ledger l (pg w) lr" "postable E lr ps ref k w" "list_all (covered lr (netInputs ps) (pg w)) (netOutputs ps)"
    and "k \<noteq> [] \<longrightarrow> map_of (cache w) (idempotencyKey l k) = None"
  shows "wp (SubmitPost E l ps ref md k validTime False) (\<lambda>x _. \<not> IdempotentHit x) w"
proof -
  have v: "validatePostings ps = None" and k: "new_key l k (pg w)"
    using assms(3) open_ledger_id [OF assms(2)] by (simp_all add: postable_def)
  have "wp (submitWithIdempotency E l k h ty False (doPostInTx E lr ps ref md k h vt now False)) (\<lambda>x _. \<not> IdempotentHit x) v"
    if "alike w v" "cache v = cache w" for v h ty vt now
  proof (rule wp_submitWithIdempotency [OF assms(1)])
    show "new_key l k (pg v)" "k \<noteq> [] \<longrightarrow> map_of (cache v) (idempotencyKey l k) = None"
      using that k assms(5) by simp_all
    show "wp (doPostInTx E lr ps ref md k h vt now False) (\<lambda>x w'. (\<exists>d. tx w' = OpenTx d) \<and> \<not> IdempotentHit x) u"
      if "tx u = OpenTx (pg u)" "alike v u" for u
      using that \<open>alike w v\<close> assms(3,4) postable_alike [of w u] by (intro wp_doPostInTx [OF assms(1)]) auto
  qed
  then show ?thesis
    unfolding SubmitPost_def Let_def v wp_monad(2,4) wp_statements
    by (intro wp_checkLedgerNotSealed [OF assms(1,2)]) simp
qed

section \<open>A post that is not covered is refused\<close>

text \<open>The same for "returns an error".\<close>

definition ep :: "'a prog \<Rightarrow> (error \<Rightarrow> bool) \<Rightarrow> world \<Rightarrow> bool" where
  "ep m P w \<longleftrightarrow> (case m w of (Inl e, _) \<Rightarrow> P e | (Inr _, _) \<Rightarrow> False)"

lemma ep_result: "ep m P w \<Longrightarrow> \<exists>e w'. m w = (Inl e, w') \<and> P e"
  by (auto simp: ep_def split: prod.splits sum.splits)

lemma ep_andThen:
  "ep m P w \<Longrightarrow> ep (andThen m f) P w"
  "wp m (\<lambda>x. ep (f x) P) w \<Longrightarrow> ep (andThen m f) P w"
  by (auto simp: ep_def wp_def andThen_def split: prod.splits sum.splits)

definition insufficient :: "error \<Rightarrow> bool" where
  "insufficient e \<longleftrightarrow> (\<exists>s. e = suffixed ErrInsufficientFunds s)"

lemma insufficientI: "insufficient (suffixed ErrInsufficientFunds s)"
  by (auto simp: insufficient_def)

lemma insufficient_is:
  "insufficient e \<Longrightarrow> errors_is e ErrInsufficientFunds \<and> \<not> errors_is e ErrDeadlock \<and> \<not> errors_is e ErrIdempotencyKeyConflict"
  by (auto simp: insufficient_def)

lemma ep_checkSourceBalance:
  assumes "calm E" "tx w = OpenTx d" "\<not> covered lr ins d (key, out)"
  shows "ep (checkSourceBalance E lr ins key out) insufficient w"
proof -
  have short: "\<not> IsIssuer (fst key) (lr_IssuerAccounts lr)" "(case map_of ins key of None \<Rightarrow> available (lr_ID lr) (fst key) (snd key) d
      | Some netIn \<Rightarrow> available (lr_ID lr) (fst key) (snd key) d + netIn) < out"
    using assms(3) by (auto simp: covered_def split: option.splits)
  show ?thesis
    unfolding checkSourceBalance_def if_not_P [OF short(1)]
    by (rule ep_andThen(2), rule wp_availableBalance [OF assms(1,2)]) (simp add: if_P [OF short(2)] ep_def insufficientI)
qed

lemma ep_checkSourceBalances:
  assumes "calm E" "tx w = OpenTx d" "\<not> list_all (covered lr ins d) os"
  shows "ep (checkSourceBalances E lr os ins) insufficient w"
  using assms(2,3) unfolding checkSourceBalances_def
proof (induction os arbitrary: w)
  case (Cons e os)
  obtain key out where e: "e = (key, out)" by (cases e)
  show ?case
  proof (cases "covered lr ins d e")
    case True
    then have "wp (checkSourceBalance E lr ins key out)
        (\<lambda>_. ep (forM (\<lambda>(key, out). checkSourceBalance E lr ins key out) os) insufficient) w"
      using Cons e by (intro wp_checkSourceBalance [OF assms(1) Cons.prems(1)]) auto
    then show ?thesis by (simp add: e ep_andThen(2))
  next
    case False
    then show ?thesis
      using ep_checkSourceBalance [OF assms(1) Cons.prems(1)] by (simp add: e ep_andThen(1))
  qed
qed simp

lemma ep_submitWithIdempotency:
  assumes "calm E" "new_key l k (pg w)" "k \<noteq> [] \<longrightarrow> map_of (cache w) (idempotencyKey l k) = None"
    and work: "\<And>v. tx v = OpenTx (pg v) \<Longrightarrow> alike w v \<Longrightarrow> ep work insufficient v"
  shows "ep (submitWithIdempotency E l k h ty dry work) insufficient w"
proof -
  have once: "ep (submitOnce E l k h ty dry work) insufficient v" if "alike w v" for v
  proof -
    let ?v = "v\<lparr>n_sql := Suc (n_sql v), tx := OpenTx (pg v)\<rparr>"
    have "ep work insufficient ?v" by (rule work) (use that in simp_all)
    then obtain e u where "work ?v = (Inl e, u)" "insufficient e" using ep_result by blast
    then show ?thesis
      using assms(1) by (simp add: submitOnce_def ep_def andThen_def mapErr_def BeginTx_def calm_def Let_def deferRollback_def
        attempt_def ofSum_def split: prod.split)
  qed
  have rest: "ep (attempt (withDeadlockRetry E maxDeadlockRetries (submitOnce E l k h ty dry work)) (\<lambda>r.
         case r of Inr result \<Rightarrow> ok result
         | Inl e \<Rightarrow> if k \<noteq> [] \<and> isIdempotencyConflict e then resolveIdempotencyConflict E l k else fail e)) insufficient v"
    if "alike w v" for v
    using ep_result [OF once [OF that]]
    by (auto simp: ep_def attempt_def withDeadlockRetry_def deadlockLoop.simps [of E 10000] insufficient_is isIdempotencyConflict_def)
  show ?thesis
  proof (cases "k = []")
    case True
    then show ?thesis unfolding submitWithIdempotency_def by (intro ep_andThen(2)) (use rest [of w] in \<open>simp add: wp_def\<close>)
  next
    case False
    show ?thesis
      unfolding submitWithIdempotency_def if_P [OF False]
    proof (rule ep_andThen(2), rule wp_checkIdempotency [OF assms(1)])
      show "find_key l k (pg w) = None" "map_of (cache w) (idempotencyKey l k) = None"
        using assms(2,3) False by (simp_all add: new_key_def)
    qed (simp only: option.case, rule rest)
  qed
qed

lemma SubmitPost_refused:
  assumes "calm E" "open_ledger l (pg w) lr" "postable E lr ps ref k w" "\<not> list_all (covered lr (netInputs ps) (pg w)) (netOutputs ps)"
    and "k \<noteq> [] \<longrightarrow> map_of (cache w) (idempotencyKey l k) = None"
  shows "ep (SubmitPost E l ps ref md k validTime dry) insufficient w"
proof -
  have v: "validatePostings ps = None" and k: "new_key l k (pg w)" and f: "feature lr featureSchemaEnforcement \<notin> {SchemaStrict, SchemaBestEffort}"
    using assms(3) open_ledger_id [OF assms(2)] by (simp_all add: postable_def)
  have work: "ep (doPostInTx E lr ps ref md k h vt now dry) insufficient u" if "tx u = OpenTx (pg w)" for u h vt now
  proof -
    have schema: "wp (enforceSchema E lr ps) Q u \<longleftrightarrow> Q () u" for Q using f by (simp add: enforceSchema_def Let_def wp_rules)
    show ?thesis
      unfolding doPostInTx_def Let_def
      by (rule ep_andThen(2), simp only: v wp_monad(4), rule ep_andThen(2), simp only: schema, rule ep_andThen(1),
          rule ep_checkSourceBalances [OF assms(1) that assms(4)])
  qed
  have sub: "ep (submitWithIdempotency E l k h ty dry (doPostInTx E lr ps ref md k h vt now dry)) insufficient v"
    if "alike w v" "cache v = cache w" for v h ty vt now
    using that k assms(5) work by (intro ep_submitWithIdempotency [OF assms(1)]) auto
  show ?thesis
    unfolding SubmitPost_def Let_def v
    by (rule ep_andThen(2), simp only: wp_monad(4), rule ep_andThen(2), rule wp_checkLedgerNotSealed [OF assms(1,2)],
        rule ep_andThen(2), simp only: wp_statements) (rule sub, simp_all)
qed

text \<open>C5. A post goes through if and only if it is covered. Let the postings be well formed, no account appear twice
  with the same asset, the ledger be open and enforce no schema, the key and the reference be new, the identifiers to come be
  unused and no statement of the database fail. Then the post succeeds, with the balances moved by its
  postings, exactly if every account that pays more than it receives is an issuer or has that much
  available; otherwise it is refused for insufficient funds and nothing changes.\<close>

theorem SubmitPost_iff_covered:
  assumes "calm E" "open_ledger l (pg w) lr" "postable E lr ps ref k w" "k \<noteq> [] \<longrightarrow> map_of (cache w) (idempotencyKey l k) = None"
    and run: "SubmitPost E l ps ref md k validTime False w = (r, w')"
  shows "if list_all (covered lr (netInputs ps) (pg w)) (netOutputs ps)
    then \<exists>x. r = Inr x \<and> \<not> IdempotentHit x \<and>
      (\<forall>a s. posted l a s (pg w') = posted l a s (pg w) + inflow ps a s - outflow ps a s)
    else \<exists>e. r = Inl e \<and> errors_is e ErrInsufficientFunds \<and> pg w' = pg w"
proof -
  have same: "lr' = lr" if "open_ledger l (pg w) lr'" for lr' using that assms(2) by (auto simp: open_ledger_def)
  have out: "(\<exists>e. r = Inl e) \<and> pg w' = pg w \<or> (\<exists>x. r = Inr x \<and> IdempotentHit x \<and> pg w' = pg w) \<or>
    (\<exists>x h vt now. r = Inr x \<and> post_effect lr ps k h vt now False (pg w) x (pg w'))"
    using SubmitPost_run [OF run] same by (auto simp: outcome_def)
  show ?thesis
  proof (cases "list_all (covered lr (netInputs ps) (pg w)) (netOutputs ps)")
    case True
    have "\<exists>x. r = Inr x \<and> \<not> IdempotentHit x"
      using wp_result [OF SubmitPost_returns [OF assms(1-3) True assms(4), of md validTime]] run by auto
    then show ?thesis
      using True out post_effect_posted(1) open_ledger_id [OF assms(2)] by fastforce
  next
    case False
    have "\<exists>e. r = Inl e \<and> insufficient e"
      using ep_result [OF SubmitPost_refused [OF assms(1-3) False assms(4), of md validTime False]] run by auto
    then show ?thesis using False out insufficient_is by auto
  qed
qed

subsection \<open>An example\<close>

definition sample_ledger :: LedgerRecord where
  "sample_ledger = projr (ledger_record (hd (ledgers (pg funded_world))))"

lemma open_sample_ledger: "open_ledger ''main'' (pg funded_world) sample_ledger"
  unfolding open_ledger_def
proof (intro exI conjI)
  show "find_ledger ''main'' (pg funded_world) = Some (hd (ledgers (pg funded_world)))" by code_simp
  show "ledger_record (hd (ledgers (pg funded_world))) = Inr sample_ledger" by code_simp
  show "lg_state (hd (ledgers (pg funded_world))) \<noteq> ledgerStateSealed" by code_simp
qed

lemma sample_ids: "ulid sample_env m = ulid sample_env n \<longleftrightarrow> m = n"
  by (metis parse_nat_String option.inject same_append_eq sample_env_def env.select_convs(1))

lemma fresh_funded: "fresh_ids sample_env funded_world"
proof -
  have "n_ulid funded_world = 3" by code_simp
  moreover have "list_all (\<lambda>e. ev_EventID e = ulid sample_env 1) (log_events (pg funded_world))"
    "list_all (\<lambda>v. vd_EventID v = ulid sample_env 1) (volumes_delta (pg funded_world))"
    "list_all (\<lambda>t. tr_transaction_id t = ulid sample_env 0) (transactions (pg funded_world))"
    "metadata_history (pg funded_world) = []"
    "list_all (\<lambda>b. bt_BatchID b = ulid sample_env 2) (log_batches funded_world)" by code_simp+
  ultimately show ?thesis by (fastforce simp: fresh_ids_def unused_def list_all_iff sample_ids)
qed

definition sample_post :: "int \<Rightarrow> (error + SubmitResult) \<times> world" where
  "sample_post n = SubmitPost sample_env ''main'' [transfer ''alice'' ''bob'' n] [] None ''k2'' None False funded_world"

lemma sample_postable: "n \<in> {30, 300} \<Longrightarrow> postable sample_env sample_ledger [transfer ''alice'' ''bob'' n] [] ''k2'' funded_world"
proof -
  assume n: "n \<in> {30, 300}"
  have "validatePostings [transfer ''alice'' ''bob'' 30] = None" "validatePostings [transfer ''alice'' ''bob'' 300] = None" by code_simp+
  moreover have "feature sample_ledger featureSchemaEnforcement \<notin> {SchemaStrict, SchemaBestEffort}" by code_simp
  moreover have "lr_ID sample_ledger = ''main''" by code_simp
  moreover have "find_key ''main'' ''k2'' (pg funded_world) = None" by code_simp
  moreover have "\<forall>e \<in> set (log_events (pg funded_world)). ev_IdempotencyKey e \<noteq> ''k2''" by code_simp
  moreover have "map_of (openBatch funded_world) ''main'' = Some \<lparr>ob_batchID = ulid sample_env 2, ob_openedAt = 1001, ob_eventCount = 1\<rparr>"
    "ulid sample_env 2 \<in> set (map bt_BatchID (log_batches funded_world))" by code_simp+
  ultimately show ?thesis
    using n fresh_funded by (auto simp: postable_def ends_def transfer_def batch_stored_def new_key_def)
qed

theorem SubmitPost_iff_covered_witness:
  "posted ''main'' ''bob'' ''USD'' (pg (snd (sample_post 30))) = 30 \<and> fresh (sample_post 30) \<and>
   (\<exists>e. fst (sample_post 300) = Inl e \<and> errors_is e ErrInsufficientFunds) \<and> pg (snd (sample_post 300)) = pg funded_world"
proof -
  have calm: "calm sample_env" by (simp add: calm_def sample_env_def)
  have key: "''k2'' \<noteq> [] \<longrightarrow> map_of (cache funded_world) (idempotencyKey ''main'' ''k2'') = None" by code_simp
  have cov: "list_all (covered sample_ledger (netInputs [transfer ''alice'' ''bob'' 30]) (pg funded_world)) (netOutputs [transfer ''alice'' ''bob'' 30])"
    "\<not> list_all (covered sample_ledger (netInputs [transfer ''alice'' ''bob'' 300]) (pg funded_world)) (netOutputs [transfer ''alice'' ''bob'' 300])"
    by code_simp+
  have bob: "posted ''main'' ''bob'' ''USD'' (pg funded_world) = 0" by code_simp
  note run = SubmitPost_iff_covered [OF calm open_sample_ledger sample_postable key, unfolded prod_eq_iff]
  have "\<exists>x. fst (sample_post 30) = Inr x \<and> \<not> IdempotentHit x \<and> (\<forall>a s. posted ''main'' a s (pg (snd (sample_post 30))) =
      posted ''main'' a s (pg funded_world) + inflow [transfer ''alice'' ''bob'' 30] a s - outflow [transfer ''alice'' ''bob'' 30] a s)"
    using run [of 30 None None "fst (sample_post 30)" "snd (sample_post 30)"] cov(1) by (simp add: sample_post_def)
  moreover have "\<exists>e. fst (sample_post 300) = Inl e \<and> errors_is e ErrInsufficientFunds \<and> pg (snd (sample_post 300)) = pg funded_world"
    using run [of 300 None None "fst (sample_post 300)" "snd (sample_post 300)"] cov(2) by (simp add: sample_post_def)
  ultimately show ?thesis using bob by (auto simp: fresh_def inflow_def outflow_def transfer_def amount_of_def)
qed

end
