(* ===== verification/Sdk.thy ===== *)
theory Sdk
  imports Api_Server Bigamount
begin

text \<open>
  The Go client library, \<^verbatim>\<open>src/pkg/sdk\<close>: validation before sending, the transaction builder, the
  methods that build requests, following of pages, and the bearer token. A method of the client is the
  error it returns without asking the server, or the request it sends; \<open>call\<close> is the connection.
\<close>

subsection \<open>Validation\<close>

definition validateAccount :: "string \<Rightarrow> string \<Rightarrow> error option" where
  "validateAccount what addr = map_option (wrapped (what @ '': '')) (Accounts.Validate addr)"

definition validateAsset :: "string \<Rightarrow> string \<Rightarrow> error option" where
  "validateAsset what asset = map_option (wrapped (what @ '': '')) (Assets.Validate asset)"

definition validateAmount :: "string \<Rightarrow> string \<Rightarrow> error option" where
  "validateAmount what amount =
     (case FromString amount of
        Inl e \<Rightarrow> Some (wrapped (what @ '': '') e)
      | Inr a \<Rightarrow>
          if \<not> IsPositive a then Some (Errorf (what @ '': amount must be positive, got '' @ quoted amount))
          else None)"

text \<open>The first of the checks that fails.\<close>

fun first_error :: "error option list \<Rightarrow> error option" where
  "first_error [] = None"
| "first_error (Some e # _) = Some e"
| "first_error (None # es) = first_error es"

definition validatePosting :: "string \<Rightarrow> string \<Rightarrow> string \<Rightarrow> string \<Rightarrow> error option" where
  "validatePosting source destination amount asset =
     first_error [validateAccount ''source'' source, validateAccount ''destination'' destination,
       validateAsset ''asset'' asset, validateAmount ''amount'' amount]"

subsection \<open>The transaction builder\<close>

record TransactionBuilder =
  tb_ledgerID :: string
  tb_postings :: "Posting list"
  tb_reference :: string
  tb_metadata :: "pb_metadata option"
  tb_ik :: string
  tb_dryRun :: bool

definition NewTransaction :: "string \<Rightarrow> TransactionBuilder" where
  "NewTransaction ledgerID = \<lparr>tb_ledgerID = ledgerID, tb_postings = [], tb_reference = [], tb_metadata = None,
     tb_ik = [], tb_dryRun = False\<rparr>"

definition Post_tb :: "string \<Rightarrow> string \<Rightarrow> string \<Rightarrow> string \<Rightarrow> TransactionBuilder \<Rightarrow> TransactionBuilder" where
  "Post_tb source destination amount asset b = b\<lparr>tb_postings := tb_postings b @
     [\<lparr>pp_Source = source, pp_Destination = destination, pp_Amount = amount, pp_Asset = asset\<rparr>]\<rparr>"

definition WithReference :: "string \<Rightarrow> TransactionBuilder \<Rightarrow> TransactionBuilder" where
  "WithReference ref b = b\<lparr>tb_reference := ref\<rparr>"

definition WithIdempotencyKey :: "string \<Rightarrow> TransactionBuilder \<Rightarrow> TransactionBuilder" where
  "WithIdempotencyKey key b = b\<lparr>tb_ik := key\<rparr>"

definition WithMetadata :: "string \<Rightarrow> string \<Rightarrow> TransactionBuilder \<Rightarrow> TransactionBuilder" where
  "WithMetadata key value b = b\<lparr>tb_metadata :=
     Some (obj_put key (Some (StringValue value)) (case tb_metadata b of None \<Rightarrow> [] | Some m \<Rightarrow> m))\<rparr>"

definition DryRun_tb :: "TransactionBuilder \<Rightarrow> TransactionBuilder" where
  "DryRun_tb b = b\<lparr>tb_dryRun := True\<rparr>"

fun validate_built :: "nat \<Rightarrow> Posting list \<Rightarrow> error option" where
  "validate_built i [] = None"
| "validate_built i (p # ps) =
     (case validatePosting (pp_Source p) (pp_Destination p) (pp_Amount p) (pp_Asset p) of
        Some e \<Rightarrow> Some (wrapped (''posting '' @ nat_String i @ '': '') e)
      | None \<Rightarrow> validate_built (Suc i) ps)"

definition Submit_tb :: "TransactionBuilder \<Rightarrow> error + request" where
  "Submit_tb b =
     (if tb_postings b = [] then Inl (Errorf ''at least one posting is required'')
      else
        (case validate_built 0 (tb_postings b) of
           Some e \<Rightarrow> Inl e
         | None \<Rightarrow> Inr (Submit_request (Some (Intent (tb_ledgerID b) None (tb_ik b) (tb_reference b) (tb_metadata b)
             (Intent_Post (tb_postings b)) (tb_dryRun b))))))"

subsection \<open>Other writes\<close>

datatype SubmitOption = WithIK string | WithDestinationHint string

fun apply_option :: "SubmitOption \<Rightarrow> Intent \<Rightarrow> Intent" where
  "apply_option (WithIK key) (Intent l vt ik ref md oper dry) = Intent l vt key ref md oper dry"
| "apply_option (WithDestinationHint hint) (Intent l vt ik ref md oper dry) =
     Intent l vt ik ref md
       (case oper of Intent_Authorize a \<Rightarrow> Intent_Authorize (a\<lparr>au_DestinationHint := hint\<rparr>) | _ \<Rightarrow> oper) dry"

definition applySubmitOptions :: "Intent \<Rightarrow> SubmitOption list \<Rightarrow> Intent" where
  "applySubmitOptions intent opts = foldl (\<lambda>i opt. apply_option opt i) intent opts"

definition submit_request :: "string \<Rightarrow> Operation \<Rightarrow> SubmitOption list \<Rightarrow> request" where
  "submit_request ledgerID oper opts =
     Submit_request (Some (applySubmitOptions (Intent ledgerID None [] [] None oper False) opts))"

definition Authorize_sdk :: "string \<Rightarrow> string \<Rightarrow> string \<Rightarrow> string \<Rightarrow> time \<Rightarrow> SubmitOption list \<Rightarrow> error + request" where
  "Authorize_sdk ledgerID source asset amount expiresAt opts =
     (case first_error [validateAccount ''source'' source, validateAsset ''asset'' asset, validateAmount ''amount'' amount] of
        Some e \<Rightarrow> Inl e
      | None \<Rightarrow> Inr (submit_request ledgerID (Intent_Authorize \<lparr>au_Source = source, au_DestinationHint = [],
          au_Amount = amount, au_Asset = asset, au_ExpiresAt = Some expiresAt\<rparr>) opts))"

definition Capture_sdk :: "string \<Rightarrow> string \<Rightarrow> string \<Rightarrow> string \<Rightarrow> SubmitOption list \<Rightarrow> error + request" where
  "Capture_sdk ledgerID holdID amount destination opts =
     (if holdID = [] then Inl (Errorf ''hold_id is required'')
      else
        (case first_error [validateAmount ''amount'' amount,
            if destination \<noteq> [] then validateAccount ''destination'' destination else None] of
           Some e \<Rightarrow> Inl e
         | None \<Rightarrow> Inr (submit_request ledgerID (Intent_Capture \<lparr>ca_HoldId = holdID, ca_Amount = amount,
             ca_Destination = destination\<rparr>) opts)))"

definition Void_sdk :: "string \<Rightarrow> string \<Rightarrow> SubmitOption list \<Rightarrow> error + request" where
  "Void_sdk ledgerID holdID opts =
     (if holdID = [] then Inl (Errorf ''hold_id is required'')
      else Inr (submit_request ledgerID (Intent_Void holdID) opts))"

definition Revert_sdk :: "string \<Rightarrow> string \<Rightarrow> bool \<Rightarrow> SubmitOption list \<Rightarrow> request" where
  "Revert_sdk ledgerID txID force opts =
     submit_request ledgerID (Intent_Revert \<lparr>re_OriginalTransactionId = txID, re_Force = force,
       re_AtEffectiveDate = False, re_Reason = []\<rparr>) opts"

definition Amend_sdk :: "string \<Rightarrow> string \<Rightarrow> pb_metadata \<Rightarrow> SubmitOption list \<Rightarrow> request" where
  "Amend_sdk ledgerID txID metadata opts = submit_request ledgerID (Intent_Amend txID metadata) opts"

record ConvertParams_sdk =
  sp_Source :: string
  sp_Destination :: string
  sp_SourceAmount :: string
  sp_SourceAsset :: string
  sp_DestAmount :: string
  sp_DestAsset :: string
  sp_Rate :: string
  sp_RateSource :: string
  sp_SlippageAccount :: string
  sp_SlippageAmount :: string

definition Convert_sdk :: "string \<Rightarrow> ConvertParams_sdk \<Rightarrow> SubmitOption list \<Rightarrow> error + request" where
  "Convert_sdk ledgerID params opts =
     (case first_error ([validateAccount ''source'' (sp_Source params),
          validateAccount ''destination'' (sp_Destination params),
          validateAsset ''source_asset'' (sp_SourceAsset params), validateAsset ''dest_asset'' (sp_DestAsset params),
          validateAmount ''source_amount'' (sp_SourceAmount params), validateAmount ''dest_amount'' (sp_DestAmount params)] @
          (if sp_SlippageAmount params \<noteq> [] then
             [validateAccount ''slippage_account'' (sp_SlippageAccount params),
              validateAmount ''slippage_amount'' (sp_SlippageAmount params)] else [])) of
        Some e \<Rightarrow> Inl e
      | None \<Rightarrow> Inr (submit_request ledgerID (Intent_Convert \<lparr>co_Source = sp_Source params,
          co_Destination = sp_Destination params, co_SourceAmount = sp_SourceAmount params,
          co_SourceAsset = sp_SourceAsset params, co_DestinationAmount = sp_DestAmount params,
          co_DestinationAsset = sp_DestAsset params, co_Rate = sp_Rate params, co_RateSource = sp_RateSource params,
          co_SlippageAccount = sp_SlippageAccount params, co_SlippageAmount = sp_SlippageAmount params\<rparr>) opts))"

subsection \<open>Ledgers and reads\<close>

datatype CreateLedgerOption = WithBucket string | WithLedgerMetadata "(string \<times> string) list"

fun apply_ledger_option :: "CreateLedgerOption \<Rightarrow> CreateLedgerRequest \<Rightarrow> CreateLedgerRequest" where
  "apply_ledger_option (WithBucket b) r = r\<lparr>clr_BucketId := b\<rparr>"
| "apply_ledger_option (WithLedgerMetadata meta) r = r\<lparr>clr_Metadata := Some meta\<rparr>"

definition CreateLedger_sdk :: "string \<Rightarrow> CreateLedgerOption list \<Rightarrow> request" where
  "CreateLedger_sdk ledgerID opts = CreateLedger_request (foldl (\<lambda>r opt. apply_ledger_option opt r)
     \<lparr>clr_Id = ledgerID, clr_BucketId = ''_default'', clr_Metadata = None\<rparr> opts)"

definition GetLedger_sdk :: "string \<Rightarrow> request" where
  "GetLedger_sdk ledgerID = GetLedger_request ledgerID"

definition SealLedger_sdk :: "string \<Rightarrow> request" where
  "SealLedger_sdk ledgerID = SealLedger_request ledgerID"

definition GetTransaction_sdk :: "string \<Rightarrow> string \<Rightarrow> request" where
  "GetTransaction_sdk ledgerID txID = GetTransaction_request ledgerID txID"

definition GetAccount_sdk :: "string \<Rightarrow> string \<Rightarrow> request" where
  "GetAccount_sdk ledgerID address = GetAccount_request ledgerID address"

definition GetBalance_sdk :: "string \<Rightarrow> string \<Rightarrow> string \<Rightarrow> request" where
  "GetBalance_sdk ledgerID account asset = GetBalance_request \<lparr>gbq_LedgerId = ledgerID, gbq_Account = account,
     gbq_Asset = asset, gbq_AsOfValid = None, gbq_AsOfSystem = None, gbq_IncludeHolds = False\<rparr>"

definition GetHold_sdk :: "string \<Rightarrow> string \<Rightarrow> request" where
  "GetHold_sdk ledgerID holdID = GetHold_request ledgerID holdID"

definition GetRelationships_sdk :: "string \<Rightarrow> string \<Rightarrow> int \<Rightarrow> request" where
  "GetRelationships_sdk ledgerID txID depth = GetRelationships_request ledgerID txID (int32 depth)"

definition defaultListPageSize :: int where "defaultListPageSize = 1000"

text \<open>The loop that follows the pages of a list; no outcome when the fuel runs out.\<close>

fun follow_pages :: "nat \<Rightarrow> (string \<Rightarrow> ('a list \<times> string) prog) \<Rightarrow> string \<Rightarrow> 'a list \<Rightarrow> 'a list option prog" where
  "follow_pages 0 page pageToken xs = ok None"
| "follow_pages (Suc fuel) page pageToken xs =
     andThen (page pageToken) (\<lambda>(ys, nextToken).
     if nextToken = [] \<or> nextToken = pageToken then ok (Some (xs @ ys))
     else follow_pages fuel page nextToken (xs @ ys))"

text \<open>A reply of another kind than the method's is a decoding error of the connection.\<close>

definition decoding_error :: error where
  "decoding_error = Status Internal (Errorf ''failed to unmarshal the received message'')"

definition ListLedgers_sdk :: "nat \<Rightarrow> (request \<Rightarrow> reply prog) \<Rightarrow> Ledger list option prog" where
  "ListLedgers_sdk fuel call = follow_pages fuel (\<lambda>pageToken.
     andThen (call (ListLedgers_request \<lparr>PageSize = defaultListPageSize, PageToken = pageToken\<rparr>)) (\<lambda>r.
     case r of Ledgers_reply ls nextToken \<Rightarrow> ok (ls, nextToken) | _ \<Rightarrow> fail decoding_error)) [] []"

definition ListHolds_sdk :: "nat \<Rightarrow> (request \<Rightarrow> reply prog) \<Rightarrow> string \<Rightarrow> string \<Rightarrow> Hold list option prog" where
  "ListHolds_sdk fuel call ledgerID account = follow_pages fuel (\<lambda>pageToken.
     andThen (call (ListHolds_request ledgerID \<lparr>PageSize = defaultListPageSize, PageToken = pageToken\<rparr> account)) (\<lambda>r.
     case r of Holds_reply hs nextToken \<Rightarrow> ok (hs, nextToken) | _ \<Rightarrow> fail decoding_error)) [] []"

subsection \<open>The connection\<close>

text \<open>\<open>metadata.AppendToOutgoingContext\<close>; what a client sends out is what the server finds in its
  context.\<close>

definition withBearer :: "Context \<Rightarrow> string \<Rightarrow> Context" where
  "withBearer ctx tok =
     (let md = (case cx_metadata ctx of None \<Rightarrow> [] | Some md \<Rightarrow> md);
          vals = (case map_of md ''authorization'' of None \<Rightarrow> [] | Some vs \<Rightarrow> vs) in
      ctx\<lparr>cx_metadata := Some (obj_put ''authorization'' (vals @ [''Bearer '' @ tok]) md)\<rparr>)"

definition bearerUnaryInterceptor :: "string \<Rightarrow> (Context \<Rightarrow> request \<Rightarrow> reply prog) \<Rightarrow> Context \<Rightarrow> request \<Rightarrow> reply prog" where
  "bearerUnaryInterceptor tok invoker ctx req = invoker (withBearer ctx tok) req"

definition bearerStreamInterceptor :: "string \<Rightarrow> (Context \<Rightarrow> 'a prog) \<Rightarrow> Context \<Rightarrow> 'a prog" where
  "bearerStreamInterceptor tok streamer ctx = streamer (withBearer ctx tok)"

text \<open>A client with its options: a token, none if it is empty. \<open>NewClient\<close> makes the connection; options for
  it are passed on.\<close>

definition New_sdk :: "(string \<Rightarrow> error + (Context \<Rightarrow> request \<Rightarrow> reply prog)) \<Rightarrow> string \<Rightarrow> string \<Rightarrow>
    error + (Context \<Rightarrow> request \<Rightarrow> reply prog)" where
  "New_sdk NewClient addr tok =
     (case NewClient addr of
        Inl e \<Rightarrow> Inl (wrapped (''connecting to ledger at '' @ addr @ '': '') e)
      | Inr server \<Rightarrow> Inr (if tok \<noteq> [] then bearerUnaryInterceptor tok server else server))"

subsection \<open>Client and server agree\<close>

lemma validations_None:
  "validateAccount w a = None \<longleftrightarrow> Accounts.Validate a = None"
  "validateAsset w s = None \<longleftrightarrow> Assets.Validate s = None"
  "validateAmount w n = None \<longleftrightarrow> (\<exists>i. SetString n = Some i \<and> 0 < i)"
  by (auto simp: validateAccount_def validateAsset_def validateAmount_def FromString_def IsPositive_def
    split: option.splits sum.splits if_splits)

lemma first_error_None: "first_error es = None \<longleftrightarrow> (\<forall>e\<in>set es. e = None)"
  by (induction es rule: first_error.induct) auto

text \<open>A posting as it is on the wire, well formed.\<close>

definition good_posting :: "Posting \<Rightarrow> bool" where
  "good_posting p \<longleftrightarrow> (\<exists>a. SetString (pp_Amount p) = Some a \<and> valid_posting (posting_input p a))"

lemma validate_built_None: "validate_built i ps = None \<longleftrightarrow> list_all good_posting ps"
proof (induction ps arbitrary: i)
  case (Cons p ps)
  have "validatePosting (pp_Source p) (pp_Destination p) (pp_Amount p) (pp_Asset p) = None \<longleftrightarrow> good_posting p"
    by (auto simp: validatePosting_def first_error_None validations_None valid_posting_def posting_input_def good_posting_def)
  then show ?case using Cons.IH [of "Suc i"] by (auto split: option.splits)
qed simp

lemma posting_inputs_length: "posting_inputs i ps = Inr qs \<Longrightarrow> length qs = length ps"
  by (induction ps arbitrary: i qs) (auto split: sum.splits)

lemma posting_inputs_Cons:
  "posting_inputs i (p # ps) = Inr qs \<longleftrightarrow> (\<exists>a qs'. SetString (pp_Amount p) = Some a \<and>
     posting_inputs (Suc i) ps = Inr qs' \<and> qs = posting_input p a # qs')"
  by (auto simp: parse_amount_def split: option.splits sum.splits)

lemma posting_inputs_valid: "(\<exists>qs. posting_inputs i ps = Inr qs \<and> list_all valid_posting qs) \<longleftrightarrow> list_all good_posting ps"
proof (induction ps arbitrary: i)
  case (Cons p ps)
  have "(\<exists>qs. posting_inputs i (p # ps) = Inr qs \<and> list_all valid_posting qs) \<longleftrightarrow>
      good_posting p \<and> (\<exists>qs. posting_inputs (Suc i) ps = Inr qs \<and> list_all valid_posting qs)"
    unfolding posting_inputs_Cons good_posting_def by auto
  then show ?case by (simp only: Cons.IH list.pred_inject)
qed simp

text \<open>C32. The client library sends a transaction exactly if the server does not reject its postings as
  malformed: neither does it hold back anything the server would take, nor does the server refuse, for a
  malformed account, asset or amount, what the library has let through.\<close>

theorem sdk_server_agree:
  "(\<exists>req. Submit_tb b = Inr req) \<longleftrightarrow> (\<exists>qs. posting_inputs 0 (tb_postings b) = Inr qs \<and> validatePostings qs = None)"
proof -
  have "(\<exists>req. Submit_tb b = Inr req) \<longleftrightarrow> tb_postings b \<noteq> [] \<and> list_all good_posting (tb_postings b)"
    using validate_built_None [of 0 "tb_postings b"] by (auto simp: Submit_tb_def split: option.splits)
  moreover have "qs = [] \<longleftrightarrow> tb_postings b = []" if "posting_inputs 0 (tb_postings b) = Inr qs" for qs
    using posting_inputs_length [OF that] by auto
  ultimately show ?thesis
    unfolding validatePostings_None posting_inputs_valid [of 0 "tb_postings b", symmetric] by auto
qed

text \<open>The token a client was made with is the one the server verifies.\<close>

lemma bearer_roundtrip:
  assumes "tok \<noteq> []" "\<not> isSpace (hd tok)" "\<not> isSpace (last tok)" "cx_metadata ctx = None"
  shows "bearerToken (withBearer ctx tok) = Inr tok"
proof -
  have "dropWhile isSpace tok = tok" using assms(1,2) by (cases tok) auto
  moreover have "dropWhile isSpace (rev tok) = rev tok" using assms(1,3) by (cases "rev tok") (auto simp: last_rev)
  ultimately have "TrimSpace tok = tok" by (simp add: TrimSpace_def)
  then show ?thesis using assms
    by (simp add: bearerToken_def withBearer_def Let_def authorizationMetadataKey_def bearerPrefix_def EqualFold_def)
qed

end
