(* ===== verification/Migrations.thy ===== *)
theory Migrations
  imports Go_Std
begin

text \<open>
  The migrations of the database schema, \<open>MigrateUp\<close> and \<open>MigrateDown\<close> of
  \<^verbatim>\<open>src/internal/storage/postgres/postgres.go\<close>. The database is the table of the names of applied
  migrations, absent at first, and the objects of the schema, of a type of its own. What the script in a
  file does to them is the argument \<open>exec\<close>: it fails or gives the objects afterwards. The argument
  \<open>fate\<close> decides for each statement sent whether it fails, or takes effect although the
  answer is lost, as when the connection breaks; the number of statements sent is part of the state.
\<close>

datatype fate = Fine | Fails error | AppliedButFails error

record 's database =
  tracked :: "string list option"
  objects :: 's
  sent :: nat

text \<open>A statement that commits by itself, or a commit.\<close>

definition autocommit :: "(nat \<Rightarrow> fate) \<Rightarrow> ('s database \<Rightarrow> error + 'a \<times> 's database) \<Rightarrow> ('s database, 'a) io" where
  "autocommit fate f s =
     (let s1 = s\<lparr>sent := Suc (sent s)\<rparr> in
      case fate (sent s) of
        Fails e \<Rightarrow> (Inl e, s1)
      | AppliedButFails e \<Rightarrow> (Inl e, case f s1 of Inl _ \<Rightarrow> s1 | Inr (_, s2) \<Rightarrow> s2)
      | Fine \<Rightarrow> (case f s1 of Inl e \<Rightarrow> (Inl e, s1) | Inr (x, s2) \<Rightarrow> (Inr x, s2)))"

definition upFiles :: "string list" where
  "upFiles = [''001_init.up.sql'', ''010_holds.up.sql'', ''020_governance.up.sql'', ''030_approval_executing_at.up.sql'']"

definition downFiles :: "string list" where
  "downFiles = [''030_approval_executing_at.down.sql'', ''020_governance.down.sql'', ''010_holds.down.sql'', ''001_init.down.sql'']"

definition no_table :: error where "no_table = Errorf ''relation does not exist''"

definition create_tracking :: "'s database \<Rightarrow> error + unit \<times> 's database" where
  "create_tracking s = Inr ((), s\<lparr>tracked := Some (case tracked s of None \<Rightarrow> [] | Some t \<Rightarrow> t)\<rparr>)"

definition is_applied :: "string \<Rightarrow> 's database \<Rightarrow> error + bool \<times> 's database" where
  "is_applied file s = (case tracked s of None \<Rightarrow> Inl no_table | Some t \<Rightarrow> Inr (file \<in> set t, s))"

text \<open>The statements inside the transaction of a migration: each fails or works on the private view,
  which only the commit publishes.\<close>

definition in_migration_tx :: "(nat \<Rightarrow> fate) \<Rightarrow> ('s database \<Rightarrow> error + 's database) \<Rightarrow> 's database \<Rightarrow> error + 's database" where
  "in_migration_tx fate f v =
     (case fate (sent v) of
        Fine \<Rightarrow> f (v\<lparr>sent := Suc (sent v)\<rparr>)
      | Fails e \<Rightarrow> Inl e
      | AppliedButFails e \<Rightarrow> Inl e)"

definition run_script :: "(string \<Rightarrow> 's \<Rightarrow> error + 's) \<Rightarrow> string \<Rightarrow> 's database \<Rightarrow> error + 's database" where
  "run_script exec file s = (case exec file (objects s) of Inl e \<Rightarrow> Inl e | Inr x \<Rightarrow> Inr (s\<lparr>objects := x\<rparr>))"

definition record_migration :: "string \<Rightarrow> 's database \<Rightarrow> error + 's database" where
  "record_migration file s =
     (case tracked s of
        None \<Rightarrow> Inl no_table
      | Some t \<Rightarrow> if file \<in> set t then Inl (PgError UniqueViolation)
          else Inr (s\<lparr>tracked := Some (t @ [file])\<rparr>))"

text \<open>Begin, script, record, commit. Begin counts as a statement; a failure rolls back, and the
  numbers of the statements not sent are skipped. The files are part of the program, so reading them does
  not fail.\<close>

definition migrate_file :: "(nat \<Rightarrow> fate) \<Rightarrow> (string \<Rightarrow> 's \<Rightarrow> error + 's) \<Rightarrow> string \<Rightarrow> ('s database, unit) io" where
  "migrate_file fate exec file s =
     (let rolled_back = (\<lambda>text e. (Inl (wrapped (text @ file @ '': '') e), s\<lparr>sent := sent s + 4\<rparr>)) in
      case in_migration_tx fate Inr s of
        Inl e \<Rightarrow> rolled_back ''beginning migration tx '' e
      | Inr v \<Rightarrow>
          (case in_migration_tx fate (run_script exec file) v of
             Inl e \<Rightarrow> rolled_back ''running migration '' e
           | Inr v1 \<Rightarrow>
               (case in_migration_tx fate (record_migration file) v1 of
                  Inl e \<Rightarrow> rolled_back ''recording migration '' e
                | Inr v2 \<Rightarrow>
                    (case fate (sent v2) of
                       Fine \<Rightarrow> (Inr (), v2\<lparr>sent := Suc (sent v2)\<rparr>)
                     | Fails e \<Rightarrow> rolled_back ''committing migration '' e
                     | AppliedButFails e \<Rightarrow>
                         (Inl (wrapped (''committing migration '' @ file @ '': '') e), v2\<lparr>sent := Suc (sent v2)\<rparr>)))))"

definition migrate_up_step :: "(nat \<Rightarrow> fate) \<Rightarrow> (string \<Rightarrow> 's \<Rightarrow> error + 's) \<Rightarrow> string \<Rightarrow> ('s database, unit) io" where
  "migrate_up_step fate exec file =
     andThen (mapErr (wrapped (''checking migration status '' @ file @ '': '')) (autocommit fate (is_applied file))) (\<lambda>exists.
     if exists then ok () else migrate_file fate exec file)"

definition MigrateUp :: "(nat \<Rightarrow> fate) \<Rightarrow> (string \<Rightarrow> 's \<Rightarrow> error + 's) \<Rightarrow> ('s database, unit) io" where
  "MigrateUp fate exec =
     andThen (mapErr (wrapped ''creating schema_migrations table: '') (autocommit fate create_tracking)) (\<lambda>_.
     forM (migrate_up_step fate exec) upFiles)"

definition script_stmt :: "(string \<Rightarrow> 's \<Rightarrow> error + 's) \<Rightarrow> string \<Rightarrow> 's database \<Rightarrow> error + unit \<times> 's database" where
  "script_stmt exec file s = (case run_script exec file s of Inl e \<Rightarrow> Inl e | Inr s' \<Rightarrow> Inr ((), s'))"

definition MigrateDown :: "(nat \<Rightarrow> fate) \<Rightarrow> (string \<Rightarrow> 's \<Rightarrow> error + 's) \<Rightarrow> ('s database, unit) io" where
  "MigrateDown fate exec =
     forM (\<lambda>file. mapErr (wrapped (''running migration rollback '' @ file @ '': '')) (autocommit fate (script_stmt exec file))) downFiles"

text \<open>Opening a database for the commands; parsing the connection string and making the pool are the
  driver's.\<close>

definition NewStandalone :: "(string \<Rightarrow> error option) \<Rightarrow> (string \<Rightarrow> error option) \<Rightarrow> string \<Rightarrow> error option" where
  "NewStandalone ParseConfig NewWithConfig dsn =
     (case ParseConfig dsn of
        Some e \<Rightarrow> Some (wrapped ''parsing postgres dsn: '' e)
      | None \<Rightarrow> map_option (wrapped ''connecting to postgres: '') (NewWithConfig dsn))"

section \<open>Each migration is applied once\<close>

fun run_all :: "(string \<Rightarrow> 's \<Rightarrow> error + 's) \<Rightarrow> string list \<Rightarrow> 's \<Rightarrow> error + 's" where
  "run_all exec [] x = Inr x"
| "run_all exec (f # fs) x = (case exec f x of Inl e \<Rightarrow> Inl e | Inr y \<Rightarrow> run_all exec fs y)"

lemma run_all_snoc: "run_all exec fs x = Inr y \<Longrightarrow> run_all exec (fs @ [f]) x = exec f y"
  by (induction fs arbitrary: x) (auto split: sum.splits)

text \<open>The state after the first \<open>n\<close> migrations of a schema that was \<open>x0\<close>.\<close>

definition migrated :: "(string \<Rightarrow> 's \<Rightarrow> error + 's) \<Rightarrow> 's \<Rightarrow> nat \<Rightarrow> 's database \<Rightarrow> bool" where
  "migrated exec x0 n s \<longleftrightarrow> n \<le> length upFiles \<and> run_all exec (take n upFiles) x0 = Inr (objects s) \<and>
     (tracked s = Some (take n upFiles) \<or> tracked s = None \<and> n = 0)"

lemma migrated_same: "migrated exec x0 n s \<Longrightarrow> tracked s' = tracked s \<Longrightarrow> objects s' = objects s \<Longrightarrow> migrated exec x0 n s'"
  by (simp add: migrated_def)

lemma upFiles_distinct: "distinct upFiles"
  by (simp add: upFiles_def)

lemma upFiles_applied: "i < length upFiles \<Longrightarrow> upFiles ! i \<in> set (take n upFiles) \<longleftrightarrow> i < n"
  using upFiles_distinct by (auto simp: in_set_conv_nth nth_eq_iff_index_eq)

lemma migrate_file_cases:
  assumes "migrate_file fate exec file s = (r, s')"
  shows "tracked s' = tracked s \<and> objects s' = objects s \<and> r \<noteq> Inr () \<or>
    (\<exists>t. exec file (objects s) = Inr (objects s') \<and> tracked s = Some t \<and> tracked s' = Some (t @ [file]))"
  using assms
  by (auto simp: migrate_file_def in_migration_tx_def run_script_def record_migration_def Let_def
    split: fate.splits sum.splits option.splits if_splits)

lemma migrate_up_step_migrated:
  assumes s: "migrated exec x0 n s" and t: "tracked s \<noteq> None" and i: "i < length upFiles" "i \<le> n"
    and step: "migrate_up_step fate exec (upFiles ! i) s = (r, s')"
  shows "\<exists>m. n \<le> m \<and> migrated exec x0 m s' \<and> tracked s' \<noteq> None \<and> (r = Inr () \<longrightarrow> i < m)"
proof -
  have tr: "tracked s = Some (take n upFiles)" using s t by (simp add: migrated_def)
  obtain k where "s' = s\<lparr>sent := k\<rparr> \<and> (r = Inr () \<longrightarrow> i < n) \<or>
      \<not> i < n \<and> migrate_file fate exec (upFiles ! i) (s\<lparr>sent := k\<rparr>) = (r, s')"
    using step tr upFiles_applied [OF i(1)]
    by (auto simp: migrate_up_step_def andThen_def mapErr_def autocommit_def is_applied_def Let_def ok_def
      split: fate.splits if_splits)
  then consider (same) "s' = s\<lparr>sent := k\<rparr>" "r = Inr () \<longrightarrow> i < n"
    | (run) "n = i" "migrate_file fate exec (upFiles ! i) (s\<lparr>sent := k\<rparr>) = (r, s')"
    using i(2) by linarith
  then show ?thesis
  proof cases
    case same
    then show ?thesis using s t migrated_same [OF s, of s'] by (intro exI [of _ n]) simp
  next
    case run
    from migrate_file_cases [OF run(2)] show ?thesis
    proof (elim disjE exE conjE)
      assume "tracked s' = tracked (s\<lparr>sent := k\<rparr>)" "objects s' = objects (s\<lparr>sent := k\<rparr>)" "r \<noteq> Inr ()"
      then show ?thesis using t migrated_same [OF s, of s'] by (intro exI [of _ n]) simp
    next
      fix ts assume x: "exec (upFiles ! i) (objects (s\<lparr>sent := k\<rparr>)) = Inr (objects s')"
        "tracked (s\<lparr>sent := k\<rparr>) = Some ts" "tracked s' = Some (ts @ [upFiles ! i])"
      have "take (Suc n) upFiles = take n upFiles @ [upFiles ! i]"
        using i(1) run(1) by (simp add: take_Suc_conv_app_nth)
      moreover have "run_all exec (take n upFiles) x0 = Inr (objects s)" using s by (simp add: migrated_def)
      ultimately have "migrated exec x0 (Suc n) s'"
        using x tr i(1) run(1) run_all_snoc [of exec "take n upFiles" x0 "objects s" "upFiles ! i"]
        by (simp add: migrated_def)
      then show ?thesis using x run(1) by (intro exI [of _ "Suc n"]) auto
    qed
  qed
qed

lemma migrate_steps_migrated:
  assumes "migrated exec x0 n s" "tracked s \<noteq> None" "i \<le> n" "i \<le> length upFiles"
    and "forM (migrate_up_step fate exec) (drop i upFiles) s = (r, s')"
  shows "\<exists>m. n \<le> m \<and> migrated exec x0 m s' \<and> (r = Inr () \<longrightarrow> m = length upFiles)"
  using assms
proof (induction "length upFiles - i" arbitrary: i n s)
  case 0
  then show ?case by (auto simp: ok_def migrated_def intro: exI [of _ n])
next
  case (Suc j)
  then have i: "i < length upFiles" and d: "drop i upFiles = upFiles ! i # drop (Suc i) upFiles"
    by (simp_all add: Cons_nth_drop_Suc)
  obtain r1 s1 where step: "migrate_up_step fate exec (upFiles ! i) s = (r1, s1)" by force
  obtain m where m: "n \<le> m" "migrated exec x0 m s1" "tracked s1 \<noteq> None" "r1 = Inr () \<longrightarrow> i < m"
    using migrate_up_step_migrated [OF Suc.prems(1,2) i Suc.prems(3) step] by blast
  show ?case
  proof (cases r1)
    case (Inl e)
    then show ?thesis using Suc.prems(5) m by (auto simp: d step andThen_def)
  next
    case (Inr u)
    then have "forM (migrate_up_step fate exec) (drop (Suc i) upFiles) s1 = (r, s')"
      using Suc.prems(5) by (simp add: d step andThen_def)
    moreover have "j = length upFiles - Suc i" "Suc i \<le> m" "Suc i \<le> length upFiles"
      using Suc.hyps(2) m(4) Inr i by auto
    ultimately show ?thesis using Suc.hyps(1) [of "Suc i" m s1] m by (meson le_trans)
  qed
qed

lemma MigrateUp_migrated:
  assumes "migrated exec x0 n s" "MigrateUp fate exec s = (r, s')"
  shows "\<exists>m. n \<le> m \<and> migrated exec x0 m s' \<and> (r = Inr () \<longrightarrow> m = length upFiles)"
proof -
  obtain r1 s1 where c: "mapErr (wrapped ''creating schema_migrations table: '') (autocommit fate create_tracking) s = (r1, s1)"
    by force
  then have m: "migrated exec x0 n s1" "r1 = Inr () \<longrightarrow> tracked s1 \<noteq> None"
    using assms(1) by (auto simp: migrated_def mapErr_def autocommit_def create_tracking_def Let_def
      split: fate.splits option.splits)
  show ?thesis
  proof (cases r1)
    case (Inl e)
    then show ?thesis using assms(2) m c by (auto simp: MigrateUp_def andThen_def)
  next
    case (Inr u)
    then have "forM (migrate_up_step fate exec) (drop 0 upFiles) s1 = (r, s')"
      using assms(2) c by (simp add: MigrateUp_def andThen_def)
    then show ?thesis using migrate_steps_migrated [OF m(1) _ le0 le0] m(2) Inr by simp
  qed
qed

text \<open>A history of runs of \<open>MigrateUp\<close>, each with its own faults: the results and the final state.\<close>

fun migrate_runs :: "(string \<Rightarrow> 's \<Rightarrow> error + 's) \<Rightarrow> (nat \<Rightarrow> fate) list \<Rightarrow> 's database \<Rightarrow> (error + unit) list \<times> 's database" where
  "migrate_runs exec [] s = ([], s)"
| "migrate_runs exec (fate # fates) s =
     (case MigrateUp fate exec s of (r, s1) \<Rightarrow> (case migrate_runs exec fates s1 of (rs, s') \<Rightarrow> (r # rs, s')))"

text \<open>C31. However often the migration of a new database is broken off, by failing scripts, statements or
  connections, and started again, the scripts that have taken effect are the first of the list, in order, each exactly once,
  and they are the ones recorded. After a run that reports success they are all of them.\<close>

theorem migrations_exactly_once:
  assumes "tracked s = None" and "migrate_runs exec fates s = (rs, s')"
  shows "\<exists>n \<le> length upFiles. run_all exec (take n upFiles) (objects s) = Inr (objects s') \<and>
    (tracked s' = Some (take n upFiles) \<or> tracked s' = None \<and> n = 0) \<and>
    (Inr () \<in> set rs \<longrightarrow> n = length upFiles)"
proof -
  have "\<exists>m. n \<le> m \<and> migrated exec x0 m s' \<and> (Inr () \<in> set rs \<longrightarrow> m = length upFiles)"
    if "migrated exec x0 n s" "migrate_runs exec fates s = (rs, s')" for x0 n s fates rs
    using that
  proof (induction fates arbitrary: n s rs)
    case (Cons fate fates)
    obtain r s1 rs' where r: "MigrateUp fate exec s = (r, s1)" "migrate_runs exec fates s1 = (rs', s')" "rs = r # rs'"
      using Cons.prems(2) by (auto split: prod.splits)
    obtain m where m: "n \<le> m" "migrated exec x0 m s1" "r = Inr () \<longrightarrow> m = length upFiles"
      using MigrateUp_migrated [OF Cons.prems(1) r(1)] by blast
    obtain m' where m': "m \<le> m'" "migrated exec x0 m' s'" "Inr () \<in> set rs' \<longrightarrow> m' = length upFiles"
      using Cons.IH [OF m(2) r(2)] by blast
    moreover have "m' \<le> length upFiles" using m'(2) by (simp add: migrated_def)
    ultimately show ?case using m r(3) by (intro exI [of _ m']) auto
  qed auto
  from this [of "objects s" 0 s] assms show ?thesis by (auto simp: migrated_def)
qed

text \<open>The tables of the scripts. Creating a table that exists is an error, and so is altering one that does
  not; dropping is not.\<close>

definition script_tables :: "string \<Rightarrow> string list" where
  "script_tables n =
     (if n = ''001'' then [''_system.buckets'', ''_system.ledgers'', ''log_batches'', ''log_events'', ''idempotency_keys'',
        ''accounts'', ''transactions'', ''volumes_delta'', ''volumes_checkpoint'', ''schemas'', ''metadata_history'']
      else if n = ''010'' then [''holds'', ''transaction_relationships'']
      else if n = ''020'' then [''policies'', ''pending_approvals'']
      else [''pending_approvals.executing_at''])"

definition sql_script :: "string \<Rightarrow> string list \<Rightarrow> error + string list" where
  "sql_script file ts =
     (let new = script_tables (take 3 file) in
      if take 3 file = ''030'' \<and> ''pending_approvals'' \<notin> set ts then Inl no_table
      else if HasSuffix file ''.down.sql'' then Inr (filter (\<lambda>t. t \<notin> set new) ts)
      else if \<exists>t \<in> set new. t \<in> set ts then Inl (Errorf ''relation already exists'')
      else Inr (ts @ new))"

abbreviation new_database :: "string list database" where
  "new_database \<equiv> \<lparr>tracked = None, objects = [], sent = 0\<rparr>"

text \<open>The first run loses its connection in the second script, the second one the answer to a commit.\<close>

definition broken_runs :: "(nat \<Rightarrow> fate) list" where
  "broken_runs = [\<lambda>n. if n = 8 then Fails EOF else Fine, \<lambda>n. if n = 17 then AppliedButFails EOF else Fine, \<lambda>_. Fine]"

theorem migrations_exactly_once_witness:
  "map isl (fst (migrate_runs sql_script broken_runs new_database)) = [True, True, False] \<and>
   tracked (snd (migrate_runs sql_script broken_runs new_database)) = Some upFiles \<and>
   run_all sql_script upFiles [] = Inr (objects (snd (migrate_runs sql_script broken_runs new_database)))"
proof -
  let ?run = "migrate_runs sql_script broken_runs new_database"
  have "map isl (fst ?run) = [True, True, False]" by code_simp
  moreover have "last (fst ?run) = Inr ()" by code_simp
  ultimately have "Inr () \<in> set (fst ?run)" by (metis last_in_set list.map_disc_iff list.distinct(1))
  then show ?thesis
    using migrations_exactly_once [of new_database sql_script broken_runs "fst ?run" "snd ?run"]
      \<open>map isl (fst ?run) = _\<close> by (auto simp: upFiles_def)
qed

section \<open>Down and up again\<close>

lemma migrate_up_skips:
  assumes "tracked s = Some ts" "set fs \<subseteq> set ts"
  shows "\<exists>k. forM (migrate_up_step (\<lambda>_. Fine) exec) fs s = (Inr (), s\<lparr>sent := k\<rparr>)"
  using assms
proof (induction fs arbitrary: s)
  case Nil
  show ?case by (intro exI [of _ "sent s"]) (simp add: ok_def)
next
  case (Cons f fs)
  have "migrate_up_step (\<lambda>_. Fine) exec f s = (Inr (), s\<lparr>sent := Suc (sent s)\<rparr>)"
    using Cons.prems by (simp add: migrate_up_step_def andThen_def mapErr_def autocommit_def is_applied_def ok_def Let_def)
  then show ?case using Cons.IH [of "s\<lparr>sent := Suc (sent s)\<rparr>"] Cons.prems by (auto simp: andThen_def)
qed

lemma rollback_tracked:
  "forM (\<lambda>file. mapErr (g file) (autocommit fate (script_stmt exec file))) fs s = (r, s') \<Longrightarrow> tracked s' = tracked s"
proof (induction fs arbitrary: s)
  case (Cons f fs)
  obtain r1 s1 where s1: "mapErr (g f) (autocommit fate (script_stmt exec f)) s = (r1, s1)" by force
  then have "tracked s1 = tracked s"
    by (auto simp: mapErr_def autocommit_def script_stmt_def run_script_def Let_def split: fate.splits sum.splits)
  then show ?case using Cons s1 by (cases r1) (auto simp: andThen_def)
qed (simp add: ok_def)

text \<open>Rolling the migrations back does not forget that they were applied: applying them again reports
  success and does nothing, so the schema stays as the rollback left it.\<close>

theorem MigrateDown_not_undone:
  assumes "tracked s = None" "MigrateUp fate1 exec s = (Inr (), s1)" "MigrateDown fate2 exec s1 = (r, s2)"
  shows "\<exists>s3. MigrateUp (\<lambda>_. Fine) exec s2 = (Inr (), s3) \<and> objects s3 = objects s2"
proof -
  have "migrated exec (objects s) 0 s" using assms(1) by (simp add: migrated_def)
  from MigrateUp_migrated [OF this assms(2)] have "tracked s1 = Some upFiles"
    by (auto simp: migrated_def upFiles_def)
  then have t: "tracked s2 = Some upFiles" 
    using rollback_tracked [OF assms(3) [unfolded MigrateDown_def]] by simp
  define s2' where "s2' = s2\<lparr>sent := Suc (sent s2)\<rparr>"
  have "tracked s2' = Some upFiles" using t by (simp add: s2'_def)
  from migrate_up_skips [OF this subset_refl, of exec] obtain k
    where "forM (migrate_up_step (\<lambda>_. Fine) exec) upFiles s2' = (Inr (), s2'\<lparr>sent := k\<rparr>)" by blast
  moreover have "autocommit (\<lambda>_. Fine) create_tracking s2 = (Inr (), s2')"
    using t unfolding s2'_def by (cases s2) (simp add: autocommit_def create_tracking_def)
  ultimately show ?thesis by (simp add: MigrateUp_def andThen_def mapErr_def s2'_def)
qed

end
