(* ===== verification/Program.thy ===== *)
theory Program
  imports Config Worker Api_Auth
begin

text \<open>
  The programs: how \<^verbatim>\<open>src/cmd/server/main.go\<close> and \<^verbatim>\<open>src/cmd/worker/main.go\<close> are put together from a
  configuration. Fetching the keys that verify tokens is the argument \<open>jwks\<close>; of the HTTP server the
  model has the routes and the health checks, not the gateway, which is generated.
\<close>

section \<open>The server\<close>

text \<open>The key cache of the JWT library: registering an address, fetching it, and parsing with its keys.\<close>

record jwk_cache =
  jwk_Register :: "string \<Rightarrow> error option"
  jwk_Refresh :: "string \<Rightarrow> error option"
  jwk_Parse :: "string \<Rightarrow> jwt_options \<Rightarrow> string \<Rightarrow> error + token"

definition NewJWTAuthenticator :: "jwk_cache \<Rightarrow> string \<Rightarrow> string \<Rightarrow> string \<Rightarrow> error + Authenticator" where
  "NewJWTAuthenticator jwks jwksURL audience issuer =
     (if jwksURL = [] then Inl (Errorf ''auth: jwks url is required'')
      else
        (case jwk_Register jwks jwksURL of
           Some e \<Rightarrow> Inl (wrapped ''auth: registering jwks url: '' e)
         | None \<Rightarrow>
             (case jwk_Refresh jwks jwksURL of
                Some e \<Rightarrow> Inl (wrapped (''auth: fetching jwks from '' @ jwksURL @ '': '') e)
              | None \<Rightarrow> Inr (jwt_authenticator
                  \<lparr>ja_parse = jwk_Parse jwks jwksURL, ja_audience = audience, ja_issuer = issuer\<rparr>))))"

definition newAuthenticator :: "jwk_cache \<Rightarrow> Config \<Rightarrow> error + Authenticator" where
  "newAuthenticator jwks cfg =
     (case NewJWTAuthenticator jwks (JWKSURL (Auth cfg)) (Audience (Auth cfg)) (Issuer (Auth cfg)) of
        Inl e \<Rightarrow> Inl (wrapped ''initializing authenticator: '' e)
      | Inr authn \<Rightarrow> Inr authn)"

definition newRateLimiter :: "RateLimitConfig \<Rightarrow> Limiter option" where
  "newRateLimiter cfg = (if \<not> Enabled cfg then None else Some \<lparr>readRPS = ReadRPS cfg, writeRPS = WriteRPS cfg\<rparr>)"

definition maxRecvMsgBytes :: int where "maxRecvMsgBytes = 4 * 2 ^ 20"
definition maxConcurrentStreams :: int where "maxConcurrentStreams = 256"
definition grpcConnectionTimeout :: int where "grpcConnectionTimeout = 30 * Second"

record grpc_server =
  gs_authn :: Authenticator
  gs_limiter :: "Limiter option"
  gs_maxRecvMsgSize :: int
  gs_maxConcurrentStreams :: int
  gs_connectionTimeout :: int
  gs_health :: bool
  gs_reflection :: bool

definition newGRPCServer :: "Config \<Rightarrow> Authenticator \<Rightarrow> Limiter option \<Rightarrow> grpc_server" where
  "newGRPCServer cfg authn rl =
     \<lparr>gs_authn = authn, gs_limiter = rl, gs_maxRecvMsgSize = maxRecvMsgBytes, gs_maxConcurrentStreams = maxConcurrentStreams,
      gs_connectionTimeout = grpcConnectionTimeout, gs_health = True, gs_reflection = (Environment cfg = ''development'')\<rparr>"

text \<open>A call of a method of the service, through the interceptors of the server.\<close>

definition server_call ::
  "(bytes \<Rightarrow> error + BatchIntent) \<Rightarrow> env \<Rightarrow> grpc_server \<Rightarrow> Context \<Rightarrow> request \<Rightarrow> reply prog" where
  "server_call um E srv = serve um E (Some (gs_authn srv)) (gs_limiter srv)"

text \<open>What the container puts together.\<close>

definition start_server :: "jwk_cache \<Rightarrow> Config \<Rightarrow> error + grpc_server" where
  "start_server jwks cfg =
     (case newAuthenticator jwks cfg of
        Inl e \<Rightarrow> Inl e
      | Inr authn \<Rightarrow> Inr (newGRPCServer cfg authn (newRateLimiter (RateLimit cfg))))"

subsection \<open>HTTP\<close>

datatype http_answer = Response nat string | Redirect string | Gateway

definition Fprintln :: "string \<Rightarrow> string" where "Fprintln s = s @ [CHR 0x0A]"

text \<open>The database and Redis answer a ping or fail.\<close>

definition readyz :: "error option \<Rightarrow> error option \<Rightarrow> http_answer" where
  "readyz pg_ping redis_ping =
     (if pg_ping \<noteq> None then Response 503 (Fprintln ''postgres not ready'')
      else if redis_ping \<noteq> None then Response 503 (Fprintln ''redis not ready'')
      else Response 200 (Fprintln ''ok''))"

text \<open>The multiplexer, on a clean path; the documentation pages are the arguments.\<close>

definition http_route :: "string \<Rightarrow> (string \<Rightarrow> string) \<Rightarrow> error option \<Rightarrow> error option \<Rightarrow> string \<Rightarrow> http_answer" where
  "http_route SpecJSON swagger pg_ping redis_ping path =
     (if path = ''/healthz'' then Response 200 (Fprintln ''ok'')
      else if path = ''/readyz'' then readyz pg_ping redis_ping
      else if path = ''/openapi.json'' then Response 200 SpecJSON
      else if path = ''/swagger'' then Redirect ''/swagger/''
      else if HasPrefix path ''/swagger/'' then Response 200 (swagger path)
      else Gateway)"

record http_server =
  hs_Addr :: string
  hs_Handler :: "error option \<Rightarrow> error option \<Rightarrow> string \<Rightarrow> http_answer"
  hs_ReadHeaderTimeout :: int
  hs_IdleTimeout :: int

text \<open>Registering the gateway connects it to the gRPC server on this host, or fails.\<close>

definition newHTTPServer ::
  "(string \<Rightarrow> error option) \<Rightarrow> string \<Rightarrow> (string \<Rightarrow> string) \<Rightarrow> HTTPConfig \<Rightarrow> GRPCConfig \<Rightarrow> error + http_server" where
  "newHTTPServer RegisterHandler SpecJSON swagger cfg grpcCfg =
     (case RegisterHandler (''127.0.0.1:'' @ int_String (grpc_Port grpcCfg)) of
        Some e \<Rightarrow> Inl (wrapped ''registering grpc-gateway: '' e)
      | None \<Rightarrow> Inr \<lparr>hs_Addr = CHR '':'' # int_String (http_Port cfg), hs_Handler = http_route SpecJSON swagger,
          hs_ReadHeaderTimeout = 10 * Second, hs_IdleTimeout = 120 * Second\<rparr>)"

section \<open>The worker\<close>

text \<open>\<open>time.NewTicker\<close> panics on an interval that is not positive.\<close>

definition NewTicker :: "int \<Rightarrow> int option" where
  "NewTicker d = (if d \<le> 0 then None else Some d)"

text \<open>The jobs with their intervals. Thresholds of the planner are in microseconds.\<close>

definition startWorker :: "WorkerConfig \<Rightarrow> (int \<times> worker_job) list" where
  "startWorker cfg =
     [(BatchCloseInterval cfg, BatchClose), (CheckpointInterval cfg, CheckpointBuild),
      (HoldExpiryInterval cfg, HoldExpiry), (ApprovalExpiryInterval cfg, ApprovalExpiry (StuckApprovalThreshold cfg div 1000))]"

section \<open>Programs started from an accepted configuration\<close>

lemma unauthenticated_call:
  assumes "start_server jwks cfg = Inr srv" "bearerToken ctx = Inl err"
  shows "server_call um E srv ctx req w = (Inl auth_required, w)"
proof -
  obtain a where "gs_authn srv = jwt_authenticator a"
    using assms(1) by (auto simp: start_server_def newAuthenticator_def NewJWTAuthenticator_def newGRPCServer_def
      split: sum.splits option.splits if_splits)
  then show ?thesis
    using assms(2) by (simp add: server_call_def serve_def NewUnaryServerInterceptor_def FullMethod_not_exempt
      authenticateAndInject_def jwt_authenticator_def AuthenticateIdentity_def fail_def)
qed

text \<open>C30. A configuration that \<open>New\<close> accepts makes programs that run as intended: no ticker of the worker panics; the
  ports can be listened on; if rate limiting is enabled no method is unlimited; the server refuses every
  call without a bearer token and touches nothing; and outside development it offers no reflection, its keys
  are fetched over HTTPS and the connection string of the database does not contain \<open>sslmode=disable\<close>; whether the
  connection is encrypted then depends on the mode it names, or on the driver's default.\<close>

theorem configured_programs:
  assumes "New lib os_Open fs e = (Inr cfg, e')" and "start_server jwks cfg = Inr srv"
  shows "(\<forall>t \<in> set (startWorker (Worker_cfg cfg)). NewTicker (fst t) \<noteq> None) \<and>
    grpc_Port (GRPC cfg) \<in> {1..65535} \<and> http_Port (HTTP cfg) \<in> {1..65535} \<and>
    (\<forall>l m. gs_limiter srv = Some l \<longrightarrow> 0 < fst (limitFor l m)) \<and>
    (\<forall>ctx err um E req w. bearerToken ctx = Inl err \<longrightarrow> server_call um E srv ctx req w = (Inl auth_required, w)) \<and>
    (Environment cfg \<noteq> ''development'' \<longrightarrow>
       \<not> gs_reflection srv \<and> HasPrefix (JWKSURL (Auth cfg)) ''https://'' \<and> \<not> Contains (DSN (Postgres cfg)) ''sslmode=disable'')"
proof -
  have c: "config_ok cfg" by (rule New_ok(1) [OF assms(1)])
  then have "\<forall>t \<in> set (startWorker (Worker_cfg cfg)). NewTicker (fst t) \<noteq> None"
    by (simp add: config_ok_def startWorker_def NewTicker_def not_le)
  moreover have "0 < fst (limitFor l m)" if "gs_limiter srv = Some l" for l m
    using c assms(2) that by (auto simp: config_ok_def start_server_def newGRPCServer_def newRateLimiter_def limitFor_def Let_def
      split: sum.splits if_splits)
  moreover have "gs_reflection srv \<longleftrightarrow> Environment cfg = ''development''"
    using assms(2) by (auto simp: start_server_def newGRPCServer_def split: sum.splits)
  ultimately show ?thesis
    using c unauthenticated_call [OF assms(2)] unfolding config_ok_def port_ok_def by blast
qed

definition sample_jwks :: jwk_cache where
  "sample_jwks = \<lparr>jwk_Register = (\<lambda>_. None), jwk_Refresh = (\<lambda>_. None),
     jwk_Parse = (\<lambda>_ _ raw. Inr \<lparr>tk_Subject = raw, tk_claims = []\<rparr>)\<rparr>"

abbreviation anonymous :: Context where
  "anonymous \<equiv> \<lparr>cx_principal = None, cx_identity = None, cx_metadata = None, cx_peer = None\<rparr>"

definition sample_server :: grpc_server where
  "sample_server = newGRPCServer sample_config (projr (newAuthenticator sample_jwks sample_config))
     (newRateLimiter (RateLimit sample_config))"

theorem configured_programs_witness:
  "\<not> gs_reflection sample_server \<and> HasPrefix (JWKSURL (Auth sample_config)) ''https://'' \<and>
   server_call (\<lambda>_. Inl EOF) sample_env sample_server anonymous (SealLedger_request ''main'') hold_world = (Inl auth_required, hold_world)"
proof -
  have "\<not> isl (newAuthenticator sample_jwks sample_config)" by code_simp
  then have s: "start_server sample_jwks sample_config = Inr sample_server"
    by (cases "newAuthenticator sample_jwks sample_config") (simp_all add: start_server_def sample_server_def)
  have "Environment sample_config \<noteq> ''development''" by code_simp
  moreover have "bearerToken anonymous = Inl (unauthenticated ''missing request metadata'')" by (simp add: bearerToken_def)
  ultimately show ?thesis using configured_programs [OF New_sample s] by blast
qed

end
