(* ===== verification/Devtoken.thy ===== *)
theory Devtoken
  imports Program Sdk
begin

text \<open>
  The development token server, \<^verbatim>\<open>src/cmd/devtoken/main.go\<close>: the claims of the tokens it mints and the
  handler that mints them. Keys and signatures are the JWT library's: \<open>Sign\<close> signs with the key the
  server has generated. \<open>ParseDuration\<close> reads a duration.
\<close>

definition defaultSubject :: string where "defaultSubject = ''dev''"
definition defaultLedgers :: string where "defaultLedgers = ''*''"
definition defaultTTL :: int where "defaultTTL = 3600 * Second"

definition splitLedgers :: "string \<Rightarrow> string list" where
  "splitLedgers s = filter (\<lambda>p. p \<noteq> []) (map TrimSpace (split_on CHR '','' s))"

text \<open>The claims of a token; the expiry is in seconds.\<close>

definition minted :: "string \<Rightarrow> string \<Rightarrow> string \<Rightarrow> string list \<Rightarrow> int \<Rightarrow> token" where
  "minted sub audience issuer scope expiry = \<lparr>tk_Subject = sub, tk_claims =
     [(''exp'', JInt expiry)] @
     (if audience \<noteq> [] then [(''aud'', JArr [JStr audience])] else []) @
     (if issuer \<noteq> [] then [(''iss'', JStr issuer)] else []) @
     (if scope \<noteq> [] then [(''ledgers'', JArr (map JStr scope))] else [])\<rparr>"

definition mintToken ::
  "(token \<Rightarrow> error + string) \<Rightarrow> string \<Rightarrow> string \<Rightarrow> string \<Rightarrow> string list \<Rightarrow> int \<Rightarrow> error + string" where
  "mintToken Sign sub audience issuer scope expiry = Sign (minted sub audience issuer scope expiry)"

text \<open>The handler, for a request with the query \<open>q\<close> at the time \<open>now\<close> in nanoseconds.\<close>

definition tokenHandler ::
  "env \<Rightarrow> (string \<Rightarrow> error + int) \<Rightarrow> (token \<Rightarrow> error + string) \<Rightarrow> string \<Rightarrow> string \<Rightarrow> (string \<Rightarrow> string) \<Rightarrow> int \<Rightarrow> http_answer" where
  "tokenHandler E ParseDuration Sign issuer audience q now =
     (let sub = (if q ''sub'' = [] then defaultSubject else q ''sub'');
          ledgersParam = (if q ''ledgers'' = [] then defaultLedgers else q ''ledgers'') in
      case (if q ''ttl'' = [] then Inr defaultTTL else ParseDuration (q ''ttl'')) of
        Inl e \<Rightarrow> Response 400 (Fprintln (''invalid ttl: '' @ error_text E e))
      | Inr ttl \<Rightarrow>
          (case mintToken Sign sub audience issuer (splitLedgers ledgersParam) ((now + ttl) div Second) of
             Inl e \<Rightarrow> Response 500 (Fprintln (''minting token: '' @ error_text E e))
           | Inr tok \<Rightarrow> Response 200 tok))"

definition devtoken_route ::
  "env \<Rightarrow> (string \<Rightarrow> error + int) \<Rightarrow> (token \<Rightarrow> error + string) \<Rightarrow> string \<Rightarrow> string \<Rightarrow> string \<Rightarrow> (string \<Rightarrow> string) \<Rightarrow> int \<Rightarrow>
     string \<Rightarrow> http_answer" where
  "devtoken_route E ParseDuration Sign jwksBody issuer audience q now path =
     (if path = ''/jwks.json'' then Response 200 jwksBody
      else if path = ''/token'' then tokenHandler E ParseDuration Sign issuer audience q now
      else Response 404 (Fprintln ''404 page not found''))"

section \<open>From the mint to the server\<close>

text \<open>What the JWT library promises: a token in compact form is not empty and has no spaces, and a token signed with
  the server's key is accepted, with its claims, as long as it has the claims the options ask for and
  has not expired.\<close>

definition documented_jwt :: "(token \<Rightarrow> error + string) \<Rightarrow> (jwt_options \<Rightarrow> string \<Rightarrow> error + token) \<Rightarrow> int \<Rightarrow> bool" where
  "documented_jwt Sign Verify_jwt now \<longleftrightarrow> (\<forall>t raw. Sign t = Inr raw \<longrightarrow>
     raw \<noteq> [] \<and> (\<forall>c \<in> set raw. \<not> isSpace c) \<and>
     (\<forall>opts. (\<forall>k \<in> set (jo_required opts). map_of (tk_claims t) k \<noteq> None) \<and>
        (\<forall>x. map_of (tk_claims t) ''exp'' = Some (JInt x) \<longrightarrow> now < x) \<and>
        (\<forall>a. jo_audience opts = Some a \<longrightarrow> (\<exists>as. map_of (tk_claims t) ''aud'' = Some (JArr as) \<and> JStr a \<in> set as)) \<and>
        (\<forall>i. jo_issuer opts = Some i \<longrightarrow> map_of (tk_claims t) ''iss'' = Some (JStr i)) \<longrightarrow>
        Verify_jwt opts raw = Inr t))"

lemma minted_claims:
  "tk_Subject (minted sub audience issuer scope expiry) = sub"
  "map_of (tk_claims (minted sub audience issuer scope expiry)) ''exp'' = Some (JInt expiry)"
  "map_of (tk_claims (minted sub audience issuer scope expiry)) ''aud'' =
     (if audience = [] then None else Some (JArr [JStr audience]))"
  "map_of (tk_claims (minted sub audience issuer scope expiry)) ''iss'' = (if issuer = [] then None else Some (JStr issuer))"
  "map_of (tk_claims (minted sub audience issuer scope expiry)) ''ledgers'' =
     (if scope = [] then None else Some (JArr (map JStr scope)))"
  by (simp_all add: minted_def)

lemma minted_access:
  "CanAccessLedger (let (xs, allL) = parseLedgersClaim (minted sub audience issuer scope expiry) in
      \<lparr>id_Principal = p, id_ledgers = xs, id_allLedgers = allL\<rparr>) l \<longleftrightarrow> l \<in> set scope \<or> allLedgersWildcard \<in> set scope"
  by (auto simp: parseLedgersClaim_def minted_claims claim_ledgers_wildcard CanAccessLedger_def)

lemma AuthenticateIdentity_accepted:
  assumes opts: "opts = \<lparr>jo_validate = True, jo_required = [''exp''],
      jo_audience = (if ja_audience a = [] then None else Some (ja_audience a)),
      jo_issuer = (if ja_issuer a = [] then None else Some (ja_issuer a))\<rparr>"
    and "bearerToken ctx = Inr raw" "ja_parse a opts raw = Inr t" "tk_Subject t \<noteq> []"
  shows "AuthenticateIdentity a ctx = Inr (let (xs, allL) = parseLedgersClaim t in
      \<lparr>id_Principal = tk_Subject t, id_ledgers = xs, id_allLedgers = allL\<rparr>)"
  unfolding AuthenticateIdentity_def opts [symmetric] using assms(2-4) by (simp split: prod.split)

lemma minted_accepted:
  assumes "documented_jwt Sign Verify_jwt time" "Sign (minted sub audience issuer ls expiry) = Inr raw" "sub \<noteq> []"
    and "time < expiry" "cx_metadata ctx = None"
  shows "AuthenticateIdentity \<lparr>ja_parse = Verify_jwt, ja_audience = audience, ja_issuer = issuer\<rparr> (withBearer ctx raw) =
      Inr (let (xs, allL) = parseLedgersClaim (minted sub audience issuer ls expiry) in
        \<lparr>id_Principal = sub, id_ledgers = xs, id_allLedgers = allL\<rparr>)"
proof -
  let ?a = "\<lparr>ja_parse = Verify_jwt, ja_audience = audience, ja_issuer = issuer\<rparr>" and ?t = "minted sub audience issuer ls expiry"
  define opts where "opts = \<lparr>jo_validate = True, jo_required = [''exp''],
     jo_audience = (if ja_audience ?a = [] then None else Some (ja_audience ?a)),
     jo_issuer = (if ja_issuer ?a = [] then None else Some (ja_issuer ?a))\<rparr>"
  note jwt = assms(1) [unfolded documented_jwt_def, rule_format, OF assms(2)]
  have "bearerToken (withBearer ctx raw) = Inr raw" using jwt assms(5) by (intro bearer_roundtrip) auto
  moreover have "Verify_jwt opts raw = Inr ?t" using jwt assms(4) by (simp add: opts_def minted_claims)
  ultimately show ?thesis
    using AuthenticateIdentity_accepted [OF opts_def, of "withBearer ctx raw" raw ?t] assms(3) by (simp add: minted_claims(1))
qed

text \<open>A token of the development server does what was asked for, from the mint through the client to
  the server: presented before it expires, it authenticates the subject it was minted for, with access to exactly the
  ledgers named, or to all with the wildcard, provided both servers agree on audience and issuer.\<close>

theorem devtoken_access:
  assumes "documented_jwt Sign Verify_jwt time" "tokenHandler E ParseDuration Sign issuer audience q now = Response 200 raw"
    and "q ''ttl'' = []" "time < (now + defaultTTL) div Second" "cx_metadata ctx = None"
  shows "\<exists>i. AuthenticateIdentity \<lparr>ja_parse = Verify_jwt, ja_audience = audience, ja_issuer = issuer\<rparr> (withBearer ctx raw) = Inr i \<and>
    id_Principal i = (if q ''sub'' = [] then ''dev'' else q ''sub'') \<and>
    (\<forall>l. CanAccessLedger i l \<longleftrightarrow> q ''ledgers'' = [] \<or> l \<in> set (splitLedgers (q ''ledgers'')) \<or> ''*'' \<in> set (splitLedgers (q ''ledgers'')))"
proof -
  define sub where "sub = (if q ''sub'' = [] then defaultSubject else q ''sub'')"
  define ls where "ls = splitLedgers (if q ''ledgers'' = [] then defaultLedgers else q ''ledgers'')"
  let ?t = "minted sub audience issuer ls ((now + defaultTTL) div Second)"
  have "Sign ?t = Inr raw"
    using assms(2,3) unfolding tokenHandler_def mintToken_def Let_def sub_def [symmetric] ls_def [symmetric]
    by (simp split: sum.splits)
  moreover have "sub \<noteq> []" by (simp add: sub_def defaultSubject_def)
  ultimately have "AuthenticateIdentity \<lparr>ja_parse = Verify_jwt, ja_audience = audience, ja_issuer = issuer\<rparr> (withBearer ctx raw) =
      Inr (let (xs, allL) = parseLedgersClaim ?t in \<lparr>id_Principal = sub, id_ledgers = xs, id_allLedgers = allL\<rparr>)"
    using minted_accepted assms(1,4,5) by blast
  moreover have "l \<in> set ls \<or> allLedgersWildcard \<in> set ls \<longleftrightarrow>
      q ''ledgers'' = [] \<or> l \<in> set (splitLedgers (q ''ledgers'')) \<or> ''*'' \<in> set (splitLedgers (q ''ledgers''))" for l
  proof (cases "q ''ledgers'' = []")
    case True
    moreover have "splitLedgers defaultLedgers = [''*'']" by code_simp
    ultimately show ?thesis by (simp add: ls_def allLedgersWildcard_def)
  qed (simp add: ls_def allLedgersWildcard_def)
  ultimately show ?thesis
    using minted_access [of sub audience issuer ls _ sub] by (simp add: sub_def defaultSubject_def Let_def split_beta)
qed

text \<open>A library that knows one token.\<close>

definition sample_token :: token where
  "sample_token = \<lparr>tk_Subject = ''alice'', tk_claims = [(''exp'', JInt 3600), (''ledgers'', JArr [JStr ''main'', JStr ''spare''])]\<rparr>"

definition plain_sign :: "token \<Rightarrow> error + string" where
  "plain_sign t = (if t = sample_token then Inr ''alice.main.spare'' else Inl (Errorf ''unsupported claims''))"

definition plain_verify :: "jwt_options \<Rightarrow> string \<Rightarrow> error + token" where
  "plain_verify opts raw = (if raw = ''alice.main.spare'' \<and> jo_audience opts = None \<and> jo_issuer opts = None
     then Inr sample_token else Inl (Errorf ''could not verify''))"

lemma documented_plain_jwt: "documented_jwt plain_sign plain_verify 100"
  unfolding documented_jwt_def
proof (intro allI impI conjI)
  fix t raw assume "plain_sign t = Inr raw"
  then have t: "t = sample_token" and raw: "raw = ''alice.main.spare''" by (simp_all add: plain_sign_def split: if_splits)
  show "raw \<noteq> []" by (simp add: raw)
  show "\<forall>c \<in> set raw. \<not> isSpace c" unfolding raw by code_simp
  fix opts :: jwt_options
  assume o: "(\<forall>k \<in> set (jo_required opts). map_of (tk_claims t) k \<noteq> None) \<and>
        (\<forall>x. map_of (tk_claims t) ''exp'' = Some (JInt x) \<longrightarrow> 100 < x) \<and>
        (\<forall>a. jo_audience opts = Some a \<longrightarrow> (\<exists>as. map_of (tk_claims t) ''aud'' = Some (JArr as) \<and> JStr a \<in> set as)) \<and>
        (\<forall>i. jo_issuer opts = Some i \<longrightarrow> map_of (tk_claims t) ''iss'' = Some (JStr i))"
  have "map_of (tk_claims t) ''aud'' = None" "map_of (tk_claims t) ''iss'' = None" unfolding t by code_simp+
  then have "jo_audience opts = None" "jo_issuer opts = None" using o by (metis option.exhaust option.distinct(1))+
  then show "plain_verify opts raw = Inr t" by (simp add: plain_verify_def raw t)
qed

definition sample_query :: "string \<Rightarrow> string" where
  "sample_query k = (if k = ''sub'' then ''alice'' else if k = ''ledgers'' then ''main, spare,'' else [])"

definition minted_identity :: Identity where
  "minted_identity = projr (AuthenticateIdentity \<lparr>ja_parse = plain_verify, ja_audience = [], ja_issuer = []\<rparr>
     (withBearer anonymous ''alice.main.spare''))"

theorem devtoken_access_witness:
  "id_Principal minted_identity = ''alice'' \<and> CanAccessLedger minted_identity ''spare'' \<and> \<not> CanAccessLedger minted_identity ''other''"
proof -
  have h: "tokenHandler sample_env (\<lambda>_. Inl EOF) plain_sign [] [] sample_query 0 = Response 200 ''alice.main.spare''" by code_simp
  have q: "sample_query ''ttl'' = []" "(100 :: int) < (0 + defaultTTL) div Second" "cx_metadata anonymous = None" by code_simp+
  have r: "sample_query ''sub'' = ''alice''" "sample_query ''ledgers'' = ''main, spare,''"
    "splitLedgers ''main, spare,'' = [''main'', ''spare'']" by code_simp+
  obtain i where i: "AuthenticateIdentity \<lparr>ja_parse = plain_verify, ja_audience = [], ja_issuer = []\<rparr>
      (withBearer anonymous ''alice.main.spare'') = Inr i" "id_Principal i = ''alice''"
    "\<forall>l. CanAccessLedger i l \<longleftrightarrow> l = ''main'' \<or> l = ''spare''"
    using devtoken_access [OF documented_plain_jwt h q] unfolding r by auto
  then have "minted_identity = i" by (simp add: minted_identity_def)
  then show ?thesis using i by simp
qed

end
