(* ===== verification/Threads.thy ===== *)
theory Threads
  imports Planner_Metadata
begin

text \<open>
  The operations of the planner as transactions that can be interrupted. Concurrent requests run
  their transactions at the isolation level of \<open>pool.Begin\<close>, READ COMMITTED: every statement
  sees what was committed when it starts, and only row locks order transactions.
  \<open>NextLedgerSeq\<close> of \<^verbatim>\<open>src/internal/storage/postgres/store.go\<close> locks the row of the ledger, and
  \<open>GetHold\<close> of \<^verbatim>\<open>src/internal/storage/postgres/store_holds.go\<close> the row of the hold, until the end
  of the transaction; no other read of the operations takes a lock.

  A thread is what is left of a transaction: a result, the next statement with what follows it,
  or a row lock to be waited for. Up to the lock on the ledger every statement is a step of its own;
  the statements behind it make one step, since no other transaction of the ledger can write
  or commit until this one ends. Run without interruption, each thread is the operation of
  \<^verbatim>\<open>src/internal/planner/operations_shared.go\<close> it is named after, in every environment and state.
\<close>

subsection \<open>Threads\<close>

datatype lock = LedgerRow string | HoldRow string string

datatype 'r thread =
    Done "error + 'r"
  | Stmt "world \<Rightarrow> 'r thread \<times> world"
  | Lock lock "'r thread"

primrec seqT :: "'a thread \<Rightarrow> ('a \<Rightarrow> 'b thread) \<Rightarrow> 'b thread" where
  "seqT (Done r) k = (case r of Inl e \<Rightarrow> Done (Inl e) | Inr x \<Rightarrow> k x)"
| "seqT (Stmt f) k = Stmt (\<lambda>w. map_prod (\<lambda>t. seqT t k) id (f w))"
| "seqT (Lock l t) k = Lock l (seqT t k)"

definition lift :: "'a prog \<Rightarrow> 'a thread" where
  "lift m = Stmt (\<lambda>w. case m w of (r, w') \<Rightarrow> (Done r, w'))"

fun forT :: "('a \<Rightarrow> unit thread) \<Rightarrow> 'a list \<Rightarrow> unit thread" where
  "forT f [] = Done (Inr ())"
| "forT f (x # xs) = seqT (f x) (\<lambda>_. forT f xs)"

text \<open>A thread run to its end without interruption.\<close>

primrec run :: "'a thread \<Rightarrow> 'a prog" where
  "run (Done r) = (\<lambda>w. (r, w))"
| "run (Stmt f) = (\<lambda>w. case map_prod run id (f w) of (m, w') \<Rightarrow> m w')"
| "run (Lock l t) = run t"

lemma run_seqT: "run (seqT t k) = andThen (run t) (\<lambda>x. run (k x))"
proof (induction t)
  case (Stmt f)
  have "run (seqT t k) w' = andThen (run t) (\<lambda>x. run (k x)) w'" if "f w = (t, w')" for t w w'
    using Stmt [of "(t, w')" t] that by (metis fsts.intros fst_conv rangeI)
  then show ?case by (intro ext) (simp add: andThen_def map_prod_def split: prod.split)
qed (auto simp: andThen_def split: sum.split)

lemma run_lift [simp]: "run (lift m) = m"
  by (rule ext) (simp add: lift_def split: prod.split)

lemma run_ok [simp]: "run (Done (Inr x)) = ok x"
  by (rule ext) (simp add: ok_def)

lemma run_fail [simp]: "run (Done (Inl e)) = fail e"
  by (rule ext) (simp add: fail_def)

declare run.simps(1) [simp del]

lemma run_forT: "run (forT f xs) = forM (\<lambda>x. run (f x)) xs"
  by (induction xs) (simp_all add: run_seqT)

lemma run_if [simp]: "run (if b then t else u) = (if b then run t else run u)"
  by simp

lemma mapErr_andThen: "mapErr g (andThen m f) = andThen (mapErr g m) (\<lambda>x. mapErr g (f x))"
  by (rule ext) (simp add: mapErr_def andThen_def split: prod.split sum.split)

lemma mapErr_ok [simp]: "mapErr g (ok x) = ok x"
  by (rule ext) (simp add: mapErr_def ok_def)

declare mapErr_id [simp]

lemmas run_simps = run_seqT run_forT andThen_assoc

subsection \<open>Balances\<close>

text \<open>The two reads of a balance are separate statements.\<close>

definition availableBalanceT :: "env \<Rightarrow> string \<Rightarrow> string \<Rightarrow> string \<Rightarrow> int thread" where
  "availableBalanceT E ledgerID account asset =
     seqT (lift (mapErr (wrapped (''getting balance for '' @ account @ ''/'' @ asset @ '': ''))
       (GetBalance E Tx ledgerID account asset None None))) (\<lambda>bal.
     seqT (lift (mapErr (wrapped (''getting active holds for '' @ account @ ''/'' @ asset @ '': ''))
       (GetActiveHoldsTotal E Tx ledgerID account asset))) (\<lambda>activeHolds.
     Done (Inr (br_Input bal - br_Output bal - activeHolds))))"

lemma run_availableBalanceT [simp]: "run (availableBalanceT E l a s) = availableBalance E l a s"
  by (simp add: availableBalanceT_def availableBalance_def run_simps)

definition checkSourceBalanceT ::
  "env \<Rightarrow> LedgerRecord \<Rightarrow> (acctAsset \<times> int) list \<Rightarrow> acctAsset \<Rightarrow> int \<Rightarrow> unit thread" where
  "checkSourceBalanceT E ledger ins key output =
     (if IsIssuer (fst key) (lr_IssuerAccounts ledger) then Done (Inr ())
      else seqT (availableBalanceT E (lr_ID ledger) (fst key) (snd key)) (\<lambda>avail.
        if (case map_of ins key of None \<Rightarrow> avail | Some netIn \<Rightarrow> avail + netIn) < output
        then Done (Inl (suffixed ErrInsufficientFunds ('': account '' @ fst key @ '', asset '' @ snd key)))
        else Done (Inr ())))"

lemma run_checkSourceBalanceT [simp]:
  "run (checkSourceBalanceT E lr ins key out) = checkSourceBalance E lr ins key out"
  by (simp add: checkSourceBalanceT_def checkSourceBalance_def run_simps cong: if_cong)

definition checkSourceBalancesT ::
  "env \<Rightarrow> LedgerRecord \<Rightarrow> (acctAsset \<times> int) list \<Rightarrow> (acctAsset \<times> int) list \<Rightarrow> unit thread" where
  "checkSourceBalancesT E ledger outs ins =
     forT (\<lambda>(key, output). checkSourceBalanceT E ledger ins key output) outs"

lemma run_checkSourceBalancesT [simp]:
  "run (checkSourceBalancesT E lr os ins) = checkSourceBalances E lr os ins"
  by (simp add: checkSourceBalancesT_def checkSourceBalances_def run_simps prod.case_distrib [of run])

definition checkAvailableT :: "env \<Rightarrow> LedgerRecord \<Rightarrow> string \<Rightarrow> string \<Rightarrow> int \<Rightarrow> (int \<Rightarrow> string) \<Rightarrow> unit thread" where
  "checkAvailableT E ledger account asset required detail =
     (if IsIssuer account (lr_IssuerAccounts ledger) then Done (Inr ())
      else seqT (availableBalanceT E (lr_ID ledger) account asset) (\<lambda>avail.
        if avail < required then Done (Inl (suffixed ErrInsufficientFunds (detail avail))) else Done (Inr ())))"

lemma run_checkAvailableT [simp]: "run (checkAvailableT E lr a s n dt) = checkAvailable E lr a s n dt"
  by (simp add: checkAvailableT_def checkAvailable_def run_simps cong: if_cong)

definition checkReversedT :: "env \<Rightarrow> string \<Rightarrow> LedgerRecord \<Rightarrow> PostingInput \<Rightarrow> unit thread" where
  "checkReversedT E ledgerID ledger posting =
     (if IsIssuer (Source posting) (lr_IssuerAccounts ledger) then Done (Inr ())
      else seqT (availableBalanceT E ledgerID (Source posting) (Asset posting)) (\<lambda>avail.
        if avail < amount_of posting then
          Done (Inl (suffixed ErrInsufficientFunds ('': reverting would leave '' @ Source posting @
            '' negative in '' @ Asset posting)))
        else Done (Inr ())))"

lemma run_checkReversedT [simp]: "run (checkReversedT E l lr p) = checkReversed E l lr p"
  by (simp add: checkReversedT_def checkReversed_def run_simps cong: if_cong)

definition checkAllReversedT :: "env \<Rightarrow> bool \<Rightarrow> string \<Rightarrow> LedgerRecord \<Rightarrow> PostingInput list \<Rightarrow> unit thread" where
  "checkAllReversedT E force ledgerID ledger postings =
     (if force then Done (Inr ()) else forT (checkReversedT E ledgerID ledger) postings)"

lemma run_checkAllReversedT [simp]:
  "run (checkAllReversedT E f l lr ps) = whenM (\<not> f) (checkAllReversed E l lr ps)"
  by (simp add: checkAllReversedT_def whenM_def checkAllReversed_def run_forT)

subsection \<open>The event\<close>

text \<open>
  \<open>appendEvent\<close> draws the identifier and asks for the batch before it locks the ledger; the
  number of the event, the event and the rows of the operation come behind the lock.
  \<open>g\<close> is what the operation does to an error of \<open>appendEvent\<close>.
\<close>

definition appendRow ::
  "env \<Rightarrow> string \<Rightarrow> int \<Rightarrow> bytes \<Rightarrow> string \<Rightarrow> bytes option \<Rightarrow> time \<Rightarrow> time \<Rightarrow> string \<Rightarrow> string \<Rightarrow> (string \<times> int) prog" where
  "appendRow E ledgerID eventType payload key ikHash vt now eventID batchID =
     andThen (mapErr (wrapped ''getting next seq: '') (NextLedgerSeq E ledgerID)) (\<lambda>seq.
     andThen (AppendLogEvent E Tx
       (new_event eventID ledgerID seq eventType payload key ikHash batchID vt now)) (\<lambda>_.
     ok (eventID, seq)))"

definition appendEventT ::
  "(error \<Rightarrow> error) \<Rightarrow> env \<Rightarrow> string \<Rightarrow> int \<Rightarrow> bytes \<Rightarrow> string \<Rightarrow> bytes option \<Rightarrow> time \<Rightarrow> time \<Rightarrow>
     (string \<times> int \<Rightarrow> 'r prog) \<Rightarrow> 'r thread" where
  "appendEventT g E ledgerID eventType payload key ikHash vt now rows =
     seqT (lift (ulid_Make E)) (\<lambda>eventID.
     seqT (lift (mapErr g (mapErr (wrapped ''getting batch ID: '') (CurrentBatchID E ledgerID)))) (\<lambda>batchID.
     Lock (LedgerRow ledgerID) (lift (andThen
       (mapErr g (appendRow E ledgerID eventType payload key ikHash vt now eventID batchID)) rows))))"

lemma mapErr_ulid_Make [simp]: "mapErr g (ulid_Make E) = ulid_Make E"
  by (rule ext) (simp add: mapErr_def ulid_Make_def)

lemma run_appendEventT [simp]:
  "run (appendEventT g E l ty pl k h vt now rows) = andThen (mapErr g (appendEvent E l ty pl k h vt now)) rows"
  by (simp add: appendEventT_def appendEvent_def appendRow_def run_simps mapErr_andThen)


subsection \<open>Transactions\<close>

definition post_rows ::
  "env \<Rightarrow> string \<Rightarrow> PostingInput list \<Rightarrow> string \<Rightarrow> metadata \<Rightarrow> string \<Rightarrow> bytes option \<Rightarrow> time \<Rightarrow> time \<Rightarrow>
     string \<Rightarrow> string \<times> int \<Rightarrow> SubmitResult prog" where
  "post_rows E ledgerID postings reference md key ikHash vt now txID = (\<lambda>(eventID, _).
     let txRec = \<lparr>tx_LedgerID = ledgerID, tx_TransactionID = txID, tx_EventID = eventID,
           tx_ValidTime = vt, tx_SystemTime = now, tx_Reference = reference,
           tx_Postings = map posting_record postings, tx_Metadata = md\<rparr> in
     andThen (mapErr (\<lambda>e. if errors_is e ErrTransactionReferenceConflict then e
         else wrapped ''inserting transaction: '' e) (InsertTransaction E Tx txRec)) (\<lambda>_.
     andThen (whenM (md \<noteq> None \<and> md \<noteq> Some []) (mapErr (wrapped ''inserting initial metadata history: '')
       (InsertMetadataHistory E Tx \<lparr>mh_LedgerID = ledgerID, mh_TargetType = TargetTypeTransaction,
         mh_TargetID = txID, mh_Revision = 0, mh_Metadata = md, mh_EventID = eventID,
         mh_SystemTime = now\<rparr>))) (\<lambda>_.
     andThen (insertPostings E ledgerID eventID vt now postings) (\<lambda>_.
     andThen (upsertTouched E ledgerID now (touchedAccounts postings)) (\<lambda>_.
     andThen (recordIfKeyed E ledgerID key eventID ikHash) (\<lambda>_.
     ok ((submitted eventID)\<lparr>Transaction := Some txRec\<rparr>)))))))"

definition postT ::
  "env \<Rightarrow> LedgerRecord \<Rightarrow> PostingInput list \<Rightarrow> string \<Rightarrow> metadata \<Rightarrow> string \<Rightarrow> bytes option \<Rightarrow>
     time \<Rightarrow> time \<Rightarrow> SubmitResult thread" where
  "postT E ledger postings reference md key ikHash vt now =
     seqT (lift (ofErr (validatePostings postings))) (\<lambda>_.
     seqT (lift (enforceSchema E ledger postings)) (\<lambda>_.
     seqT (checkSourceBalancesT E ledger (netOutputs postings) (netInputs postings)) (\<lambda>_.
     seqT (lift (ulid_Make E)) (\<lambda>txID.
     appendEventT (\<lambda>e. e) E (lr_ID ledger) EventTypeTransactionPosted
       (post_payload txID (map posting_record postings) md reference) key ikHash vt now
       (post_rows E (lr_ID ledger) postings reference md key ikHash vt now txID)))))"

lemma run_postT: "run (postT E lr ps ref md k h vt now) = doPostInTx E lr ps ref md k h vt now False"
  by (simp add: postT_def doPostInTx_def post_rows_def run_simps Let_def)

definition convert_rows ::
  "env \<Rightarrow> string \<Rightarrow> ConvertParams \<Rightarrow> string \<Rightarrow> bytes option \<Rightarrow> time \<Rightarrow> time \<Rightarrow> string \<Rightarrow> string \<Rightarrow>
     string \<times> int \<Rightarrow> SubmitResult prog" where
  "convert_rows E ledgerID params key ikHash vt now conversionID txID = (\<lambda>(eventID, _).
     andThen (insertLegs E (posting_deltas ledgerID eventID vt now (convert_postings params))) (\<lambda>_.
     andThen (upsertConverted E ledgerID now ([cv_Source params, cv_Destination params]
       @ (if slippage params \<noteq> None then [cv_SlippageAccount params] else []))) (\<lambda>_.
     andThen (mapErr (wrapped ''inserting conversion transaction: '') (InsertTransaction E Tx
       \<lparr>tx_LedgerID = ledgerID, tx_TransactionID = txID, tx_EventID = eventID,
        tx_ValidTime = vt, tx_SystemTime = now, tx_Reference = [],
        tx_Postings = map posting_record (convert_postings params),
        tx_Metadata = Some [(''type'', JStr ''conversion''), (''rate'', JStr (cv_Rate params)),
          (''rate_source'', JStr (cv_RateSource params))]\<rparr>)) (\<lambda>_.
     andThen (recordIfKeyed E ledgerID key eventID ikHash) (\<lambda>_.
     ok ((submitted eventID)\<lparr>ConversionID := conversionID\<rparr>))))))"

definition convertT ::
  "env \<Rightarrow> LedgerRecord \<Rightarrow> ConvertParams \<Rightarrow> string \<Rightarrow> bytes option \<Rightarrow> time \<Rightarrow> time \<Rightarrow> SubmitResult thread" where
  "convertT E ledger params key ikHash vt now =
     seqT (lift (ofErr (validateConvertParams E params))) (\<lambda>_.
     seqT (lift (ulid_Make E)) (\<lambda>conversionID.
     seqT (lift (ulid_Make E)) (\<lambda>txID.
     let sourceAmount = the (cv_SourceAmount params); destAmount = the (cv_DestAmount params) in
     seqT (checkAvailableT E ledger (cv_Source params) (cv_SourceAsset params)
       (totalSourceOutput params sourceAmount)
       (\<lambda>_. '': account '' @ cv_Source params @ '', asset '' @ cv_SourceAsset params)) (\<lambda>_.
     appendEventT (\<lambda>e. e) E (lr_ID ledger) EventTypeConversionCreated
       (convert_payload conversionID params sourceAmount destAmount) key ikHash vt now
       (convert_rows E (lr_ID ledger) params key ikHash vt now conversionID txID)))))"

lemma run_convertT: "run (convertT E lr p k h vt now) = doConvertInTx E lr p k h vt now"
  by (simp add: convertT_def doConvertInTx_def convert_rows_def run_simps Let_def)

definition revert_rows ::
  "env \<Rightarrow> string \<Rightarrow> string \<Rightarrow> PostingInput list \<Rightarrow> metadata \<Rightarrow> string \<Rightarrow> bytes option \<Rightarrow> time \<Rightarrow> time \<Rightarrow>
     string \<Rightarrow> string \<times> int \<Rightarrow> SubmitResult prog" where
  "revert_rows E ledgerID originalTxID reversedPostings md key ikHash vt now txID = (\<lambda>(eventID, _).
     let txRec = \<lparr>tx_LedgerID = ledgerID, tx_TransactionID = txID, tx_EventID = eventID,
           tx_ValidTime = vt, tx_SystemTime = now, tx_Reference = [],
           tx_Postings = map posting_record reversedPostings, tx_Metadata = md\<rparr> in
     andThen (mapErr (wrapped ''inserting reverting transaction: '') (InsertTransaction E Tx txRec)) (\<lambda>_.
     andThen (insertPostings E ledgerID eventID vt now reversedPostings) (\<lambda>_.
     andThen (upsertTouched E ledgerID now (touchedAccounts reversedPostings)) (\<lambda>_.
     andThen (mapErr (wrapped ''inserting revert relationship: '') (InsertRelationship E Tx
       \<lparr>rl_LedgerID = ledgerID, rl_ParentTxID = originalTxID, rl_ChildTxID = txID,
        rl_RelationshipType = RelationshipTypeReverts, rl_EventID = eventID, rl_SystemTime = now\<rparr>)) (\<lambda>_.
     andThen (recordIfKeyed E ledgerID key eventID ikHash) (\<lambda>_.
     ok ((submitted eventID)\<lparr>Transaction := Some txRec\<rparr>)))))))"

definition revertT ::
  "env \<Rightarrow> string \<Rightarrow> string \<Rightarrow> bool \<Rightarrow> bool \<Rightarrow> string \<Rightarrow> string \<Rightarrow> bytes option \<Rightarrow> time \<Rightarrow> SubmitResult thread" where
  "revertT E ledgerID originalTxID force atEffectiveDate reason key ikHash now =
     seqT (lift (ulid_Make E)) (\<lambda>txID.
     seqT (lift (GetTransaction E Tx ledgerID originalTxID)) (\<lambda>origTx.
     seqT (lift (GetRelationships E Tx ledgerID originalTxID 1)) (\<lambda>rels.
     if already_reverted originalTxID rels then Done (Inl ErrAlreadyReverted)
     else
       seqT (lift (ofSum (reversePostings (tx_Postings origTx) originalTxID))) (\<lambda>reversedPostings.
       seqT (lift (mapErr (wrapped ''getting ledger: '') (GetLedger E Tx ledgerID))) (\<lambda>ledger.
       let vt = (if atEffectiveDate then tx_ValidTime origTx else now) in
       seqT (checkAllReversedT E force ledgerID ledger reversedPostings) (\<lambda>_.
       let md = Some [(''reverts'', JStr originalTxID), (''revert_reason'', JStr reason)] in
       appendEventT (wrapped ''appending log event: '') E ledgerID EventTypeTransactionReverted
         (revert_payload txID (map posting_record reversedPostings) md) key ikHash vt now
         (revert_rows E ledgerID originalTxID reversedPostings md key ikHash vt now txID)))))))"

lemma run_revertT: "run (revertT E l t f a rs k h now) = doRevertInTx E l t f a rs k h now"
  unfolding revertT_def doRevertInTx_def revert_rows_def Let_def
  by (simp add: run_simps cong: if_cong)

definition amend_rows ::
  "env \<Rightarrow> string \<Rightarrow> string \<Rightarrow> metadata \<Rightarrow> string \<Rightarrow> bytes option \<Rightarrow> time \<Rightarrow> string \<times> int \<Rightarrow> SubmitResult prog" where
  "amend_rows E ledgerID originalTxID changes key ikHash now = (\<lambda>(eventID, seq).
     andThen (mapErr (wrapped ''updating transaction metadata: '')
       (UpdateTransactionMetadata E Tx ledgerID originalTxID changes)) (\<lambda>_.
     andThen (InsertMetadataHistory E Tx \<lparr>mh_LedgerID = ledgerID, mh_TargetType = TargetTypeTransaction,
       mh_TargetID = originalTxID, mh_Revision = seq, mh_Metadata = changes, mh_EventID = eventID,
       mh_SystemTime = now\<rparr>) (\<lambda>_.
     andThen (InsertRelationship E Tx \<lparr>rl_LedgerID = ledgerID, rl_ParentTxID = originalTxID,
       rl_ChildTxID = eventID, rl_RelationshipType = RelationshipTypeAmends, rl_EventID = eventID,
       rl_SystemTime = now\<rparr>) (\<lambda>_.
     andThen (recordIfKeyed E ledgerID key eventID ikHash) (\<lambda>_.
     ok (submitted eventID))))))"

definition amendT ::
  "env \<Rightarrow> string \<Rightarrow> string \<Rightarrow> metadata \<Rightarrow> string \<Rightarrow> bytes option \<Rightarrow> time \<Rightarrow> SubmitResult thread" where
  "amendT E ledgerID originalTxID changes key ikHash now =
     seqT (lift (GetTransaction E Tx ledgerID originalTxID)) (\<lambda>_.
     appendEventT (\<lambda>e. e) E ledgerID EventTypeTransactionAmended (amend_payload originalTxID changes)
       key ikHash now now (amend_rows E ledgerID originalTxID changes key ikHash now))"

lemma run_amendT: "run (amendT E l t md k h now) = doAmendInTx E l t md k h now"
  by (simp add: amendT_def doAmendInTx_def amend_rows_def run_simps)

subsection \<open>Holds\<close>

definition authorize_rows ::
  "env \<Rightarrow> string \<Rightarrow> string \<Rightarrow> string \<Rightarrow> string \<Rightarrow> int \<Rightarrow> time \<Rightarrow> string \<Rightarrow> bytes option \<Rightarrow> time \<Rightarrow>
     string \<Rightarrow> string \<times> int \<Rightarrow> SubmitResult prog" where
  "authorize_rows E ledgerID source destHint asset amt expiresAt key ikHash now holdID = (\<lambda>(eventID, _).
     andThen (InsertHold E Tx \<lparr>hd_LedgerID = ledgerID, hd_HoldID = holdID, hd_Source = source,
       hd_DestinationHint = destHint, hd_Asset = asset, hd_AuthorizedAmount = amt,
       hd_CapturedAmount = 0, hd_Voided = False, hd_Expired = False, hd_ExpiresAt = expiresAt,
       hd_AuthorizedEventID = eventID, hd_ValidTime = now, hd_SystemTime = now\<rparr>) (\<lambda>_.
     andThen (mapErr (wrapped ''upserting source account: '')
       (UpsertAccount E Tx (touch ledgerID source now))) (\<lambda>_.
     andThen (recordIfKeyed E ledgerID key eventID ikHash) (\<lambda>_.
     ok ((submitted eventID)\<lparr>HoldID := holdID\<rparr>)))))"

definition authorizeT ::
  "env \<Rightarrow> LedgerRecord \<Rightarrow> string \<Rightarrow> string \<Rightarrow> string \<Rightarrow> int option \<Rightarrow> time \<Rightarrow> string \<Rightarrow> bytes option \<Rightarrow> time \<Rightarrow> SubmitResult thread" where
  "authorizeT E ledger source destHint asset amount expiresAt key ikHash now =
     (case amount of
        None \<Rightarrow> Done (Inl (Errorf ''authorize amount must be positive''))
      | Some amt \<Rightarrow>
     if amt \<le> 0 then Done (Inl (Errorf ''authorize amount must be positive''))
     else
       seqT (lift (ulid_Make E)) (\<lambda>holdID.
       seqT (checkAvailableT E ledger source asset amt (authorize_detail source asset amt)) (\<lambda>_.
       appendEventT (\<lambda>e. e) E (lr_ID ledger) EventTypeHoldCreated
         (authorize_payload E holdID source destHint amt asset expiresAt) key ikHash now now
         (authorize_rows E (lr_ID ledger) source destHint asset amt expiresAt key ikHash now holdID))))"

lemma run_authorizeT:
  "run (authorizeT E lr so hi as am ex k h now) = doAuthorizeInTx E lr so hi as am ex k h now"
  by (cases am) (simp_all add: authorizeT_def doAuthorizeInTx_def authorize_rows_def run_simps)

text \<open>\<open>SELECT ... FOR UPDATE\<close> on a hold: the row is read once its lock is held.\<close>

definition GetHoldT :: "env \<Rightarrow> string \<Rightarrow> string \<Rightarrow> (HoldRecord \<Rightarrow> 'r thread) \<Rightarrow> 'r thread" where
  "GetHoldT E ledgerID holdID k = Lock (HoldRow ledgerID holdID) (seqT (lift (GetHold E Tx ledgerID holdID)) k)"

lemma run_GetHoldT [simp]: "run (GetHoldT E l i k) = andThen (GetHold E Tx l i) (\<lambda>h. run (k h))"
  by (simp add: GetHoldT_def run_seqT)

definition capture_rows ::
  "env \<Rightarrow> string \<Rightarrow> string \<Rightarrow> HoldRecord \<Rightarrow> int \<Rightarrow> string \<Rightarrow> string \<Rightarrow> bytes option \<Rightarrow> time \<Rightarrow> string \<times> int \<Rightarrow> SubmitResult prog" where
  "capture_rows E ledgerID holdID hold amt dest key ikHash now = (\<lambda>(eventID, _).
     andThen (UpdateHoldCaptured E Tx ledgerID holdID amt) (\<lambda>_.
     andThen (InsertVolumeDelta E Tx (vdelta ledgerID (hd_Source hold) (hd_Asset hold) eventID now now 0 amt)) (\<lambda>_.
     andThen (InsertVolumeDelta E Tx (vdelta ledgerID dest (hd_Asset hold) eventID now now amt 0)) (\<lambda>_.
     andThen (mapErr (wrapped ''upserting destination account: '')
       (UpsertAccount E Tx (touch ledgerID dest now))) (\<lambda>_.
     andThen (recordIfKeyed E ledgerID key eventID ikHash) (\<lambda>_.
     ok (submitted eventID)))))))"

definition captureT ::
  "env \<Rightarrow> string \<Rightarrow> string \<Rightarrow> int option \<Rightarrow> string \<Rightarrow> string \<Rightarrow> bytes option \<Rightarrow> time \<Rightarrow> SubmitResult thread" where
  "captureT E ledgerID holdID amount destination key ikHash now =
     (case amount of
        None \<Rightarrow> Done (Inl (Errorf ''capture amount must be positive''))
      | Some amt \<Rightarrow>
     if amt \<le> 0 then Done (Inl (Errorf ''capture amount must be positive''))
     else
       GetHoldT E ledgerID holdID (\<lambda>hold.
       seqT (lift (ofErr (checkHoldOpen hold holdID))) (\<lambda>_.
       if amt > hd_AuthorizedAmount hold - hd_CapturedAmount hold then
         Done (Inl (suffixed ErrInsufficientFunds ('': capture '' @ int_String amt @ '' exceeds remaining '' @
           int_String (hd_AuthorizedAmount hold - hd_CapturedAmount hold) @ '' on hold '' @ holdID)))
       else
         let dest = (if destination = [] then hd_DestinationHint hold else destination) in
         if dest = [] then Done (Inl (Errorf ''destination required for capture (no destination_hint on hold)''))
         else
           appendEventT (\<lambda>e. e) E ledgerID EventTypeHoldConfirmed (capture_payload holdID amt dest)
             key ikHash now now (capture_rows E ledgerID holdID hold amt dest key ikHash now))))"

lemma run_captureT: "run (captureT E l i am ds k h now) = doCaptureInTx E l i am ds k h now"
  unfolding captureT_def doCaptureInTx_def capture_rows_def Let_def
  by (cases am) (simp_all add: run_simps cong: if_cong)

definition void_rows ::
  "env \<Rightarrow> string \<Rightarrow> string \<Rightarrow> string \<Rightarrow> bytes option \<Rightarrow> string \<times> int \<Rightarrow> SubmitResult prog" where
  "void_rows E ledgerID holdID key ikHash = (\<lambda>(eventID, _).
     andThen (VoidHold E Tx ledgerID holdID) (\<lambda>_.
     andThen (recordIfKeyed E ledgerID key eventID ikHash) (\<lambda>_.
     ok (submitted eventID))))"

definition voidT :: "env \<Rightarrow> string \<Rightarrow> string \<Rightarrow> string \<Rightarrow> bytes option \<Rightarrow> time \<Rightarrow> SubmitResult thread" where
  "voidT E ledgerID holdID key ikHash now =
     GetHoldT E ledgerID holdID (\<lambda>hold.
     seqT (lift (ofErr (checkHoldOpen hold holdID))) (\<lambda>_.
     appendEventT (\<lambda>e. e) E ledgerID EventTypeHoldVoided (void_payload holdID) key ikHash now now
       (void_rows E ledgerID holdID key ikHash)))"

lemma run_voidT: "run (voidT E l i k h now) = doVoidInTx E l i k h now"
  by (simp add: voidT_def doVoidInTx_def void_rows_def run_simps)

definition expire_rows :: "env \<Rightarrow> HoldRecord \<Rightarrow> string \<times> int \<Rightarrow> string option prog" where
  "expire_rows E hold = (\<lambda>(eventID, _).
     andThen (ExpireHold E Tx (hd_LedgerID hold) (hd_HoldID hold)) (\<lambda>_. ok (Some eventID)))"

definition expireT :: "env \<Rightarrow> HoldRecord \<Rightarrow> time \<Rightarrow> string option thread" where
  "expireT E hold now =
     GetHoldT E (hd_LedgerID hold) (hd_HoldID hold) (\<lambda>currentHold.
     if hd_Expired currentHold \<or> hd_Voided currentHold then Done (Inr None)
     else
       appendEventT (\<lambda>e. e) E (hd_LedgerID hold) EventTypeHoldExpired (expire_payload hold) [] None now now
         (expire_rows E hold))"

lemma run_expireT: "run (expireT E hold now) = expireInTx E hold now"
  by (simp add: expireT_def expireInTx_def expire_rows_def run_simps cong: if_cong)

subsection \<open>Metadata and schemas\<close>

definition set_rows ::
  "env \<Rightarrow> string \<Rightarrow> int \<Rightarrow> string \<Rightarrow> metadata \<Rightarrow> string \<Rightarrow> bytes option \<Rightarrow> time \<Rightarrow> string \<times> int \<Rightarrow> SubmitResult prog" where
  "set_rows E ledgerID targetType targetID md key ikHash now = (\<lambda>(eventID, seq).
     andThen (setTarget E ledgerID targetType targetID md now) (\<lambda>_.
     andThen (InsertMetadataHistory E Tx \<lparr>mh_LedgerID = ledgerID, mh_TargetType = targetType,
       mh_TargetID = targetID, mh_Revision = seq, mh_Metadata = md, mh_EventID = eventID,
       mh_SystemTime = now\<rparr>) (\<lambda>_.
     andThen (recordIfKeyed E ledgerID key eventID ikHash) (\<lambda>_.
     ok (submitted eventID)))))"

definition setMetadataT ::
  "env \<Rightarrow> string \<Rightarrow> int \<Rightarrow> string \<Rightarrow> metadata \<Rightarrow> string \<Rightarrow> bytes option \<Rightarrow> time \<Rightarrow> SubmitResult thread" where
  "setMetadataT E ledgerID targetType targetID md key ikHash now =
     appendEventT (\<lambda>e. e) E ledgerID EventTypeMetadataSet (set_payload targetType targetID md) key ikHash now now
       (set_rows E ledgerID targetType targetID md key ikHash now)"

lemma run_setMetadataT: "run (setMetadataT E l tt ti md k h now) = doSetMetadataInTx E l tt ti md k h now"
  by (simp add: setMetadataT_def doSetMetadataInTx_def set_rows_def)

definition delete_rows ::
  "env \<Rightarrow> string \<Rightarrow> int \<Rightarrow> string \<Rightarrow> string \<Rightarrow> string \<Rightarrow> bytes option \<Rightarrow> time \<Rightarrow> string \<times> int \<Rightarrow> SubmitResult prog" where
  "delete_rows E ledgerID targetType targetID mkey key ikHash now = (\<lambda>(eventID, seq).
     andThen (deleteTarget E ledgerID targetType targetID mkey now) (\<lambda>_.
     andThen (currentMetadata E ledgerID targetType targetID) (\<lambda>current.
     andThen (InsertMetadataHistory E Tx \<lparr>mh_LedgerID = ledgerID, mh_TargetType = targetType,
       mh_TargetID = targetID, mh_Revision = seq,
       mh_Metadata = (case current of None \<Rightarrow> Some [] | Some kvs \<Rightarrow> Some kvs), mh_EventID = eventID,
       mh_SystemTime = now\<rparr>) (\<lambda>_.
     andThen (recordIfKeyed E ledgerID key eventID ikHash) (\<lambda>_.
     ok (submitted eventID))))))"

definition deleteMetadataT ::
  "env \<Rightarrow> string \<Rightarrow> int \<Rightarrow> string \<Rightarrow> string \<Rightarrow> string \<Rightarrow> bytes option \<Rightarrow> time \<Rightarrow> SubmitResult thread" where
  "deleteMetadataT E ledgerID targetType targetID mkey key ikHash now =
     appendEventT (\<lambda>e. e) E ledgerID EventTypeMetadataDeleted (delete_payload targetType targetID mkey)
       key ikHash now now (delete_rows E ledgerID targetType targetID mkey key ikHash now)"

lemma run_deleteMetadataT:
  "run (deleteMetadataT E l tt ti mk k h now) = doDeleteMetadataInTx E l tt ti mk k h now"
  by (simp add: deleteMetadataT_def doDeleteMetadataInTx_def delete_rows_def)

definition schema_rows ::
  "env \<Rightarrow> string \<Rightarrow> bytes \<Rightarrow> string \<Rightarrow> string \<Rightarrow> bytes option \<Rightarrow> string \<times> int \<Rightarrow> SubmitResult prog" where
  "schema_rows E ledgerID schemaBytes version key ikHash = (\<lambda>(eventID, _).
     andThen (InsertSchema E Tx \<lparr>sc_LedgerID = ledgerID, sc_Version = version,
       sc_Document = DocBytes schemaBytes, sc_InsertedAt = 0, sc_EventID = eventID\<rparr>) (\<lambda>_.
     andThen (recordIfKeyed E ledgerID key eventID ikHash) (\<lambda>_.
     ok (submitted eventID))))"

definition insertSchemaT ::
  "env \<Rightarrow> string \<Rightarrow> bytes \<Rightarrow> string \<Rightarrow> string \<Rightarrow> bytes option \<Rightarrow> time \<Rightarrow> SubmitResult thread" where
  "insertSchemaT E ledgerID schemaBytes version key ikHash now =
     appendEventT (\<lambda>e. e) E ledgerID EventTypeSchemaInserted schemaBytes key ikHash now now
       (schema_rows E ledgerID schemaBytes version key ikHash)"

lemma run_insertSchemaT: "run (insertSchemaT E l b v k h now) = doInsertSchemaInTx E l b v k h now"
  by (simp add: insertSchemaT_def doInsertSchemaInTx_def schema_rows_def)

end
