(* ===== verification/Interleaving.thy ===== *)
theory Interleaving
  imports Threads
begin

text \<open>
  Any number of transactions of one ledger, interleaved statement by statement under READ
  COMMITTED with the row locks the statements take, and the invariants of the committed
  tables that hold in every such run.
\<close>

subsection \<open>What a transaction writes behind the lock of the ledger\<close>

text \<open>Rows of a hold that is not locked stay as they are; new holds may be added.\<close>

definition holds_kept :: "lock set \<Rightarrow> db \<Rightarrow> db \<Rightarrow> bool" where
  "holds_kept L d d' \<longleftrightarrow> (\<forall>m i h. HoldRow m i \<notin> L \<longrightarrow> find_hold m i d = Some h \<longrightarrow> find_hold m i d' = Some h)
     \<and> (holds_ok d \<longrightarrow> holds_ok d')"

definition extends :: "string \<Rightarrow> string \<Rightarrow> lock set \<Rightarrow> db \<Rightarrow> db \<Rightarrow> bool" where
  "extends l i L d d' \<longleftrightarrow> log_events d' = log_events d \<and>
     (\<exists>vs. volumes_delta d' = volumes_delta d @ vs \<and> zero_sum vs \<and>
        list_all (\<lambda>v. vd_LedgerID v = l \<and> vd_EventID v = i) vs) \<and>
     ledgers d' = ledgers d \<and> policies d' = policies d \<and> pending_approvals d' = pending_approvals d \<and>
     holds_kept L d d'"

definition writes :: "string \<Rightarrow> lock set \<Rightarrow> db \<Rightarrow> db \<Rightarrow> bool" where
  "writes l L d d' \<longleftrightarrow> (\<exists>ev vs. booked l ev vs d d') \<and> holds_kept L d d'"

lemma writes_sound: "writes l L d d' \<Longrightarrow> sound d \<Longrightarrow> sound d'"
  using booked_sound sound_holds_ok by (auto simp: writes_def holds_kept_def)

lemma writes_log: "writes l L d d' \<Longrightarrow> \<exists>ev. log_events d' = log_events d @ [ev]"
  by (auto simp: writes_def booked_def)

lemma holds_kept_same: "holds d' = holds d \<Longrightarrow> holds_kept L d d'"
  by (simp add: holds_kept_def find_hold_def holds_ok_def)

lemma holds_kept_cong: "holds_kept L d d' \<Longrightarrow> holds e = holds d \<Longrightarrow> holds_kept L e d'"
  by (simp add: holds_kept_def find_hold_def holds_ok_def)

lemma extends_same:
  "log_events d' = log_events d \<Longrightarrow> volumes_delta d' = volumes_delta d \<Longrightarrow> ledgers d' = ledgers d \<Longrightarrow>
     policies d' = policies d \<Longrightarrow> pending_approvals d' = pending_approvals d \<Longrightarrow> holds_kept L d d' \<Longrightarrow> extends l i L d d'"
  by (simp add: extends_def zero_sum_def)

lemma writesI:
  assumes "next_event l ty pl k d ev" "extends l (ev_EventID ev) L (d\<lparr>log_events := log_events d @ [ev]\<rparr>) d'"
  shows "writes l L d d'"
proof -
  obtain vs where "booked l ev vs d d'"
    using assms by (auto simp: extends_def next_event_def booked_def)
  moreover have "holds_kept L d d'"
    using assms(2) by (auto simp: extends_def intro: holds_kept_cong)
  ultimately show ?thesis by (auto simp: writes_def)
qed

lemma keyed_only: "keyed l k i h d d' \<Longrightarrow> \<exists>ks. d' = d\<lparr>idempotency_keys := ks\<rparr>"
  unfolding keyed_def by (metis (no_types) db.surjective db.update_convs(4))

lemma does_recordIfKeyed_only:
  "does (recordIfKeyed E l k i h) (\<lambda>d r d'. \<exists>ks. d' = d\<lparr>idempotency_keys := ks\<rparr>)"
  by (rule does_weaken [OF does_recordIfKeyed]) (auto dest: keyed_only)

lemma does_InsertTransaction_only:
  "does (InsertTransaction E Tx t) (\<lambda>d r d'. \<exists>ts. d' = d\<lparr>transactions := ts\<rparr>)"
  by (rule does_weaken [OF does_InsertTransaction]) blast

lemma extends_postings:
  assumes "adds_rows (posting_deltas l i vt now ps) d d'"
  shows "extends l i L d d'"
  using assms posting_deltas_zero_sum posting_deltas_owner
  by (simp add: adds_rows_def extends_def holds_kept_same)

lemma extends_around:
  assumes "extends l i L d1 d2"
    and "log_events d1 = log_events d" "volumes_delta d1 = volumes_delta d" "ledgers d1 = ledgers d"
      "policies d1 = policies d" "pending_approvals d1 = pending_approvals d" "holds d1 = holds d"
    and "log_events d' = log_events d2" "volumes_delta d' = volumes_delta d2" "ledgers d' = ledgers d2"
      "policies d' = policies d2" "pending_approvals d' = pending_approvals d2" "holds d' = holds d2"
  shows "extends l i L d d'"
  using assms by (simp add: extends_def holds_kept_def find_hold_def holds_ok_def)

lemma does_post_rows:
  "does (post_rows E l ps ref md k h vt now txID (i, q)) (\<lambda>d r d'. \<forall>x. r = Inr x \<longrightarrow> extends l i L d d')"
  unfolding post_rows_def prod.case Let_def
proof (rule does_weaken, (rule does_history does_recordIfKeyed_only does_InsertTransaction_only does_intro)+,
    intro allI impI, goal_cases)
  case (1 d r d' x)
  then show ?case by clarsimp (erule extends_around [OF extends_postings], simp_all)
qed

lemma does_convert_rows:
  "does (convert_rows E l p k h vt now cid txID (i, q)) (\<lambda>d r d'. \<forall>x. r = Inr x \<longrightarrow> extends l i L d d')"
  unfolding convert_rows_def prod.case
proof (rule does_weaken, (rule does_recordIfKeyed_only does_InsertTransaction_only does_intro)+,
    intro allI impI, goal_cases)
  case (1 d r d' x)
  then show ?case by clarsimp (erule extends_around [OF extends_postings], simp_all)
qed

lemma does_revert_rows:
  "does (revert_rows E l t ps md k h vt now txID (i, q)) (\<lambda>d r d'. \<forall>x. r = Inr x \<longrightarrow> extends l i L d d')"
  unfolding revert_rows_def prod.case Let_def
proof (rule does_weaken, (rule does_recordIfKeyed_only does_InsertTransaction_only does_intro)+,
    intro allI impI, goal_cases)
  case (1 d r d' x)
  then show ?case by clarsimp (erule extends_around [OF extends_postings], simp_all)
qed

lemma does_amend_rows:
  "does (amend_rows E l t md k h now (i, q)) (\<lambda>d r d'. \<forall>x. r = Inr x \<longrightarrow> extends l i L d d')"
  unfolding amend_rows_def prod.case
  by (rule does_weaken, (rule does_recordIfKeyed_only does_intro)+) (auto intro!: extends_same holds_kept_same)

lemma does_schema_rows:
  "does (schema_rows E l b v k h (i, q)) (\<lambda>d r d'. \<forall>x. r = Inr x \<longrightarrow> extends l i L d d')"
  unfolding schema_rows_def prod.case
  by (rule does_weaken, (rule does_recordIfKeyed_only does_intro)+) (auto intro!: extends_same holds_kept_same)


lemma does_setTarget_rows:
  "does (setTarget E l tt ti md now) (\<lambda>d r d'. r = Inr () \<longrightarrow> retagged d d')"
  by (rule does_weaken [OF does_setTarget]) (simp add: retagged_refl retagged_upsert retagged_retag)

lemma does_set_rows:
  "does (set_rows E l tt ti md k h now (i, q)) (\<lambda>d r d'. \<forall>x. r = Inr x \<longrightarrow> extends l i L d d')"
  unfolding set_rows_def prod.case
proof (rule does_weaken, (rule does_setTarget_rows does_recordIfKeyed_only does_intro)+, intro allI impI, goal_cases)
  case (1 d r d' x)
  then show ?case by (auto simp: retagged_def intro!: extends_same holds_kept_same)
qed

lemma does_delete_rows:
  "does (delete_rows E l tt ti mk k h now (i, q)) (\<lambda>d r d'. \<forall>x. r = Inr x \<longrightarrow> extends l i L d d')"
  unfolding delete_rows_def prod.case
proof (rule does_weaken, (rule does_recordIfKeyed_only does_intro)+, intro allI impI, goal_cases)
  case (1 d r d' x)
  then show ?case
    by (auto dest!: retagged_deleted simp: retagged_def intro!: extends_same holds_kept_same)
qed

text \<open>Holds: a new one, or a change of the one that is locked.\<close>

lemma find_append: "find P (xs @ ys) = (case find P xs of None \<Rightarrow> find P ys | Some x \<Rightarrow> Some x)"
  by (induction xs) simp_all

lemma holds_kept_insert:
  assumes "find_hold (hd_LedgerID hold) (hd_HoldID hold) d = None" "hold_ok hold" "holds d' = holds d @ [hold]"
  shows "holds_kept L d d'"
proof -
  have "(hd_LedgerID hold, hd_HoldID hold) \<notin> (\<lambda>h. (hd_LedgerID h, hd_HoldID h)) ` set (holds d)"
    using assms(1) by (auto simp: find_hold_def find_None_iff is_hold_def)
  then show ?thesis
    using assms by (simp add: holds_kept_def find_hold_def find_append holds_ok_def)
qed

lemma does_authorize_rows:
  assumes "0 < amt"
  shows "does (authorize_rows E l so hi as amt ex k h now hid (i, q)) (\<lambda>d r d'. \<forall>x. r = Inr x \<longrightarrow> extends l i L d d')"
  unfolding authorize_rows_def prod.case
proof (rule does_weaken, (rule does_touch does_recordIfKeyed_only does_intro)+, intro allI impI, goal_cases)
  case (1 d r d' x)
  then show ?case
    using assms by (auto intro!: extends_same holds_kept_insert simp: hold_ok_def)
qed

lemma find_hold_update_other:
  assumes "(m, j) \<noteq> (l, i)" "\<And>r. hd_LedgerID (u r) = hd_LedgerID r \<and> hd_HoldID (u r) = hd_HoldID r"
  shows "find_hold m j (update_hold l i u d) = find_hold m j d"
proof -
  have "find (is_hold m j) (map (\<lambda>r. if is_hold l i r \<and> active r then u r else r) hs) = find (is_hold m j) hs" for hs
    using assms by (induction hs) (auto simp: is_hold_def)
  then show ?thesis by (simp add: find_hold_def update_hold_def)
qed

lemma find_hold_ok: "holds_ok d \<Longrightarrow> find_hold l i d = Some h \<Longrightarrow> hold_ok h"
  by (auto simp: holds_ok_def list_all_iff find_hold_def find_Some_iff)

lemma holds_kept_update:
  assumes "find_hold l i d = Some hold" "active hold" "HoldRow l i \<in> L"
    and "\<And>r. hd_LedgerID (u r) = hd_LedgerID r \<and> hd_HoldID (u r) = hd_HoldID r"
    and "hold_ok hold \<Longrightarrow> hold_ok (u hold)" and "holds d' = holds (update_hold l i u d)"
  shows "holds_kept L d d'"
proof -
  have "holds_ok (update_hold l i u d)" if "holds_ok d"
    using update_hold_ok [OF that assms(1,2)] assms(4,5) find_hold_ok [OF that assms(1)] by blast
  moreover have "find_hold m j (update_hold l i u d) = find_hold m j d" if "HoldRow m j \<notin> L" for m j
    using that assms(3) by (intro find_hold_update_other assms(4)) blast
  ultimately show ?thesis
    using assms(6) by (simp add: holds_kept_def holds_ok_def find_hold_def)
qed

lemma does_capture_rows:
  assumes "0 < amt" "amt \<le> hd_AuthorizedAmount hold - hd_CapturedAmount hold" "active hold" "HoldRow l j \<in> L"
  shows "does (capture_rows E l j hold amt dest k h now (i, q))
    (\<lambda>d r d'. \<forall>x. r = Inr x \<longrightarrow> find_hold l j d = Some hold \<longrightarrow> extends l i L d d')"
  unfolding capture_rows_def prod.case
proof (rule does_weaken, (rule does_touch does_recordIfKeyed_only does_InsertVolumeDelta_rows does_intro)+,
    intro allI impI, goal_cases)
  case (1 d r d' x)
  let ?u = "\<lambda>h. h\<lparr>hd_CapturedAmount := hd_CapturedAmount h + amt\<rparr>"
  have "holds_kept L d d'"
    by (rule holds_kept_update [where u = ?u, OF 1(3) assms(3,4)])
       (use assms 1 in \<open>auto simp: hold_ok_def adds_rows_def update_hold_def\<close>)
  then show ?case using 1 by (auto simp: adds_rows_def extends_def update_hold_def zero_sum_def)
qed

lemma close_extends:
  assumes "find_hold l j d = Some hold" "active hold" "HoldRow l j \<in> L"
    and "\<And>r. hd_LedgerID (u r) = hd_LedgerID r \<and> hd_HoldID (u r) = hd_HoldID r"
    and "hold_ok hold \<Longrightarrow> hold_ok (u hold)"
  shows "extends l i L d ((update_hold l j u d)\<lparr>idempotency_keys := ks\<rparr>)" "extends l i L d (update_hold l j u d)"
  using holds_kept_update [OF assms(1-4), where d' = "(update_hold l j u d)\<lparr>idempotency_keys := ks\<rparr>"]
    holds_kept_update [OF assms(1-4), where d' = "update_hold l j u d"] assms(5)
  by (auto intro!: extends_same simp: update_hold_def)

lemma does_void_rows:
  assumes "active hold" "HoldRow l j \<in> L"
  shows "does (void_rows E l j k h (i, q)) (\<lambda>d r d'. \<forall>x. r = Inr x \<longrightarrow> find_hold l j d = Some hold \<longrightarrow> extends l i L d d')"
  unfolding void_rows_def prod.case
proof (rule does_weaken, (rule does_recordIfKeyed_only does_intro)+, intro allI impI, goal_cases)
  case (1 d r d' x)
  then show ?case using assms by (auto simp: hold_ok_def active_def intro!: close_extends)
qed

lemma does_expire_rows:
  assumes "active cur" "HoldRow (hd_LedgerID hold) (hd_HoldID hold) \<in> L"
  shows "does (expire_rows E hold (i, q)) (\<lambda>d r d'. \<forall>x. r = Inr x \<longrightarrow>
    find_hold (hd_LedgerID hold) (hd_HoldID hold) d = Some cur \<longrightarrow> extends (hd_LedgerID hold) i L d d')"
  unfolding expire_rows_def prod.case
proof (rule does_weaken, (rule does_intro)+, intro allI impI, goal_cases)
  case (1 d r d' x)
  then show ?case using assms by (auto simp: hold_ok_def active_def intro!: close_extends)
qed


subsection \<open>Interleaved transactions\<close>

text \<open>
  The processes share one world: the committed tables, the batch manager, the streams of
  identifiers and clock readings. A process has its thread, the row locks it holds, and the view of
  its transaction after its last statement. A statement sees the tables as they are committed when it
  runs; a lock is granted when no other process holds it; a transaction that ends with a
  result commits its view when it has locked the ledger, has nothing to commit otherwise, and
  is rolled back when it ends with an error. With the end of the transaction its locks are gone.
\<close>

record proc =
  pc :: "string option thread"
  locks :: "lock list"
  view :: txstate

record system =
  shared :: world
  procs :: "proc list"

definition started :: "string option thread \<Rightarrow> proc" where
  "started t = \<lparr>pc = t, locks = [], view = NoTx\<rparr>"

definition ended :: "error + string option \<Rightarrow> proc" where
  "ended r = \<lparr>pc = Done r, locks = [], view = NoTx\<rparr>"

definition free :: "lock \<Rightarrow> nat \<Rightarrow> proc list \<Rightarrow> bool" where
  "free k i ps \<longleftrightarrow> (\<forall>j < length ps. j \<noteq> i \<longrightarrow> k \<notin> set (locks (ps ! j)))"

definition is_ledger_row :: "lock \<Rightarrow> bool" where
  "is_ledger_row k = (case k of LedgerRow l \<Rightarrow> True | HoldRow l i \<Rightarrow> False)"

text \<open>The next step of process \<open>i\<close>; \<open>None\<close> when it waits for a lock or there is no such process.\<close>

definition advance :: "env \<Rightarrow> nat \<Rightarrow> system \<Rightarrow> system option" where
  "advance E i s =
     (if length (procs s) \<le> i then None
      else let p = procs s ! i; w = shared s in
        case pc p of
          Stmt f \<Rightarrow> (case f (w\<lparr>tx := OpenTx (pg w)\<rparr>) of (t, w') \<Rightarrow>
            Some \<lparr>shared = w'\<lparr>tx := NoTx\<rparr>, procs = (procs s)[i := p\<lparr>pc := t, view := tx w'\<rparr>]\<rparr>)
        | Lock k t \<Rightarrow> if free k i (procs s) then Some (s\<lparr>procs := (procs s)[i := p\<lparr>pc := t, locks := k # locks p\<rparr>]\<rparr>) else None
        | Done r \<Rightarrow>
            if list_ex is_ledger_row (locks p) then
              case r of
                Inl e \<Rightarrow> Some (s\<lparr>procs := (procs s)[i := ended r]\<rparr>)
              | Inr x \<Rightarrow> (case Commit E (w\<lparr>tx := view p\<rparr>) of
                    (Inl e, w') \<Rightarrow> Some \<lparr>shared = w'\<lparr>tx := NoTx\<rparr>, procs = (procs s)[i := ended (Inl e)]\<rparr>
                  | (Inr _, w') \<Rightarrow> Some \<lparr>shared = w'\<lparr>tx := NoTx\<rparr>, procs = (procs s)[i := ended r]\<rparr>)
            else Some (s\<lparr>procs := (procs s)[i := ended r]\<rparr>))"

text \<open>The transactions of a ledger; the result is the event to be published after the commit.\<close>

abbreviation publishing :: "SubmitResult thread \<Rightarrow> string option thread" where
  "publishing t \<equiv> map_thread (\<lambda>x. Some (EventID x)) t"

inductive transaction :: "string \<Rightarrow> string option thread \<Rightarrow> bool" for l where
  t_post: "lr_ID lr = l \<Longrightarrow> transaction l (publishing (postT E lr ps ref md k h vt now))"
| t_convert: "lr_ID lr = l \<Longrightarrow> transaction l (publishing (convertT E lr p k h vt now))"
| t_revert: "transaction l (publishing (revertT E l t f a rs k h now))"
| t_amend: "transaction l (publishing (amendT E l t md k h now))"
| t_authorize: "lr_ID lr = l \<Longrightarrow> transaction l (publishing (authorizeT E lr so hi as am ex k h now))"
| t_capture: "transaction l (publishing (captureT E l i am ds k h now))"
| t_void: "transaction l (publishing (voidT E l i k h now))"
| t_expire: "hd_LedgerID hold = l \<Longrightarrow> transaction l (expireT E hold now)"
| t_set: "transaction l (publishing (setMetadataT E l tt ti md k h now))"
| t_delete: "transaction l (publishing (deleteMetadataT E l tt ti mk k h now))"
| t_schema: "transaction l (publishing (insertSchemaT E l b v k h now))"

inductive interleaved :: "string \<Rightarrow> system \<Rightarrow> system \<Rightarrow> bool" for l s0 where
  run_start: "interleaved l s0 s0"
| run_begin: "interleaved l s0 s \<Longrightarrow> transaction l t \<Longrightarrow>
    interleaved l s0 (s\<lparr>procs := procs s @ [started t]\<rparr>)"
| run_advance: "interleaved l s0 s \<Longrightarrow> advance E i s = Some s' \<Longrightarrow> interleaved l s0 s'"

subsection \<open>What a waiting transaction knows\<close>

text \<open>
  Reads without a lock are worth nothing later on; what was read of a locked hold stays true. A
  thread is allowed when whatever it reads it either ends or locks the ledger and then makes a
  sound extension of the tables as they are at that moment, given what it knows of its holds. A hold is
  locked by a thread that has no lock yet.
\<close>

definition known :: "HoldRecord list \<Rightarrow> db \<Rightarrow> bool" where
  "known S d \<longleftrightarrow> (\<forall>h\<in>set S. find_hold (hd_LedgerID h) (hd_HoldID h) d = Some h)"

definition guarded :: "lock set \<Rightarrow> HoldRecord list \<Rightarrow> bool" where
  "guarded L S \<longleftrightarrow> (\<forall>h\<in>set S. HoldRow (hd_LedgerID h) (hd_HoldID h) \<in> L)"

definition writer :: "string \<Rightarrow> lock set \<Rightarrow> HoldRecord list \<Rightarrow> (world \<Rightarrow> 'r thread \<times> world) \<Rightarrow> bool" where
  "writer l L S f \<longleftrightarrow> (\<forall>w t w'. f w = (t, w') \<longrightarrow> tx w = OpenTx (pg w) \<longrightarrow> known S (pg w) \<longrightarrow>
     pg w' = pg w \<and> (\<exists>r. t = Done r \<and> (\<forall>x d'. r = Inr x \<longrightarrow> tx w' = OpenTx d' \<longrightarrow> writes l L (pg w) d')))"

inductive allowed :: "string \<Rightarrow> lock set \<Rightarrow> HoldRecord list \<Rightarrow> 'r thread \<Rightarrow> bool" for l where
  allowed_Done: "allowed l L S (Done r)"
| allowed_Stmt: "(\<And>w. tx w = OpenTx (pg w) \<Longrightarrow> known S (pg w) \<Longrightarrow> pg (snd (f w)) = pg w \<and>
     (\<exists>S'. guarded L S' \<and> known S' (pg w) \<and> allowed l L S' (fst (f w)))) \<Longrightarrow> allowed l L S (Stmt f)"
| allowed_hold: "allowed l {HoldRow m i} S t \<Longrightarrow> allowed l {} S (Lock (HoldRow m i) t)"
| allowed_ledger: "writer l L S f \<Longrightarrow> allowed l L S (Lock (LedgerRow l) (Stmt f))"

lemma allowed_map: "allowed l L S t \<Longrightarrow> allowed l L S (map_thread g t)"
proof (induction rule: allowed.induct)
  case (allowed_Stmt S f L)
  have "pg (snd (map_prod (map_thread g) id (f w))) = pg w \<and>
      (\<exists>S'. guarded L S' \<and> known S' (pg w) \<and> allowed l L S' (fst (map_prod (map_thread g) id (f w))))"
    if "tx w = OpenTx (pg w)" "known S (pg w)" for w
    using allowed_Stmt.IH [OF that] by auto
  then have "allowed l L S (Stmt (\<lambda>w. map_prod (map_thread g) id (f w)))" by (rule allowed.allowed_Stmt)
  then show ?case by (simp add: comp_def)
next
  case (allowed_ledger L S f)
  have "writer l L S (\<lambda>w. map_prod (map_thread g) id (f w))"
    unfolding writer_def
  proof (intro allI impI)
    fix w t w'
    assume run: "map_prod (map_thread g) id (f w) = (t, w')" and w: "tx w = OpenTx (pg w)" "known S (pg w)"
    obtain u where u: "f w = (u, w')" "t = map_thread g u" using run by (cases "f w") auto
    with allowed_ledger w obtain r where r: "pg w' = pg w" "u = Done r"
      "\<forall>x d'. r = Inr x \<longrightarrow> tx w' = OpenTx d' \<longrightarrow> writes l L (pg w) d'" unfolding writer_def by blast
    then show "pg w' = pg w \<and> (\<exists>r. t = Done r \<and> (\<forall>x d'. r = Inr x \<longrightarrow> tx w' = OpenTx d' \<longrightarrow> writes l L (pg w) d'))"
      using u(2) by (cases r) auto
  qed
  then show ?case by (simp add: allowed.allowed_ledger comp_def)
qed (simp_all add: allowed.intros)


text \<open>Threads that only read.\<close>

inductive reads_only :: "'a thread \<Rightarrow> bool" where
  reads_Done: "reads_only (Done r)"
| reads_Stmt: "(\<And>w. pg (snd (f w)) = pg w \<and> reads_only (fst (f w))) \<Longrightarrow> reads_only (Stmt f)"

named_theorems reads_intro \<open>threads that only read\<close>

lemma reads_lift [reads_intro]: "keeps tx_frame m \<Longrightarrow> reads_only (lift m)"
  unfolding lift_def
  by (rule reads_Stmt) (auto dest!: keepsD simp: tx_frame_def reads_Done split: prod.split)

lemma reads_seqT [reads_intro]: "reads_only t \<Longrightarrow> (\<And>x. reads_only (k x)) \<Longrightarrow> reads_only (seqT t k)"
proof (induction rule: reads_only.induct)
  case (reads_Done r)
  then show ?case by (simp add: reads_only.reads_Done split: sum.split)
next
  case (reads_Stmt f)
  then show ?case unfolding seqT.simps by (intro reads_only.reads_Stmt) auto
qed

lemma reads_forT [reads_intro]: "(\<And>x. reads_only (f x)) \<Longrightarrow> reads_only (forT f xs)"
  by (induction xs) (simp_all add: reads_only.reads_Done reads_seqT)

lemma reads_if [reads_intro]: "reads_only t \<Longrightarrow> reads_only u \<Longrightarrow> reads_only (if b then t else u)"
  by simp

lemma reads_case_prod [reads_intro]: "(\<And>x y. reads_only (f x y)) \<Longrightarrow> reads_only (case p of (x, y) \<Rightarrow> f x y)"
  by (cases p) simp

declare reads_Done [reads_intro]

lemma reads_availableBalanceT [reads_intro]: "reads_only (availableBalanceT E l a s)"
  unfolding availableBalanceT_def by (intro reads_intro tx_frame.keeps_rules frame_intro)

lemma reads_checks [reads_intro]:
  "reads_only (checkSourceBalancesT E lr os ins)" "reads_only (checkAvailableT E lr a s n dt)"
  "reads_only (checkAllReversedT E f l lr ps)"
  unfolding checkSourceBalancesT_def checkSourceBalanceT_def checkAvailableT_def checkAllReversedT_def checkReversedT_def
  by (intro reads_intro)+

lemma allowed_seqT:
  assumes "reads_only t" "\<And>x. allowed l L S (k x)" "guarded L S"
  shows "allowed l L S (seqT t k)"
  using assms(1)
proof (induction rule: reads_only.induct)
  case (reads_Done r)
  then show ?case by (simp add: assms(2) allowed_Done split: sum.split)
next
  case (reads_Stmt f)
  then show ?case unfolding seqT.simps using assms(3) by (intro allowed_Stmt) auto
qed

lemma allowed_guard:
  assumes "v = None \<Longrightarrow> allowed l L S (k ())" "guarded L S"
  shows "allowed l L S (seqT (lift (ofErr v)) k)"
  unfolding lift_def seqT.simps
  using assms by (cases v) (auto intro!: allowed_Stmt exI [of _ S] allowed_Done simp: fail_def ok_def)

text \<open>Reading a hold under its lock.\<close>

lemma GetHold_found: "GetHold E Tx l i w = (Inr h, w') \<Longrightarrow> tx w = OpenTx d \<Longrightarrow> find_hold l i d = Some h"
  by (auto simp: GetHold_def hold_record_def query_def stmt_def andThen_def Let_def ok_def fail_def ofSum_def
      split: prod.splits sum.splits option.splits if_splits)

lemma allowed_GetHoldT:
  assumes "\<And>hold. hd_LedgerID hold = m \<Longrightarrow> hd_HoldID hold = i \<Longrightarrow>
      allowed l {HoldRow m i} [hold] (k hold)"
  shows "allowed l {} S (GetHoldT E m i k)"
  unfolding GetHoldT_def
proof (rule allowed_hold)
  let ?L = "{HoldRow m i}" and ?f = "\<lambda>w. map_prod (\<lambda>t. seqT t k) id (case GetHold E Tx m i w of (r, w') \<Rightarrow> (Done r, w'))"
  have "pg (snd (?f w)) = pg w \<and> (\<exists>S'. guarded ?L S' \<and> known S' (pg w) \<and> allowed l ?L S' (fst (?f w)))"
    if w: "tx w = OpenTx (pg w)" for w
  proof -
    obtain r w' where run: "GetHold E Tx m i w = (r, w')" by (cases "GetHold E Tx m i w")
    have pg: "pg w' = pg w" using keepsD [OF keeps_GetHold run] by (simp add: tx_frame_def)
    show ?thesis
    proof (cases r)
      case (Inl e)
      then show ?thesis using run pg by (auto simp: guarded_def known_def allowed_Done intro!: exI [of _ "[]"])
    next
      case (Inr hold)
      have "find_hold m i (pg w) = Some hold" using GetHold_found [OF run [unfolded Inr] w] .
      moreover from this have "hd_LedgerID hold = m" "hd_HoldID hold = i"
        by (auto simp: find_hold_def find_Some_iff is_hold_def)
      ultimately show ?thesis
        using run pg Inr assms by (auto simp: guarded_def known_def intro!: exI [of _ "[hold]"])
    qed
  qed
  then show "allowed l ?L S (seqT (lift (GetHold E Tx m i)) k)"
    unfolding lift_def seqT.simps by (rule allowed_Stmt)
qed

text \<open>The event and the rows behind the lock.\<close>

lemma does_appendRow:
  "does (appendRow E l ty pl k h vt now i b) (\<lambda>d r d'. \<forall>x. r = Inr x \<longrightarrow>
     (\<exists>ev. next_event l ty pl k d ev \<and> ev_EventID ev = i \<and> fst x = i \<and> d' = d\<lparr>log_events := log_events d @ [ev]\<rparr>))"
proof (rule does_weaken)
  show "does (appendRow E l ty pl k h vt now i b) (\<lambda>d r d'. \<forall>x. r = Inr x \<longrightarrow>
     (let ev = new_event i l (next_seq l d) ty pl k h b vt now in
        x = (i, next_seq l d) \<and> list_all (\<lambda>x. \<not> event_conflict ev x) (log_events d) \<and>
        d' = d\<lparr>log_events := log_events d @ [ev]\<rparr>))"
    unfolding appendRow_def by (rule does_weaken, (rule does_intro)+) (auto simp: Let_def)
qed (fastforce simp: Let_def next_event_def new_event_def)

lemma known_log: "known S (d\<lparr>log_events := es\<rparr>) = known S d"
  by (simp add: known_def find_hold_def)

lemma allowed_appendEventT:
  assumes rows: "\<And>i q. does (rows (i, q)) (\<lambda>d r d'. \<forall>x. r = Inr x \<longrightarrow> known S d \<longrightarrow> extends l i L d d')"
    and keep: "\<And>x. keeps tx_frame (rows x)" and S: "guarded L S"
  shows "allowed l L S (appendEventT g E l ty pl k h vt now rows)"
proof -
  have "writer l L S (\<lambda>w. case andThen (mapErr g (appendRow E l ty pl k h vt now i b)) rows w of (r, w') \<Rightarrow> (Done r, w'))" for i b
    unfolding writer_def
  proof (intro allI impI)
    fix w t w'
    let ?m = "andThen (mapErr g (appendRow E l ty pl k h vt now i b)) rows"
    assume "(case ?m w of (r, w') \<Rightarrow> (Done r, w')) = (t, w')" and w: "tx w = OpenTx (pg w)" "known S (pg w)"
    then obtain r where r: "?m w = (r, w')" "t = Done r" by (cases "?m w") auto
    have "keeps tx_frame ?m"
      unfolding appendRow_def by (intro tx_frame.keeps_rules frame_intro keep)
    from keepsD [OF this r(1)] have pg: "pg w' = pg w" by (simp add: tx_frame_def)
    have "does ?m (\<lambda>d r d'. \<forall>x. r = Inr x \<longrightarrow> known S d \<longrightarrow> writes l L d d')"
    proof (rule does_weaken [OF does_andThen [OF does_mapErr [OF does_appendRow]]])
      show "does (rows x) (\<lambda>d r d'. \<forall>y. r = Inr y \<longrightarrow> known S d \<longrightarrow> extends l (fst x) L d d')" for x
        using rows [of "fst x" "snd x"] by simp
    qed (fastforce simp: known_log intro: writesI)
    from does_open [OF this r(1) w(1)] w(2) r(2) pg
    show "pg w' = pg w \<and> (\<exists>r. t = Done r \<and> (\<forall>x d'. r = Inr x \<longrightarrow> tx w' = OpenTx d' \<longrightarrow> writes l L (pg w) d'))" by auto
  qed
  from allowed_ledger [OF this] show ?thesis
    unfolding appendEventT_def
    by (intro allowed_seqT S reads_intro tx_frame.keeps_rules frame_intro) (simp_all add: lift_def)
qed


subsection \<open>Every transaction of a ledger is allowed\<close>

lemma guarded_Nil [simp]: "guarded L []"
  by (simp add: guarded_def)

lemma does_unknown:
  "does m (\<lambda>d r d'. \<forall>x. r = Inr x \<longrightarrow> extends l i L d d') \<Longrightarrow>
     does m (\<lambda>d r d'. \<forall>x. r = Inr x \<longrightarrow> known S d \<longrightarrow> extends l i L d d')"
  by (erule does_weaken) simp

lemma does_known:
  "hd_LedgerID hold = l \<Longrightarrow> hd_HoldID hold = j \<Longrightarrow>
     does m (\<lambda>d r d'. \<forall>x. r = Inr x \<longrightarrow> find_hold l j d = Some hold \<longrightarrow> extends l' i L d d') \<Longrightarrow>
     does m (\<lambda>d r d'. \<forall>x. r = Inr x \<longrightarrow> known [hold] d \<longrightarrow> extends l' i L d d')"
  by (erule does_weaken) (simp add: known_def)

lemma keeps_rows [frame_intro]:
  "keeps tx_frame (post_rows E l ps ref md k h vt now txID x)"
  "keeps tx_frame (convert_rows E l p k h vt now cid txID x)"
  "keeps tx_frame (revert_rows E l t ps md k h vt now txID x)"
  "keeps tx_frame (amend_rows E l t md k h now x)"
  "keeps tx_frame (authorize_rows E l so hi as am ex k h now hid x)"
  "keeps tx_frame (capture_rows E l i hold am ds k h now x)"
  "keeps tx_frame (void_rows E l i k h x)"
  "keeps tx_frame (expire_rows E hold x)"
  "keeps tx_frame (set_rows E l tt ti md k h now x)"
  "keeps tx_frame (delete_rows E l tt ti mk k h now x)"
  "keeps tx_frame (schema_rows E l b v k h x)"
  unfolding post_rows_def convert_rows_def revert_rows_def amend_rows_def authorize_rows_def capture_rows_def
    void_rows_def expire_rows_def set_rows_def delete_rows_def schema_rows_def Let_def
  by (intro tx_frame.keeps_rules frame_intro)+

lemmas allowed_rules = allowed_guard allowed_seqT allowed_appendEventT guarded_Nil allowed_Done
  reads_intro frame_intro tx_frame.keeps_rules does_unknown

lemma allowed_if: "(b \<Longrightarrow> allowed l L S t) \<Longrightarrow> (\<not> b \<Longrightarrow> allowed l L S u) \<Longrightarrow> allowed l L S (if b then t else u)"
  by simp

lemma allowed_postT: "allowed l L [] (postT E lr ps ref md k h vt now)" if "lr_ID lr = l"
  unfolding postT_def that by (intro allowed_rules does_post_rows)

lemma allowed_convertT: "allowed l L [] (convertT E lr p k h vt now)" if "lr_ID lr = l"
  unfolding convertT_def that Let_def by (intro allowed_rules does_convert_rows)

lemma allowed_revertT: "allowed l L [] (revertT E l t f a rs k h now)"
  unfolding revertT_def Let_def by (intro allowed_if allowed_rules does_revert_rows)

lemma allowed_amendT: "allowed l L [] (amendT E l t md k h now)"
  unfolding amendT_def by (intro allowed_rules does_amend_rows)

lemma allowed_authorizeT: "allowed l L [] (authorizeT E lr so hi as am ex k h now)" if "lr_ID lr = l"
proof (cases am)
  case (Some amt)
  then show ?thesis
    unfolding authorizeT_def that Some option.case by (intro allowed_if allowed_rules does_authorize_rows) simp
qed (simp add: authorizeT_def allowed_Done)

lemma allowed_captureT: "allowed l {} [] (captureT E l i am ds k h now)"
proof (cases am)
  case (Some amt)
  have "allowed l {HoldRow l i} [hold] (seqT (lift (ofErr (checkHoldOpen hold i))) (\<lambda>_.
       if amt > hd_AuthorizedAmount hold - hd_CapturedAmount hold then Done (Inl e)
       else if dest = [] then Done (Inl e')
       else appendEventT (\<lambda>e. e) E l EventTypeHoldConfirmed pl k h now now
              (capture_rows E l i hold amt dest k h now)))"
    if "0 < amt" "hd_LedgerID hold = l" "hd_HoldID hold = i" for hold dest pl e e'
    using that
    by (intro allowed_guard allowed_if allowed_Done allowed_appendEventT does_known [of hold l i] does_capture_rows keeps_rows)
       (simp_all add: checkHoldOpen_None guarded_def)
  then show ?thesis
    unfolding captureT_def Some option.case Let_def by (intro allowed_if allowed_Done allowed_GetHoldT) simp
qed (simp add: captureT_def allowed_Done)

lemma allowed_voidT: "allowed l {} [] (voidT E l i k h now)"
proof -
  have "allowed l {HoldRow l i} [hold] (seqT (lift (ofErr (checkHoldOpen hold i))) (\<lambda>_.
       appendEventT (\<lambda>e. e) E l EventTypeHoldVoided (void_payload i) k h now now (void_rows E l i k h)))"
    if "hd_LedgerID hold = l" "hd_HoldID hold = i" for hold
    using that
    by (intro allowed_guard allowed_appendEventT does_known [of hold l i] does_void_rows [where hold = hold] keeps_rows)
       (simp_all add: checkHoldOpen_None guarded_def)
  then show ?thesis unfolding voidT_def by (intro allowed_GetHoldT)
qed

lemma allowed_expireT: "allowed l {} [] (expireT E hold now)" if l: "hd_LedgerID hold = l"
proof -
  let ?L = "{HoldRow l (hd_HoldID hold)}"
  have rows: "does (expire_rows E hold (i, q)) (\<lambda>d r d'. \<forall>x. r = Inr x \<longrightarrow>
      find_hold l (hd_HoldID hold) d = Some cur \<longrightarrow> extends l i ?L d d')" if "active cur" for cur i q
    using does_expire_rows [OF that, of hold ?L E i q] l by simp
  have "allowed l ?L [cur] (if hd_Expired cur \<or> hd_Voided cur then Done (Inr None)
     else appendEventT (\<lambda>e. e) E l EventTypeHoldExpired (expire_payload hold) [] None now now (expire_rows E hold))"
    if "hd_LedgerID cur = l" "hd_HoldID cur = hd_HoldID hold" for cur
    using that
    by (intro allowed_if allowed_Done allowed_appendEventT does_known [of cur l "hd_HoldID hold"] rows keeps_rows)
       (simp_all add: active_def guarded_def)
  then show ?thesis unfolding expireT_def l by (intro allowed_GetHoldT)
qed

lemma allowed_transaction: "transaction l t \<Longrightarrow> allowed l {} [] t"
proof (induction rule: transaction.induct)
  case (t_set E tt ti md k h now)
  show ?case unfolding setMetadataT_def by (rule allowed_map) (intro allowed_rules does_set_rows)
next
  case (t_delete E tt ti mk k h now)
  show ?case unfolding deleteMetadataT_def by (rule allowed_map) (intro allowed_rules does_delete_rows)
next
  case (t_schema E b v k h now)
  show ?case unfolding insertSchemaT_def by (rule allowed_map) (intro allowed_rules does_schema_rows)
qed (simp_all add: allowed_map allowed_postT allowed_convertT allowed_revertT allowed_amendT allowed_authorizeT
      allowed_captureT allowed_voidT allowed_expireT)


subsection \<open>The invariant of a run\<close>

text \<open>
  No two processes hold the same lock. A process without the lock of the ledger is allowed, and
  what it knows of its holds is true of the committed tables; a process with the lock is about to
  write, or its view is a sound extension of the tables as they are committed now.
\<close>

definition proc_ok :: "string \<Rightarrow> db \<Rightarrow> proc \<Rightarrow> bool" where
  "proc_ok l d p \<longleftrightarrow> (\<forall>m. LedgerRow m \<in> set (locks p) \<longrightarrow> m = l) \<and>
     (\<exists>S. guarded (set (locks p)) S \<and> known S d \<and>
        (if LedgerRow l \<in> set (locks p) then
           (case pc p of
              Stmt f \<Rightarrow> writer l (set (locks p)) S f
            | Done r \<Rightarrow> \<forall>x d'. r = Inr x \<longrightarrow> view p = OpenTx d' \<longrightarrow> writes l (set (locks p)) d d'
            | Lock k t \<Rightarrow> False)
         else allowed l (set (locks p)) S (pc p)))"

definition exclusive :: "proc list \<Rightarrow> bool" where
  "exclusive ps \<longleftrightarrow> (\<forall>i<length ps. \<forall>j<length ps. i \<noteq> j \<longrightarrow> set (locks (ps ! i)) \<inter> set (locks (ps ! j)) = {})"

definition orderly :: "string \<Rightarrow> system \<Rightarrow> bool" where
  "orderly l s \<longleftrightarrow> exclusive (procs s) \<and> (\<forall>i<length (procs s). proc_ok l (pg (shared s)) (procs s ! i))"

lemma proc_ok_waiting:
  "LedgerRow l \<notin> set (locks p) \<Longrightarrow> proc_ok l d p \<longleftrightarrow> (\<forall>m. LedgerRow m \<in> set (locks p) \<longrightarrow> m = l) \<and>
     (\<exists>S. guarded (set (locks p)) S \<and> known S d \<and> allowed l (set (locks p)) S (pc p))"
  by (simp add: proc_ok_def)

lemma proc_ok_writing:
  "LedgerRow l \<in> set (locks p) \<Longrightarrow> pc p = Stmt f \<Longrightarrow> proc_ok l d p \<longleftrightarrow>
     (\<forall>m. LedgerRow m \<in> set (locks p) \<longrightarrow> m = l) \<and>
     (\<exists>S. guarded (set (locks p)) S \<and> known S d \<and> writer l (set (locks p)) S f)"
  by (simp add: proc_ok_def)

lemma proc_ok_written:
  "LedgerRow l \<in> set (locks p) \<Longrightarrow> pc p = Done r \<Longrightarrow> proc_ok l d p \<longleftrightarrow>
     (\<forall>m. LedgerRow m \<in> set (locks p) \<longrightarrow> m = l) \<and> (\<exists>S. guarded (set (locks p)) S \<and> known S d) \<and>
     (\<forall>x d'. r = Inr x \<longrightarrow> view p = OpenTx d' \<longrightarrow> writes l (set (locks p)) d d')"
  by (auto simp: proc_ok_def)

lemma proc_ok_Lock: "LedgerRow l \<in> set (locks p) \<Longrightarrow> pc p = Lock k t \<Longrightarrow> \<not> proc_ok l d p"
  by (simp add: proc_ok_def)

lemma known_Nil [simp]: "known [] d"
  by (simp add: known_def)

lemma proc_ok_ended: "proc_ok l d (ended r)"
  unfolding proc_ok_def ended_def by (auto intro!: exI [of _ "[]"] allowed_Done)

lemma proc_ok_started: "transaction l t \<Longrightarrow> proc_ok l d (started t)"
  unfolding proc_ok_def started_def by (auto intro!: exI [of _ "[]"] allowed_transaction)

lemma holds_kept_ledger: "holds_kept (insert (LedgerRow l) L) = holds_kept L"
  by (intro ext) (simp add: holds_kept_def)

lemma writerD:
  "writer l L S f \<Longrightarrow> f w = (t, w') \<Longrightarrow> tx w = OpenTx (pg w) \<Longrightarrow> known S (pg w) \<Longrightarrow> pg w' = pg w \<and>
     (\<exists>r. t = Done r \<and> (\<forall>x d'. r = Inr x \<longrightarrow> tx w' = OpenTx d' \<longrightarrow> writes l L (pg w) d'))"
  unfolding writer_def by blast

lemma writer_ledger: "writer l L S f \<Longrightarrow> writer l (insert (LedgerRow l) L) S f"
  unfolding writer_def writes_def holds_kept_ledger .

lemma known_kept:
  "known S d \<Longrightarrow> guarded L S \<Longrightarrow> holds_kept K d d' \<Longrightarrow> L \<inter> K = {} \<Longrightarrow> known S d'"
  unfolding known_def guarded_def holds_kept_def by blast

lemma proc_ok_other:
  assumes "proc_ok l d q" "holds_kept K d d'" "set (locks q) \<inter> K = {}" "LedgerRow l \<in> K"
  shows "proc_ok l d' q"
proof -
  have nl: "LedgerRow l \<notin> set (locks q)" using assms(3,4) by blast
  with assms(1) obtain S where S: "guarded (set (locks q)) S" "known S d" "allowed l (set (locks q)) S (pc q)"
    by (auto simp: proc_ok_waiting)
  with nl known_kept [OF S(2,1) assms(2,3)] assms(1) show ?thesis by (auto simp: proc_ok_waiting)
qed

lemma orderly_update:
  assumes "orderly l s" "i < length (procs s)" "proc_ok l (pg w) p"
    and "\<And>j. j < length (procs s) \<Longrightarrow> j \<noteq> i \<Longrightarrow> proc_ok l (pg w) (procs s ! j) \<and> set (locks p) \<inter> set (locks (procs s ! j)) = {}"
  shows "orderly l \<lparr>shared = w, procs = (procs s)[i := p]\<rparr>"
  using assms unfolding orderly_def exclusive_def
  by (simp add: nth_list_update) (metis Int_commute)

lemma orderly_same:
  assumes "orderly l s" "i < length (procs s)" "pg w = pg (shared s)" "proc_ok l (pg (shared s)) p"
    and "set (locks p) \<subseteq> set (locks (procs s ! i))"
  shows "orderly l \<lparr>shared = w, procs = (procs s)[i := p]\<rparr>"
proof (rule orderly_update [OF assms(1,2)])
  fix j assume "j < length (procs s)" "j \<noteq> i"
  then show "proc_ok l (pg w) (procs s ! j) \<and> set (locks p) \<inter> set (locks (procs s ! j)) = {}"
    using assms unfolding orderly_def exclusive_def by (metis Int_mono bot.extremum_unique order_refl)
qed (use assms in simp)

inductive_cases allowed_StmtE: "allowed l L S (Stmt f)"
inductive_cases allowed_LockE: "allowed l L S (Lock k t)"

lemma allowed_StmtD:
  "allowed l L S (Stmt f) \<Longrightarrow> tx w = OpenTx (pg w) \<Longrightarrow> known S (pg w) \<Longrightarrow> pg (snd (f w)) = pg w \<and>
     (\<exists>S'. guarded L S' \<and> known S' (pg w) \<and> allowed l L S' (fst (f w)))"
  by (erule allowed_StmtE) blast

lemma system_eta: "s\<lparr>procs := ps\<rparr> = \<lparr>shared = shared s, procs = ps\<rparr>"
  by simp

text \<open>A statement.\<close>

lemma orderly_Stmt:
  assumes "orderly l s" "i < length (procs s)" "pc (procs s ! i) = Stmt f"
    and "f ((shared s)\<lparr>tx := OpenTx (pg (shared s))\<rparr>) = (t, w')"
  shows "pg w' = pg (shared s) \<and>
    orderly l \<lparr>shared = w'\<lparr>tx := NoTx\<rparr>, procs = (procs s)[i := (procs s ! i)\<lparr>pc := t, view := tx w'\<rparr>]\<rparr>"
proof -
  let ?p = "procs s ! i" and ?w = "(shared s)\<lparr>tx := OpenTx (pg (shared s))\<rparr>" and ?d = "pg (shared s)"
  have ok: "proc_ok l ?d ?p" using assms(1,2) by (simp add: orderly_def)
  have "pg w' = ?d \<and> proc_ok l ?d (?p\<lparr>pc := t, view := tx w'\<rparr>)"
  proof (cases "LedgerRow l \<in> set (locks ?p)")
    case True
    then obtain S where S: "guarded (set (locks ?p)) S" "known S ?d" "writer l (set (locks ?p)) S f"
      and own: "\<forall>m. LedgerRow m \<in> set (locks ?p) \<longrightarrow> m = l" using ok proc_ok_writing [OF True assms(3)] by blast
    have "pg w' = ?d \<and> (\<exists>r. t = Done r \<and> (\<forall>x d'. r = Inr x \<longrightarrow> tx w' = OpenTx d' \<longrightarrow> writes l (set (locks ?p)) ?d d'))"
      using writerD [OF S(3) assms(4)] S(2) by simp
    then obtain r where r: "t = Done r" "pg w' = ?d"
      "\<And>x d'. r = Inr x \<Longrightarrow> tx w' = OpenTx d' \<Longrightarrow> writes l (set (locks ?p)) ?d d'" by blast
    define q where "q = ?p\<lparr>pc := t, view := tx w'\<rparr>"
    have q: "LedgerRow l \<in> set (locks q)" "pc q = Done r" "locks q = locks ?p" "view q = tx w'"
      using True r(1) by (simp_all add: q_def)
    have "proc_ok l ?d q"
      unfolding proc_ok_written [OF q(1,2)] q(3,4) using own S(1,2) r(3) by blast
    with r show ?thesis by (simp add: q_def)
  next
    case False
    with ok obtain S where S: "known S ?d" "allowed l (set (locks ?p)) S (Stmt f)"
      and own: "\<forall>m. LedgerRow m \<in> set (locks ?p) \<longrightarrow> m = l" using assms(3) by (auto simp: proc_ok_waiting)
    have "pg (snd (f ?w)) = ?d \<and> (\<exists>S'. guarded (set (locks ?p)) S' \<and> known S' ?d \<and> allowed l (set (locks ?p)) S' (fst (f ?w)))"
      using allowed_StmtD [OF S(2), of ?w] S(1) by simp
    with False own assms(4) show ?thesis by (auto simp: proc_ok_waiting)
  qed
  with orderly_same [OF assms(1,2), of "w'\<lparr>tx := NoTx\<rparr>" "?p\<lparr>pc := t, view := tx w'\<rparr>"] show ?thesis by simp
qed

text \<open>A lock.\<close>

lemma orderly_Lock:
  assumes "orderly l s" "i < length (procs s)" "pc (procs s ! i) = Lock k t" "free k i (procs s)"
  shows "orderly l \<lparr>shared = shared s, procs = (procs s)[i := (procs s ! i)\<lparr>pc := t, locks := k # locks (procs s ! i)\<rparr>]\<rparr>"
proof (rule orderly_update [OF assms(1,2)])
  let ?p = "procs s ! i" and ?d = "pg (shared s)"
  have ok: "proc_ok l ?d ?p" using assms(1,2) by (simp add: orderly_def)
  have nl: "LedgerRow l \<notin> set (locks ?p)" using proc_ok_Lock ok assms(3) by blast
  with ok obtain S where S: "guarded (set (locks ?p)) S" "known S ?d" "allowed l (set (locks ?p)) S (Lock k t)"
    and own: "\<forall>m. LedgerRow m \<in> set (locks ?p) \<longrightarrow> m = l" using assms(3) by (auto simp: proc_ok_waiting)
  have g: "guarded (set (k # locks ?p)) S" using S(1) by (auto simp: guarded_def)
  from S(3) show "proc_ok l ?d (?p\<lparr>pc := t, locks := k # locks ?p\<rparr>)"
  proof (rule allowed_LockE)
    fix m j assume "k = HoldRow m j" "set (locks ?p) = {}" "allowed l {HoldRow m j} S t"
    with nl own S(2) g show ?thesis by (auto simp: proc_ok_waiting)
  next
    fix f assume f: "k = LedgerRow l" "t = Stmt f" "writer l (set (locks ?p)) S f"
    define q where "q = ?p\<lparr>pc := t, locks := k # locks ?p\<rparr>"
    have q: "LedgerRow l \<in> set (locks q)" "pc q = Stmt f" "locks q = k # locks ?p"
      using f by (simp_all add: q_def)
    have "writer l (set (k # locks ?p)) S f" using writer_ledger [OF f(3)] f(1) by simp
    moreover have "\<forall>m. LedgerRow m \<in> set (k # locks ?p) \<longrightarrow> m = l" using own f(1) by simp
    ultimately have "proc_ok l ?d q"
      unfolding proc_ok_writing [OF q(1,2)] q(3) using S(2) g by blast
    then show ?thesis by (simp only: q_def)
  qed
next
  fix j assume j: "j < length (procs s)" "j \<noteq> i"
  then show "proc_ok l (pg (shared s)) (procs s ! j) \<and>
      set (locks ((procs s ! i)\<lparr>pc := t, locks := k # locks (procs s ! i)\<rparr>)) \<inter> set (locks (procs s ! j)) = {}"
    using assms(1,2,4) unfolding orderly_def exclusive_def free_def by auto
qed


text \<open>The end of a transaction.\<close>

lemma ledger_row_held:
  "\<forall>m. LedgerRow m \<in> set ks \<longrightarrow> m = l \<Longrightarrow> list_ex is_ledger_row ks \<longleftrightarrow> LedgerRow l \<in> set ks"
proof -
  assume own: "\<forall>m. LedgerRow m \<in> set ks \<longrightarrow> m = l"
  have "is_ledger_row k \<longleftrightarrow> (\<exists>m. k = LedgerRow m)" for k by (cases k) (simp_all add: is_ledger_row_def)
  then show ?thesis using own by (auto simp: list_ex_iff)
qed

lemma orderly_end:
  assumes "orderly l s" "i < length (procs s)" "pg w = pg (shared s)"
  shows "orderly l \<lparr>shared = w, procs = (procs s)[i := ended r]\<rparr>"
  by (rule orderly_same [OF assms]) (simp_all add: proc_ok_ended, simp add: ended_def)

lemma orderly_commit:
  assumes "orderly l s" "i < length (procs s)" "LedgerRow l \<in> set (locks (procs s ! i))"
    and "writes l (set (locks (procs s ! i))) (pg (shared s)) (pg w)"
  shows "orderly l \<lparr>shared = w, procs = (procs s)[i := ended r]\<rparr>"
proof (rule orderly_update [OF assms(1,2) proc_ok_ended])
  fix j assume j: "j < length (procs s)" "j \<noteq> i"
  then have ok: "proc_ok l (pg (shared s)) (procs s ! j)"
    and d: "set (locks (procs s ! j)) \<inter> set (locks (procs s ! i)) = {}"
    using assms(1,2) by (auto simp: orderly_def exclusive_def)
  have "proc_ok l (pg w) (procs s ! j)"
    using proc_ok_other [OF ok _ d assms(3)] assms(4) unfolding writes_def by blast
  then show "proc_ok l (pg w) (procs s ! j) \<and> set (locks (ended r)) \<inter> set (locks (procs s ! j)) = {}"
    by (simp add: ended_def)
qed

lemma Commit_view:
  assumes "Commit E (w\<lparr>tx := v\<rparr>) = (c, w')"
  shows "pg w' = pg w \<and> (\<exists>e. c = Inl e) \<or> (\<exists>d. v = OpenTx d \<and> c = Inr () \<and> pg w' = d)"
  using assms by (auto simp: Commit_def Let_def split: txstate.splits option.splits)

lemma orderly_Done:
  assumes "orderly l s" "i < length (procs s)" "pc (procs s ! i) = Done r" "advance E i s = Some s'"
  shows "orderly l s' \<and> (pg (shared s') = pg (shared s) \<or> (\<exists>L. writes l L (pg (shared s)) (pg (shared s'))))"
proof -
  let ?p = "procs s ! i" and ?d = "pg (shared s)"
  have ok: "proc_ok l ?d ?p" using assms(1,2) by (simp add: orderly_def)
  then have own: "\<forall>m. LedgerRow m \<in> set (locks ?p) \<longrightarrow> m = l" by (simp add: proc_ok_def)
  note held = ledger_row_held [OF own]
  have unchanged: "orderly l (s\<lparr>procs := (procs s)[i := ended r]\<rparr>)"
    unfolding system_eta by (rule orderly_end [OF assms(1,2) refl])
  show ?thesis
  proof (cases "LedgerRow l \<in> set (locks ?p) \<and> (\<exists>x. r = Inr x)")
    case False
    then have s': "s' = s\<lparr>procs := (procs s)[i := ended r]\<rparr>"
      using assms(2-4) held by (cases r) (auto simp: advance_def Let_def)
    show ?thesis unfolding s' by (rule conjI [OF unchanged]) simp
  next
    case True
    then obtain x where x: "r = Inr x" and l: "LedgerRow l \<in> set (locks ?p)" by blast
    obtain c w' where c: "Commit E ((shared s)\<lparr>tx := view ?p\<rparr>) = (c, w')" by (cases "Commit E ((shared s)\<lparr>tx := view ?p\<rparr>)")
    have s': "s' = \<lparr>shared = w'\<lparr>tx := NoTx\<rparr>, procs = (procs s)[i := ended (case c of Inl e \<Rightarrow> Inl e | Inr _ \<Rightarrow> r)]\<rparr>"
      using assms(2-4) held l x c by (cases c) (simp_all add: advance_def Let_def)
    from Commit_view [OF c] show ?thesis
    proof (elim disjE conjE exE)
      assume "pg w' = ?d"
      then show ?thesis using orderly_end [OF assms(1,2), of "w'\<lparr>tx := NoTx\<rparr>"] by (simp add: s')
    next
      fix d assume d: "view ?p = OpenTx d" "pg w' = d"
      then have "writes l (set (locks ?p)) ?d (pg w')"
        using ok proc_ok_written [OF l assms(3)] x by blast
      then show ?thesis using orderly_commit [OF assms(1,2) l, of "w'\<lparr>tx := NoTx\<rparr>"] by (auto simp: s')
    qed
  qed
qed

lemma orderly_advance:
  assumes "orderly l s" "advance E i s = Some s'"
  shows "orderly l s' \<and> (pg (shared s') = pg (shared s) \<or> (\<exists>L. writes l L (pg (shared s)) (pg (shared s'))))"
proof -
  have i: "i < length (procs s)" using assms(2) by (simp add: advance_def split: if_splits)
  show ?thesis
  proof (cases "pc (procs s ! i)")
    case (Done r)
    then show ?thesis by (rule orderly_Done [OF assms(1) i _ assms(2)])
  next
    case (Stmt f)
    obtain t w' where f: "f ((shared s)\<lparr>tx := OpenTx (pg (shared s))\<rparr>) = (t, w')"
      by (cases "f ((shared s)\<lparr>tx := OpenTx (pg (shared s))\<rparr>)")
    then have "s' = \<lparr>shared = w'\<lparr>tx := NoTx\<rparr>, procs = (procs s)[i := (procs s ! i)\<lparr>pc := t, view := tx w'\<rparr>]\<rparr>"
      using assms(2) i Stmt by (simp add: advance_def Let_def)
    then show ?thesis using orderly_Stmt [OF assms(1) i Stmt f] by simp
  next
    case (Lock k t)
    then have "free k i (procs s)"
      "s' = s\<lparr>procs := (procs s)[i := (procs s ! i)\<lparr>pc := t, locks := k # locks (procs s ! i)\<rparr>]\<rparr>"
      using assms(2) i by (auto simp: advance_def Let_def split: if_splits)
    then show ?thesis using orderly_Lock [OF assms(1) i Lock] by (simp add: system_eta)
  qed
qed

lemma orderly_begin: "orderly l s \<Longrightarrow> transaction l t \<Longrightarrow> orderly l (s\<lparr>procs := procs s @ [started t]\<rparr>)"
  using proc_ok_started [of l t "pg (shared s)"]
  by (auto simp: orderly_def exclusive_def nth_append started_def)

lemma interleaved_orderly:
  assumes "interleaved l s0 s" "procs s0 = []"
  shows "orderly l s \<and> (\<lambda>d d'. \<exists>L. writes l L d d')\<^sup>*\<^sup>* (pg (shared s0)) (pg (shared s))"
  using assms(1)
proof (induction rule: interleaved.induct)
  case run_start
  then show ?case using assms(2) by (simp add: orderly_def exclusive_def)
next
  case (run_begin s t)
  then show ?case by (simp add: orderly_begin)
next
  case (run_advance s E i s')
  then show ?case using orderly_advance by (metis (no_types, lifting) rtranclp.rtrancl_into_rtrancl)
qed

end
