(* ===== verification/Races.thy ===== *)
theory Races
  imports Interleaving Progress
begin

text \<open>
  What the interleaving of transactions does to the checks of a post. Balances are read before the row of the
  ledger is locked, so posts that are each covered by the same balance can all be committed.
\<close>

section \<open>Running one process to its lock\<close>

text \<open>The statements of one thread while no other process moves.\<close>

inductive goes :: "'r thread \<Rightarrow> world \<Rightarrow> 'r thread \<Rightarrow> world \<Rightarrow> bool" where
  goes_here: "goes t w t w"
| goes_on: "f (w\<lparr>tx := OpenTx (pg w)\<rparr>) = (t1, w1) \<Longrightarrow> goes t1 (w1\<lparr>tx := NoTx\<rparr>) t' w' \<Longrightarrow> goes (Stmt f) w t' w'"

lemma goes_trans: "goes t w t1 w1 \<Longrightarrow> goes t1 w1 t' w' \<Longrightarrow> goes t w t' w'"
  by (induction rule: goes.induct) (auto intro: goes_on)

lemma goes_map: "goes t w t' w' \<Longrightarrow> goes (map_thread g t) w (map_thread g t') w'"
proof (induction rule: goes.induct)
  case (goes_on f w t1 w1 t' w')
  have "goes (Stmt (\<lambda>w. map_prod (map_thread g) id (f w))) w (map_thread g t') w'"
    by (rule goes.goes_on [OF _ goes_on.IH]) (simp add: goes_on.hyps(1))
  then show ?case by (simp add: comp_def)
qed (rule goes_here)

lemma goes_seqT: "goes t w t' w' \<Longrightarrow> goes (seqT t k) w (seqT t' k) w'"
proof (induction rule: goes.induct)
  case (goes_on f w t1 w1 t' w')
  show ?case unfolding seqT.simps
    by (rule goes.goes_on [OF _ goes_on.IH]) (simp add: goes_on.hyps(1))
qed (rule goes_here)

definition leads :: "'r thread \<Rightarrow> world \<Rightarrow> ('r thread \<Rightarrow> world \<Rightarrow> bool) \<Rightarrow> bool" where
  "leads t w P \<longleftrightarrow> (\<exists>t' w'. goes t w t' w' \<and> P t' w')"

lemma leads_here: "P t w \<Longrightarrow> leads t w P"
  unfolding leads_def using goes_here by blast

lemma leads_lift:
  assumes "wp m (\<lambda>x w'. leads (k x) (w'\<lparr>tx := NoTx\<rparr>) P) (w\<lparr>tx := OpenTx (pg w)\<rparr>)"
  shows "leads (seqT (lift m) k) w P"
proof -
  obtain x w1 where m: "m (w\<lparr>tx := OpenTx (pg w)\<rparr>) = (Inr x, w1)" and "leads (k x) (w1\<lparr>tx := NoTx\<rparr>) P"
    using wp_result [OF assms] by blast
  then obtain t' w' where g: "goes (k x) (w1\<lparr>tx := NoTx\<rparr>) t' w'" "P t' w'" unfolding leads_def by blast
  have "goes (seqT (lift m) k) w t' w'"
    unfolding lift_def seqT.simps by (rule goes_on [OF _ g(1)]) (simp add: m)
  with g(2) show ?thesis unfolding leads_def by blast
qed

lemma leads_seqT:
  assumes "leads t w (\<lambda>t' w'. \<exists>x. t' = Done (Inr x) \<and> leads (k x) w' P)"
  shows "leads (seqT t k) w P"
proof -
  obtain x w1 t' w' where "goes t w (Done (Inr x)) w1" "goes (k x) w1 t' w'" "P t' w'"
    using assms unfolding leads_def by blast
  with goes_trans [OF goes_seqT [of t w "Done (Inr x)" w1 k]] show ?thesis
    unfolding leads_def by auto
qed

lemma leads_mono: "leads t w P \<Longrightarrow> (\<And>t' w'. P t' w' \<Longrightarrow> Q t' w') \<Longrightarrow> leads t w Q"
  unfolding leads_def by blast

text \<open>The same as steps of the system.\<close>

lemma goes_interleaved:
  assumes "goes t w t' w'" "interleaved l s0 s" "i < length (procs s)" "shared s = w" "pc (procs s ! i) = t"
    "locks (procs s ! i) = []"
  shows "\<exists>p. interleaved l s0 \<lparr>shared = w', procs = (procs s)[i := p]\<rparr> \<and> pc p = t' \<and> locks p = []"
  using assms
proof (induction arbitrary: s rule: goes.induct)
  case (goes_here t w)
  then have "\<lparr>shared = w, procs = (procs s)[i := procs s ! i]\<rparr> = s" by simp
  with goes_here show ?case by metis
next
  case (goes_on f w t1 w1 t' w')
  let ?p = "(procs s ! i)\<lparr>pc := t1, view := tx w1\<rparr>"
  let ?s = "\<lparr>shared = w1\<lparr>tx := NoTx\<rparr>, procs = (procs s)[i := ?p]\<rparr>"
  have "advance undefined i s = Some ?s"
    using goes_on.hyps(1) goes_on.prems by (simp add: advance_def Let_def)
  then have "interleaved l s0 ?s" using goes_on.prems(1) by (rule run_advance [rotated])
  from goes_on.IH [OF this] goes_on.prems show ?case by simp
qed

section \<open>The checks of a post\<close>

lemma leads_availableBalanceT:
  assumes "calm E"
  shows "leads (availableBalanceT E l a s) w (\<lambda>t' w'. t' = Done (Inr (available l a s (pg w))) \<and> alike w w')"
proof -
  have "total_input l a s d - total_output l a s d = posted l a s d" for d by (simp add: posted_def)
  then show ?thesis
    unfolding availableBalanceT_def
    by (intro leads_lift)
       (simp add: GetBalance_def GetActiveHoldsTotal_def wp_rules wp_query_Tx [OF assms] Let_def as_of_def
         total_input_def total_output_def sum_where_def available_def leads_lift leads_here)
qed

lemma leads_checkSourceBalanceT:
  assumes "calm E" "covered lr ins (pg w) (key, out)"
  shows "leads (checkSourceBalanceT E lr ins key out) w (\<lambda>t' w'. t' = Done (Inr ()) \<and> alike w w')"
proof (cases "IsIssuer (fst key) (lr_IssuerAccounts lr)")
  case True
  then show ?thesis by (simp add: checkSourceBalanceT_def leads_here)
next
  case False
  then have enough: "\<not> (case map_of ins key of None \<Rightarrow> available (lr_ID lr) (fst key) (snd key) (pg w)
      | Some netIn \<Rightarrow> available (lr_ID lr) (fst key) (snd key) (pg w) + netIn) < out"
    using assms(2) by (auto simp: covered_def split: option.splits)
  show ?thesis
    unfolding checkSourceBalanceT_def if_not_P [OF False]
    by (rule leads_seqT, rule leads_mono [OF leads_availableBalanceT [OF assms(1)]])
       (auto simp: if_not_P [OF enough] intro: leads_here)
qed

lemma leads_forT:
  assumes "\<And>x v. x \<in> set xs \<Longrightarrow> alike w v \<Longrightarrow> leads (f x) v (\<lambda>t' w'. t' = Done (Inr ()) \<and> alike v w')"
  shows "leads (forT f xs) w (\<lambda>t' w'. t' = Done (Inr ()) \<and> alike w w')"
  using assms
proof (induction xs arbitrary: w)
  case Nil
  show ?case by (simp add: leads_here)
next
  case (Cons x xs)
  have rest: "leads (forT f xs) v (\<lambda>t' w'. t' = Done (Inr ()) \<and> alike w w')" if "alike w v" for v
    by (rule leads_mono [OF Cons.IH]) (use Cons.prems that in auto)
  have "leads (f x) w (\<lambda>t' w'. t' = Done (Inr ()) \<and> alike w w')" using Cons.prems by simp
  then show ?case unfolding forT.simps by (intro leads_seqT) (erule leads_mono, use rest in auto)
qed

lemma leads_checkSourceBalancesT:
  assumes "calm E" "list_all (covered lr ins (pg w)) os"
  shows "leads (checkSourceBalancesT E lr os ins) w (\<lambda>t' w'. t' = Done (Inr ()) \<and> alike w w')"
  unfolding checkSourceBalancesT_def
proof (rule leads_forT)
  fix e v assume e: "e \<in> set os" "alike w v"
  obtain key out where k: "e = (key, out)" by (cases e)
  have "covered lr ins (pg v) (key, out)" using assms(2) e k by (simp add: list_all_iff)
  then show "leads (case e of (key, out) \<Rightarrow> checkSourceBalanceT E lr ins key out) v (\<lambda>t' w'. t' = Done (Inr ()) \<and> alike v w')"
    unfolding k prod.case by (rule leads_checkSourceBalanceT [OF assms(1)])
qed

lemma leads_checkReversedT:
  assumes "calm E" "reversible l lr (pg w) p"
  shows "leads (checkReversedT E l lr p) w (\<lambda>t' w'. t' = Done (Inr ()) \<and> alike w w')"
proof (cases "IsIssuer (Source p) (lr_IssuerAccounts lr)")
  case True
  then show ?thesis by (simp add: checkReversedT_def leads_here)
next
  case False
  then have enough: "\<not> available l (Source p) (Asset p) (pg w) < amount_of p"
    using assms(2) by (simp add: reversible_def)
  show ?thesis
    unfolding checkReversedT_def if_not_P [OF False]
    by (rule leads_seqT, rule leads_mono [OF leads_availableBalanceT [OF assms(1)]])
       (auto simp: if_not_P [OF enough] intro: leads_here)
qed

lemma leads_checkAllReversedT:
  assumes "calm E" "force \<or> list_all (reversible l lr (pg w)) ps"
  shows "leads (checkAllReversedT E force l lr ps) w (\<lambda>t' w'. t' = Done (Inr ()) \<and> alike w w')"
proof (cases force)
  case True
  then show ?thesis by (simp add: checkAllReversedT_def leads_here)
next
  case False
  then show ?thesis
    using assms(2) by (auto simp: checkAllReversedT_def list_all_iff intro!: leads_forT leads_checkReversedT [OF assms(1)])
qed

text \<open>The batch manager goes on handing out batches, and new identifiers stay new.\<close>

definition batch_ready :: "env \<Rightarrow> string \<Rightarrow> world \<Rightarrow> bool" where
  "batch_ready E l w \<longleftrightarrow> inj (ulid E) \<and> (\<forall>n \<ge> n_ulid w. ulid E n \<notin> bt_BatchID ` set (log_batches w)) \<and> batch_stored l w"

lemma wp_CreateBatch_ready:
  assumes "calm E" "bt_BatchID b \<notin> bt_BatchID ` set (log_batches w)"
    and "bt_PrevBatchID b = [] \<or> bt_PrevBatchID b \<in> bt_BatchID ` set (log_batches w)"
    and "\<And>w' b'. tx w' = tx w \<Longrightarrow> pg w' = pg w \<Longrightarrow> n_ulid w' = n_ulid w \<Longrightarrow> openBatch w' = openBatch w \<Longrightarrow>
      bt_BatchID b' = bt_BatchID b \<Longrightarrow> log_batches w' = log_batches w @ [b'] \<Longrightarrow> Q () w'"
  shows "wp (CreateBatch E b) Q w"
proof -
  let ?b = "b\<lparr>bt_ClosedAt := None, bt_MerkleRoot := None, bt_AttestationURI := []\<rparr>"
  have "Q () (w\<lparr>n_sql := Suc (n_sql w), log_batches := log_batches w @ [?b]\<rparr>)"
    by (rule assms(4) [of _ ?b]) simp_all
  then show ?thesis
    unfolding CreateBatch_def wp_rules using assms(1-3)
    by (auto simp: wp_def batch_stmt_def create_batch_sql_def calm_def Let_def)
qed

lemma wp_CurrentBatchID_ready:
  assumes "calm E" "batch_ready E l w"
    and Q: "\<And>x w'. pg w' = pg w \<Longrightarrow> n_ulid w \<le> n_ulid w' \<Longrightarrow> batch_ready E l w' \<Longrightarrow> Q x w'"
  shows "wp (CurrentBatchID E l) Q w"
proof -
  note ready = assms(2) [unfolded batch_ready_def]
  have roll: "wp (roll_batch E l old) Q v" if "old = [] \<or> old \<in> bt_BatchID ` set (log_batches w)" "n_ulid v = n_ulid w"
      "log_batches v = log_batches w" "pg v = pg w" for old v
    unfolding roll_batch_def wp_rules
  proof (rule wp_CreateBatch_ready [OF assms(1)], goal_cases)
    case (3 v' b')
    have "batch_ready E l u" if "n_ulid u = n_ulid v'" "log_batches u = log_batches v'"
        "openBatch u = obj_put l st (openBatch v')" "ob_batchID st = ulid E (n_ulid w)" for u :: world and st
      using that 3 ready \<open>n_ulid v = n_ulid w\<close> \<open>log_batches v = log_batches w\<close>
      by (auto simp: batch_ready_def batch_stored_def inj_eq)
    then show ?case using 3 that by (auto simp: put_open_def intro!: Q)
  qed (use that ready in auto)
  show ?thesis
    using ready roll Q
    by (auto simp: CurrentBatchID_def wp_rules batch_stored_def batch_ready_def put_open_def split: option.split)
qed


section \<open>Transactions that race for the ledger\<close>

definition waiting :: "string \<Rightarrow> SubmitResult prog \<Rightarrow> string option thread" where
  "waiting l m = publishing (Lock (LedgerRow l) (lift m))"

definition drawn :: "nat \<Rightarrow> nat \<Rightarrow> nat list \<Rightarrow> bool" where
  "drawn lo hi ns \<longleftrightarrow> sorted_wrt (\<lambda>m n. Suc m < n) ns \<and> (\<forall>n \<in> set ns. lo \<le> n \<and> Suc n < hi)"

lemma drawn_snoc: "drawn lo hi ns \<Longrightarrow> lo \<le> hi \<Longrightarrow> hi + 2 \<le> hi' \<Longrightarrow> drawn lo hi' (ns @ [hi])"
  by (auto simp: drawn_def sorted_wrt_append)

definition finished :: "proc \<Rightarrow> bool" where
  "finished p \<longleftrightarrow> locks p = [] \<and> (\<exists>i. pc p = Done (Inr (Some i)))"

lemma finished_ended: "finished (ended (Inr (Some i)))"
  by (simp add: finished_def ended_def)

lemma list_all2_in_set1: "x \<in> set xs \<Longrightarrow> list_all2 P xs ys \<Longrightarrow> \<exists>y. P x y"
  by (auto simp: list_all2_conv_all_nth in_set_conv_nth)


text \<open>The rows of several transactions, one after the other.\<close>

fun all_add :: "('j \<Rightarrow> string \<Rightarrow> string \<Rightarrow> db \<Rightarrow> db \<Rightarrow> bool) \<Rightarrow> 'j list \<Rightarrow> db \<Rightarrow> db \<Rightarrow> bool" where
  "all_add A [] d d' \<longleftrightarrow> d' = d"
| "all_add A (j # js) d d' \<longleftrightarrow> (\<exists>t e d1. A j t e d d1 \<and> all_add A js d1 d')"

text \<open>
  Transactions that read, pass their checks and wait for the ledger, and that, once they have it, write and commit
  whatever was committed in between, as long as the two identifiers they have drawn are unused.
\<close>

locale race =
  fixes E :: env and l :: string and job :: "'j \<Rightarrow> SubmitResult thread"
    and body :: "'j \<Rightarrow> string \<Rightarrow> string \<Rightarrow> string \<Rightarrow> SubmitResult prog"
    and passes :: "'j \<Rightarrow> db \<Rightarrow> bool" and suits :: "'j \<Rightarrow> bool"
    and adds :: "'j \<Rightarrow> string \<Rightarrow> string \<Rightarrow> db \<Rightarrow> db \<Rightarrow> bool" and free_id :: "string \<Rightarrow> db \<Rightarrow> bool"
  assumes job_transaction: "transaction l (publishing (job j))"
    and job_leads: "calm E \<Longrightarrow> batch_ready E l w \<Longrightarrow> passes j (pg w) \<Longrightarrow>
      leads (job j) w (\<lambda>t' w'. \<exists>b. pg w' = pg w \<and> batch_ready E l w' \<and> n_ulid w + 2 \<le> n_ulid w' \<and>
        t' = Lock (LedgerRow l) (lift (body j (ulid E (n_ulid w)) (ulid E (Suc (n_ulid w))) b)))"
    and body_writes: "calm E \<Longrightarrow> tx w = OpenTx d \<Longrightarrow> free_id t d \<Longrightarrow> free_id e d \<Longrightarrow> suits j \<Longrightarrow>
      wp (body j t e b) (\<lambda>x w'. \<exists>d'. tx w' = OpenTx d' \<and> EventID x = e \<and> adds j t e d d') w"
    and adds_free: "adds j t e d d' \<Longrightarrow> free_id i d \<Longrightarrow> i \<noteq> t \<Longrightarrow> i \<noteq> e \<Longrightarrow> free_id i d'"
begin

text \<open>A process that waits, with the identifiers number \<open>n\<close> and \<open>n + 1\<close>.\<close>

abbreviation waits_for :: "proc \<Rightarrow> 'j \<times> nat \<Rightarrow> bool" where
  "waits_for p jn \<equiv> locks p = [] \<and> (\<exists>b. pc p = waiting l (body (fst jn) (ulid E (snd jn)) (ulid E (Suc (snd jn))) b))"

lemma one_more_waits:
  assumes "calm E" "interleaved l s0 s" "batch_ready E l (shared s)" "passes j (pg (shared s))"
  shows "\<exists>s' p. interleaved l s0 s' \<and> procs s' = procs s @ [p] \<and> pg (shared s') = pg (shared s) \<and>
    batch_ready E l (shared s') \<and> n_ulid (shared s) + 2 \<le> n_ulid (shared s') \<and> waits_for p (j, n_ulid (shared s))"
proof -
  let ?w = "shared s" and ?n = "length (procs s)"
  let ?s = "s\<lparr>procs := procs s @ [started (publishing (job j))]\<rparr>"
  have r: "interleaved l s0 ?s" by (rule run_begin [OF assms(2) job_transaction])
  obtain t' w' b where g: "goes (job j) ?w t' w'" and w': "pg w' = pg ?w" "batch_ready E l w'" "n_ulid ?w + 2 \<le> n_ulid w'"
    and t': "t' = Lock (LedgerRow l) (lift (body j (ulid E (n_ulid ?w)) (ulid E (Suc (n_ulid ?w))) b))"
    using job_leads [OF assms(1,3,4)] unfolding leads_def by blast
  obtain p where "interleaved l s0 \<lparr>shared = w', procs = (procs ?s)[?n := p]\<rparr>" "pc p = publishing t'" "locks p = []"
    using goes_interleaved [OF goes_map [OF g, of "\<lambda>x. Some (EventID x)"] r, of ?n] by (auto simp: started_def)
  then have "interleaved l s0 \<lparr>shared = w', procs = procs s @ [p]\<rparr> \<and> waits_for p (j, n_ulid ?w)"
    by (auto simp: waiting_def t')
  with w' show ?thesis by (intro exI [of _ "\<lparr>shared = w', procs = procs s @ [p]\<rparr>"] exI [of _ p]) simp
qed

lemma all_wait:
  assumes "calm E" "batch_ready E l w" "\<forall>j \<in> set js. passes j (pg w)"
  shows "\<exists>s jns. interleaved l \<lparr>shared = w, procs = []\<rparr> s \<and> pg (shared s) = pg w \<and>
    batch_ready E l (shared s) \<and> n_ulid w \<le> n_ulid (shared s) \<and> map fst jns = js \<and>
    list_all2 waits_for (procs s) jns \<and> drawn (n_ulid w) (n_ulid (shared s)) (map snd jns)"
  using assms(3)
proof (induction js rule: rev_induct)
  case Nil
  show ?case
    by (rule exI [of _ "\<lparr>shared = w, procs = []\<rparr>"], rule exI [of _ "[]"]) (simp add: run_start assms(2) drawn_def)
next
  case (snoc j js)
  then obtain s jns where s: "interleaved l \<lparr>shared = w, procs = []\<rparr> s" "pg (shared s) = pg w"
    "batch_ready E l (shared s)" "n_ulid w \<le> n_ulid (shared s)" "map fst jns = js"
    "list_all2 waits_for (procs s) jns" "drawn (n_ulid w) (n_ulid (shared s)) (map snd jns)"
    by auto
  have "passes j (pg (shared s))" using snoc.prems s(2) by simp
  from one_more_waits [OF assms(1) s(1,3) this]
  obtain s' p where s': "interleaved l \<lparr>shared = w, procs = []\<rparr> s'" "procs s' = procs s @ [p]" "pg (shared s') = pg w"
    "batch_ready E l (shared s')" "n_ulid (shared s) + 2 \<le> n_ulid (shared s')" "waits_for p (j, n_ulid (shared s))"
    using s(2) by auto
  have "drawn (n_ulid w) (n_ulid (shared s')) (map snd (jns @ [(j, n_ulid (shared s))]))"
    using drawn_snoc [OF s(7,4) s'(5)] by simp
  moreover have "list_all2 waits_for (procs s') (jns @ [(j, n_ulid (shared s))])"
    unfolding s'(2) by (rule list_all2_appendI [OF s(6)]) (use s'(6) in simp)
  ultimately show ?case
    using s' s(4,5) by (intro exI [of _ s'] exI [of _ "jns @ [(j, n_ulid (shared s))]"]) simp
qed

text \<open>Lock, write and commit, while no other process holds a lock.\<close>

lemma one_commits:
  assumes "calm E" "interleaved l s0 s" "i < length (procs s)" "pc (procs s ! i) = waiting l (body j t e b)"
    and "\<forall>p \<in> set (procs s). locks p = []" "free_id t (pg (shared s))" "free_id e (pg (shared s))" "suits j"
  shows "\<exists>s'. interleaved l s0 s' \<and> procs s' = (procs s)[i := ended (Inr (Some e))] \<and>
    adds j t e (pg (shared s)) (pg (shared s'))"
proof -
  let ?p = "procs s ! i" and ?w = "shared s" and ?m = "body j t e b"
  let ?t = "Stmt (\<lambda>w. map_prod (map_thread (\<lambda>x. Some (EventID x))) id (case ?m w of (r, w') \<Rightarrow> (Done r, w')))"
  have pc: "pc ?p = Lock (LedgerRow l) ?t" using assms(4) by (simp add: waiting_def lift_def comp_def)
  have fr: "free (LedgerRow l) i (procs s)" using assms(5) by (simp add: free_def)
  have no: "locks ?p = []" using assms(3,5) by simp
  let ?s1 = "s\<lparr>procs := (procs s)[i := ?p\<lparr>pc := ?t, locks := [LedgerRow l]\<rparr>]\<rparr>"
  have "advance E i s = Some ?s1" using assms(3) pc fr no by (simp add: advance_def Let_def)
  then have r1: "interleaved l s0 ?s1" using assms(2) by (rule run_advance [rotated])
  obtain x w1 d' where m: "?m (?w\<lparr>tx := OpenTx (pg ?w)\<rparr>) = (Inr x, w1)" and x: "EventID x = e"
    and d': "tx w1 = OpenTx d'" "adds j t e (pg ?w) d'"
    using wp_result [OF body_writes [OF assms(1) _ assms(6-8), of "?w\<lparr>tx := OpenTx (pg ?w)\<rparr>" b]] by auto
  let ?q = "?p\<lparr>locks := [LedgerRow l], pc := Done (Inr (Some e)), view := OpenTx d'\<rparr>"
  let ?s2 = "\<lparr>shared = w1\<lparr>tx := NoTx\<rparr>, procs = (procs s)[i := ?q]\<rparr>"
  have "advance E i ?s1 = Some ?s2" using assms(3) m x d' by (simp add: advance_def Let_def)
  then have r2: "interleaved l s0 ?s2" using r1 by (rule run_advance [rotated])
  let ?w3 = "w1\<lparr>n_sql := Suc (n_sql w1), tx := NoTx, pg := d'\<rparr>"
  have "advance E i ?s2 = Some \<lparr>shared = ?w3, procs = (procs s)[i := ended (Inr (Some e))]\<rparr>"
    using assms(1,3) by (simp add: advance_def Let_def Commit_def calm_def is_ledger_row_def)
  then have "interleaved l s0 \<lparr>shared = ?w3, procs = (procs s)[i := ended (Inr (Some e))]\<rparr>"
    using r2 by (rule run_advance [rotated])
  then show ?thesis using d'(2) by (intro exI conjI) auto
qed

lemma all_commit:
  assumes "calm E" "inj (ulid E)" "interleaved l s0 s" "procs s = ds @ qs" "list_all finished ds"
    and "list_all2 waits_for qs jns" "sorted_wrt (\<lambda>m n. Suc m < n) (map snd jns)"
    and "\<forall>n \<in> snd ` set jns. free_id (ulid E n) (pg (shared s)) \<and> free_id (ulid E (Suc n)) (pg (shared s))"
    and "\<forall>j \<in> fst ` set jns. suits j"
  shows "\<exists>s'. interleaved l s0 s' \<and> list_all finished (procs s') \<and> length (procs s') = length (procs s) \<and>
    all_add adds (map fst jns) (pg (shared s)) (pg (shared s'))"
  using assms(3-)
proof (induction jns arbitrary: s ds qs)
  case Nil
  then show ?case by (intro exI [of _ s]) simp
next
  case (Cons jn jns)
  obtain j n where jn: "jn = (j, n)" by (cases jn)
  obtain q qs' where q: "qs = q # qs'" "waits_for q jn" "list_all2 waits_for qs' jns"
    using Cons.prems(4) by (auto simp: list_all2_Cons2)
  let ?i = "length ds"
  obtain b where b: "pc (procs s ! ?i) = waiting l (body j (ulid E n) (ulid E (Suc n)) b)"
    using q(1,2) Cons.prems(2) by (auto simp: jn nth_append)
  have "locks p = []" if p: "p \<in> set qs" for p
    using list_all2_in_set1 [OF p Cons.prems(4)] by blast
  then have free: "\<forall>p \<in> set (procs s). locks p = []"
    using Cons.prems(2,3) by (auto simp: list_all_iff finished_def)
  obtain s1 where s1: "interleaved l s0 s1" "procs s1 = (procs s)[?i := ended (Inr (Some (ulid E (Suc n))))]"
    and add: "adds j (ulid E n) (ulid E (Suc n)) (pg (shared s)) (pg (shared s1))"
    using one_commits [OF assms(1) Cons.prems(1) _ b free] Cons.prems(2,6,7) q(1) jn by auto
  have "free_id (ulid E m) (pg (shared s1)) \<and> free_id (ulid E (Suc m)) (pg (shared s1))" if m: "m \<in> snd ` set jns" for m
  proof -
    have "Suc n < m" using Cons.prems(5) m jn by auto
    moreover have "free_id (ulid E m) (pg (shared s))" "free_id (ulid E (Suc m)) (pg (shared s))" using Cons.prems(6) m by auto
    ultimately show ?thesis using adds_free [OF add] assms(2) by (simp add: inj_eq)
  qed
  moreover have "procs s1 = (ds @ [ended (Inr (Some (ulid E (Suc n))))]) @ qs'" using s1(2) Cons.prems(2) q(1) by simp
  ultimately obtain s' where s': "interleaved l s0 s'" "list_all finished (procs s')" "length (procs s') = length (procs s1)"
    "all_add adds (map fst jns) (pg (shared s1)) (pg (shared s'))"
    using Cons.IH [OF s1(1) _ _ q(3)] Cons.prems(3,5,7) by (auto simp: finished_ended)
  then show ?case using add s1(2) jn by (intro exI [of _ s']) auto
qed

lemma all_pass_and_commit:
  assumes "calm E" "batch_ready E l w" "\<forall>n \<ge> n_ulid w. free_id (ulid E n) (pg w)"
    and "\<forall>j \<in> set js. passes j (pg w) \<and> suits j"
  shows "\<exists>s. interleaved l \<lparr>shared = w, procs = []\<rparr> s \<and> length (procs s) = length js \<and> list_all finished (procs s) \<and>
    all_add adds js (pg w) (pg (shared s))"
proof -
  have inj: "inj (ulid E)" using assms(2) by (simp add: batch_ready_def)
  obtain s jns where s: "interleaved l \<lparr>shared = w, procs = []\<rparr> s" "pg (shared s) = pg w" "map fst jns = js"
    "list_all2 waits_for (procs s) jns" "drawn (n_ulid w) (n_ulid (shared s)) (map snd jns)"
    using all_wait [OF assms(1,2), of js] assms(4) by blast
  have ids: "sorted_wrt (\<lambda>m n. Suc m < n) (map snd jns)"
    "\<forall>n \<in> snd ` set jns. free_id (ulid E n) (pg (shared s)) \<and> free_id (ulid E (Suc n)) (pg (shared s))"
    using s(2,5) assms(3) by (auto simp: drawn_def)
  have "\<forall>j \<in> fst ` set jns. suits j" using assms(4) unfolding s(3) [symmetric] by simp
  moreover have "procs s = [] @ procs s" "list_all finished []" by simp_all
  moreover have "length (procs s) = length js" using list_all2_lengthD [OF s(4)] s(3) by (metis length_map)
  ultimately show ?thesis using all_commit [OF assms(1) inj s(1) _ _ s(4) ids] s(2,3) by metis
qed

end

section \<open>Posts\<close>

definition post_writes :: "env \<Rightarrow> string \<Rightarrow> PostingInput list \<Rightarrow> time \<Rightarrow> time \<Rightarrow> string \<Rightarrow> string \<Rightarrow> string \<Rightarrow> SubmitResult prog" where
  "post_writes E l ps vt now txID eventID batchID = andThen
     (appendRow E l EventTypeTransactionPosted (post_payload txID (map posting_record ps) None []) [] None vt now eventID batchID)
     (post_rows E l ps [] None [] None vt now txID)"

lemma leads_postT:
  assumes "calm E" "batch_ready E (lr_ID lr) w" "validatePostings ps = None"
    and "feature lr featureSchemaEnforcement \<notin> {SchemaStrict, SchemaBestEffort}"
    and "list_all (covered lr (netInputs ps) (pg w)) (netOutputs ps)"
  shows "leads (postT E lr ps [] None [] None vt now) w (\<lambda>t' w'. \<exists>b. pg w' = pg w \<and> batch_ready E (lr_ID lr) w' \<and>
    n_ulid w + 2 \<le> n_ulid w' \<and> t' = Lock (LedgerRow (lr_ID lr))
      (lift (post_writes E (lr_ID lr) ps vt now (ulid E (n_ulid w)) (ulid E (Suc (n_ulid w))) b)))"
proof -
  have schema: "wp (enforceSchema E lr ps) Q v \<longleftrightarrow> Q () v" for Q v
    using assms(4) by (simp add: enforceSchema_def Let_def wp_rules)
  show ?thesis
    unfolding postT_def
    apply (rule leads_lift, unfold assms(3) wp_monad(4))
    apply (rule leads_lift, unfold schema)
    apply (rule leads_seqT, rule leads_mono [OF leads_checkSourceBalancesT [OF assms(1)]])
    subgoal using assms(5) by simp
    subgoal for t v
      apply (rule exI [of _ "()"], rule conjI, simp)
      apply (rule leads_lift, unfold wp_statements appendEventT_def)
      apply (rule leads_lift, unfold wp_statements)
      apply (rule leads_lift, unfold wp_monad(3), rule wp_CurrentBatchID_ready [OF assms(1)])
      subgoal using assms(2) by (auto simp: batch_ready_def batch_stored_def)
      subgoal by (rule leads_here) (auto simp: post_writes_def batch_ready_def batch_stored_def)
      done
    done
qed


text \<open>The rows of a post without key and metadata.\<close>

definition post_adds :: "string \<Rightarrow> PostingInput list \<Rightarrow> string \<Rightarrow> string \<Rightarrow> db \<Rightarrow> db \<Rightarrow> bool" where
  "post_adds l ps txID eventID d d' \<longleftrightarrow>
     (\<exists>ev vt now row. booked l ev (posting_deltas l eventID vt now ps) d d' \<and> ev_EventID ev = eventID \<and> ev_IdempotencyKey ev = [] \<and>
        transactions d' = transactions d @ [row] \<and> tr_transaction_id row = txID \<and> metadata_history d' = metadata_history d)"

lemma post_adds_unused: "post_adds l ps t e d d' \<Longrightarrow> unused i d \<Longrightarrow> i \<noteq> t \<Longrightarrow> i \<noteq> e \<Longrightarrow> unused i d'"
  by (auto simp: post_adds_def booked_def unused_def posting_deltas_def)

lemma post_adds_posted: "post_adds l ps t e d d' \<Longrightarrow> posted l a x d' = posted l a x d + (inflow ps a x - outflow ps a x)"
  by (auto simp: post_adds_def booked_posted posting_deltas_bucket)

lemma does_post_writes:
  assumes "validatePostings ps = None"
  shows "does (post_writes E l ps vt now t e b) (\<lambda>d r d'. \<forall>x. r = Inr x \<longrightarrow> EventID x = e \<and> post_adds l ps t e d d')"
  unfolding post_writes_def post_rows_def Let_def
proof (rule does_weaken, (rule does_appendRow does_intro)+, intro allI impI, goal_cases)
  case (1 d r d' x)
  have "nonzero ps = ps" using assms nonzero_valid by (simp add: validatePostings_None)
  with 1 show ?case
    using posting_deltas_zero_sum posting_deltas_owner
    by (auto simp: whenM_def post_adds_def booked_def next_event_def adds_rows_def transaction_row_of_def keyed_def submitted_def) blast
qed

lemma wp_does:
  assumes "wp m Q w" "does m R" "tx w = OpenTx d"
  shows "wp m (\<lambda>x w'. Q x w' \<and> (\<forall>d'. tx w' = OpenTx d' \<longrightarrow> R d (Inr x) d')) w"
proof -
  obtain x w' where run: "m w = (Inr x, w')" and "Q x w'" using wp_result [OF assms(1)] by blast
  with does_open [OF assms(2) run assms(3)] show ?thesis by (auto simp: wp_def)
qed

lemma wp_appendRow:
  assumes "calm E" "tx w = OpenTx d" "unused i d"
    and Q: "\<And>ev w'. tx w' = OpenTx (d\<lparr>log_events := log_events d @ [ev]\<rparr>) \<Longrightarrow> Q (i, next_seq l d) w'"
  shows "wp (appendRow E l ty payload [] h vt now i b) Q w"
proof -
  have "\<not> list_ex (event_conflict (new_event i l (next_seq l d) ty payload [] h b vt now)) (log_events d)"
    using assms(3) next_seq_above by (fastforce simp: list_ex_iff event_conflict_def new_event_def unused_def)
  then show ?thesis
    using Q assms(2) by (simp add: appendRow_def wp_rules NextLedgerSeq_def AppendLogEvent_def wp_query_Tx [OF assms(1)]
      wp_stmt_Tx [OF assms(1)] append_event_sql_def)
qed

lemma wp_post_writes:
  assumes "calm E" "tx w = OpenTx d" "unused t d" "unused e d" "validatePostings ps = None" "distinct (concat (map ends ps))"
  shows "wp (post_writes E l ps vt now t e b) (\<lambda>x w'. \<exists>d'. tx w' = OpenTx d' \<and> EventID x = e \<and> post_adds l ps t e d d') w"
proof -
  have "wp (post_writes E l ps vt now t e b) (\<lambda>x w'. \<exists>d'. tx w' = OpenTx d') w"
    unfolding post_writes_def wp_monad(2)
  proof (rule wp_appendRow [OF assms(1,2,4)])
    fix ev and w' :: world assume w': "tx w' = OpenTx (d\<lparr>log_events := log_events d @ [ev]\<rparr>)"
    show "wp (post_rows E l ps [] None [] None vt now t (e, next_seq l d)) (\<lambda>x w'. \<exists>d'. tx w' = OpenTx d') w'"
      unfolding post_rows_def prod.case Let_def
      by (rule wp_post_rows [OF assms(1) w']) (use assms(3,4,6) in \<open>auto simp: unused_def\<close>)
  qed
  from wp_does [OF this does_post_writes [OF assms(5)] assms(2)] show ?thesis by (rule wp_mono) blast
qed


interpretation post_race: race E "lr_ID lr" "\<lambda>ps. postT E lr ps [] None [] None vt now"
    "\<lambda>ps. post_writes E (lr_ID lr) ps vt now"
    "\<lambda>ps d. validatePostings ps = None \<and> feature lr featureSchemaEnforcement \<notin> {SchemaStrict, SchemaBestEffort} \<and>
       list_all (covered lr (netInputs ps) d) (netOutputs ps)"
    "\<lambda>ps. validatePostings ps = None \<and> distinct (concat (map ends ps))" "post_adds (lr_ID lr)" unused
  for E lr vt now
proof (unfold_locales, goal_cases)
  case 1
  show ?case by (rule t_post [OF refl])
next
  case (2 w ps)
  then show ?case by (intro leads_postT) simp_all
next
  case (3 w d t e ps b)
  then show ?case by (intro wp_post_writes) simp_all
next
  case 4
  then show ?case by (rule post_adds_unused)
qed


section \<open>Reversals\<close>

definition revert_metadata :: "string \<Rightarrow> string \<Rightarrow> metadata" where
  "revert_metadata t reason = Some [(''reverts'', JStr t), (''revert_reason'', JStr reason)]"

definition revert_writes :: "env \<Rightarrow> string \<Rightarrow> string \<Rightarrow> PostingInput list \<Rightarrow> metadata \<Rightarrow> time \<Rightarrow> time \<Rightarrow>
    string \<Rightarrow> string \<Rightarrow> string \<Rightarrow> SubmitResult prog" where
  "revert_writes E l t ps md vt now txID eventID batchID = andThen
     (mapErr (wrapped ''appending log event: '') (appendRow E l EventTypeTransactionReverted
       (revert_payload txID (map posting_record ps) md) [] None vt now eventID batchID))
     (revert_rows E l t ps md [] None vt now txID)"

text \<open>A committed state in which a transaction can be reverted, and the postings of the reversal.\<close>

definition revertible :: "string \<Rightarrow> string \<Rightarrow> bool \<Rightarrow> PostingInput list \<Rightarrow> time \<Rightarrow> db \<Rightarrow> bool" where
  "revertible l t force ps vt d \<longleftrightarrow> (\<exists>row rec lrow lr. find_transaction l t d = Some row \<and> transaction_record row = Inr rec \<and>
     tx_ValidTime rec = vt \<and> reversePostings (tr_postings row) t = Inr ps \<and> \<not> list_ex (reverts l t) (transaction_relationships d) \<and>
     find_ledger l d = Some lrow \<and> ledger_record lrow = Inr lr \<and> (force \<or> list_all (reversible l lr d) ps))"

lemma leads_fetch:
  assumes "calm E"
  shows "find_transaction l t (pg w) = Some row \<Longrightarrow> transaction_record row = Inr rec \<Longrightarrow>
      (\<And>v. alike w v \<Longrightarrow> leads (k rec) v P) \<Longrightarrow> leads (seqT (lift (GetTransaction E Tx l t)) k) w P"
    and "(\<And>v. alike w v \<Longrightarrow> leads (k' (relationship_rows l t 1 (pg w))) v P) \<Longrightarrow>
      leads (seqT (lift (GetRelationships E Tx l t 1)) k') w P"
    and "find_ledger l (pg w) = Some lrow \<Longrightarrow> ledger_record lrow = Inr lr \<Longrightarrow>
      (\<And>v. alike w v \<Longrightarrow> leads (h lr) v P) \<Longrightarrow> leads (seqT (lift (mapErr g (GetLedger E Tx l))) h) w P"
  by (rule leads_lift, simp add: GetTransaction_def GetRelationships_def GetLedger_def wp_monad wp_query_Tx [OF assms])+

lemma leads_ulid:
  assumes "\<And>v. pg v = pg w \<Longrightarrow> n_ulid v = Suc (n_ulid w) \<Longrightarrow> openBatch v = openBatch w \<Longrightarrow> log_batches v = log_batches w \<Longrightarrow>
    leads (k (ulid E (n_ulid w))) v P"
  shows "leads (seqT (lift (ulid_Make E)) k) w P"
  by (rule leads_lift) (simp add: wp_statements assms)

lemma leads_append:
  assumes "calm E" "batch_ready E l w"
    and "\<And>b w'. pg w' = pg w \<Longrightarrow> Suc (n_ulid w) \<le> n_ulid w' \<Longrightarrow> batch_ready E l w' \<Longrightarrow>
      P (Lock (LedgerRow l) (lift (andThen (mapErr g (appendRow E l ty pl k h vt now (ulid E (n_ulid w)) b)) rows))) w'"
  shows "leads (appendEventT g E l ty pl k h vt now rows) w P"
  unfolding appendEventT_def
proof (rule leads_ulid)
  fix v :: world
  assume v: "pg v = pg w" "n_ulid v = Suc (n_ulid w)" "openBatch v = openBatch w" "log_batches v = log_batches w"
  have ready: "batch_ready E l (v\<lparr>tx := OpenTx (pg v)\<rparr>)" using assms(2) v by (simp add: batch_ready_def batch_stored_def)
  show "leads (seqT (lift (mapErr g (mapErr (wrapped ''getting batch ID: '') (CurrentBatchID E l)))) (\<lambda>b.
      Lock (LedgerRow l) (lift (andThen (mapErr g (appendRow E l ty pl k h vt now (ulid E (n_ulid w)) b)) rows)))) v P"
    by (rule leads_lift, unfold wp_monad(3), rule wp_CurrentBatchID_ready [OF assms(1) ready], rule leads_here, rule assms(3))
       (use v in \<open>simp_all add: batch_ready_def batch_stored_def\<close>)
qed

lemma leads_revertT:
  assumes "calm E" "batch_ready E l w" "revertible l t force ps vt0 (pg w)"
  shows "leads (revertT E l t force a rs [] None now) w (\<lambda>t' w'. \<exists>b. pg w' = pg w \<and> batch_ready E l w' \<and>
    n_ulid w + 2 \<le> n_ulid w' \<and> t' = Lock (LedgerRow l) (lift (revert_writes E l t ps (revert_metadata t rs)
      (if a then vt0 else now) now (ulid E (n_ulid w)) (ulid E (Suc (n_ulid w))) b)))"
proof -
  obtain row rec lrow lr where r: "find_transaction l t (pg w) = Some row" "transaction_record row = Inr rec" "tx_ValidTime rec = vt0"
    "reversePostings (tr_postings row) t = Inr ps" "\<not> list_ex (reverts l t) (transaction_relationships (pg w))"
    "find_ledger l (pg w) = Some lrow" "ledger_record lrow = Inr lr" "force \<or> list_all (reversible l lr (pg w)) ps"
    using assms(3) unfolding revertible_def by blast
  have fresh: "\<not> already_reverted t (relationship_rows l t 1 (pg w))" using r(5) by (simp add: already_reverted_rows)
  have ps: "reversePostings (tx_Postings rec) t = Inr ps" using r(2,4) transaction_record_postings by simp
  let ?P = "\<lambda>t' w'. \<exists>b. pg w' = pg w \<and> batch_ready E l w' \<and> n_ulid w + 2 \<le> n_ulid w' \<and>
    t' = Lock (LedgerRow l) (lift (revert_writes E l t ps (revert_metadata t rs)
      (if a then vt0 else now) now (ulid E (n_ulid w)) (ulid E (Suc (n_ulid w))) b))"
  let ?append = "appendEventT (wrapped ''appending log event: '') E l EventTypeTransactionReverted
    (revert_payload (ulid E (n_ulid w)) (map posting_record ps) (revert_metadata t rs)) [] None (if a then tx_ValidTime rec else now) now
    (revert_rows E l t ps (revert_metadata t rs) [] None (if a then tx_ValidTime rec else now) now (ulid E (n_ulid w)))"
  let ?same = "\<lambda>v. pg v = pg w \<and> n_ulid v = Suc (n_ulid w) \<and> batch_ready E l v"
  have same: "?same u" if "?same v" "alike v u" for v u using that by (simp add: batch_ready_def batch_stored_def)
  have app: "leads ?append v ?P" if "?same v" for v
    using that by (intro leads_append [OF assms(1)]) (auto simp: revert_writes_def r(3))
  have check: "leads (seqT (checkAllReversedT E force l lr ps) (\<lambda>_. ?append)) v ?P" if v: "?same v" for v
  proof (rule leads_seqT, rule leads_mono [OF leads_checkAllReversedT [OF assms(1)]])
    show "\<exists>x. t' = Done (Inr x) \<and> leads ?append u ?P" if "t' = Done (Inr ()) \<and> alike v u" for t' u
      using that same [OF v] app by blast
  qed (use v r(8) in simp)
  have led: "leads (seqT (lift (mapErr (wrapped ''getting ledger: '') (GetLedger E Tx l)))
      (\<lambda>lr. seqT (checkAllReversedT E force l lr ps) (\<lambda>_. ?append))) v ?P" if v: "?same v" for v
  proof (rule leads_fetch(3) [OF assms(1)])
    show "find_ledger l (pg v) = Some lrow" "ledger_record lrow = Inr lr" using v r(6,7) by simp_all
    show "leads (seqT (checkAllReversedT E force l lr ps) (\<lambda>_. ?append)) u ?P" if "alike v u" for u
      by (rule check [OF same [OF v that]])
  qed
  have rev: "leads (seqT (lift (ofSum (reversePostings (tx_Postings rec) t))) (\<lambda>ps'.
      seqT (lift (mapErr (wrapped ''getting ledger: '') (GetLedger E Tx l))) (\<lambda>lr. k ps' lr))) v ?P"
    if "?same v" "k ps = (\<lambda>lr. seqT (checkAllReversedT E force l lr ps) (\<lambda>_. ?append))" for v k
    by (rule leads_lift, unfold ps wp_monad(5), rule led [unfolded that(2) [symmetric]])
       (use that(1) in \<open>simp add: batch_ready_def batch_stored_def\<close>)
  show ?thesis
    unfolding revertT_def Let_def
  proof (rule leads_ulid, rule leads_fetch(1) [OF assms(1)])
    fix v1 v2 :: world
    assume v1: "pg v1 = pg w" "n_ulid v1 = Suc (n_ulid w)" "openBatch v1 = openBatch w" "log_batches v1 = log_batches w"
      and v2: "alike v1 v2"
    have v: "?same v2" using v1 v2 assms(2) by (simp add: batch_ready_def batch_stored_def)
    have fresh': "\<not> already_reverted t (relationship_rows l t 1 (pg v2))" using fresh v by simp
    show "leads (seqT (lift (GetRelationships E Tx l t 1)) (\<lambda>rels.
      if already_reverted t rels then Done (Inl ErrAlreadyReverted)
      else seqT (lift (ofSum (reversePostings (tx_Postings rec) t))) (\<lambda>reversedPostings.
        seqT (lift (mapErr (wrapped ''getting ledger: '') (GetLedger E Tx l))) (\<lambda>ledger.
        seqT (checkAllReversedT E force l ledger reversedPostings) (\<lambda>_.
        appendEventT (wrapped ''appending log event: '') E l EventTypeTransactionReverted
          (revert_payload (ulid E (n_ulid w)) (map posting_record reversedPostings)
            (Some [(''reverts'', JStr t), (''revert_reason'', JStr rs)])) [] None (if a then tx_ValidTime rec else now) now
          (revert_rows E l t reversedPostings (Some [(''reverts'', JStr t), (''revert_reason'', JStr rs)]) [] None
            (if a then tx_ValidTime rec else now) now (ulid E (n_ulid w)))))))) v2 ?P"
      by (rule leads_fetch(2) [OF assms(1)], unfold if_not_P [OF fresh'], rule rev, erule same [OF v])
         (simp only: revert_metadata_def)
  qed (use r in simp_all)
qed


definition revert_adds :: "string \<Rightarrow> string \<Rightarrow> PostingInput list \<Rightarrow> string \<Rightarrow> string \<Rightarrow> db \<Rightarrow> db \<Rightarrow> bool" where
  "revert_adds l t ps txID eventID d d' \<longleftrightarrow>
     (\<exists>ev vt now row rel. booked l ev (posting_deltas l eventID vt now (nonzero ps)) d d' \<and> ev_EventID ev = eventID \<and>
        transactions d' = transactions d @ [row] \<and> tr_transaction_id row = txID \<and> metadata_history d' = metadata_history d \<and>
        transaction_relationships d' = transaction_relationships d @ [rel] \<and> reverts l t rel \<and> rl_ChildTxID rel = txID)"

text \<open>An identifier that is no child of a relationship either.\<close>

definition unused_child :: "string \<Rightarrow> db \<Rightarrow> bool" where
  "unused_child i d \<longleftrightarrow> unused i d \<and> (\<forall>r \<in> set (transaction_relationships d). rl_ChildTxID r \<noteq> i)"

lemma revert_adds_unused:
  "revert_adds l t ps tid e d d' \<Longrightarrow> unused_child i d \<Longrightarrow> i \<noteq> tid \<Longrightarrow> i \<noteq> e \<Longrightarrow> unused_child i d'"
  by (auto simp: revert_adds_def booked_def unused_child_def unused_def posting_deltas_def)

lemma does_revert_writes:
  "does (revert_writes E l t ps md vt now tid e b) (\<lambda>d r d'. \<forall>x. r = Inr x \<longrightarrow> EventID x = e \<and> revert_adds l t ps tid e d d')"
  unfolding revert_writes_def revert_rows_def Let_def
proof (rule does_weaken, (rule does_appendRow does_intro)+, intro allI impI, goal_cases)
  case (1 d r d' x)
  then show ?case
    using posting_deltas_zero_sum posting_deltas_owner
    by (auto simp: revert_adds_def booked_def next_event_def adds_rows_def transaction_row_of_def keyed_def submitted_def reverts_def) blast
qed

lemma wp_InsertRelationship:
  assumes "calm E" "tx w = OpenTx d" "\<forall>q \<in> set (transaction_relationships d). rl_ChildTxID q \<noteq> rl_ChildTxID r"
    and "\<And>rs w'. tx w' = OpenTx (d\<lparr>transaction_relationships := rs\<rparr>) \<Longrightarrow> Q () w'"
  shows "wp (InsertRelationship E Tx r) Q w"
  using assms by (auto simp: InsertRelationship_def wp_stmt_Tx [OF assms(1,2)] insert_relationship_sql_def list_ex_iff)

lemma wp_revert_writes:
  assumes "calm E" "tx w = OpenTx d" "unused_child tid d" "unused_child e d" "distinct (concat (map ends ps))"
  shows "wp (revert_writes E l t ps md vt now tid e b) (\<lambda>x w'. \<exists>d'. tx w' = OpenTx d' \<and> EventID x = e \<and> revert_adds l t ps tid e d d') w"
proof -
  let ?Q = "\<lambda>(x :: SubmitResult) w'. \<exists>d'. tx w' = OpenTx d'"
  have ids: "unused tid d" "unused e d" "\<forall>r \<in> set (transaction_relationships d). rl_ChildTxID r \<noteq> tid"
    using assms(3,4) by (simp_all add: unused_child_def)
  have "wp (revert_writes E l t ps md vt now tid e b) ?Q w"
    unfolding revert_writes_def revert_rows_def wp_monad(2,3)
  proof (rule wp_appendRow [OF assms(1,2) ids(2)], unfold prod.case Let_def wp_monad(2,3), goal_cases)
    case w1: (1 ev w1)
    let ?d1 = "d\<lparr>log_events := log_events d @ [ev]\<rparr>"
    have rel: "wp (InsertRelationship E Tx r) (\<lambda>_. wp (recordIfKeyed E l [] e None) (\<lambda>_. wp (ok x) ?Q)) v"
      if "tx v = OpenTx d3" "transaction_relationships d3 = transaction_relationships d" "rl_ChildTxID r = tid" for r x v d3
      by (rule wp_InsertRelationship [OF assms(1) that(1)])
         (use that ids(3) in \<open>auto simp: wp_monad(1) intro!: wp_recordIfKeyed [OF assms(1)]\<close>)
    have rows: "wp (InsertTransaction E Tx r) (\<lambda>_. wp (insertPostings E l e vt now ps) (\<lambda>_. wp (upsertTouched E l now as)
        (\<lambda>_. wp (InsertRelationship E Tx q) (\<lambda>_. wp (recordIfKeyed E l [] e None) (\<lambda>_. wp (ok x) ?Q))))) w1"
      if r: "tx_TransactionID r = tid" "tx_Reference r = []" "rl_ChildTxID q = tid" for r q x as
    proof (rule wp_InsertTransaction [OF assms(1) w1])
      fix ts and w2 :: world assume w2: "tx w2 = OpenTx (?d1\<lparr>transactions := ts\<rparr>)"
      show "wp (insertPostings E l e vt now ps) (\<lambda>_. wp (upsertTouched E l now as)
          (\<lambda>_. wp (InsertRelationship E Tx q) (\<lambda>_. wp (recordIfKeyed E l [] e None) (\<lambda>_. wp (ok x) ?Q)))) w2"
      proof (rule wp_insertPostings [OF assms(1) w2 _ assms(5)])
        fix vs and w3 :: world assume w3: "tx w3 = OpenTx (?d1\<lparr>transactions := ts, volumes_delta := vs\<rparr>)"
        show "wp (upsertTouched E l now as)
            (\<lambda>_. wp (InsertRelationship E Tx q) (\<lambda>_. wp (recordIfKeyed E l [] e None) (\<lambda>_. wp (ok x) ?Q))) w3"
          by (rule wp_upsertTouched [OF assms(1) w3], erule rel) (use r in simp_all)
      qed (use ids(2) in \<open>simp add: unused_def\<close>)
    qed (use ids(1) r in \<open>simp_all add: unused_def\<close>)
    show ?case by (rule rows) simp_all
  qed
  from wp_does [OF this does_revert_writes assms(2)] show ?thesis by (rule wp_mono) blast
qed

interpretation revert_race: race E l "\<lambda>u :: unit. revertT E l t force a rs [] None now"
    "\<lambda>u. revert_writes E l t ps (revert_metadata t rs) (if a then vt else now) now"
    "\<lambda>u. revertible l t force ps vt" "\<lambda>u. distinct (concat (map ends ps))" "\<lambda>u. revert_adds l t ps" unused_child
  for E l t force a rs now ps vt
proof (unfold_locales, goal_cases)
  case 1
  show ?case by (rule t_revert)
next
  case (2 w j)
  then show ?case by (rule leads_revertT)
next
  case (3 w d tid e j b)
  then show ?case by (rule wp_revert_writes)
next
  case 4
  then show ?case by (rule revert_adds_unused)
qed

end
