(* ===== verification/Completion.thy ===== *)
theory Completion
  imports Interleaving
begin

text \<open>
  Interleaved transactions come to an end. A hold is locked before the ledger and nothing after it, so
  that no two transactions wait for each other; and a transaction has only so many statements, whatever
  they return.
\<close>

subsection \<open>Steps of processes that are not over\<close>

definition over :: "proc \<Rightarrow> bool" where
  "over p \<longleftrightarrow> (\<exists>r. p = ended r)"

definition moves :: "system \<Rightarrow> system \<Rightarrow> bool" where
  "moves s s' \<longleftrightarrow> (\<exists>E i. i < length (procs s) \<and> \<not> over (procs s ! i) \<and> advance E i s = Some s')"

lemma over_iff: "over p \<longleftrightarrow> (\<exists>r. pc p = Done r) \<and> locks p = [] \<and> view p = NoTx"
  unfolding over_def ended_def by (cases p) auto

lemma over_ended [simp]: "over (ended r)"
  by (auto simp: over_def)

subsection \<open>No deadlock\<close>

text \<open>Only a process that waits for a lock cannot move.\<close>

lemma advance_ready:
  assumes "i < length (procs s)" "\<And>k t. pc (procs s ! i) = Lock k t \<Longrightarrow> free k i (procs s)"
  shows "\<exists>s'. advance E i s = Some s'"
proof (cases "pc (procs s ! i)")
  case (Done r)
  then show ?thesis using assms(1) by (auto simp: advance_def Let_def split: prod.split sum.split)
next
  case (Stmt f)
  then show ?thesis using assms(1) by (auto simp: advance_def Let_def split: prod.split)
next
  case (Lock k t)
  then show ?thesis using assms by (simp add: advance_def Let_def)
qed

lemma movesI:
  "i < length (procs s) \<Longrightarrow> \<not> over (procs s ! i) \<Longrightarrow> (\<And>k t. pc (procs s ! i) = Lock k t \<Longrightarrow> free k i (procs s)) \<Longrightarrow>
     \<exists>s'. moves s s'"
  unfolding moves_def using advance_ready by blast

lemma not_free: "\<not> free k i ps \<Longrightarrow> \<exists>j < length ps. j \<noteq> i \<and> k \<in> set (locks (ps ! j))"
  by (auto simp: free_def)

lemma proc_ok_Lock_cases:
  assumes "proc_ok l d p" "pc p = Lock k t"
  shows "k = LedgerRow l \<or> locks p = [] \<and> (\<exists>m i. k = HoldRow m i)"
proof -
  have "LedgerRow l \<notin> set (locks p)" using proc_ok_Lock assms by blast
  then obtain S where "allowed l (set (locks p)) S (Lock k t)" using assms by (auto simp: proc_ok_waiting)
  then show ?thesis by (auto elim: allowed_LockE)
qed

lemma holder_moves:
  assumes "orderly l s" "i < length (procs s)" "LedgerRow l \<in> set (locks (procs s ! i))"
  shows "\<exists>s'. moves s s'"
proof (rule movesI [OF assms(2)])
  show "\<not> over (procs s ! i)" using assms(3) by (auto simp: over_iff)
  fix k t assume "pc (procs s ! i) = Lock k t"
  moreover have "proc_ok l (pg (shared s)) (procs s ! i)" using assms(1,2) by (simp add: orderly_def)
  ultimately show "free k i (procs s)" using proc_ok_Lock assms(3) by blast
qed

lemma not_stuck:
  assumes "orderly l s" "i < length (procs s)" "\<not> over (procs s ! i)"
  shows "\<exists>s'. moves s s'"
proof (cases "\<exists>j < length (procs s). LedgerRow l \<in> set (locks (procs s ! j))")
  case True
  then show ?thesis using holder_moves [OF assms(1)] by blast
next
  case False
  then have ledger: "free (LedgerRow l) j (procs s)" for j by (auto simp: free_def)
  have ok: "proc_ok l (pg (shared s)) (procs s ! j)" if "j < length (procs s)" for j
    using assms(1) that by (simp add: orderly_def)
  have locked: "\<exists>s'. moves s s'" if "j < length (procs s)" "locks (procs s ! j) \<noteq> []" for j
    using that proc_ok_Lock_cases [OF ok] ledger by (intro movesI [of j]) (auto simp: over_iff)
  show ?thesis
  proof (rule ccontr)
    assume stuck: "\<not> ?thesis"
    then obtain k t where k: "pc (procs s ! i) = Lock k t" "\<not> free k i (procs s)"
      using movesI [OF assms(2,3)] by blast
    from not_free [OF k(2)] obtain j where "j < length (procs s)" "locks (procs s ! j) \<noteq> []" by force
    then show False using locked stuck by blast
  qed
qed

subsection \<open>No run without end\<close>

definition proc_step :: "(proc \<times> proc) set" where
  "proc_step = {(p', p). \<not> over p \<and>
     (case pc p of
        Done r \<Rightarrow> over p'
      | Stmt f \<Rightarrow> \<exists>w. pc p' = fst (f w)
      | Lock k t \<Rightarrow> pc p' = t)}"

lemma over_acc: "over p \<Longrightarrow> p \<in> Wellfounded.acc proc_step"
  by (rule accI) (simp add: proc_step_def)

lemma wf_proc_step: "wf proc_step"
proof (rule acc_wfI, rule allI)
  have "p \<in> Wellfounded.acc proc_step" if "pc p = t" for t p
    using that
  proof (induction t arbitrary: p)
    case (Done r)
    then have "over y" if "(y, p) \<in> proc_step" for y using that by (simp add: proc_step_def)
    then show ?case by (meson accI over_acc)
  next
    case (Stmt f)
    show ?case
    proof (rule accI)
      fix p' assume "(p', p) \<in> proc_step"
      then obtain w where "pc p' = fst (f w)" using Stmt.prems by (auto simp: proc_step_def)
      moreover have "fst (f w) \<in> Basic_BNFs.fsts (f w)" by (cases "f w") (simp add: fsts.intros)
      ultimately show "p' \<in> Wellfounded.acc proc_step" using Stmt.IH [of "f w" "fst (f w)" p'] by simp
    qed
  next
    case (Lock k t)
    from Lock.prems have "pc y = t" if "(y, p) \<in> proc_step" for y using that by (simp add: proc_step_def)
    with Lock.IH show ?case by (meson accI)
  qed
  then show "p \<in> Wellfounded.acc proc_step" for p by blast
qed

lemma listrel1_update: "i < length xs \<Longrightarrow> (y, xs ! i) \<in> r \<Longrightarrow> (xs[i := y], xs) \<in> listrel1 r"
  by (metis id_take_nth_drop listrel1I upd_conv_take_nth_drop)

lemma moves_decreases: "moves s s' \<Longrightarrow> (procs s', procs s) \<in> listrel1 proc_step"
proof -
  assume "moves s s'"
  then obtain E i where i: "i < length (procs s)" "\<not> over (procs s ! i)" "advance E i s = Some s'" by (auto simp: moves_def)
  have "\<exists>p. procs s' = (procs s)[i := p] \<and> (p, procs s ! i) \<in> proc_step"
  proof (cases "pc (procs s ! i)")
    case (Done r)
    then have "\<exists>r'. procs s' = (procs s)[i := ended r']"
      using i by (auto simp: advance_def Let_def split: prod.splits sum.splits if_splits)
    then show ?thesis using Done i(2) by (auto simp: proc_step_def)
  next
    case (Stmt f)
    let ?w = "(shared s)\<lparr>tx := OpenTx (pg (shared s))\<rparr>"
    have "procs s' = (procs s)[i := (procs s ! i)\<lparr>pc := fst (f ?w), view := tx (snd (f ?w))\<rparr>]"
      using i Stmt by (auto simp: advance_def Let_def split: prod.splits)
    moreover have "((procs s ! i)\<lparr>pc := fst (f ?w), view := tx (snd (f ?w))\<rparr>, procs s ! i) \<in> proc_step"
      using Stmt i(2) by (auto simp: proc_step_def)
    ultimately show ?thesis by blast
  next
    case (Lock k t)
    then have "procs s' = (procs s)[i := (procs s ! i)\<lparr>pc := t, locks := k # locks (procs s ! i)\<rparr>]"
      using i by (auto simp: advance_def Let_def split: if_splits)
    moreover have "((procs s ! i)\<lparr>pc := t, locks := k # locks (procs s ! i)\<rparr>, procs s ! i) \<in> proc_step"
      using Lock i(2) by (simp add: proc_step_def)
    ultimately show ?thesis by blast
  qed
  then show ?thesis using listrel1_update [OF i(1)] by auto
qed

lemma no_endless_run: "\<exists>n. \<not> moves (f n) (f (Suc n))"
proof (rule ccontr)
  assume "\<not> ?thesis"
  then have "\<forall>n. (procs (f (Suc n)), procs (f n)) \<in> listrel1 proc_step" using moves_decreases by blast
  moreover have "wf (listrel1 proc_step)" by (simp add: wf_listrel1_iff wf_proc_step)
  ultimately show False unfolding wf_iff_no_infinite_down_chain by (elim notE) (rule exI [of _ "\<lambda>n. procs (f n)"], blast)
qed

end
