(* ===== verification/Concurrency_Properties.thy ===== *)
theory Concurrency_Properties
  imports Races Completion
begin

text \<open>
  Properties of transactions that run at the same time.
\<close>

text \<open>The transactions whose statements are interleaved are the operations of the planner: run
  without interruption, each thread does in every environment, from every state, exactly what the
  operation it stands for does, with the same result, the same errors and the same state
  afterwards.\<close>

lemma threads_are_operations:
  "run (postT E lr ps ref md k h vt now) = doPostInTx E lr ps ref md k h vt now False \<and>
   run (convertT E lr params k h vt now) = doConvertInTx E lr params k h vt now \<and>
   run (revertT E l t force a rs k h now) = doRevertInTx E l t force a rs k h now \<and>
   run (amendT E l t md k h now) = doAmendInTx E l t md k h now \<and>
   run (authorizeT E lr so hi as am ex k h now) = doAuthorizeInTx E lr so hi as am ex k h now \<and>
   run (captureT E l i am ds k h now) = doCaptureInTx E l i am ds k h now \<and>
   run (voidT E l i k h now) = doVoidInTx E l i k h now \<and>
   run (expireT E hold now) = expireInTx E hold now \<and>
   run (setMetadataT E l tt ti md k h now) = doSetMetadataInTx E l tt ti md k h now \<and>
   run (deleteMetadataT E l tt ti mk k h now) = doDeleteMetadataInTx E l tt ti mk k h now \<and>
   run (insertSchemaT E l b v k h now) = doInsertSchemaInTx E l b v k h now"
  by (simp add: run_postT run_convertT run_revertT run_amendT run_authorizeT run_captureT run_voidT run_expireT
      run_setMetadataT run_deleteMetadataT run_insertSchemaT)

lemma writes_run:
  assumes "(\<lambda>d d'. \<exists>L. writes l L d d')\<^sup>*\<^sup>* d d'" "sound d"
  shows "sound d' \<and> (\<exists>evs. log_events d' = log_events d @ evs)"
  using assms(1)
proof (induction rule: rtranclp_induct)
  case (step d1 d2)
  then obtain L where "writes l L d1 d2" by blast
  with step.IH writes_sound [OF this] writes_log [OF this] show ?case by auto
qed (simp add: assms(2))

text \<open>Several posts at once on the sample ledger.\<close>

lemma all_add_posted:
  "all_add (post_adds l) pss d d' \<Longrightarrow> posted l a x d' = posted l a x d + (\<Sum>ps\<leftarrow>pss. inflow ps a x - outflow ps a x)"
  by (induction pss arbitrary: d) (auto dest!: post_adds_posted [where a = a and x = x])

definition spend :: "string \<Rightarrow> PostingInput list" where
  "spend b = [transfer ''alice'' b 80]"

lemma sample_calm: "calm sample_env"
  by (simp add: calm_def sample_env_def)

lemma sample_inj: "inj (ulid sample_env)"
  by (rule injI) (simp add: sample_ids)

lemma sample_batch: "batch_stored ''main'' funded_world" "lr_ID sample_ledger = ''main''"
    "feature sample_ledger featureSchemaEnforcement \<notin> {SchemaStrict, SchemaBestEffort}"
proof -
  have "map_of (openBatch funded_world) ''main'' = Some \<lparr>ob_batchID = ulid sample_env 2, ob_openedAt = 1001, ob_eventCount = 1\<rparr>"
    "ulid sample_env 2 \<in> set (map bt_BatchID (log_batches funded_world))" by code_simp+
  then show "batch_stored ''main'' funded_world" by (auto simp: batch_stored_def)
  show "lr_ID sample_ledger = ''main''" "feature sample_ledger featureSchemaEnforcement \<notin> {SchemaStrict, SchemaBestEffort}"
    by code_simp+
qed

lemma sample_spends:
  "list_all (\<lambda>ps. validatePostings ps = None \<and> distinct (concat (map ends ps)) \<and>
     list_all (covered sample_ledger (netInputs ps) (pg funded_world)) (netOutputs ps)) [spend ''bob'', spend ''carol'']"
  by code_simp

lemma sample_race:
  "\<exists>s. interleaved ''main'' \<lparr>shared = funded_world, procs = []\<rparr> s \<and> length (procs s) = 2 \<and> list_all finished (procs s)"
  using post_race.all_pass_and_commit [where E = sample_env and lr = sample_ledger and w = funded_world and
      js = "[spend ''bob'', spend ''carol'']"]
    sample_calm sample_inj sample_batch sample_spends fresh_funded by (auto simp: batch_ready_def fresh_ids_def)

text \<open>C2. Concurrent transactions keep the books. However many posts, holds, captures, expiries, conversions,
  reversals and changes of metadata of a ledger run at the same time, with their statements interleaved
  in any order the row locks permit and any of them failing at any statement: in every state that is ever
  committed each event moves as much of an asset in as out, the balances of the ledger add up to zero,
  the events are numbered without gaps, no hold is captured beyond its authorisation or both
  voided and expired, every volume belongs to an event, and nothing that was in the log is lost.\<close>

theorem interleaving_keeps_books:
  assumes "reachable w" and "interleaved l \<lparr>shared = w, procs = []\<rparr> s"
  shows "balanced (pg (shared s)) \<and> conserved (pg (shared s)) \<and> contiguous (pg (shared s)) \<and> holds_ok (pg (shared s)) \<and>
    sourced (pg (shared s)) \<and> (\<exists>evs. log_events (pg (shared s)) = log_events (pg w) @ evs)"
  using writes_run [of l "pg w" "pg (shared s)"] interleaved_orderly [OF assms(2)] sound_reachable [OF assms(1)]
  by (simp add: sound_def)

theorem interleaving_keeps_books_witness:
  "\<exists>s. interleaved ''main'' \<lparr>shared = funded_world, procs = []\<rparr> s \<and> length (procs s) = 2 \<and> list_all finished (procs s) \<and>
     balanced (pg (shared s)) \<and> contiguous (pg (shared s))"
  using sample_race interleaving_keeps_books [OF reachable_funded] by blast

text \<open>C7. Concurrent transactions finish, as far as row locks are concerned. The transactions are those of
  the eleven single operations of \<open>Threads\<close>; an \<open>ALL_OR_NOTHING\<close> batch is not one of them, and could
  deadlock with a capture, nor are approvals and imports. The mutex of the batch manager and the bounded
  connection pool are not resources of the model. In every state of every interleaving of such transactions of a ledger,
  if a transaction is not over then some transaction that is not over can take a step: they never
  all wait for each other. And no run of such steps goes on for ever, whatever the statements return and in
  whatever order they are taken. So every run can be continued until all its transactions are over, and
  will be.\<close>

theorem interleaving_finishes:
  assumes "interleaved l \<lparr>shared = w, procs = []\<rparr> s"
  shows "(\<not> list_all over (procs s) \<longrightarrow> (\<exists>s'. moves s s' \<and> interleaved l \<lparr>shared = w, procs = []\<rparr> s')) \<and>
    (\<forall>f. f 0 = s \<longrightarrow> (\<exists>n. \<not> moves (f n) (f (Suc n))))"
proof (intro conjI impI allI no_endless_run)
  assume "\<not> list_all over (procs s)"
  then obtain i where "i < length (procs s)" "\<not> over (procs s ! i)" by (auto simp: list_all_length)
  then obtain s' where "moves s s'" using not_stuck interleaved_orderly [OF assms] by fastforce
  moreover from this have "interleaved l \<lparr>shared = w, procs = []\<rparr> s'" using run_advance [OF assms] by (auto simp: moves_def)
  ultimately show "\<exists>s'. moves s s' \<and> interleaved l \<lparr>shared = w, procs = []\<rparr> s'" by blast
qed

text \<open>Two captures of the same hold.\<close>

definition capture_race :: system where
  "capture_race = \<lparr>shared = hold_world, procs = map started (replicate 2
     (publishing (captureT sample_env ''main'' ''id0'' (Some 10) ''bob'' [] None 0)))\<rparr>"

theorem interleaving_finishes_witness:
  "\<exists>s'. moves capture_race s' \<and> interleaved ''main'' \<lparr>shared = hold_world, procs = []\<rparr> s'"
proof -
  let ?t = "publishing (captureT sample_env ''main'' ''id0'' (Some 10) ''bob'' [] None 0)"
  have "interleaved ''main'' \<lparr>shared = hold_world, procs = []\<rparr> \<lparr>shared = hold_world, procs = [started ?t, started ?t]\<rparr>"
    using run_begin [OF run_begin [OF run_start t_capture] t_capture,
      of "''main''" "\<lparr>shared = hold_world, procs = []\<rparr>" sample_env "''id0''" "Some 10" "''bob''" "[]" None 0
         sample_env "''id0''" "Some 10" "''bob''" "[]" None 0] by simp
  moreover have "\<not> list_all over [started ?t, started ?t]"
    by (simp add: over_iff started_def captureT_def GetHoldT_def)
  ultimately show ?thesis
    using interleaving_finishes [of "''main''" hold_world capture_race] by (simp add: capture_race_def numeral_2_eq_2)
qed

text \<open>C6. The balance check of a post does not protect against other posts. Take any number of posts that are
  each, taken alone, covered by the balances of a committed state, with a working database and identifiers that
  are new. They can run at the same time so that all of them are committed, each debiting
  what the same balance covered: an account can be overdrawn by any number of times the amount it has.\<close>

theorem posts_race:
  assumes "calm E" and "inj (ulid E)" and "fresh_ids E w" and "batch_stored (lr_ID lr) w"
    and "feature lr featureSchemaEnforcement \<notin> {SchemaStrict, SchemaBestEffort}"
    and "list_all (\<lambda>ps. validatePostings ps = None \<and> distinct (concat (map ends ps)) \<and>
      list_all (covered lr (netInputs ps) (pg w)) (netOutputs ps)) pss"
  shows "\<exists>s. interleaved (lr_ID lr) \<lparr>shared = w, procs = []\<rparr> s \<and> length (procs s) = length pss \<and> list_all finished (procs s) \<and>
    (\<forall>a x. posted (lr_ID lr) a x (pg (shared s)) = posted (lr_ID lr) a x (pg w) + (\<Sum>ps\<leftarrow>pss. inflow ps a x - outflow ps a x))"
proof -
  have "batch_ready E (lr_ID lr) w" using assms(2-4) by (simp add: batch_ready_def fresh_ids_def)
  from post_race.all_pass_and_commit [OF assms(1) this, of pss] assms(3,5,6) all_add_posted
  show ?thesis by (fastforce simp: fresh_ids_def list_all_iff)
qed

theorem posts_race_witness:
  "posted ''main'' ''alice'' ''USD'' (pg funded_world) = 100 \<and>
   (\<exists>s. interleaved ''main'' \<lparr>shared = funded_world, procs = []\<rparr> s \<and> length (procs s) = 2 \<and> list_all finished (procs s) \<and>
     posted ''main'' ''alice'' ''USD'' (pg (shared s)) = - 60)"
proof -
  have "posted ''main'' ''alice'' ''USD'' (pg funded_world) = 100" by code_simp
  moreover have "(\<Sum>ps\<leftarrow>[spend ''bob'', spend ''carol'']. inflow ps ''alice'' ''USD'' - outflow ps ''alice'' ''USD'') = - 160"
    by code_simp
  ultimately show ?thesis
    using posts_race [OF sample_calm sample_inj fresh_funded _ _ sample_spends] sample_batch by auto
qed

text \<open>C17. The check against a second reversal does not protect against concurrent ones. Any number of
  reversals of a transaction that has not been reverted can run at the same time so that all of them are
  committed: the transaction is then reverted that many times, and its postings are undone that many times.\<close>

theorem reverts_race:
  assumes "calm E" and "inj (ulid E)" and "batch_stored l w"
    and "\<forall>n \<ge> n_ulid w. unused_child (ulid E n) (pg w) \<and> ulid E n \<notin> bt_BatchID ` set (log_batches w)"
    and "revertible l t force ps vt (pg w)" and "distinct (concat (map ends ps))"
  shows "\<exists>s. interleaved l \<lparr>shared = w, procs = []\<rparr> s \<and> length (procs s) = n \<and> list_all finished (procs s) \<and>
    length (filter (reverts l t) (transaction_relationships (pg (shared s)))) = n \<and>
    (\<forall>a x. posted l a x (pg (shared s)) = posted l a x (pg w) + int n * (inflow ps a x - outflow ps a x))"
proof -
  have effect: "length (filter (reverts l t) (transaction_relationships d')) = length us + length (filter (reverts l t) (transaction_relationships d)) \<and>
      posted l a x d' = posted l a x d + int (length us) * (inflow ps a x - outflow ps a x)"
    if "all_add (\<lambda>u. revert_adds l t ps) us d d'" for us :: "unit list" and d d' a x
    using that
  proof (induction us arbitrary: d)
    case (Cons u us)
    then obtain t1 e1 d1 where d1: "revert_adds l t ps t1 e1 d d1" "all_add (\<lambda>u. revert_adds l t ps) us d1 d'" by auto
    then have "posted l a x d1 = posted l a x d + (inflow ps a x - outflow ps a x)"
      by (auto simp: revert_adds_def booked_posted posting_deltas_bucket flow_nonzero)
    moreover have "length (filter (reverts l t) (transaction_relationships d1)) = Suc (length (filter (reverts l t) (transaction_relationships d)))"
      using d1(1) by (auto simp: revert_adds_def)
    ultimately show ?case using Cons.IH [OF d1(2)] by (simp add: distrib_right)
  qed simp
  have none: "filter (reverts l t) (transaction_relationships (pg w)) = []"
    using assms(5) by (auto simp: revertible_def list_ex_iff filter_empty_conv)
  have "batch_ready E l w" using assms(2-4) by (simp add: batch_ready_def)
  moreover have "\<forall>n \<ge> n_ulid w. unused_child (ulid E n) (pg w)" using assms(4) by blast
  moreover have "\<forall>u \<in> set (replicate n ()). revertible l t force ps vt (pg w) \<and> distinct (concat (map ends ps))"
    using assms(5,6) by blast
  ultimately obtain s where "interleaved l \<lparr>shared = w, procs = []\<rparr> s" "length (procs s) = length (replicate n ())"
    "list_all finished (procs s)" and adds: "all_add (\<lambda>u. revert_adds l t ps) (replicate n ()) (pg w) (pg (shared s))"
    using revert_race.all_pass_and_commit [OF assms(1), of l w "replicate n ()" t force ps vt] by blast
  then show ?thesis using effect [OF adds] by (intro exI [of _ s]) (simp add: none)
qed

theorem reverts_race_witness:
  "\<exists>s. interleaved ''main'' \<lparr>shared = funded_world, procs = []\<rparr> s \<and>
     length (filter (reverts ''main'' ''id0'') (transaction_relationships (pg (shared s)))) = 2 \<and>
     posted ''main'' ''alice'' ''USD'' (pg (shared s)) = - 100"
proof -
  let ?ps = "[transfer ''alice'' ''_world'' 100]" and ?row = "hd (transactions (pg funded_world))"
    and ?lrow = "hd (ledgers (pg funded_world))"
  have ids: "\<forall>n \<ge> n_ulid funded_world. unused_child (ulid sample_env n) (pg funded_world) \<and>
      ulid sample_env n \<notin> bt_BatchID ` set (log_batches funded_world)"
  proof -
    have "transaction_relationships (pg funded_world) = []" by code_simp
    then show ?thesis using fresh_funded by (simp add: fresh_ids_def unused_child_def)
  qed
  have "find_transaction ''main'' ''id0'' (pg funded_world) = Some ?row"
    "transaction_record ?row = Inr (projr (transaction_record ?row))" "tx_ValidTime (projr (transaction_record ?row)) = 1000"
    "reversePostings (tr_postings ?row) ''id0'' = Inr ?ps"
    "\<not> list_ex (reverts ''main'' ''id0'') (transaction_relationships (pg funded_world))"
    "find_ledger ''main'' (pg funded_world) = Some ?lrow" "ledger_record ?lrow = Inr sample_ledger"
    "list_all (reversible ''main'' sample_ledger (pg funded_world)) ?ps" by code_simp+
  then have "revertible ''main'' ''id0'' False ?ps 1000 (pg funded_world)" unfolding revertible_def by blast
  moreover have "distinct (concat (map ends ?ps))" "posted ''main'' ''alice'' ''USD'' (pg funded_world) = 100"
    "inflow ?ps ''alice'' ''USD'' = 0" "outflow ?ps ''alice'' ''USD'' = 100" by code_simp+
  ultimately show ?thesis
    using reverts_race [OF sample_calm sample_inj sample_batch(1) ids, of "''id0''" False ?ps 1000 2] by auto
qed

end
