(* ===== verification/Gateway.thy ===== *)
theory Gateway
  imports Api_Properties
begin

text \<open>
  The REST interface: the generated \<^verbatim>\<open>src/pkg/proto/ledger/v1/api.pb.gw.go\<close>, which
  \<open>newHTTPServer\<close> of \<^verbatim>\<open>src/cmd/server/main.go\<close> mounts at the root of the HTTP server and connects to the gRPC
  server on the same host. Each method has a function that makes its message from the body, the path and the
  query of an HTTP request and calls the method through a client
  (\<open>request_LedgerService_\<dots>_0\<close>), a pattern of paths, and a route.

  The run-time library of the gateway is not part of the repository and is the argument \<open>R\<close>: the choice
  of a route, the decoding of bodies and query parameters, the context made of the headers. What it
  documents of them is \<open>documented_runtime\<close>. The variant that calls the service in the same process
  (\<open>local_request_LedgerService_\<dots>_0\<close>) is not used by the program and not modelled.
\<close>

section \<open>Requests\<close>

text \<open>
  The path is given by its components, the form by what \<open>ParseForm\<close> makes of the query.
\<close>

record http_request =
  rq_Method :: string
  rq_Path :: "string list"
  rq_Header :: "(string \<times> string list) list"
  rq_Body :: bytes
  rq_Form :: "error + (string \<times> string list) list"

datatype message = Message request | ExportRequest string

datatype gateway_answer =
    ForwardResponseMessage reply
  | ForwardResponseStream "(LogEvent list \<times> error option) option"

type_synonym params = "(string \<times> string) list"
type_synonym outgoing = "(string \<times> string list) list"
type_synonym handler = "outgoing \<Rightarrow> http_request \<Rightarrow> params \<Rightarrow> gateway_answer prog"

record pattern =
  pt_ops :: "nat list"
  pt_pool :: "string list"
  pt_verb :: string

text \<open>The functions of the library that the generated code calls.\<close>

record runtime =
  rt_Route :: "(string \<times> pattern) list \<Rightarrow> http_request \<Rightarrow> error + nat \<times> params"
  rt_Decode :: "bytes \<Rightarrow> message \<Rightarrow> message \<times> error option"
  rt_String :: "string \<Rightarrow> error + string"
  rt_PopulateFieldFromPath :: "message \<Rightarrow> string \<Rightarrow> string \<Rightarrow> message \<times> error option"
  rt_PopulateQueryParameters :: "message \<Rightarrow> (string \<times> string list) list \<Rightarrow> string list \<Rightarrow> message \<times> error option"
  rt_AnnotateContext :: "http_request \<Rightarrow> string \<Rightarrow> string \<Rightarrow> error + outgoing"

text \<open>The client of the service: its unary methods, and the stream of an export.\<close>

record LedgerServiceClient =
  cl_unary :: "outgoing \<Rightarrow> request \<Rightarrow> reply prog"
  cl_Export :: "outgoing \<Rightarrow> string \<Rightarrow> (LogEvent list \<times> error option) option prog"

definition call :: "LedgerServiceClient \<Rightarrow> outgoing \<Rightarrow> message \<Rightarrow> gateway_answer prog" where
  "call client md m =
     (case m of
        Message req \<Rightarrow> andThen (cl_unary client md req) (\<lambda>msg. ok (ForwardResponseMessage msg))
      | ExportRequest l \<Rightarrow> andThen (cl_Export client md l) (\<lambda>stream. ok (ForwardResponseStream stream)))"

text \<open>An empty body leaves the message as it is.\<close>

definition decode_body :: "runtime \<Rightarrow> http_request \<Rightarrow> message \<Rightarrow> message prog" where
  "decode_body R req protoReq =
     (case rt_Decode R (rq_Body req) protoReq of
        (m, None) \<Rightarrow> ok m
      | (m, Some e) \<Rightarrow> if errors_is e EOF then ok m else fail (Status InvalidArgument e))"

definition path_param :: "runtime \<Rightarrow> params \<Rightarrow> string \<Rightarrow> string prog" where
  "path_param R pathParams name =
     (case map_of pathParams name of
        None \<Rightarrow> fail (invalid (''missing parameter '' @ name))
      | Some val \<Rightarrow>
          mapErr (\<lambda>e. Status InvalidArgument (wrapped (''type mismatch, parameter: '' @ name @ '', error: '') e))
            (ofSum (rt_String R val)))"

definition path_field :: "runtime \<Rightarrow> params \<Rightarrow> string \<Rightarrow> message \<Rightarrow> message prog" where
  "path_field R pathParams name protoReq =
     (case map_of pathParams name of
        None \<Rightarrow> fail (invalid (''missing parameter '' @ name))
      | Some val \<Rightarrow>
          (case rt_PopulateFieldFromPath R protoReq name val of
             (m, None) \<Rightarrow> ok m
           | (m, Some e) \<Rightarrow> fail (Status InvalidArgument (wrapped (''type mismatch, parameter: '' @ name @ '', error: '') e))))"

definition query_params :: "runtime \<Rightarrow> http_request \<Rightarrow> string list \<Rightarrow> message \<Rightarrow> message prog" where
  "query_params R req filt protoReq =
     (case rq_Form req of
        Inl e \<Rightarrow> fail (Status InvalidArgument e)
      | Inr form \<Rightarrow>
          (case rt_PopulateQueryParameters R protoReq form filt of
             (m, None) \<Rightarrow> ok m
           | (m, Some e) \<Rightarrow> fail (Status InvalidArgument e)))"

text \<open>Assignments to fields of a message that was decoded from a body.\<close>

fun set_LedgerId :: "string \<Rightarrow> message \<Rightarrow> message" where
  "set_LedgerId l (Message (InsertSchema_request _ b v)) = Message (InsertSchema_request l b v)"
| "set_LedgerId l (Message (SubmitForApproval_request r)) = Message (SubmitForApproval_request (r\<lparr>sfr_LedgerId := l\<rparr>))"
| "set_LedgerId l (Message (ApproveIntent_request _ i s)) = Message (ApproveIntent_request l i s)"
| "set_LedgerId l m = m"

fun set_IntentId :: "string \<Rightarrow> message \<Rightarrow> message" where
  "set_IntentId i (Message (ApproveIntent_request l _ s)) = Message (ApproveIntent_request l i s)"
| "set_IntentId i m = m"

abbreviation no_page :: ListParams where
  "no_page \<equiv> \<lparr>PageSize = 0, PageToken = []\<rparr>"

definition request_LedgerService_CreateLedger_0 :: "runtime \<Rightarrow> LedgerServiceClient \<Rightarrow> handler" where
  "request_LedgerService_CreateLedger_0 R client md req pathParams =
     andThen (decode_body R req (Message (CreateLedger_request \<lparr>clr_Id = [], clr_BucketId = [], clr_Metadata = None\<rparr>))) (\<lambda>protoReq.
     call client md protoReq)"

definition request_LedgerService_GetLedger_0 :: "runtime \<Rightarrow> LedgerServiceClient \<Rightarrow> handler" where
  "request_LedgerService_GetLedger_0 R client md req pathParams =
     andThen (path_param R pathParams ''id'') (\<lambda>id.
     call client md (Message (GetLedger_request id)))"

definition filter_LedgerService_ListLedgers_0 :: "string list" where
  "filter_LedgerService_ListLedgers_0 = []"

definition request_LedgerService_ListLedgers_0 :: "runtime \<Rightarrow> LedgerServiceClient \<Rightarrow> handler" where
  "request_LedgerService_ListLedgers_0 R client md req pathParams =
     andThen (query_params R req filter_LedgerService_ListLedgers_0 (Message (ListLedgers_request no_page))) (\<lambda>protoReq.
     call client md protoReq)"

definition request_LedgerService_SealLedger_0 :: "runtime \<Rightarrow> LedgerServiceClient \<Rightarrow> handler" where
  "request_LedgerService_SealLedger_0 R client md req pathParams =
     andThen (path_param R pathParams ''id'') (\<lambda>id.
     call client md (Message (SealLedger_request id)))"

definition request_LedgerService_Submit_0 :: "runtime \<Rightarrow> LedgerServiceClient \<Rightarrow> handler" where
  "request_LedgerService_Submit_0 R client md req pathParams =
     andThen (decode_body R req (Message (Submit_request None))) (\<lambda>protoReq.
     andThen (path_field R pathParams ''intent.ledger_id'' protoReq) (\<lambda>protoReq.
     call client md protoReq))"

definition filter_LedgerService_GetTransaction_0 :: "string list" where
  "filter_LedgerService_GetTransaction_0 = [''ledger_id'', ''transaction_id'']"

definition request_LedgerService_GetTransaction_0 :: "runtime \<Rightarrow> LedgerServiceClient \<Rightarrow> handler" where
  "request_LedgerService_GetTransaction_0 R client md req pathParams =
     andThen (path_param R pathParams ''ledger_id'') (\<lambda>ledgerID.
     andThen (path_param R pathParams ''transaction_id'') (\<lambda>transactionID.
     andThen (query_params R req filter_LedgerService_GetTransaction_0 (Message (GetTransaction_request ledgerID transactionID))) (\<lambda>protoReq.
     call client md protoReq)))"

definition filter_LedgerService_ListTransactions_0 :: "string list" where
  "filter_LedgerService_ListTransactions_0 = [''ledger_id'']"

definition request_LedgerService_ListTransactions_0 :: "runtime \<Rightarrow> LedgerServiceClient \<Rightarrow> handler" where
  "request_LedgerService_ListTransactions_0 R client md req pathParams =
     andThen (path_param R pathParams ''ledger_id'') (\<lambda>ledgerID.
     andThen (query_params R req filter_LedgerService_ListTransactions_0 (Message (ListTransactions_request ledgerID no_page))) (\<lambda>protoReq.
     call client md protoReq))"

definition filter_LedgerService_GetAccount_0 :: "string list" where
  "filter_LedgerService_GetAccount_0 = [''ledger_id'', ''address'']"

definition request_LedgerService_GetAccount_0 :: "runtime \<Rightarrow> LedgerServiceClient \<Rightarrow> handler" where
  "request_LedgerService_GetAccount_0 R client md req pathParams =
     andThen (path_param R pathParams ''ledger_id'') (\<lambda>ledgerID.
     andThen (path_param R pathParams ''address'') (\<lambda>address.
     andThen (query_params R req filter_LedgerService_GetAccount_0 (Message (GetAccount_request ledgerID address))) (\<lambda>protoReq.
     call client md protoReq)))"

definition filter_LedgerService_ListAccounts_0 :: "string list" where
  "filter_LedgerService_ListAccounts_0 = [''ledger_id'']"

definition request_LedgerService_ListAccounts_0 :: "runtime \<Rightarrow> LedgerServiceClient \<Rightarrow> handler" where
  "request_LedgerService_ListAccounts_0 R client md req pathParams =
     andThen (path_param R pathParams ''ledger_id'') (\<lambda>ledgerID.
     andThen (query_params R req filter_LedgerService_ListAccounts_0 (Message (ListAccounts_request ledgerID no_page))) (\<lambda>protoReq.
     call client md protoReq))"

definition filter_LedgerService_GetBalance_0 :: "string list" where
  "filter_LedgerService_GetBalance_0 = [''ledger_id'', ''account'']"

definition request_LedgerService_GetBalance_0 :: "runtime \<Rightarrow> LedgerServiceClient \<Rightarrow> handler" where
  "request_LedgerService_GetBalance_0 R client md req pathParams =
     andThen (path_param R pathParams ''ledger_id'') (\<lambda>ledgerID.
     andThen (path_param R pathParams ''account'') (\<lambda>account.
     andThen (query_params R req filter_LedgerService_GetBalance_0 (Message (GetBalance_request \<lparr>gbq_LedgerId = ledgerID, gbq_Account = account, gbq_Asset = [],
       gbq_AsOfValid = None, gbq_AsOfSystem = None, gbq_IncludeHolds = False\<rparr>))) (\<lambda>protoReq.
     call client md protoReq)))"

definition filter_LedgerService_GetAggregatedBalances_0 :: "string list" where
  "filter_LedgerService_GetAggregatedBalances_0 = [''ledger_id'']"

definition request_LedgerService_GetAggregatedBalances_0 :: "runtime \<Rightarrow> LedgerServiceClient \<Rightarrow> handler" where
  "request_LedgerService_GetAggregatedBalances_0 R client md req pathParams =
     andThen (path_param R pathParams ''ledger_id'') (\<lambda>ledgerID.
     andThen (query_params R req filter_LedgerService_GetAggregatedBalances_0 (Message (GetAggregatedBalances_request ledgerID [] None None))) (\<lambda>protoReq.
     call client md protoReq))"

definition request_LedgerService_GetHold_0 :: "runtime \<Rightarrow> LedgerServiceClient \<Rightarrow> handler" where
  "request_LedgerService_GetHold_0 R client md req pathParams =
     andThen (path_param R pathParams ''ledger_id'') (\<lambda>ledgerID.
     andThen (path_param R pathParams ''hold_id'') (\<lambda>holdID.
     call client md (Message (GetHold_request ledgerID holdID))))"

definition filter_LedgerService_ListHolds_0 :: "string list" where
  "filter_LedgerService_ListHolds_0 = [''ledger_id'']"

definition request_LedgerService_ListHolds_0 :: "runtime \<Rightarrow> LedgerServiceClient \<Rightarrow> handler" where
  "request_LedgerService_ListHolds_0 R client md req pathParams =
     andThen (path_param R pathParams ''ledger_id'') (\<lambda>ledgerID.
     andThen (query_params R req filter_LedgerService_ListHolds_0 (Message (ListHolds_request ledgerID no_page []))) (\<lambda>protoReq.
     call client md protoReq))"

definition filter_LedgerService_GetRelationships_0 :: "string list" where
  "filter_LedgerService_GetRelationships_0 = [''ledger_id'', ''transaction_id'']"

definition request_LedgerService_GetRelationships_0 :: "runtime \<Rightarrow> LedgerServiceClient \<Rightarrow> handler" where
  "request_LedgerService_GetRelationships_0 R client md req pathParams =
     andThen (path_param R pathParams ''ledger_id'') (\<lambda>ledgerID.
     andThen (path_param R pathParams ''transaction_id'') (\<lambda>transactionID.
     andThen (query_params R req filter_LedgerService_GetRelationships_0 (Message (GetRelationships_request ledgerID transactionID 0))) (\<lambda>protoReq.
     call client md protoReq)))"

definition filter_LedgerService_ListLogEvents_0 :: "string list" where
  "filter_LedgerService_ListLogEvents_0 = [''ledger_id'']"

definition request_LedgerService_ListLogEvents_0 :: "runtime \<Rightarrow> LedgerServiceClient \<Rightarrow> handler" where
  "request_LedgerService_ListLogEvents_0 R client md req pathParams =
     andThen (path_param R pathParams ''ledger_id'') (\<lambda>ledgerID.
     andThen (query_params R req filter_LedgerService_ListLogEvents_0 (Message (ListLogEvents_request ledgerID no_page))) (\<lambda>protoReq.
     call client md protoReq))"

definition request_LedgerService_GetLogEvent_0 :: "runtime \<Rightarrow> LedgerServiceClient \<Rightarrow> handler" where
  "request_LedgerService_GetLogEvent_0 R client md req pathParams =
     andThen (path_param R pathParams ''ledger_id'') (\<lambda>ledgerID.
     andThen (path_param R pathParams ''event_id'') (\<lambda>eventID.
     call client md (Message (GetLogEvent_request ledgerID eventID))))"

definition request_LedgerService_VerifyBatch_0 :: "runtime \<Rightarrow> LedgerServiceClient \<Rightarrow> handler" where
  "request_LedgerService_VerifyBatch_0 R client md req pathParams =
     andThen (path_param R pathParams ''ledger_id'') (\<lambda>ledgerID.
     andThen (path_param R pathParams ''batch_id'') (\<lambda>batchID.
     call client md (Message (VerifyBatch_request ledgerID batchID))))"

definition request_LedgerService_InsertSchema_0 :: "runtime \<Rightarrow> LedgerServiceClient \<Rightarrow> handler" where
  "request_LedgerService_InsertSchema_0 R client md req pathParams =
     andThen (decode_body R req (Message (InsertSchema_request [] [] []))) (\<lambda>protoReq.
     andThen (path_param R pathParams ''ledger_id'') (\<lambda>ledgerID.
     call client md (set_LedgerId ledgerID protoReq)))"

definition request_LedgerService_GetSchema_0 :: "runtime \<Rightarrow> LedgerServiceClient \<Rightarrow> handler" where
  "request_LedgerService_GetSchema_0 R client md req pathParams =
     andThen (path_param R pathParams ''ledger_id'') (\<lambda>ledgerID.
     andThen (path_param R pathParams ''version'') (\<lambda>version.
     call client md (Message (GetSchema_request ledgerID version))))"

definition request_LedgerService_SubmitForApproval_0 :: "runtime \<Rightarrow> LedgerServiceClient \<Rightarrow> handler" where
  "request_LedgerService_SubmitForApproval_0 R client md req pathParams =
     andThen (decode_body R req (Message (SubmitForApproval_request \<lparr>sfr_LedgerId = [], sfr_IntentPayload = [],
       sfr_RequiredApprovers = [], sfr_SubmittedBy = [], sfr_ExpiresInSeconds = 0\<rparr>))) (\<lambda>protoReq.
     andThen (path_param R pathParams ''ledger_id'') (\<lambda>ledgerID.
     call client md (set_LedgerId ledgerID protoReq)))"

definition request_LedgerService_ApproveIntent_0 :: "runtime \<Rightarrow> LedgerServiceClient \<Rightarrow> handler" where
  "request_LedgerService_ApproveIntent_0 R client md req pathParams =
     andThen (decode_body R req (Message (ApproveIntent_request [] [] []))) (\<lambda>protoReq.
     andThen (path_param R pathParams ''ledger_id'') (\<lambda>ledgerID.
     andThen (path_param R pathParams ''intent_id'') (\<lambda>intentID.
     call client md (set_IntentId intentID (set_LedgerId ledgerID protoReq)))))"

definition filter_LedgerService_ListPendingApprovals_0 :: "string list" where
  "filter_LedgerService_ListPendingApprovals_0 = [''ledger_id'']"

definition request_LedgerService_ListPendingApprovals_0 :: "runtime \<Rightarrow> LedgerServiceClient \<Rightarrow> handler" where
  "request_LedgerService_ListPendingApprovals_0 R client md req pathParams =
     andThen (path_param R pathParams ''ledger_id'') (\<lambda>ledgerID.
     andThen (query_params R req filter_LedgerService_ListPendingApprovals_0 (Message (ListPendingApprovals_request ledgerID no_page))) (\<lambda>protoReq.
     call client md protoReq))"

definition filter_LedgerService_Export_0 :: "string list" where
  "filter_LedgerService_Export_0 = [''ledger_id'']"

definition request_LedgerService_Export_0 :: "runtime \<Rightarrow> LedgerServiceClient \<Rightarrow> handler" where
  "request_LedgerService_Export_0 R client md req pathParams =
     andThen (path_param R pathParams ''ledger_id'') (\<lambda>ledgerID.
     andThen (query_params R req filter_LedgerService_Export_0 (ExportRequest ledgerID)) (\<lambda>protoReq.
     call client md protoReq))"

section \<open>Routes\<close>

text \<open>
  The numbers are the operations of a pattern: \<open>2, i\<close> a literal component, \<open>1, 0, 4, 1, 5, i\<close> a
  component that is captured, each with its place in the pool of strings.
\<close>

definition pattern_LedgerService_CreateLedger_0 :: pattern where
  "pattern_LedgerService_CreateLedger_0 = \<lparr>pt_ops = [2, 0, 2, 1], pt_pool = [''v1'', ''ledgers''], pt_verb = []\<rparr>"

definition pattern_LedgerService_GetLedger_0 :: pattern where
  "pattern_LedgerService_GetLedger_0 = \<lparr>pt_ops = [2, 0, 2, 1, 1, 0, 4, 1, 5, 2], pt_pool = [''v1'', ''ledgers'', ''id''], pt_verb = []\<rparr>"

definition pattern_LedgerService_ListLedgers_0 :: pattern where
  "pattern_LedgerService_ListLedgers_0 = \<lparr>pt_ops = [2, 0, 2, 1], pt_pool = [''v1'', ''ledgers''], pt_verb = []\<rparr>"

definition pattern_LedgerService_SealLedger_0 :: pattern where
  "pattern_LedgerService_SealLedger_0 = \<lparr>pt_ops = [2, 0, 2, 1, 1, 0, 4, 1, 5, 2, 2, 3], pt_pool = [''v1'', ''ledgers'', ''id'', ''seal''], pt_verb = []\<rparr>"

definition pattern_LedgerService_Submit_0 :: pattern where
  "pattern_LedgerService_Submit_0 = \<lparr>pt_ops = [2, 0, 2, 1, 1, 0, 4, 1, 5, 2, 2, 3], pt_pool = [''v1'', ''ledgers'', ''intent.ledger_id'', ''submit''], pt_verb = []\<rparr>"

definition pattern_LedgerService_GetTransaction_0 :: pattern where
  "pattern_LedgerService_GetTransaction_0 = \<lparr>pt_ops = [2, 0, 2, 1, 1, 0, 4, 1, 5, 2, 2, 3, 1, 0, 4, 1, 5, 4], pt_pool = [''v1'', ''ledgers'', ''ledger_id'', ''transactions'', ''transaction_id''], pt_verb = []\<rparr>"

definition pattern_LedgerService_ListTransactions_0 :: pattern where
  "pattern_LedgerService_ListTransactions_0 = \<lparr>pt_ops = [2, 0, 2, 1, 1, 0, 4, 1, 5, 2, 2, 3], pt_pool = [''v1'', ''ledgers'', ''ledger_id'', ''transactions''], pt_verb = []\<rparr>"

definition pattern_LedgerService_GetAccount_0 :: pattern where
  "pattern_LedgerService_GetAccount_0 = \<lparr>pt_ops = [2, 0, 2, 1, 1, 0, 4, 1, 5, 2, 2, 3, 1, 0, 4, 1, 5, 4], pt_pool = [''v1'', ''ledgers'', ''ledger_id'', ''accounts'', ''address''], pt_verb = []\<rparr>"

definition pattern_LedgerService_ListAccounts_0 :: pattern where
  "pattern_LedgerService_ListAccounts_0 = \<lparr>pt_ops = [2, 0, 2, 1, 1, 0, 4, 1, 5, 2, 2, 3], pt_pool = [''v1'', ''ledgers'', ''ledger_id'', ''accounts''], pt_verb = []\<rparr>"

definition pattern_LedgerService_GetBalance_0 :: pattern where
  "pattern_LedgerService_GetBalance_0 = \<lparr>pt_ops = [2, 0, 2, 1, 1, 0, 4, 1, 5, 2, 2, 3, 1, 0, 4, 1, 5, 4, 2, 5], pt_pool = [''v1'', ''ledgers'', ''ledger_id'', ''accounts'', ''account'', ''balance''], pt_verb = []\<rparr>"

definition pattern_LedgerService_GetAggregatedBalances_0 :: pattern where
  "pattern_LedgerService_GetAggregatedBalances_0 = \<lparr>pt_ops = [2, 0, 2, 1, 1, 0, 4, 1, 5, 2, 2, 3], pt_pool = [''v1'', ''ledgers'', ''ledger_id'', ''aggregated-balances''], pt_verb = []\<rparr>"

definition pattern_LedgerService_GetHold_0 :: pattern where
  "pattern_LedgerService_GetHold_0 = \<lparr>pt_ops = [2, 0, 2, 1, 1, 0, 4, 1, 5, 2, 2, 3, 1, 0, 4, 1, 5, 4], pt_pool = [''v1'', ''ledgers'', ''ledger_id'', ''holds'', ''hold_id''], pt_verb = []\<rparr>"

definition pattern_LedgerService_ListHolds_0 :: pattern where
  "pattern_LedgerService_ListHolds_0 = \<lparr>pt_ops = [2, 0, 2, 1, 1, 0, 4, 1, 5, 2, 2, 3], pt_pool = [''v1'', ''ledgers'', ''ledger_id'', ''holds''], pt_verb = []\<rparr>"

definition pattern_LedgerService_GetRelationships_0 :: pattern where
  "pattern_LedgerService_GetRelationships_0 = \<lparr>pt_ops = [2, 0, 2, 1, 1, 0, 4, 1, 5, 2, 2, 3, 1, 0, 4, 1, 5, 4, 2, 5], pt_pool = [''v1'', ''ledgers'', ''ledger_id'', ''transactions'', ''transaction_id'', ''relationships''], pt_verb = []\<rparr>"

definition pattern_LedgerService_ListLogEvents_0 :: pattern where
  "pattern_LedgerService_ListLogEvents_0 = \<lparr>pt_ops = [2, 0, 2, 1, 1, 0, 4, 1, 5, 2, 2, 3], pt_pool = [''v1'', ''ledgers'', ''ledger_id'', ''log''], pt_verb = []\<rparr>"

definition pattern_LedgerService_GetLogEvent_0 :: pattern where
  "pattern_LedgerService_GetLogEvent_0 = \<lparr>pt_ops = [2, 0, 2, 1, 1, 0, 4, 1, 5, 2, 2, 3, 1, 0, 4, 1, 5, 4], pt_pool = [''v1'', ''ledgers'', ''ledger_id'', ''log'', ''event_id''], pt_verb = []\<rparr>"

definition pattern_LedgerService_VerifyBatch_0 :: pattern where
  "pattern_LedgerService_VerifyBatch_0 = \<lparr>pt_ops = [2, 0, 2, 1, 1, 0, 4, 1, 5, 2, 2, 3, 1, 0, 4, 1, 5, 4, 2, 5], pt_pool = [''v1'', ''ledgers'', ''ledger_id'', ''batches'', ''batch_id'', ''verify''], pt_verb = []\<rparr>"

definition pattern_LedgerService_InsertSchema_0 :: pattern where
  "pattern_LedgerService_InsertSchema_0 = \<lparr>pt_ops = [2, 0, 2, 1, 1, 0, 4, 1, 5, 2, 2, 3], pt_pool = [''v1'', ''ledgers'', ''ledger_id'', ''schemas''], pt_verb = []\<rparr>"

definition pattern_LedgerService_GetSchema_0 :: pattern where
  "pattern_LedgerService_GetSchema_0 = \<lparr>pt_ops = [2, 0, 2, 1, 1, 0, 4, 1, 5, 2, 2, 3, 1, 0, 4, 1, 5, 4], pt_pool = [''v1'', ''ledgers'', ''ledger_id'', ''schemas'', ''version''], pt_verb = []\<rparr>"

definition pattern_LedgerService_SubmitForApproval_0 :: pattern where
  "pattern_LedgerService_SubmitForApproval_0 = \<lparr>pt_ops = [2, 0, 2, 1, 1, 0, 4, 1, 5, 2, 2, 3], pt_pool = [''v1'', ''ledgers'', ''ledger_id'', ''approvals''], pt_verb = []\<rparr>"

definition pattern_LedgerService_ApproveIntent_0 :: pattern where
  "pattern_LedgerService_ApproveIntent_0 = \<lparr>pt_ops = [2, 0, 2, 1, 1, 0, 4, 1, 5, 2, 2, 3, 1, 0, 4, 1, 5, 4, 2, 5], pt_pool = [''v1'', ''ledgers'', ''ledger_id'', ''approvals'', ''intent_id'', ''approve''], pt_verb = []\<rparr>"

definition pattern_LedgerService_ListPendingApprovals_0 :: pattern where
  "pattern_LedgerService_ListPendingApprovals_0 = \<lparr>pt_ops = [2, 0, 2, 1, 1, 0, 4, 1, 5, 2, 2, 3], pt_pool = [''v1'', ''ledgers'', ''ledger_id'', ''approvals''], pt_verb = []\<rparr>"

definition pattern_LedgerService_Export_0 :: pattern where
  "pattern_LedgerService_Export_0 = \<lparr>pt_ops = [2, 0, 2, 1, 1, 0, 4, 1, 5, 2, 2, 3], pt_pool = [''v1'', ''ledgers'', ''ledger_id'', ''export''], pt_verb = []\<rparr>"

record route =
  ro_Method :: string
  ro_Pattern :: pattern
  ro_Handler :: "http_request \<Rightarrow> params \<Rightarrow> gateway_answer prog"

text \<open>An error, of the context or of the call, goes to \<open>runtime.HTTPError\<close>.\<close>

definition mux_Handle :: "runtime \<Rightarrow> string \<Rightarrow> pattern \<Rightarrow> string \<Rightarrow> string \<Rightarrow> handler \<Rightarrow> route" where
  "mux_Handle R method pat rpc path f = \<lparr>ro_Method = method, ro_Pattern = pat,
     ro_Handler = (\<lambda>req pathParams. andThen (ofSum (rt_AnnotateContext R req rpc path)) (\<lambda>md. f md req pathParams))\<rparr>"

definition handle_LedgerService_CreateLedger_0 :: "runtime \<Rightarrow> LedgerServiceClient \<Rightarrow> route" where
  "handle_LedgerService_CreateLedger_0 R client = mux_Handle R ''POST'' pattern_LedgerService_CreateLedger_0
     ''/ledger.v1.LedgerService/CreateLedger'' ''/v1/ledgers'' (request_LedgerService_CreateLedger_0 R client)"

definition handle_LedgerService_GetLedger_0 :: "runtime \<Rightarrow> LedgerServiceClient \<Rightarrow> route" where
  "handle_LedgerService_GetLedger_0 R client = mux_Handle R ''GET'' pattern_LedgerService_GetLedger_0
     ''/ledger.v1.LedgerService/GetLedger'' ''/v1/ledgers/{id}'' (request_LedgerService_GetLedger_0 R client)"

definition handle_LedgerService_ListLedgers_0 :: "runtime \<Rightarrow> LedgerServiceClient \<Rightarrow> route" where
  "handle_LedgerService_ListLedgers_0 R client = mux_Handle R ''GET'' pattern_LedgerService_ListLedgers_0
     ''/ledger.v1.LedgerService/ListLedgers'' ''/v1/ledgers'' (request_LedgerService_ListLedgers_0 R client)"

definition handle_LedgerService_SealLedger_0 :: "runtime \<Rightarrow> LedgerServiceClient \<Rightarrow> route" where
  "handle_LedgerService_SealLedger_0 R client = mux_Handle R ''POST'' pattern_LedgerService_SealLedger_0
     ''/ledger.v1.LedgerService/SealLedger'' ''/v1/ledgers/{id}/seal'' (request_LedgerService_SealLedger_0 R client)"

definition handle_LedgerService_Submit_0 :: "runtime \<Rightarrow> LedgerServiceClient \<Rightarrow> route" where
  "handle_LedgerService_Submit_0 R client = mux_Handle R ''POST'' pattern_LedgerService_Submit_0
     ''/ledger.v1.LedgerService/Submit'' ''/v1/ledgers/{intent.ledger_id}/submit'' (request_LedgerService_Submit_0 R client)"

definition handle_LedgerService_GetTransaction_0 :: "runtime \<Rightarrow> LedgerServiceClient \<Rightarrow> route" where
  "handle_LedgerService_GetTransaction_0 R client = mux_Handle R ''GET'' pattern_LedgerService_GetTransaction_0
     ''/ledger.v1.LedgerService/GetTransaction'' ''/v1/ledgers/{ledger_id}/transactions/{transaction_id}'' (request_LedgerService_GetTransaction_0 R client)"

definition handle_LedgerService_ListTransactions_0 :: "runtime \<Rightarrow> LedgerServiceClient \<Rightarrow> route" where
  "handle_LedgerService_ListTransactions_0 R client = mux_Handle R ''GET'' pattern_LedgerService_ListTransactions_0
     ''/ledger.v1.LedgerService/ListTransactions'' ''/v1/ledgers/{ledger_id}/transactions'' (request_LedgerService_ListTransactions_0 R client)"

definition handle_LedgerService_GetAccount_0 :: "runtime \<Rightarrow> LedgerServiceClient \<Rightarrow> route" where
  "handle_LedgerService_GetAccount_0 R client = mux_Handle R ''GET'' pattern_LedgerService_GetAccount_0
     ''/ledger.v1.LedgerService/GetAccount'' ''/v1/ledgers/{ledger_id}/accounts/{address}'' (request_LedgerService_GetAccount_0 R client)"

definition handle_LedgerService_ListAccounts_0 :: "runtime \<Rightarrow> LedgerServiceClient \<Rightarrow> route" where
  "handle_LedgerService_ListAccounts_0 R client = mux_Handle R ''GET'' pattern_LedgerService_ListAccounts_0
     ''/ledger.v1.LedgerService/ListAccounts'' ''/v1/ledgers/{ledger_id}/accounts'' (request_LedgerService_ListAccounts_0 R client)"

definition handle_LedgerService_GetBalance_0 :: "runtime \<Rightarrow> LedgerServiceClient \<Rightarrow> route" where
  "handle_LedgerService_GetBalance_0 R client = mux_Handle R ''GET'' pattern_LedgerService_GetBalance_0
     ''/ledger.v1.LedgerService/GetBalance'' ''/v1/ledgers/{ledger_id}/accounts/{account}/balance'' (request_LedgerService_GetBalance_0 R client)"

definition handle_LedgerService_GetAggregatedBalances_0 :: "runtime \<Rightarrow> LedgerServiceClient \<Rightarrow> route" where
  "handle_LedgerService_GetAggregatedBalances_0 R client = mux_Handle R ''GET'' pattern_LedgerService_GetAggregatedBalances_0
     ''/ledger.v1.LedgerService/GetAggregatedBalances'' ''/v1/ledgers/{ledger_id}/aggregated-balances'' (request_LedgerService_GetAggregatedBalances_0 R client)"

definition handle_LedgerService_GetHold_0 :: "runtime \<Rightarrow> LedgerServiceClient \<Rightarrow> route" where
  "handle_LedgerService_GetHold_0 R client = mux_Handle R ''GET'' pattern_LedgerService_GetHold_0
     ''/ledger.v1.LedgerService/GetHold'' ''/v1/ledgers/{ledger_id}/holds/{hold_id}'' (request_LedgerService_GetHold_0 R client)"

definition handle_LedgerService_ListHolds_0 :: "runtime \<Rightarrow> LedgerServiceClient \<Rightarrow> route" where
  "handle_LedgerService_ListHolds_0 R client = mux_Handle R ''GET'' pattern_LedgerService_ListHolds_0
     ''/ledger.v1.LedgerService/ListHolds'' ''/v1/ledgers/{ledger_id}/holds'' (request_LedgerService_ListHolds_0 R client)"

definition handle_LedgerService_GetRelationships_0 :: "runtime \<Rightarrow> LedgerServiceClient \<Rightarrow> route" where
  "handle_LedgerService_GetRelationships_0 R client = mux_Handle R ''GET'' pattern_LedgerService_GetRelationships_0
     ''/ledger.v1.LedgerService/GetRelationships'' ''/v1/ledgers/{ledger_id}/transactions/{transaction_id}/relationships'' (request_LedgerService_GetRelationships_0 R client)"

definition handle_LedgerService_ListLogEvents_0 :: "runtime \<Rightarrow> LedgerServiceClient \<Rightarrow> route" where
  "handle_LedgerService_ListLogEvents_0 R client = mux_Handle R ''GET'' pattern_LedgerService_ListLogEvents_0
     ''/ledger.v1.LedgerService/ListLogEvents'' ''/v1/ledgers/{ledger_id}/log'' (request_LedgerService_ListLogEvents_0 R client)"

definition handle_LedgerService_GetLogEvent_0 :: "runtime \<Rightarrow> LedgerServiceClient \<Rightarrow> route" where
  "handle_LedgerService_GetLogEvent_0 R client = mux_Handle R ''GET'' pattern_LedgerService_GetLogEvent_0
     ''/ledger.v1.LedgerService/GetLogEvent'' ''/v1/ledgers/{ledger_id}/log/{event_id}'' (request_LedgerService_GetLogEvent_0 R client)"

definition handle_LedgerService_VerifyBatch_0 :: "runtime \<Rightarrow> LedgerServiceClient \<Rightarrow> route" where
  "handle_LedgerService_VerifyBatch_0 R client = mux_Handle R ''POST'' pattern_LedgerService_VerifyBatch_0
     ''/ledger.v1.LedgerService/VerifyBatch'' ''/v1/ledgers/{ledger_id}/batches/{batch_id}/verify'' (request_LedgerService_VerifyBatch_0 R client)"

definition handle_LedgerService_InsertSchema_0 :: "runtime \<Rightarrow> LedgerServiceClient \<Rightarrow> route" where
  "handle_LedgerService_InsertSchema_0 R client = mux_Handle R ''POST'' pattern_LedgerService_InsertSchema_0
     ''/ledger.v1.LedgerService/InsertSchema'' ''/v1/ledgers/{ledger_id}/schemas'' (request_LedgerService_InsertSchema_0 R client)"

definition handle_LedgerService_GetSchema_0 :: "runtime \<Rightarrow> LedgerServiceClient \<Rightarrow> route" where
  "handle_LedgerService_GetSchema_0 R client = mux_Handle R ''GET'' pattern_LedgerService_GetSchema_0
     ''/ledger.v1.LedgerService/GetSchema'' ''/v1/ledgers/{ledger_id}/schemas/{version}'' (request_LedgerService_GetSchema_0 R client)"

definition handle_LedgerService_SubmitForApproval_0 :: "runtime \<Rightarrow> LedgerServiceClient \<Rightarrow> route" where
  "handle_LedgerService_SubmitForApproval_0 R client = mux_Handle R ''POST'' pattern_LedgerService_SubmitForApproval_0
     ''/ledger.v1.LedgerService/SubmitForApproval'' ''/v1/ledgers/{ledger_id}/approvals'' (request_LedgerService_SubmitForApproval_0 R client)"

definition handle_LedgerService_ApproveIntent_0 :: "runtime \<Rightarrow> LedgerServiceClient \<Rightarrow> route" where
  "handle_LedgerService_ApproveIntent_0 R client = mux_Handle R ''POST'' pattern_LedgerService_ApproveIntent_0
     ''/ledger.v1.LedgerService/ApproveIntent'' ''/v1/ledgers/{ledger_id}/approvals/{intent_id}/approve'' (request_LedgerService_ApproveIntent_0 R client)"

definition handle_LedgerService_ListPendingApprovals_0 :: "runtime \<Rightarrow> LedgerServiceClient \<Rightarrow> route" where
  "handle_LedgerService_ListPendingApprovals_0 R client = mux_Handle R ''GET'' pattern_LedgerService_ListPendingApprovals_0
     ''/ledger.v1.LedgerService/ListPendingApprovals'' ''/v1/ledgers/{ledger_id}/approvals'' (request_LedgerService_ListPendingApprovals_0 R client)"

definition handle_LedgerService_Export_0 :: "runtime \<Rightarrow> LedgerServiceClient \<Rightarrow> route" where
  "handle_LedgerService_Export_0 R client = mux_Handle R ''GET'' pattern_LedgerService_Export_0
     ''/ledger.v1.LedgerService/Export'' ''/v1/ledgers/{ledger_id}/export'' (request_LedgerService_Export_0 R client)"

definition RegisterLedgerServiceHandlerClient :: "runtime \<Rightarrow> LedgerServiceClient \<Rightarrow> route list" where
  "RegisterLedgerServiceHandlerClient R client =
     [handle_LedgerService_CreateLedger_0 R client,
      handle_LedgerService_GetLedger_0 R client,
      handle_LedgerService_ListLedgers_0 R client,
      handle_LedgerService_SealLedger_0 R client,
      handle_LedgerService_Submit_0 R client,
      handle_LedgerService_GetTransaction_0 R client,
      handle_LedgerService_ListTransactions_0 R client,
      handle_LedgerService_GetAccount_0 R client,
      handle_LedgerService_ListAccounts_0 R client,
      handle_LedgerService_GetBalance_0 R client,
      handle_LedgerService_GetAggregatedBalances_0 R client,
      handle_LedgerService_GetHold_0 R client,
      handle_LedgerService_ListHolds_0 R client,
      handle_LedgerService_GetRelationships_0 R client,
      handle_LedgerService_ListLogEvents_0 R client,
      handle_LedgerService_GetLogEvent_0 R client,
      handle_LedgerService_VerifyBatch_0 R client,
      handle_LedgerService_InsertSchema_0 R client,
      handle_LedgerService_GetSchema_0 R client,
      handle_LedgerService_SubmitForApproval_0 R client,
      handle_LedgerService_ApproveIntent_0 R client,
      handle_LedgerService_ListPendingApprovals_0 R client,
      handle_LedgerService_Export_0 R client]"
text \<open>The multiplexer of the library answers by itself when it finds no route.\<close>

definition ServeHTTP :: "runtime \<Rightarrow> route list \<Rightarrow> http_request \<Rightarrow> gateway_answer prog" where
  "ServeHTTP R routes req =
     (case rt_Route R (map (\<lambda>r. (ro_Method r, ro_Pattern r)) routes) req of
        Inl e \<Rightarrow> fail e
      | Inr (i, pathParams) \<Rightarrow> ro_Handler (routes ! i) req pathParams)"

text \<open>
  The server behind the gateway: the metadata sent arrive with the call, whose peer is this host.
\<close>

definition incoming :: "outgoing \<Rightarrow> Context" where
  "incoming md = \<lparr>cx_principal = None, cx_identity = None, cx_metadata = Some md, cx_peer = Some ''127.0.0.1''\<rparr>"

definition rest_server ::
  "runtime \<Rightarrow> (bytes \<Rightarrow> error + BatchIntent) \<Rightarrow> env \<Rightarrow> Authenticator option \<Rightarrow> Limiter option \<Rightarrow>
     (Context \<Rightarrow> string \<Rightarrow> (LogEvent list \<times> error option) option prog) \<Rightarrow> http_request \<Rightarrow> gateway_answer prog" where
  "rest_server R um E authn rl exports = ServeHTTP R (RegisterLedgerServiceHandlerClient R
     \<lparr>cl_unary = (\<lambda>md. serve um E authn rl (incoming md)), cl_Export = (\<lambda>md. exports (incoming md))\<rparr>)"

lemmas request_defs = request_LedgerService_CreateLedger_0_def
  request_LedgerService_GetLedger_0_def
  request_LedgerService_ListLedgers_0_def
  request_LedgerService_SealLedger_0_def
  request_LedgerService_Submit_0_def
  request_LedgerService_GetTransaction_0_def
  request_LedgerService_ListTransactions_0_def
  request_LedgerService_GetAccount_0_def
  request_LedgerService_ListAccounts_0_def
  request_LedgerService_GetBalance_0_def
  request_LedgerService_GetAggregatedBalances_0_def
  request_LedgerService_GetHold_0_def
  request_LedgerService_ListHolds_0_def
  request_LedgerService_GetRelationships_0_def
  request_LedgerService_ListLogEvents_0_def
  request_LedgerService_GetLogEvent_0_def
  request_LedgerService_VerifyBatch_0_def
  request_LedgerService_InsertSchema_0_def
  request_LedgerService_GetSchema_0_def
  request_LedgerService_SubmitForApproval_0_def
  request_LedgerService_ApproveIntent_0_def
  request_LedgerService_ListPendingApprovals_0_def
  request_LedgerService_Export_0_def

lemmas filter_defs = filter_LedgerService_ListLedgers_0_def
  filter_LedgerService_GetTransaction_0_def
  filter_LedgerService_ListTransactions_0_def
  filter_LedgerService_GetAccount_0_def
  filter_LedgerService_ListAccounts_0_def
  filter_LedgerService_GetBalance_0_def
  filter_LedgerService_GetAggregatedBalances_0_def
  filter_LedgerService_ListHolds_0_def
  filter_LedgerService_GetRelationships_0_def
  filter_LedgerService_ListLogEvents_0_def
  filter_LedgerService_ListPendingApprovals_0_def
  filter_LedgerService_Export_0_def

lemmas pattern_defs = pattern_LedgerService_CreateLedger_0_def
  pattern_LedgerService_GetLedger_0_def
  pattern_LedgerService_ListLedgers_0_def
  pattern_LedgerService_SealLedger_0_def
  pattern_LedgerService_Submit_0_def
  pattern_LedgerService_GetTransaction_0_def
  pattern_LedgerService_ListTransactions_0_def
  pattern_LedgerService_GetAccount_0_def
  pattern_LedgerService_ListAccounts_0_def
  pattern_LedgerService_GetBalance_0_def
  pattern_LedgerService_GetAggregatedBalances_0_def
  pattern_LedgerService_GetHold_0_def
  pattern_LedgerService_ListHolds_0_def
  pattern_LedgerService_GetRelationships_0_def
  pattern_LedgerService_ListLogEvents_0_def
  pattern_LedgerService_GetLogEvent_0_def
  pattern_LedgerService_VerifyBatch_0_def
  pattern_LedgerService_InsertSchema_0_def
  pattern_LedgerService_GetSchema_0_def
  pattern_LedgerService_SubmitForApproval_0_def
  pattern_LedgerService_ApproveIntent_0_def
  pattern_LedgerService_ListPendingApprovals_0_def
  pattern_LedgerService_Export_0_def

lemmas handle_defs = handle_LedgerService_CreateLedger_0_def
  handle_LedgerService_GetLedger_0_def
  handle_LedgerService_ListLedgers_0_def
  handle_LedgerService_SealLedger_0_def
  handle_LedgerService_Submit_0_def
  handle_LedgerService_GetTransaction_0_def
  handle_LedgerService_ListTransactions_0_def
  handle_LedgerService_GetAccount_0_def
  handle_LedgerService_ListAccounts_0_def
  handle_LedgerService_GetBalance_0_def
  handle_LedgerService_GetAggregatedBalances_0_def
  handle_LedgerService_GetHold_0_def
  handle_LedgerService_ListHolds_0_def
  handle_LedgerService_GetRelationships_0_def
  handle_LedgerService_ListLogEvents_0_def
  handle_LedgerService_GetLogEvent_0_def
  handle_LedgerService_VerifyBatch_0_def
  handle_LedgerService_InsertSchema_0_def
  handle_LedgerService_GetSchema_0_def
  handle_LedgerService_SubmitForApproval_0_def
  handle_LedgerService_ApproveIntent_0_def
  handle_LedgerService_ListPendingApprovals_0_def
  handle_LedgerService_Export_0_def
section \<open>Paths\<close>

text \<open>What a pattern stands for, and which paths it matches.\<close>

datatype segment = Literal string | Variable string

fun template :: "nat list \<Rightarrow> string list \<Rightarrow> segment list option" where
  "template [] pool = Some []"
| "template (op # x # ops) pool =
     (if op = 2 then map_option ((#) (Literal (pool ! x))) (template ops pool)
      else if op = 1 then
        (case ops of
           a # b # c # y # ops' \<Rightarrow>
             if a = 4 \<and> b = 1 \<and> c = 5 then map_option ((#) (Variable (pool ! y))) (template ops' pool) else None
         | _ \<Rightarrow> None)
      else None)"
| "template [op] pool = None"

fun match_segments :: "segment list \<Rightarrow> string list \<Rightarrow> params option" where
  "match_segments [] [] = Some []"
| "match_segments (Literal s # segs) (c # cs) = (if s = c then match_segments segs cs else None)"
| "match_segments (Variable n # segs) (c # cs) = map_option ((#) (n, c)) (match_segments segs cs)"
| "match_segments _ _ = None"

definition match_pattern :: "pattern \<Rightarrow> string list \<Rightarrow> params option" where
  "match_pattern p path = Option.bind (template (pt_ops p) (pt_pool p)) (\<lambda>segs. match_segments segs path)"

lemma match_segments_Some:
  "match_segments [] path = Some pp \<longleftrightarrow> path = [] \<and> pp = []"
  "match_segments (Literal s # segs) path = Some pp \<longleftrightarrow> (\<exists>cs. path = s # cs \<and> match_segments segs cs = Some pp)"
  "match_segments (Variable n # segs) path = Some pp \<longleftrightarrow>
     (\<exists>c cs qs. path = c # cs \<and> match_segments segs cs = Some qs \<and> pp = (n, c) # qs)"
  by (cases path; auto)+

text \<open>
  The path of a message as \<^verbatim>\<open>src/proto/ledger/v1/api.proto\<close> gives it in the annotation of its method.
\<close>

primrec request_path :: "request \<Rightarrow> string list" where
  "request_path (CreateLedger_request _) = [''v1'', ''ledgers'']"
| "request_path (GetLedger_request l) = [''v1'', ''ledgers'', l]"
| "request_path (ListLedgers_request _) = [''v1'', ''ledgers'']"
| "request_path (SealLedger_request l) = [''v1'', ''ledgers'', l, ''seal'']"
| "request_path (Submit_request intent) =
     (case intent of None \<Rightarrow> [] | Some i \<Rightarrow> [''v1'', ''ledgers'', in_LedgerId i, ''submit''])"
| "request_path (GetTransaction_request l t) = [''v1'', ''ledgers'', l, ''transactions'', t]"
| "request_path (ListTransactions_request l _) = [''v1'', ''ledgers'', l, ''transactions'']"
| "request_path (GetAccount_request l a) = [''v1'', ''ledgers'', l, ''accounts'', a]"
| "request_path (ListAccounts_request l _) = [''v1'', ''ledgers'', l, ''accounts'']"
| "request_path (GetBalance_request r) = [''v1'', ''ledgers'', gbq_LedgerId r, ''accounts'', gbq_Account r, ''balance'']"
| "request_path (GetAggregatedBalances_request l _ _ _) = [''v1'', ''ledgers'', l, ''aggregated-balances'']"
| "request_path (GetHold_request l i) = [''v1'', ''ledgers'', l, ''holds'', i]"
| "request_path (ListHolds_request l _ _) = [''v1'', ''ledgers'', l, ''holds'']"
| "request_path (GetRelationships_request l t _) = [''v1'', ''ledgers'', l, ''transactions'', t, ''relationships'']"
| "request_path (ListLogEvents_request l _) = [''v1'', ''ledgers'', l, ''log'']"
| "request_path (GetLogEvent_request l e) = [''v1'', ''ledgers'', l, ''log'', e]"
| "request_path (VerifyBatch_request l b) = [''v1'', ''ledgers'', l, ''batches'', b, ''verify'']"
| "request_path (InsertSchema_request l _ _) = [''v1'', ''ledgers'', l, ''schemas'']"
| "request_path (GetSchema_request l v) = [''v1'', ''ledgers'', l, ''schemas'', v]"
| "request_path (SubmitForApproval_request r) = [''v1'', ''ledgers'', sfr_LedgerId r, ''approvals'']"
| "request_path (ApproveIntent_request l i _) = [''v1'', ''ledgers'', l, ''approvals'', i, ''approve'']"
| "request_path (ListPendingApprovals_request l _) = [''v1'', ''ledgers'', l, ''approvals'']"

primrec message_path :: "message \<Rightarrow> string list" where
  "message_path (Message req) = request_path req"
| "message_path (ExportRequest l) = [''v1'', ''ledgers'', l, ''export'']"

section \<open>The library\<close>

text \<open>The type of a message, and its text fields that a path can bind.\<close>

primrec message_type :: "message \<Rightarrow> string" where
  "message_type (Message req) = MethodName req"
| "message_type (ExportRequest _) = ''Export''"

fun text_field :: "string \<Rightarrow> message \<Rightarrow> string option" where
  "text_field n (Message (Submit_request (Some i))) = map_of [(''intent.ledger_id'', in_LedgerId i)] n"
| "text_field n (Message (GetTransaction_request l t)) = map_of [(''ledger_id'', l), (''transaction_id'', t)] n"
| "text_field n (Message (ListTransactions_request l _)) = map_of [(''ledger_id'', l)] n"
| "text_field n (Message (GetAccount_request l a)) = map_of [(''ledger_id'', l), (''address'', a)] n"
| "text_field n (Message (ListAccounts_request l _)) = map_of [(''ledger_id'', l)] n"
| "text_field n (Message (GetBalance_request r)) = map_of [(''ledger_id'', gbq_LedgerId r), (''account'', gbq_Account r)] n"
| "text_field n (Message (GetAggregatedBalances_request l _ _ _)) = map_of [(''ledger_id'', l)] n"
| "text_field n (Message (ListHolds_request l _ _)) = map_of [(''ledger_id'', l)] n"
| "text_field n (Message (GetRelationships_request l t _)) = map_of [(''ledger_id'', l), (''transaction_id'', t)] n"
| "text_field n (Message (ListLogEvents_request l _)) = map_of [(''ledger_id'', l)] n"
| "text_field n (Message (ListPendingApprovals_request l _)) = map_of [(''ledger_id'', l)] n"
| "text_field n (ExportRequest l) = map_of [(''ledger_id'', l)] n"
| "text_field n _ = None"

lemma text_field_intent [simp]: "text_field ''intent.ledger_id'' (Message (Submit_request i)) = map_option in_LedgerId i"
  by (cases i) simp_all

text \<open>
  What the library documents: a route is chosen whose pattern matches the path, and the values of its
  variables are passed on; decoding fills a message in and does not change its type; a
  field named by a path is set to its value; query parameters do not touch the fields of the filter; and the
  credentials sent along as \<open>authorization\<close> are values of the header \<open>Authorization\<close> or of its alias
  \<open>Grpc-Metadata-Authorization\<close>, in any order.
\<close>

definition credentials :: "http_request \<Rightarrow> string list" where
  "credentials req = concat (map snd (filter (\<lambda>h. fst h \<in> {''Authorization'', ''Grpc-Metadata-Authorization''}) (rq_Header req)))"

definition documented_runtime :: "runtime \<Rightarrow> bool" where
  "documented_runtime R \<longleftrightarrow>
     (\<forall>rs req i pp. rt_Route R rs req = Inr (i, pp) \<longrightarrow> i < length rs \<and> match_pattern (snd (rs ! i)) (rq_Path req) = Some pp) \<and>
     (\<forall>v. rt_String R v = Inr v) \<and>
     (\<forall>b m. message_type (fst (rt_Decode R b m)) = message_type m) \<and>
     (\<forall>m n v m'. rt_PopulateFieldFromPath R m n v = (m', None) \<longrightarrow> message_type m' = message_type m \<and> text_field n m' = Some v) \<and>
     (\<forall>m form filt m'. rt_PopulateQueryParameters R m form filt = (m', None) \<longrightarrow>
        message_type m' = message_type m \<and> (\<forall>n \<in> set filt. text_field n m' = text_field n m)) \<and>
     (\<forall>req rpc path md. rt_AnnotateContext R req rpc path = Inr md \<longrightarrow>
        (\<forall>vs. map_of md ''authorization'' = Some vs \<longrightarrow> set vs \<subseteq> set (credentials req)))"

section \<open>Requests and calls\<close>

text \<open>A request is answered with an error of the gateway, or by one call with a message that has the
  path of the request.\<close>

definition sends :: "LedgerServiceClient \<Rightarrow> outgoing \<Rightarrow> string list \<Rightarrow> gateway_answer prog \<Rightarrow> bool" where
  "sends client md path p \<longleftrightarrow> (\<exists>e. p = fail e) \<or> (\<exists>m. p = call client md m \<and> message_path m = path)"

lemma sends_fail [simp]: "sends client md path (fail e)"
  by (auto simp: sends_def)

lemma sends_call [simp]: "message_path m = path \<Longrightarrow> sends client md path (call client md m)"
  by (auto simp: sends_def)

lemma path_param_documented:
  "documented_runtime R \<Longrightarrow> path_param R pp n = (case map_of pp n of None \<Rightarrow> fail (invalid (''missing parameter '' @ n)) | Some v \<Rightarrow> ok v)"
  by (rule ext) (simp add: documented_runtime_def path_param_def mapErr_def ok_def split: option.split)

lemma sends_query:
  assumes "documented_runtime R"
    and "\<And>m'. message_type m' = message_type m \<Longrightarrow> \<forall>n \<in> set filt. text_field n m' = text_field n m \<Longrightarrow> message_path m' = path"
  shows "sends client md path (andThen (query_params R req filt m) (call client md))"
  using assms by (auto simp: query_params_def documented_runtime_def split: sum.split option.split prod.split)

lemma sends_decode:
  assumes "documented_runtime R"
    and "\<And>m'. message_type m' = message_type m \<Longrightarrow> sends client md path (k m')"
  shows "sends client md path (andThen (decode_body R req m) k)"
proof -
  obtain m' r where d: "rt_Decode R (rq_Body req) m = (m', r)" by (cases "rt_Decode R (rq_Body req) m")
  then have "message_type m' = message_type m"
    using assms(1) unfolding documented_runtime_def by (metis fst_conv)
  then show ?thesis using assms(2) by (auto simp: decode_body_def d split: option.split)
qed

lemma sends_field:
  assumes "documented_runtime R" "map_of pp n = Some v"
    and "\<And>m'. message_type m' = message_type m \<Longrightarrow> text_field n m' = Some v \<Longrightarrow> message_path m' = path"
  shows "sends client md path (andThen (path_field R pp n m) (call client md))"
  using assms by (auto simp: path_field_def documented_runtime_def split: option.split prod.split)

text \<open>Messages of a type.\<close>

lemma message_type_iff:
  "message_type m = ''Export'' \<longleftrightarrow> (\<exists>l. m = ExportRequest l)"
  "message_type m = ''Submit'' \<longleftrightarrow> (\<exists>i. m = Message (Submit_request i))"
  "message_type m = ''CreateLedger'' \<longleftrightarrow> (\<exists>r. m = Message (CreateLedger_request r))"
  "message_type m = ''ListLedgers'' \<longleftrightarrow> (\<exists>p. m = Message (ListLedgers_request p))"
  "message_type m = ''GetTransaction'' \<longleftrightarrow> (\<exists>l t. m = Message (GetTransaction_request l t))"
  "message_type m = ''ListTransactions'' \<longleftrightarrow> (\<exists>l p. m = Message (ListTransactions_request l p))"
  "message_type m = ''GetAccount'' \<longleftrightarrow> (\<exists>l a. m = Message (GetAccount_request l a))"
  "message_type m = ''ListAccounts'' \<longleftrightarrow> (\<exists>l p. m = Message (ListAccounts_request l p))"
  "message_type m = ''GetBalance'' \<longleftrightarrow> (\<exists>r. m = Message (GetBalance_request r))"
  "message_type m = ''GetAggregatedBalances'' \<longleftrightarrow> (\<exists>l a v s. m = Message (GetAggregatedBalances_request l a v s))"
  "message_type m = ''ListHolds'' \<longleftrightarrow> (\<exists>l p a. m = Message (ListHolds_request l p a))"
  "message_type m = ''GetRelationships'' \<longleftrightarrow> (\<exists>l t n. m = Message (GetRelationships_request l t n))"
  "message_type m = ''ListLogEvents'' \<longleftrightarrow> (\<exists>l p. m = Message (ListLogEvents_request l p))"
  "message_type m = ''InsertSchema'' \<longleftrightarrow> (\<exists>l b v. m = Message (InsertSchema_request l b v))"
  "message_type m = ''SubmitForApproval'' \<longleftrightarrow> (\<exists>r. m = Message (SubmitForApproval_request r))"
  "message_type m = ''ApproveIntent'' \<longleftrightarrow> (\<exists>l i s. m = Message (ApproveIntent_request l i s))"
  "message_type m = ''ListPendingApprovals'' \<longleftrightarrow> (\<exists>l p. m = Message (ListPendingApprovals_request l p))"
  by (cases m, rename_tac r, case_tac r, simp_all)+

lemma requests_send:
  assumes "documented_runtime R"
  shows
  "match_pattern pattern_LedgerService_CreateLedger_0 (rq_Path req) = Some pp \<Longrightarrow>
     sends client md (rq_Path req) (request_LedgerService_CreateLedger_0 R client md req pp)"
  "match_pattern pattern_LedgerService_GetLedger_0 (rq_Path req) = Some pp \<Longrightarrow>
     sends client md (rq_Path req) (request_LedgerService_GetLedger_0 R client md req pp)"
  "match_pattern pattern_LedgerService_ListLedgers_0 (rq_Path req) = Some pp \<Longrightarrow>
     sends client md (rq_Path req) (request_LedgerService_ListLedgers_0 R client md req pp)"
  "match_pattern pattern_LedgerService_SealLedger_0 (rq_Path req) = Some pp \<Longrightarrow>
     sends client md (rq_Path req) (request_LedgerService_SealLedger_0 R client md req pp)"
  "match_pattern pattern_LedgerService_Submit_0 (rq_Path req) = Some pp \<Longrightarrow>
     sends client md (rq_Path req) (request_LedgerService_Submit_0 R client md req pp)"
  "match_pattern pattern_LedgerService_GetTransaction_0 (rq_Path req) = Some pp \<Longrightarrow>
     sends client md (rq_Path req) (request_LedgerService_GetTransaction_0 R client md req pp)"
  "match_pattern pattern_LedgerService_ListTransactions_0 (rq_Path req) = Some pp \<Longrightarrow>
     sends client md (rq_Path req) (request_LedgerService_ListTransactions_0 R client md req pp)"
  "match_pattern pattern_LedgerService_GetAccount_0 (rq_Path req) = Some pp \<Longrightarrow>
     sends client md (rq_Path req) (request_LedgerService_GetAccount_0 R client md req pp)"
  "match_pattern pattern_LedgerService_ListAccounts_0 (rq_Path req) = Some pp \<Longrightarrow>
     sends client md (rq_Path req) (request_LedgerService_ListAccounts_0 R client md req pp)"
  "match_pattern pattern_LedgerService_GetBalance_0 (rq_Path req) = Some pp \<Longrightarrow>
     sends client md (rq_Path req) (request_LedgerService_GetBalance_0 R client md req pp)"
  "match_pattern pattern_LedgerService_GetAggregatedBalances_0 (rq_Path req) = Some pp \<Longrightarrow>
     sends client md (rq_Path req) (request_LedgerService_GetAggregatedBalances_0 R client md req pp)"
  "match_pattern pattern_LedgerService_GetHold_0 (rq_Path req) = Some pp \<Longrightarrow>
     sends client md (rq_Path req) (request_LedgerService_GetHold_0 R client md req pp)"
  "match_pattern pattern_LedgerService_ListHolds_0 (rq_Path req) = Some pp \<Longrightarrow>
     sends client md (rq_Path req) (request_LedgerService_ListHolds_0 R client md req pp)"
  "match_pattern pattern_LedgerService_GetRelationships_0 (rq_Path req) = Some pp \<Longrightarrow>
     sends client md (rq_Path req) (request_LedgerService_GetRelationships_0 R client md req pp)"
  "match_pattern pattern_LedgerService_ListLogEvents_0 (rq_Path req) = Some pp \<Longrightarrow>
     sends client md (rq_Path req) (request_LedgerService_ListLogEvents_0 R client md req pp)"
  "match_pattern pattern_LedgerService_GetLogEvent_0 (rq_Path req) = Some pp \<Longrightarrow>
     sends client md (rq_Path req) (request_LedgerService_GetLogEvent_0 R client md req pp)"
  "match_pattern pattern_LedgerService_VerifyBatch_0 (rq_Path req) = Some pp \<Longrightarrow>
     sends client md (rq_Path req) (request_LedgerService_VerifyBatch_0 R client md req pp)"
  "match_pattern pattern_LedgerService_InsertSchema_0 (rq_Path req) = Some pp \<Longrightarrow>
     sends client md (rq_Path req) (request_LedgerService_InsertSchema_0 R client md req pp)"
  "match_pattern pattern_LedgerService_GetSchema_0 (rq_Path req) = Some pp \<Longrightarrow>
     sends client md (rq_Path req) (request_LedgerService_GetSchema_0 R client md req pp)"
  "match_pattern pattern_LedgerService_SubmitForApproval_0 (rq_Path req) = Some pp \<Longrightarrow>
     sends client md (rq_Path req) (request_LedgerService_SubmitForApproval_0 R client md req pp)"
  "match_pattern pattern_LedgerService_ApproveIntent_0 (rq_Path req) = Some pp \<Longrightarrow>
     sends client md (rq_Path req) (request_LedgerService_ApproveIntent_0 R client md req pp)"
  "match_pattern pattern_LedgerService_ListPendingApprovals_0 (rq_Path req) = Some pp \<Longrightarrow>
     sends client md (rq_Path req) (request_LedgerService_ListPendingApprovals_0 R client md req pp)"
  "match_pattern pattern_LedgerService_Export_0 (rq_Path req) = Some pp \<Longrightarrow>
     sends client md (rq_Path req) (request_LedgerService_Export_0 R client md req pp)"
  by (auto simp: match_pattern_def pattern_defs match_segments_Some request_defs filter_defs
      path_param_documented [OF assms] message_type_iff intro!: sends_query [OF assms] sends_decode [OF assms] sends_field [OF assms])

definition routed :: "runtime \<Rightarrow> LedgerServiceClient \<Rightarrow> http_request \<Rightarrow> gateway_answer prog \<Rightarrow> bool" where
  "routed R client req p \<longleftrightarrow> (\<exists>e. p = fail e) \<or>
     (\<exists>rpc t md m. rt_AnnotateContext R req rpc t = Inr md \<and> p = call client md m \<and> message_path m = rq_Path req)"

lemma mux_Handle_routed:
  assumes "\<And>md. sends client md (rq_Path req) (f md req pp)"
  shows "routed R client req (ro_Handler (mux_Handle R me p rpc t f) req pp)"
  using assms
  by (cases "rt_AnnotateContext R req rpc t") (simp_all add: mux_Handle_def sends_def routed_def ofSum_cases, blast+)

lemma routes_routed:
  assumes "documented_runtime R"
  shows "list_all (\<lambda>r. match_pattern (ro_Pattern r) (rq_Path req) = Some pp \<longrightarrow> routed R client req (ro_Handler r req pp))
    (RegisterLedgerServiceHandlerClient R client)"
proof -
  have "ro_Pattern (mux_Handle R me p rpc t f) = p" for me p rpc t f by (simp add: mux_Handle_def)
  then show ?thesis
    unfolding RegisterLedgerServiceHandlerClient_def handle_defs
    by (simp add: mux_Handle_routed requests_send [OF assms])
qed

lemma ServeHTTP_routed:
  assumes "documented_runtime R"
  shows "routed R client req (ServeHTTP R (RegisterLedgerServiceHandlerClient R client) req)"
proof (cases "rt_Route R (map (\<lambda>r. (ro_Method r, ro_Pattern r)) (RegisterLedgerServiceHandlerClient R client)) req")
  case (Inr c)
  obtain i pp where c: "c = (i, pp)" by (cases c)
  have "i < length (RegisterLedgerServiceHandlerClient R client) \<and>
      match_pattern (ro_Pattern (RegisterLedgerServiceHandlerClient R client ! i)) (rq_Path req) = Some pp"
    using assms Inr unfolding c documented_runtime_def by fastforce
  then show ?thesis using Inr routes_routed [OF assms, of req pp client] by (simp add: ServeHTTP_def c list_all_length)
qed (auto simp: ServeHTTP_def routed_def)

text \<open>The routes do not overlap: a method and a path match at most one of them.\<close>

fun compatible :: "segment list \<Rightarrow> segment list \<Rightarrow> bool" where
  "compatible [] [] \<longleftrightarrow> True"
| "compatible (Literal s # xs) (Literal t # ys) \<longleftrightarrow> s = t \<and> compatible xs ys"
| "compatible (_ # xs) (_ # ys) \<longleftrightarrow> compatible xs ys"
| "compatible _ _ \<longleftrightarrow> False"

lemma match_length: "match_segments xs path = Some pp \<Longrightarrow> length xs = length path"
  by (induction xs path arbitrary: pp rule: match_segments.induct) (auto split: if_splits)

lemma match_compatible:
  assumes "match_segments xs path = Some pp" "match_segments ys path = Some qq"
  shows "compatible xs ys"
proof -
  have "length xs = length ys" using assms by (simp add: match_length)
  then show ?thesis using assms
  proof (induction xs ys arbitrary: path pp qq rule: list_induct2)
    case (Cons x xs y ys)
    then show ?case by (cases x; cases y) (auto simp: match_segments_Some)
  qed simp
qed

definition route_table :: "runtime \<Rightarrow> LedgerServiceClient \<Rightarrow> (string \<times> segment list option) list" where
  "route_table R client = map (\<lambda>r. (ro_Method r, template (pt_ops (ro_Pattern r)) (pt_pool (ro_Pattern r))))
     (RegisterLedgerServiceHandlerClient R client)"

lemma routes_disjoint:
  "sorted_wrt (\<lambda>(m, x) (m', y). m = m' \<longrightarrow> \<not> compatible (the x) (the y)) (route_table R client)"
  by (simp add: route_table_def RegisterLedgerServiceHandlerClient_def handle_defs mux_Handle_def pattern_defs)

lemma route_unique:
  assumes "i < j" "j < length (RegisterLedgerServiceHandlerClient R client)"
    and "ro_Method (RegisterLedgerServiceHandlerClient R client ! i) = ro_Method (RegisterLedgerServiceHandlerClient R client ! j)"
    and "match_pattern (ro_Pattern (RegisterLedgerServiceHandlerClient R client ! i)) path = Some pp"
  shows "match_pattern (ro_Pattern (RegisterLedgerServiceHandlerClient R client ! j)) path = None"
proof (rule ccontr)
  assume "match_pattern (ro_Pattern (RegisterLedgerServiceHandlerClient R client ! j)) path \<noteq> None"
  with assms(1,2,4) have "compatible (the (snd (route_table R client ! i))) (the (snd (route_table R client ! j)))"
    by (auto simp: match_pattern_def route_table_def bind_eq_Some_conv intro: match_compatible)
  then show False
    using sorted_wrt_nth_less [OF routes_disjoint, of i j R client] assms(1-3)
    by (simp add: route_table_def)
qed

section \<open>Isolation of tenants\<close>

text \<open>The context of a call that carries one credential.\<close>

definition presented :: "string \<Rightarrow> Context" where
  "presented v = incoming [(''authorization'', [v])]"

lemma documented_credentials:
  "documented_runtime R \<Longrightarrow> rt_AnnotateContext R req rpc t = Inr md \<Longrightarrow> map_of md ''authorization'' = Some vs \<Longrightarrow>
     set vs \<subseteq> set (credentials req)"
  unfolding documented_runtime_def by blast

lemma AuthenticateIdentity_presented:
  assumes "documented_runtime R" "rt_AnnotateContext R req rpc t = Inr md" "AuthenticateIdentity a (incoming md) = Inr i"
  shows "\<exists>v \<in> set (credentials req). AuthenticateIdentity a (presented v) = Inr i"
proof -
  from assms(3) obtain tok where "bearerToken (incoming md) = Inr tok"
    by (auto simp: AuthenticateIdentity_def split: sum.splits)
  then obtain v vs where v: "map_of md ''authorization'' = Some (v # vs)"
    by (auto simp: bearerToken_def incoming_def authorizationMetadataKey_def split: option.splits list.splits)
  then have "v \<in> set (credentials req)" using documented_credentials [OF assms(1,2) v] by simp
  moreover have "bearerToken (presented v) = bearerToken (incoming md)"
    using v by (simp add: bearerToken_def presented_def incoming_def authorizationMetadataKey_def)
  then have "AuthenticateIdentity a (presented v) = AuthenticateIdentity a (incoming md)" by (simp add: AuthenticateIdentity_def)
  ultimately show ?thesis using assms(3) by auto
qed

lemma path_ledger:
  "request_path m = ''v1'' # ''ledgers'' # l # rest \<Longrightarrow> \<forall>b. rest \<noteq> [''batches'', b, ''verify''] \<Longrightarrow>
     request_ledger m = Some l \<and> MethodName m \<noteq> ''VerifyBatch''"
  by (cases m) (auto split: option.splits)

text \<open>C22. Tenants are isolated over HTTP too: a request to the REST interface on a path of a ledger
  to which no credential of the request gives access, whether it came in the header
  \<open>Authorization\<close> or in \<open>Grpc-Metadata-Authorization\<close>, is answered with an error that is the same
  whatever the tables hold, and leaves the tables exactly as they are, whatever its body and its query
  say. Two paths of a ledger are left out: \<open>batches/b/verify\<close>, whose handler checks no ledger and which is
  open to every authenticated caller, and \<open>export\<close>, which is reserved for administrators instead. The
  gateway's library is assumed to work as documented.\<close>

theorem rest_isolation:
  assumes "documented_runtime R" and "rq_Path req = ''v1'' # ''ledgers'' # l # rest"
    and "rest \<noteq> [''export'']" and "\<forall>b. rest \<noteq> [''batches'', b, ''verify'']"
    and "\<forall>v \<in> set (credentials req). \<forall>i. AuthenticateIdentity a (presented v) = Inr i \<longrightarrow> \<not> CanAccessLedger i l"
  shows "\<exists>e. \<forall>d. \<exists>w'. rest_server R um E (Some (jwt_authenticator a)) rl exports req (w\<lparr>pg := d\<rparr>) = (Inl e, w') \<and> pg w' = d"
proof -
  let ?client = "\<lparr>cl_unary = (\<lambda>md. serve um E (Some (jwt_authenticator a)) rl (incoming md)), cl_Export = (\<lambda>md. exports (incoming md))\<rparr>"
  have "routed R ?client req (rest_server R um E (Some (jwt_authenticator a)) rl exports req)"
    unfolding rest_server_def by (rule ServeHTTP_routed [OF assms(1)])
  then consider e where "rest_server R um E (Some (jwt_authenticator a)) rl exports req = fail e"
    | rpc t md m where "rt_AnnotateContext R req rpc t = Inr md" "message_path m = rq_Path req"
        "rest_server R um E (Some (jwt_authenticator a)) rl exports req = call ?client md m"
    unfolding routed_def by blast
  then show ?thesis
  proof cases
    case 1
    then show ?thesis by (intro exI [of _ e]) simp
  next
    case 2
    then obtain r where m: "m = Message r" using assms(2,3) by (cases m) simp_all
    have "request_ledger r = Some l" "MethodName r \<noteq> ''VerifyBatch''"
      using path_ledger [of r l rest] 2(2) assms(2,4) by (simp_all add: m)
    moreover have "\<not> CanAccessLedger i l" if "AuthenticateIdentity a (incoming md) = Inr i" for i
      using assms(5) AuthenticateIdentity_presented [OF assms(1) 2(1) that] by blast
    ultimately obtain e where "\<forall>d. \<exists>w'. serve um E (Some (jwt_authenticator a)) rl (incoming md) r (w\<lparr>pg := d\<rparr>) = (Inl e, w') \<and> pg w' = d"
      using serve_denied [of r l a "incoming md" um E rl w] by blast
    then show ?thesis unfolding 2(3) m call_def by (intro exI [of _ e]) (simp, metis andThen_Inl)
  qed
qed

text \<open>A library that routes to the first match, ignores bodies and queries and forwards the credentials.\<close>

definition first_match :: "(string \<times> pattern) list \<Rightarrow> http_request \<Rightarrow> error + nat \<times> params" where
  "first_match rs req =
     (case find (\<lambda>i. fst (rs ! i) = rq_Method req \<and> match_pattern (snd (rs ! i)) (rq_Path req) \<noteq> None) [0..<length rs] of
        None \<Rightarrow> Inl (Status NotFound (Errorf ''Not Found''))
      | Some i \<Rightarrow> Inr (i, the (match_pattern (snd (rs ! i)) (rq_Path req))))"

fun set_intent_ledger :: "string \<Rightarrow> message \<Rightarrow> message \<times> error option" where
  "set_intent_ledger v (Message (Submit_request (Some (Intent _ vt k ref md op dry)))) =
     (Message (Submit_request (Some (Intent v vt k ref md op dry))), None)"
| "set_intent_ledger v m = (m, Some (Errorf ''no such field''))"

definition plain_runtime :: runtime where
  "plain_runtime = \<lparr>rt_Route = first_match, rt_Decode = (\<lambda>_ m. (m, None)), rt_String = Inr,
     rt_PopulateFieldFromPath = (\<lambda>m n v. if n = ''intent.ledger_id'' then set_intent_ledger v m else (m, Some (Errorf ''no such field''))),
     rt_PopulateQueryParameters = (\<lambda>m _ _. (m, None)),
     rt_AnnotateContext = (\<lambda>req _ _. Inr [(''authorization'', credentials req)])\<rparr>"

lemma documented_plain_runtime: "documented_runtime plain_runtime"
proof -
  have "message_type m' = message_type m \<and> text_field ''intent.ledger_id'' m' = Some v"
    if "set_intent_ledger v m = (m', None)" for m m' v
    using that by (cases "(v, m)" rule: set_intent_ledger.cases) auto
  moreover have "i < length rs \<and> match_pattern (snd (rs ! i)) (rq_Path req) = Some pp"
    if "first_match rs req = Inr (i, pp)" for rs req i pp
    using that by (auto simp: first_match_def find_Some_iff split: option.splits)
  ultimately show ?thesis by (auto simp: documented_runtime_def plain_runtime_def split: option.split)
qed

definition sample_get :: "string \<Rightarrow> string list \<Rightarrow> http_request" where
  "sample_get who path = \<lparr>rq_Method = ''GET'', rq_Path = path, rq_Header = [(''Grpc-Metadata-Authorization'', [''Bearer '' @ who])],
     rq_Body = [], rq_Form = Inr []\<rparr>"

theorem rest_isolation_witness:
  "\<exists>w'. rest_server plain_runtime (\<lambda>_. Inl EOF) sample_env (Some (jwt_authenticator sample_authn)) None (\<lambda>_ _. ok None)
     (sample_get ''mallory'' [''v1'', ''ledgers'', ''main'', ''accounts'', ''alice'']) funded_world =
       (Inl (Status PermissionDenied (Errorf (''principal '' @ quoted ''mallory'' @ '' is not authorized for ledger '' @ quoted ''main''))), w') \<and>
     pg w' = pg funded_world"
proof -
  let ?req = "sample_get ''mallory'' [''v1'', ''ledgers'', ''main'', ''accounts'', ''alice'']"
  let ?run = "rest_server plain_runtime (\<lambda>_. Inl EOF) sample_env (Some (jwt_authenticator sample_authn)) None (\<lambda>_ _. ok None) ?req"
  have "list_all (\<lambda>v. case AuthenticateIdentity sample_authn (presented v) of Inr i \<Rightarrow> \<not> CanAccessLedger i ''main'' | Inl _ \<Rightarrow> True)
      (credentials ?req)" by code_simp
  then have deny: "\<forall>v \<in> set (credentials ?req). \<forall>i. AuthenticateIdentity sample_authn (presented v) = Inr i \<longrightarrow>
      \<not> CanAccessLedger i ''main''" by (force simp: list_all_iff)
  have "case fst (?run funded_world) of Inr _ \<Rightarrow> False | Inl e \<Rightarrow> e = Status PermissionDenied (Errorf
       (''principal '' @ quoted ''mallory'' @ '' is not authorized for ledger '' @ quoted ''main''))"
    by code_simp
  moreover have "\<exists>e. \<forall>d. \<exists>w'. ?run (funded_world\<lparr>pg := d\<rparr>) = (Inl e, w') \<and> pg w' = d"
    by (rule rest_isolation [where l = "''main''" and rest = "[''accounts'', ''alice'']"])
       (simp_all add: documented_plain_runtime sample_get_def deny [unfolded sample_get_def])
  then obtain e w' where "?run (funded_world\<lparr>pg := pg funded_world\<rparr>) = (Inl e, w')" "pg w' = pg funded_world" by blast
  ultimately show ?thesis by simp
qed

end
