(* ===== verification/Spec2Isabelle.thy ===== *)
theory Spec2Isabelle
  imports Submission_Properties Hold_Properties Reversal_Properties Approval_Properties Log_Properties Api_Properties Worker Bigamount Progress Cli Devtoken Concurrency_Properties Gateway
begin

text \<open>
  A verification development for the ledger under \<^verbatim>\<open>src/\<close>: a double-entry ledger server that
  records every change as an event of an append-only log and keeps accounts, holds, transactions,
  reversals, approvals and policies in PostgreSQL.

  \<^bold>\<open>The program and its parts.\<close> A call arrives at the gRPC server (\<^verbatim>\<open>src/cmd/server\<close>), passes the
  interceptors for authentication and rate limiting, and is handled by the service
  (\<^verbatim>\<open>src/internal/api/grpc\<close>), which checks access to the ledger and the active policy and calls the
  planner (\<^verbatim>\<open>src/internal/planner\<close>). The planner looks up the idempotency key, runs the operation in one
  database transaction through the store (\<^verbatim>\<open>src/internal/storage/postgres\<close>), appends one event with a
  number and a batch (\<^verbatim>\<open>src/internal/log\<close>), commits, fills the Redis cache and notifies the subscribers
  (\<^verbatim>\<open>src/internal/subscriptions\<close>). A worker (\<^verbatim>\<open>src/cmd/worker\<close>) closes batches, rolls up volumes and
  expires holds and approvals. Callers use the client library (\<^verbatim>\<open>src/pkg/sdk\<close>) or the command line
  (\<^verbatim>\<open>src/cmd/ledgerctl\<close>), which also migrates the database; all programs read one configuration
  (\<^verbatim>\<open>src/internal/config\<close>), and a development server (\<^verbatim>\<open>src/cmd/devtoken\<close>) mints tokens.

  \<^bold>\<open>State and effects.\<close> \<open>Storage\<close> has the tables as the record \<open>db\<close> and everything a process can
  see as the record \<open>world\<close>: the committed tables, the open transaction, the batches, the in-memory
  map of open batches, the cache, the published notifications, counters. What the surroundings decide is
  the record \<open>env\<close>: identifiers, clocks, the failure of every single SQL statement and Redis
  command, cancellation, SHA-256, JSON, regular expressions and number parsing of the Go
  library. A routine of the program is a function of type \<open>'a prog\<close>, from a world to an error or
  a value and the next world; the combinators are in \<open>Prelude\<close>. A statement run on the pool commits by
  itself; one run in the transaction works on a private copy of the tables, and a failure aborts it.

  \<^bold>\<open>Theories and sources.\<close>
  \<^item> \<open>Prelude\<close>, \<open>Go_Std\<close>, \<open>Regexp\<close>: the monad, the locale \<open>frame\<close> of what routines leave alone, errors
    (\<^verbatim>\<open>storage/errors.go\<close>), what is used of Go's library (strings, \<open>big.Int\<close>, JSON, regular expressions).
  \<^item> \<open>Accounts\<close>, \<open>Assets\<close>, \<open>Bigamount\<close>: \<^verbatim>\<open>pkg/accounts\<close>, \<^verbatim>\<open>pkg/assets\<close>, \<^verbatim>\<open>pkg/bigamount\<close>; \<open>Merkle\<close>, \<open>Policy\<close>,
    \<open>Chart\<close>: \<^verbatim>\<open>internal/log/merkle\<close>, \<^verbatim>\<open>internal/policy\<close>, \<^verbatim>\<open>internal/ir\<close>.
  \<^item> \<open>Storage\<close>, \<open>Store_Ledger\<close>, \<open>Store_Governance\<close>, \<open>Batch_Manager\<close>, \<open>Redis_Cache\<close>: the store with the
    constraints of the migrations, the batch manager, the cache. A statement is a function on the tables
    (names ending in \<open>_sql\<close>), the method of the store around it has the name of the source.
  \<^item> \<open>Planner_Base\<close>, \<open>Planner_Submit\<close>: checks, events, idempotency, retries, the submission skeleton;
    \<open>Planner_Post\<close>, \<open>Planner_Holds\<close>, \<open>Planner_Convert\<close>, \<open>Planner_Revert\<close>, \<open>Planner_Metadata\<close>, \<open>Planner_Policy\<close>,
    \<open>Planner_Batch\<close>, \<open>Planner_Approval\<close>: the operations, one theory per file of the planner; \<open>Accounting\<close>: the
    invariants of the tables.
  \<^item> \<open>Api_Auth\<close>, \<open>Rate_Limit\<close>, \<open>Api_Types\<close>, \<open>Api_Service\<close>, \<open>Api_Stream\<close>, \<open>Subscriptions\<close>, \<open>Api_Server\<close>: the
    interceptors, the messages and converters, the handlers (with the suffix \<open>_rpc\<close> where a store method
    has the name), export and import, subscriptions, and the server as a whole.
  \<^item> \<open>Gateway\<close>: the REST interface in front of the gRPC server, \<^verbatim>\<open>pkg/proto/ledger/v1/api.pb.gw.go\<close>: how each method's
    message is made of an HTTP request, the patterns of the paths and the routes.
  \<^item> \<open>Checkpoint\<close>, \<open>Worker\<close>: the roll-up of volumes and the tickers of the worker.
  \<^item> \<open>Config\<close>, \<open>Migrations\<close>, \<open>Program\<close>: settings and their validation, the migrations of the schema, and how
    server and worker are put together from a configuration (\<^verbatim>\<open>internal/config\<close>,
    \<^verbatim>\<open>internal/storage/postgres/postgres.go\<close>, \<^verbatim>\<open>cmd/server\<close>, \<^verbatim>\<open>cmd/worker\<close>).
  \<^item> \<open>Sdk\<close>, \<open>Cli\<close>, \<open>Devtoken\<close>: the client library (its methods with the suffix \<open>_sdk\<close>, those of the transaction
    builder with \<open>_tb\<close>), the command line, the token server.
  \<^item> \<open>Threads\<close>, \<open>Interleaving\<close>, \<open>Completion\<close>, \<open>Races\<close>, \<open>Concurrency_Properties\<close>: transactions that run at the same
    time. \<open>Threads\<close> has the transactions of \<^verbatim>\<open>operations_shared.go\<close>, \<^verbatim>\<open>expire.go\<close> and \<^verbatim>\<open>operations_schema.go\<close>
    statement by statement, with the row locks of \<open>NextLedgerSeq\<close> and \<open>GetHold\<close> (\<open>postT\<close> for \<open>doPostInTx\<close> and so on);
    \<open>Interleaving\<close> the system of processes and its invariant; \<open>Completion\<close> that they never block each other and end; \<open>Races\<close> schedules in which all of several
    transactions are committed.
  \<^item> \<open>Ledger_System\<close>: all of it as a transition system; a step is a complete call of an operation, an
    import or a sweep, in any environment. \<open>Sample\<close>: a concrete environment and states for the witnesses.

  \<^bold>\<open>What is shown.\<close> Each operation has a relation that says what a committed run does to the tables
  (\<open>post_effect\<close>, \<open>authorize_effect\<close> and so on) and a lemma that the routine refines it, proved with the
  locale \<open>frame\<close> and the lemmas on submissions, once for all operations: a run commits the effect, replays
  an earlier result, or changes nothing. From these the invariants follow for all reachable states
  (\<open>Ledger_System\<close>), and the properties of the theories \<open>Submission_Properties\<close>, \<open>Hold_Properties\<close>,
  \<open>Reversal_Properties\<close>, \<open>Approval_Properties\<close>, \<open>Log_Properties\<close>, \<open>Api_Properties\<close>, \<open>Worker\<close> and of this
  theory. These say what has happened when a call returns; \<open>Progress\<close> adds, with a weakest precondition for
  returning a value, that a post with nothing against it succeeds exactly if it is covered. \<open>Concurrency_Properties\<close> is about
  transactions interleaved statement by statement: each thread run without interruption is the operation it
  is named after (\<open>threads_are_operations\<close>), the books are kept in every interleaving and all transactions of single operations finish, but solvency and the
  check against a second reversal hold only for requests that do not overlap (\<open>posts_race\<close>, \<open>reverts_race\<close>). Shown are
  conservation of value, solvency, atomicity, idempotency, the life cycle of holds, reversals and approvals, tamper evidence of the log, isolation of tenants over gRPC and over HTTP (for the unary methods but \<open>VerifyBatch\<close>, which checks no ledger; with the lemma that routes do not overlap, \<open>route_unique\<close>), restoring a log from its export,
  delivery to subscribers, progress of the worker. \<open>Program\<close>, \<open>Config\<close>, \<open>Migrations\<close>, \<open>Sdk\<close>, \<open>Cli\<close> and \<open>Devtoken\<close>
  end with theirs: what an accepted configuration guarantees and where its settings come from, that
  interrupted migrations resume, that client and server agree on what is well formed, and that a minted
  token grants what was asked. Several state where the program falls short: an
  event left out of a long export, a subscription that cannot start, a transaction that touches
  an account twice, a conversion within one account or with slippage, an empty approver that counts as signed, an event that joins a batch after its close, migrations that are not applied again after
  a rollback, postings the command line cannot express.

  \<^bold>\<open>Bounds and fuel.\<close> Retry loops count down and are structurally recursive. Four loops have fuel
  and return no outcome without it: the sweep of expired holds needs one round more than there are active
  holds (\<open>ExpireHolds_terminates\<close>), the loop over export pages one more than there are rows
  (\<open>export_pages_ends\<close>), the replay of a subscription likewise; the client's loop over the pages of a list
  needs one round per page. Relationships are followed to a depth
  of at most 100, as the source does. Integers of the program that can overflow are kept at their width
  (\<open>int16\<close>, \<open>int64\<close>, \<open>uint64\<close>, words); amounts are unbounded as \<open>big.Int\<close> is.

  \<^bold>\<open>Modelling decisions.\<close> Times are microseconds. In \<open>Ledger_System\<close> requests run one after
  the other, and every statement can fail with any error, including deadlocks and violated
  constraints; the steps of a subscription interleave. \<open>Interleaving\<close> runs any number of transactions of one ledger at
  the same time, at the isolation level of \<open>pool.Begin\<close>, READ COMMITTED: a statement sees what is committed
  when it starts, a row lock is granted when nobody holds it and kept to the end of the transaction. The statements behind the
  lock on the ledger make one step, since all writers of a ledger take that lock; a retry is a new transaction.
  Batches (which lock the ledger before a hold and can deadlock with a capture), approvals, policies and the
  administration of ledgers are not interleaved, nor is an import; the mutex of the batch manager and the connection pool never make a transaction wait. A commit whose outcome is unknown counts as rolled back. Logging and tracing have no
  effect. The order of Go maps is an explicit list or an argument.

  Libraries that are not part of the repository are arguments: the JWT and key library, the settings library,
  the database driver's set-up, the connection of a client, the run-time library of the HTTP gateway. Where a property needs what such a library
  documents, it is a hypothesis (\<open>documented_viper\<close>, \<open>documented_jwt\<close>, \<open>documented_runtime\<close>).

  \<^bold>\<open>Not modelled.\<close> Process start and stop, listening, the encoding of messages
  (generated code and third-party libraries), the variant of the HTTP gateway that calls the service in the same process, which
  the program does not use, connection pools, key generation and signing, the layout of printed
  tables, observability, and the embedded OpenAPI document.
\<close>

section \<open>The tables of a ledger\<close>

text \<open>C1. In every state the system can reach from an empty database, by any sequence of complete
  operations and sweeps and whatever the database and Redis do: every event moves as much of
  each asset into accounts as out of them; the balances of every ledger add up to zero in
  every asset; the events of every ledger are numbered 1, 2, 3, ... without gap or repetition;
  no hold is captured beyond what was authorised, nor both voided and expired; and every volume
  row belongs to a logged event.\<close>

theorem ledger_invariant:
  "reachable w \<Longrightarrow> balanced (pg w) \<and> conserved (pg w) \<and> contiguous (pg w) \<and> holds_ok (pg w) \<and> sourced (pg w)"
  using sound_reachable by (simp add: sound_def)

theorem ledger_invariant_witness:
  "reachable hold_world \<and> balanced (pg hold_world) \<and> conserved (pg hold_world) \<and> contiguous (pg hold_world)
   \<and> holds_ok (pg hold_world) \<and> sourced (pg hold_world) \<and> length (log_events (pg hold_world)) = 2"
proof -
  have "length (log_events (pg hold_world)) = 2" by code_simp
  then show ?thesis using ledger_invariant [OF reachable_hold] reachable_hold by blast
qed

section \<open>Posting\<close>

text \<open>C3. A post that reports a result of its own has moved exactly the amounts of its postings: the
  balance of every account in every asset of the ledger has grown by what the postings bring
  in less what they take out, other ledgers and all holds are as they were, and the log has one
  more event, the one reported, numbered next.\<close>

theorem SubmitPost_moves_funds:
  assumes "SubmitPost E l ps ref md k validTime False w = (Inr x, w')" and "\<not> IdempotentHit x"
  shows "posted l a s (pg w') = posted l a s (pg w) + inflow ps a s - outflow ps a s \<and>
    (l' \<noteq> l \<longrightarrow> posted l' a s (pg w') = posted l' a s (pg w)) \<and> holds (pg w') = holds (pg w) \<and>
    (\<exists>ev. log_events (pg w') = log_events (pg w) @ [ev] \<and> ev_EventID ev = EventID x \<and> ev_LedgerID ev = l \<and>
       ev_LedgerSeq ev = next_seq l (pg w))"
proof -
  from SubmitPost_run [OF assms(1)] obtain lr h vt now where "open_ledger l (pg w) lr"
    and e: "post_effect lr ps k h vt now False (pg w) x (pg w')"
    using assms(2) by (auto simp: outcome_def)
  then have l: "lr_ID lr = l" by (simp add: open_ledger_id)
  have "\<exists>ev. log_events (pg w') = log_events (pg w) @ [ev] \<and> ev_EventID ev = EventID x \<and> ev_LedgerID ev = l \<and>
       ev_LedgerSeq ev = next_seq l (pg w)"
    using e l by (auto simp: post_effect_def booked_def Let_def)
  then show ?thesis using post_effect_posted [OF e] post_effect_holds [OF e] l by simp
qed

theorem SubmitPost_moves_funds_witness:
  "fresh (deposit ledger_world) \<and> posted ''main'' ''alice'' ''USD'' (pg funded_world) = 100"
proof -
  obtain x where x: "deposit ledger_world = (Inr x, funded_world)" "\<not> IdempotentHit x"
    using freshE [OF fresh_deposit] by (auto simp: funded_world_def)
  have "posted ''main'' ''alice'' ''USD'' (pg ledger_world) = 0" by code_simp
  then have "posted ''main'' ''alice'' ''USD'' (pg funded_world) = 100"
    using SubmitPost_moves_funds [OF x(1) [unfolded deposit_def] x(2), of "''alice''" "''USD''"]
    by (simp add: inflow_def outflow_def transfer_def amount_of_def)
  then show ?thesis using fresh_deposit by blast
qed

text \<open>C4. A post that runs by itself overdraws no one: if before it every account but the issuers had at least as much
  posted as is held on it, in every asset, this is still so afterwards, whatever the post
  returns.\<close>

theorem SubmitPost_solvent:
  assumes "SubmitPost E l ps ref md k validTime dry w = (r, w')"
    and "find_ledger l (pg w) = Some row" and "solvent l (lg_issuer_accounts row) (pg w)"
  shows "solvent l (lg_issuer_accounts row) (pg w')"
proof (rule outcome_invariant [where I = "solvent l (lg_issuer_accounts row)", OF SubmitPost_run [OF assms(1)] assms(3)])
  fix lr x
  assume "open_ledger l (pg w) lr" and "\<exists>h vt now. post_effect lr ps k h vt now dry (pg w) x (pg w')"
  then show "solvent l (lg_issuer_accounts row) (pg w')"
    using assms(2,3) post_effect_solvent ledger_record_simps(3) by (fastforce simp: open_ledger_def)
qed

lemma solvent_ledger_world: "find_ledger ''main'' (pg ledger_world) = Some (hd (ledgers (pg ledger_world)))"
    "solvent ''main'' (lg_issuer_accounts (hd (ledgers (pg ledger_world)))) (pg ledger_world)"
proof -
  show "find_ledger ''main'' (pg ledger_world) = Some (hd (ledgers (pg ledger_world)))" by code_simp
  have "volumes_delta (pg ledger_world) = []" "holds (pg ledger_world) = []" by code_simp+
  then show "solvent ''main'' (lg_issuer_accounts (hd (ledgers (pg ledger_world)))) (pg ledger_world)"
    by (simp add: solvent_def available_def posted_def total_input_def total_output_def held_def)
qed

theorem SubmitPost_solvent_witness:
  "solvent ''main'' (lg_issuer_accounts (hd (ledgers (pg ledger_world)))) (pg funded_world)
   \<and> available ''main'' ''_world'' ''USD'' (pg funded_world) = - 100"
proof
  show "solvent ''main'' (lg_issuer_accounts (hd (ledgers (pg ledger_world)))) (pg funded_world)"
    unfolding funded_world_def deposit_def
    by (rule SubmitPost_solvent [OF _ solvent_ledger_world]) (rule surjective_pairing)
  show "available ''main'' ''_world'' ''USD'' (pg funded_world) = - 100" by code_simp
qed

section \<open>All operations\<close>

text \<open>C8. Each of the nine operations that an intent submitted on its own can be (post, authorize,
  capture, void, revert, amend, convert, setting and deleting metadata) is atomic: one that reports an error has
  left the committed tables exactly as they were, however far it had come and whatever statement
  failed. A commit that fails counts as a rollback: one that took effect although its answer was lost is not in the
  model.\<close>

theorem executeIntent_atomic:
  "executeIntent E l intent w = (Inl e, w') \<Longrightarrow> pg w' = pg w"
  using executeIntent_run by (fastforce simp: outcome_def)

theorem executeIntent_atomic_witness:
  "\<exists>e w'. executeIntent sample_env ''main'' sample_intent ledger_world = (Inl e, w') \<and>
     errors_is e ErrInsufficientFunds \<and> pg w' = pg ledger_world"
proof -
  let ?run = "executeIntent sample_env ''main'' sample_intent ledger_world"
  have "case fst ?run of Inl e \<Rightarrow> errors_is e ErrInsufficientFunds | Inr _ \<Rightarrow> False" by code_simp
  then obtain e where e: "?run = (Inl e, snd ?run)" "errors_is e ErrInsufficientFunds"
    by (cases ?run) (auto split: sum.splits)
  then show ?thesis using executeIntent_atomic [OF e(1)] by blast
qed

end
